(* ===== verification/Rust_Float.thy ===== *)
theory Rust_Float
  imports Prelude
begin

text \<open>
  Rust's \<open>f64\<close> as its IEEE 754 bit pattern (a 64-bit word): the comparisons and the saturating
  cast to \<open>i64\<close> that the worker's own code performs. Arithmetic on floats happens in Polars
  only; the product it takes of a Unix time is in \<open>Float_Times\<close>.
\<close>

type_synonym f64 = "64 word"

definition f64_magnitude :: "f64 \<Rightarrow> nat" where
  "f64_magnitude x = unat x mod 2 ^ 63"

definition f64_negative :: "f64 \<Rightarrow> bool" where
  "f64_negative x \<longleftrightarrow> 2 ^ 63 \<le> unat x"

text \<open>The exponent is all ones and the fraction is not zero.\<close>

definition f64_is_nan :: "f64 \<Rightarrow> bool" where
  "f64_is_nan x \<longleftrightarrow> 2047 * 2 ^ 52 < f64_magnitude x"

text \<open>The magnitude bits are ordered like the absolute values, so a signed key orders the
  numbers and identifies the two zeros.\<close>

definition f64_key :: "f64 \<Rightarrow> int" where
  "f64_key x = (if f64_negative x then - int (f64_magnitude x) else int (f64_magnitude x))"

definition f64_lt :: "f64 \<Rightarrow> f64 \<Rightarrow> bool" where
  "f64_lt x y \<longleftrightarrow> \<not> f64_is_nan x \<and> \<not> f64_is_nan y \<and> f64_key x < f64_key y"

lemma f64_lt_irrefl [simp]: "\<not> f64_lt x x"
  by (simp add: f64_lt_def)

lemma f64_lt_trans: "f64_lt x y \<Longrightarrow> f64_lt y z \<Longrightarrow> f64_lt x z"
  by (auto simp: f64_lt_def)

lemma f64_lt_nan [simp]: "f64_is_nan x \<Longrightarrow> \<not> f64_lt x y" "f64_is_nan y \<Longrightarrow> \<not> f64_lt x y"
  by (simp_all add: f64_lt_def)

text \<open>The cast \<open>f as i64\<close>: truncation towards zero, saturating at the bounds, NaN to 0.
  Exponent field \<open>e\<close> and significand \<open>m\<close> denote \<open>m * 2 ^ (e - 1075)\<close>.\<close>

definition f64_exponent :: "f64 \<Rightarrow> nat" where
  "f64_exponent x = f64_magnitude x div 2 ^ 52"

definition f64_significand :: "f64 \<Rightarrow> nat" where
  "f64_significand x =
     (if f64_exponent x = 0 then f64_magnitude x mod 2 ^ 52
      else f64_magnitude x mod 2 ^ 52 + 2 ^ 52)"

definition f64_abs_trunc :: "f64 \<Rightarrow> nat" where
  "f64_abs_trunc x =
     (let e = max 1 (f64_exponent x); m = f64_significand x
      in if 1075 \<le> e then m * 2 ^ (e - 1075) else m div 2 ^ (1075 - e))"

definition f64_to_i64 :: "f64 \<Rightarrow> int" where
  "f64_to_i64 x =
     (if f64_is_nan x then 0
      else let v = (if f64_negative x then - int (f64_abs_trunc x) else int (f64_abs_trunc x))
           in max (- (2 ^ 63)) (min (2 ^ 63 - 1) v))"

lemma f64_to_i64_range: "- (2 ^ 63) \<le> f64_to_i64 x \<and> f64_to_i64 x \<le> 2 ^ 63 - 1"
  by (simp add: f64_to_i64_def Let_def)

end
