(* ===== verification/Ast.thy ===== *)
theory Ast
  imports Rust_Float
begin

text \<open>
  Models \<open>src/ast.rs\<close>: the mapping expression tree and the cast targets. \<open>i64\<close> fields are
  integers, \<open>f64\<close> literals are bit patterns. Two constructors are renamed because their names
  are HOL's own: \<open>NotNode\<close> is \<open>AstNode::Not\<close>, \<open>IfNode\<close> is \<open>AstNode::If\<close>.
\<close>

datatype CastType = CastInt64 | CastFloat64 | CastString | CastDate

datatype (plugins only: code size) AstNode =
    Col (col_name: string)
  | Str string
  | Num f64
  | Bool bool
  | Null
  | Add AstNode AstNode
  | Sub AstNode AstNode
  | Mul AstNode AstNode
  | Div AstNode AstNode
  | Concat string "AstNode list"
  | Upper AstNode
  | Lower AstNode
  | Trim AstNode
  | Substring AstNode int "int option"
  | Eq AstNode AstNode
  | Ne AstNode AstNode
  | Gt AstNode AstNode
  | Lt AstNode AstNode
  | Ge AstNode AstNode
  | Le AstNode AstNode
  | Contains AstNode AstNode
  | FromUnix AstNode "string option"
  | And AstNode AstNode
  | Or AstNode AstNode
  | NotNode AstNode
  | IfNode AstNode AstNode AstNode
  | Coalesce "AstNode list"
  | ParseDate AstNode string
  | DimRef string "string option" AstNode
  | Year AstNode
  | Month AstNode
  | Day AstNode
  | Cast AstNode CastType

end
