(* ===== verification/Rust_Text.thy ===== *)
theory Rust_Text
  imports Prelude
begin

text \<open>
  The text functions of the Rust standard library that the worker calls: decimal rendering and
  parsing of integers, \<open>lines\<close>, \<open>trim\<close> (Unicode white space, on UTF-8 bytes),
  \<open>str::from_utf8\<close> and \<open>String::from_utf8_lossy\<close>. The Unicode tables behind
  \<open>to_lowercase\<close> are not modelled; the definitions that fold case take the function as an
  argument.
\<close>

section \<open>Decimal integers\<close>

definition digit_char :: "nat \<Rightarrow> char" where
  "digit_char d = char_of (48 + d)"

fun show_nat :: "nat \<Rightarrow> string" where
  "show_nat n = (if n < 10 then [digit_char n]
                 else show_nat (n div 10) @ [digit_char (n mod 10)])"

declare show_nat.simps [simp del]

definition show_int :: "int \<Rightarrow> string" where
  "show_int i = (if i < 0 then CHR ''-'' # show_nat (nat (- i)) else show_nat (nat i))"

definition is_digit :: "char \<Rightarrow> bool" where
  "is_digit c \<longleftrightarrow> 48 \<le> (of_char c :: nat) \<and> (of_char c :: nat) \<le> 57"

definition digit_val :: "char \<Rightarrow> nat" where
  "digit_val c = of_char c - 48"

fun parse_digits :: "nat \<Rightarrow> string \<Rightarrow> nat option" where
  "parse_digits acc [] = Some acc"
| "parse_digits acc (c # cs) =
     (if is_digit c then parse_digits (10 * acc + digit_val c) cs else None)"

definition parse_nat :: "string \<Rightarrow> nat option" where
  "parse_nat s = (if s = [] then None else parse_digits 0 s)"

text \<open>\<open>parse::<u64>()\<close> and \<open>parse::<usize>()\<close>: one leading plus sign is accepted, a minus
  sign is not, a value past the width is an error.\<close>

definition u64_max :: nat where "u64_max = 2 ^ 64 - 1"
definition i64_max :: int where "i64_max = 2 ^ 63 - 1"
definition i64_min :: int where "i64_min = - (2 ^ 63)"

definition drop_plus :: "string \<Rightarrow> string" where
  "drop_plus s = (case s of [] \<Rightarrow> [] | c # cs \<Rightarrow> if c = CHR ''+'' then cs else s)"

definition parse_u64 :: "string \<Rightarrow> nat option" where
  "parse_u64 s = (case parse_nat (drop_plus s) of
     None \<Rightarrow> None | Some n \<Rightarrow> if n \<le> u64_max then Some n else None)"

definition parse_i64 :: "string \<Rightarrow> int option" where
  "parse_i64 s =
     (let neg = (s \<noteq> [] \<and> hd s = CHR ''-'');
          body = (if neg then tl s else drop_plus s)
      in case parse_nat body of
           None \<Rightarrow> None
         | Some n \<Rightarrow>
             let v = (if neg then - int n else int n)
             in if i64_min \<le> v \<and> v \<le> i64_max then Some v else None)"

lemma of_char_digit_char: "d < 10 \<Longrightarrow> of_char (digit_char d) = 48 + d"
  by (simp add: digit_char_def)

lemma digit_char_props [simp]:
  "d < 10 \<Longrightarrow> is_digit (digit_char d)"
  "d < 10 \<Longrightarrow> digit_val (digit_char d) = d"
  by (simp_all add: is_digit_def digit_val_def of_char_digit_char)

lemma parse_digits_append:
  "parse_digits acc (xs @ ys) =
     (case parse_digits acc xs of None \<Rightarrow> None | Some a \<Rightarrow> parse_digits a ys)"
  by (induction xs arbitrary: acc) auto

lemma parse_digits_Some: "parse_digits acc s = Some n \<Longrightarrow> \<forall>c \<in> set s. is_digit c"
  by (induction s arbitrary: acc) (auto split: if_splits)

lemma parse_digits_all: "\<forall>c \<in> set s. is_digit c \<Longrightarrow> \<exists>n. parse_digits acc s = Some n"
  by (induction s arbitrary: acc) auto

lemma show_nat_ne [simp]: "show_nat n \<noteq> []"
  by (subst show_nat.simps) simp

lemma show_nat_digits: "\<forall>c \<in> set (show_nat n). is_digit c"
proof (induction n rule: show_nat.induct)
  case (1 n)
  then show ?case by (subst show_nat.simps) auto
qed

lemma parse_digits_show_nat: "parse_digits 0 (show_nat n) = Some n"
proof (induction n rule: show_nat.induct)
  case (1 n)
  show ?case
  proof (cases "n < 10")
    case True
    then show ?thesis by (subst show_nat.simps) simp
  next
    case False
    then have "show_nat n = show_nat (n div 10) @ [digit_char (n mod 10)]"
      by (subst show_nat.simps) simp
    with "1" False show ?thesis by (simp add: parse_digits_append)
  qed
qed

lemma parse_show_nat [simp, str_simps]: "parse_nat (show_nat n) = Some n"
  by (simp add: parse_nat_def parse_digits_show_nat)

lemma show_nat_inj [simp]: "show_nat m = show_nat n \<longleftrightarrow> m = n"
  by (metis option.inject parse_show_nat)

lemma show_nat_no_char: "\<not> is_digit c \<Longrightarrow> c \<notin> set (show_nat n)"
  using show_nat_digits by blast

lemma show_int_inj [simp]: "show_int i = show_int j \<longleftrightarrow> i = j"
proof -
  have "show_nat m \<noteq> CHR ''-'' # s" "CHR ''-'' # s \<noteq> show_nat m" for m s
  proof -
    have "\<not> is_digit (CHR ''-'')" by (simp add: is_digit_def)
    with show_nat_digits [of m] show "show_nat m \<noteq> CHR ''-'' # s" "CHR ''-'' # s \<noteq> show_nat m"
      by (metis list.set_intros(1))+
  qed
  then show ?thesis by (auto simp: show_int_def)
qed

lemma show_int_no_char: "\<not> is_digit c \<Longrightarrow> c \<noteq> CHR ''-'' \<Longrightarrow> c \<notin> set (show_int i)"
  by (auto simp: show_int_def dest: show_nat_no_char)

lemma hd_show_nat: "is_digit (hd (show_nat n))"
  using show_nat_digits [of n] by (cases "show_nat n") auto

lemma drop_plus_show_nat [simp]: "drop_plus (show_nat n) = show_nat n"
proof -
  have "\<not> is_digit (CHR ''+'')" by (simp add: is_digit_def)
  with hd_show_nat [of n] show ?thesis by (auto simp: drop_plus_def split: list.splits)
qed

lemma parse_i64_show_int [simp, str_simps]:
  assumes "i64_min \<le> i" "i \<le> i64_max"
  shows "parse_i64 (show_int i) = Some i"
proof (cases "i < 0")
  case True
  then show ?thesis using assms by (simp add: parse_i64_def show_int_def)
next
  case False
  have "hd (show_nat (nat i)) \<noteq> CHR ''-''" using hd_show_nat [of "nat i"] by (auto simp: is_digit_def)
  with False assms show ?thesis by (auto simp: parse_i64_def show_int_def)
qed

lemma parse_u64_show_nat [str_simps]: "n \<le> u64_max \<Longrightarrow> parse_u64 (show_nat n) = Some n"
  by (simp add: parse_u64_def)

section \<open>Lines and white space\<close>

definition strip_cr :: "string \<Rightarrow> string" where
  "strip_cr s = (if s \<noteq> [] \<and> last s = CHR 0x0D then butlast s else s)"

text \<open>\<open>str::lines\<close>: split after every line feed; one carriage return before a line feed goes
  with it; what follows the last line feed is a line unless it is empty.\<close>

definition str_lines :: "string \<Rightarrow> string list" where
  "str_lines s =
     (let ps = split_on (CHR 0x0A) s
      in map strip_cr (butlast ps) @ (if last ps = [] then [] else [last ps]))"

text \<open>The characters of Unicode's \<open>White_Space\<close> property, as UTF-8.\<close>

definition unicode_ws :: "string list" where
  "unicode_ws =
     [[CHR 0x09], [CHR 0x0A], [CHR 0x0B], [CHR 0x0C], [CHR 0x0D], [CHR 0x20],
      [CHR 0xC2, CHR 0x85], [CHR 0xC2, CHR 0xA0], [CHR 0xE1, CHR 0x9A, CHR 0x80],
      [CHR 0xE2, CHR 0x80, CHR 0x80], [CHR 0xE2, CHR 0x80, CHR 0x81],
      [CHR 0xE2, CHR 0x80, CHR 0x82], [CHR 0xE2, CHR 0x80, CHR 0x83],
      [CHR 0xE2, CHR 0x80, CHR 0x84], [CHR 0xE2, CHR 0x80, CHR 0x85],
      [CHR 0xE2, CHR 0x80, CHR 0x86], [CHR 0xE2, CHR 0x80, CHR 0x87],
      [CHR 0xE2, CHR 0x80, CHR 0x88], [CHR 0xE2, CHR 0x80, CHR 0x89],
      [CHR 0xE2, CHR 0x80, CHR 0x8A], [CHR 0xE2, CHR 0x80, CHR 0xA8],
      [CHR 0xE2, CHR 0x80, CHR 0xA9], [CHR 0xE2, CHR 0x80, CHR 0xAF],
      [CHR 0xE2, CHR 0x81, CHR 0x9F], [CHR 0xE3, CHR 0x80, CHR 0x80]]"

definition leading_ws :: "string \<Rightarrow> nat" where
  "leading_ws s = (case List.find (\<lambda>t. prefix t s) unicode_ws of None \<Rightarrow> 0 | Some t \<Rightarrow> length t)"

definition trailing_ws :: "string \<Rightarrow> nat" where
  "trailing_ws s = (case List.find (\<lambda>t. suffix t s) unicode_ws of None \<Rightarrow> 0 | Some t \<Rightarrow> length t)"

lemma unicode_ws_ne: "t \<in> set unicode_ws \<Longrightarrow> t \<noteq> []"
  by (auto simp: unicode_ws_def)

lemma leading_ws_le: "leading_ws s \<le> length s"
  by (auto simp: leading_ws_def split: option.splits dest!: find_Some_mem dest: prefix_length_le)

lemma trailing_ws_le: "trailing_ws s \<le> length s"
  by (auto simp: trailing_ws_def split: option.splits dest!: find_Some_mem dest: suffix_length_le)

function trim_start :: "string \<Rightarrow> string" where
  "trim_start s = (if leading_ws s = 0 then s else trim_start (drop (leading_ws s) s))"
  by pat_completeness auto
termination
proof (relation "measure length")
  fix s :: string
  assume "leading_ws s \<noteq> 0"
  with leading_ws_le [of s] show "(drop (leading_ws s) s, s) \<in> measure length" by auto
qed simp

function trim_end :: "string \<Rightarrow> string" where
  "trim_end s =
     (if trailing_ws s = 0 then s else trim_end (take (length s - trailing_ws s) s))"
  by pat_completeness auto
termination
proof (relation "measure length")
  fix s :: string
  assume "trailing_ws s \<noteq> 0"
  with trailing_ws_le [of s]
  show "(take (length s - trailing_ws s) s, s) \<in> measure length" by auto
qed simp

declare trim_start.simps [simp del] trim_end.simps [simp del]

definition trim :: "string \<Rightarrow> string" where
  "trim s = trim_end (trim_start s)"

text \<open>\<open>trim_end_matches('\\r')\<close>.\<close>

definition trim_end_cr :: "string \<Rightarrow> string" where
  "trim_end_cr s = rev (dropWhile (\<lambda>c. c = CHR 0x0D) (rev s))"

lemma trim_end_cr_id: "s = [] \<or> last s \<noteq> CHR 0x0D \<Longrightarrow> trim_end_cr s = s"
  by (cases s rule: rev_cases) (auto simp: trim_end_cr_def)

section \<open>UTF-8\<close>

definition byte_at :: "string \<Rightarrow> nat \<Rightarrow> nat option" where
  "byte_at s i = (if i < length s then Some (of_char (s ! i)) else None)"

text \<open>
  One step of \<open>str::from_utf8\<close>: the width of the character at the front, or the error with its
  \<open>error_len\<close> (\<open>None\<close> when the input ends inside a character).
\<close>

datatype utf8_step = Width nat | Bad "nat option"

text \<open>The ranges the byte after a leading byte may have.\<close>

definition utf8_second :: "nat \<Rightarrow> nat \<times> nat" where
  "utf8_second b =
     (if b = 224 then (160, 191) else if b = 237 then (128, 159)
      else if b = 240 then (144, 191) else if b = 244 then (128, 143) else (128, 191))"

definition utf8_width :: "nat \<Rightarrow> nat" where
  "utf8_width b =
     (if b < 128 then 1 else if 194 \<le> b \<and> b \<le> 223 then 2
      else if 224 \<le> b \<and> b \<le> 239 then 3 else if 240 \<le> b \<and> b \<le> 244 then 4 else 0)"

function utf8_conts :: "string \<Rightarrow> nat \<Rightarrow> nat \<Rightarrow> utf8_step" where
  "utf8_conts s w i =
     (if w \<le> i then Width w
      else case byte_at s i of
             None \<Rightarrow> Bad None
           | Some b \<Rightarrow> if 128 \<le> b \<and> b \<le> 191 then utf8_conts s w (Suc i) else Bad (Some i))"
  by pat_completeness auto
termination
  by (relation "measure (\<lambda>(s, w, i). w - i)") auto

declare utf8_conts.simps [simp del]

definition utf8_next :: "string \<Rightarrow> utf8_step" where
  "utf8_next s =
     (case byte_at s 0 of
        None \<Rightarrow> Bad None
      | Some b0 \<Rightarrow>
          (let w = utf8_width b0
           in if w = 0 then Bad (Some 1)
              else if w = 1 then Width 1
              else case byte_at s 1 of
                     None \<Rightarrow> Bad None
                   | Some b1 \<Rightarrow>
                       if fst (utf8_second b0) \<le> b1 \<and> b1 \<le> snd (utf8_second b0)
                       then utf8_conts s w 2 else Bad (Some 1)))"

lemma utf8_conts_Width: "utf8_conts s w i = Width n \<Longrightarrow> n = w"
proof (induction s w i rule: utf8_conts.induct)
  case (1 s w i)
  then show ?case
    by (subst (asm) utf8_conts.simps) (auto split: if_splits option.splits)
qed

lemma utf8_conts_Bad: "utf8_conts s w i = Bad (Some n) \<Longrightarrow> i \<le> n"
proof (induction s w i rule: utf8_conts.induct)
  case (1 s w i)
  then show ?case
    by (subst (asm) (2) utf8_conts.simps) (fastforce split: if_splits option.splits)
qed

lemma utf8_next_pos:
  "utf8_next s = Width n \<Longrightarrow> 0 < n"
  "utf8_next s = Bad (Some m) \<Longrightarrow> 0 < m"
  by (auto simp: utf8_next_def Let_def split: option.splits if_splits
        dest: utf8_conts_Width utf8_conts_Bad)

text \<open>\<open>None\<close> when the bytes are valid UTF-8, else \<open>valid_up_to\<close> and \<open>error_len\<close>.\<close>

function utf8_check :: "nat \<Rightarrow> string \<Rightarrow> (nat \<times> nat option) option" where
  "utf8_check pos s =
     (if s = [] then None
      else case utf8_next s of
             Width n \<Rightarrow> utf8_check (pos + n) (drop n s)
           | Bad e \<Rightarrow> Some (pos, e))"
  by pat_completeness auto
termination
  by (relation "measure (\<lambda>(pos, s). length s)") (auto dest: utf8_next_pos)

function from_utf8_lossy :: "string \<Rightarrow> string" where
  "from_utf8_lossy s =
     (if s = [] then []
      else case utf8_next s of
             Width n \<Rightarrow> take n s @ from_utf8_lossy (drop n s)
           | Bad None \<Rightarrow> [CHR 0xEF, CHR 0xBF, CHR 0xBD]
           | Bad (Some n) \<Rightarrow> [CHR 0xEF, CHR 0xBF, CHR 0xBD] @ from_utf8_lossy (drop n s))"
  by pat_completeness auto
termination
  by (relation "measure length") (auto dest: utf8_next_pos)

declare utf8_check.simps [simp del] from_utf8_lossy.simps [simp del]

definition valid_utf8 :: "string \<Rightarrow> bool" where
  "valid_utf8 s \<longleftrightarrow> utf8_check 0 s = None"

text \<open>\<open>str::from_utf8\<close>, with the error rendered as \<open>Utf8Error\<close> displays it.\<close>

definition from_utf8 :: "string \<Rightarrow> string + string" where
  "from_utf8 s =
     (case utf8_check 0 s of
        None \<Rightarrow> Inr s
      | Some (pos, Some n) \<Rightarrow>
          Inl (''invalid utf-8 sequence of '' @ show_nat n @ '' bytes from index '' @ show_nat pos)
      | Some (pos, None) \<Rightarrow>
          Inl (''incomplete utf-8 byte sequence from index '' @ show_nat pos))"

lemma from_utf8_Inr: "from_utf8 s = Inr t \<longleftrightarrow> valid_utf8 s \<and> t = s"
  by (auto simp: from_utf8_def valid_utf8_def split: option.splits)

lemma utf8_check_lossy: "utf8_check pos s = None \<Longrightarrow> from_utf8_lossy s = s"
proof (induction pos s rule: utf8_check.induct)
  case (1 pos s)
  show ?case
  proof (cases "s = []")
    case True
    then show ?thesis by (simp add: from_utf8_lossy.simps)
  next
    case False
    with "1.prems" obtain n where n: "utf8_next s = Width n"
      and rest: "utf8_check (pos + n) (drop n s) = None"
      by (subst (asm) utf8_check.simps) (auto split: utf8_step.splits)
    with "1.IH" False have "from_utf8_lossy (drop n s) = drop n s" by blast
    with False n show ?thesis by (simp add: from_utf8_lossy.simps [of s])
  qed
qed

lemma from_utf8_lossy_valid [str_simps]: "valid_utf8 s \<Longrightarrow> from_utf8_lossy s = s"
  by (auto simp: valid_utf8_def dest: utf8_check_lossy)

lemma utf8_check_ascii:
  "\<forall>c \<in> set s. (of_char c :: nat) < 128 \<Longrightarrow> utf8_check pos s = None"
proof (induction s arbitrary: pos)
  case Nil
  show ?case by (simp add: utf8_check.simps)
next
  case (Cons c s)
  then have "utf8_next (c # s) = Width 1"
    by (simp add: utf8_next_def byte_at_def utf8_width_def)
  with Cons show ?case by (simp add: utf8_check.simps [of _ "c # s"])
qed

lemma valid_utf8_ascii: "\<forall>c \<in> set s. (of_char c :: nat) < 128 \<Longrightarrow> valid_utf8 s"
  by (simp add: valid_utf8_def utf8_check_ascii)

end
