(* ===== verification/Config_Types.thy ===== *)
theory Config_Types
  imports Ast Rust_Text
begin

text \<open>
  Models the data types of \<open>src/config.rs\<close> (lines 1 to 211): a pipeline configuration with its
  source containers, dimensions, mappings and analytic tables. Field names carry a prefix for
  their struct (\<open>sc\<close>, \<open>cs\<close>, \<open>d\<close>, \<open>ir\<close>, \<open>m\<close>, \<open>mc\<close>, \<open>t\<close>, \<open>cfg\<close>), because a record
  selector is a constant of the theory; \<open>type_\<close>, \<open>match_\<close> and \<open>where_\<close> lose their
  underscore.
\<close>

datatype SourceFormat = Csv | Ndjson

definition extensions :: "SourceFormat \<Rightarrow> string list" where
  "extensions f = (case f of Csv \<Rightarrow> [''.csv''] | Ndjson \<Rightarrow> [''.json'', ''.jsonl'', ''.ndjson''])"

record ColumnAssertions =
  ca_not_null :: "bool option"
  ca_min :: "f64 option"
  ca_max :: "f64 option"

record ColumnSchema =
  cs_name :: string
  cs_path :: "string option"
  cs_type :: string
  cs_nullable :: "bool option"
  cs_assertions :: "ColumnAssertions option"

record SourceContainer =
  sc_id :: string
  sc_name :: string
  sc_path_prefix :: string
  sc_format :: SourceFormat
  sc_schema :: "ColumnSchema list"
  sc_record_filter :: "AstNode option"

datatype MatchMode = Exact | KeywordSubstring

datatype OnMiss = OnMissNull | Passthrough | Literal string

record InlineDimensionRow =
  ir_patterns :: "string list"
  ir_values :: "string list"
  ir_priority :: int

text \<open>\<open>Inline values rows\<close> and \<open>File path_prefix key values priority_column\<close>.\<close>

datatype DimensionRows =
    Inline "string list" "InlineDimensionRow list"
  | File string string "string list" "string option"

record Dimension =
  d_id :: string
  d_name :: "string option"
  d_match :: MatchMode
  d_case_insensitive :: "bool option"
  d_on_miss :: OnMiss
  d_rows :: DimensionRows

definition value_columns :: "Dimension \<Rightarrow> string list" where
  "value_columns d = (case d_rows d of Inline values _ \<Rightarrow> values | File _ _ values _ \<Rightarrow> values)"

record MappingColumn =
  mc_name :: string
  mc_expr :: AstNode

record Mapping =
  m_id :: string
  m_name :: string
  m_source_container_id :: string
  m_analytic_table_id :: string
  m_columns :: "MappingColumn list"
  m_where :: "AstNode option"

record AnalyticTable =
  t_id :: string
  t_name :: string
  t_schema :: "ColumnSchema list"
  t_partition_keys :: "string list"
  t_dedup_keys :: "string list"

record LayoutPosition =
  lp_x :: f64
  lp_y :: f64

record PipelineConfig =
  cfg_version :: "32 word"
  cfg_source_containers :: "SourceContainer list"
  cfg_dimensions :: "Dimension list"
  cfg_mappings :: "Mapping list"
  cfg_analytic_tables :: "AnalyticTable list"
  cfg_layout :: "string \<rightharpoonup> LayoutPosition"

end
