(* ===== verification/Json_Source.thy ===== *)
theory Json_Source
  imports Config_Types
begin

text \<open>
  Models \<open>src/json_source.rs\<close>: reading an NDJSON file into typed columns. Parsing one line, the
  number type and \<open>DataFrame::new\<close> belong to \<open>serde_json\<close> and Polars; they are the fields of
  \<open>JsonOps\<close>, together with the standard library's decimal-to-float conversion. A Polars
  \<open>Column\<close> is its name and the typed vector it was made from.
\<close>

section \<open>JSON values\<close>

datatype 'n JsonValue =
    JNull
  | JBool bool
  | JNumber 'n
  | JString string
  | JArray "'n JsonValue list"
  | JObject "(string \<times> 'n JsonValue) list"

text \<open>\<open>Vec<Option<T>>\<close>, one per schema column.\<close>

datatype Builder =
    BStr "string option list"
  | BI64 "int option list"
  | BF64 "f64 option list"
  | BBool "bool option list"

record ('n, 'df) JsonOps =
  parse_value :: "string \<Rightarrow> 'n JsonValue option"
  num_as_i64 :: "'n \<Rightarrow> int option"
  num_as_f64 :: "'n \<Rightarrow> f64 option"
  num_to_string :: "'n \<Rightarrow> string"
  str_to_f64 :: "string \<Rightarrow> f64 option"
  frame_new :: "nat \<Rightarrow> (string \<times> Builder) list \<Rightarrow> string + 'df"

section \<open>Paths\<close>

datatype Step = Key string | Index nat

text \<open>The inner loop: the digits up to the closing bracket, and the rest of the path.\<close>

fun read_index :: "string \<Rightarrow> string \<Rightarrow> (string \<times> string) option" where
  "read_index digits [] = None"
| "read_index digits (c # cs) =
     (if c = CHR '']'' then Some (digits, cs)
      else if is_digit c then read_index (digits @ [c]) cs else None)"

lemma read_index_shorter: "read_index ds cs = Some (digits, rest) \<Longrightarrow> length rest < length cs"
  by (induction ds cs rule: read_index.induct) (auto split: if_splits)

definition flush_key :: "Step list \<Rightarrow> string \<Rightarrow> Step list" where
  "flush_key steps cur = (if cur = [] then steps else steps @ [Key cur])"

definition index_error :: "string \<Rightarrow> string" where
  "index_error path = ''malformed array index in path '' @ [CHR 0x27] @ path @ [CHR 0x27]"

function path_from :: "string \<Rightarrow> Step list \<Rightarrow> string \<Rightarrow> string \<Rightarrow> string + Step list" where
  "path_from path steps cur [] =
     (let steps' = flush_key steps cur
      in if steps' = [] then Inl (''empty path '' @ [CHR 0x27] @ path @ [CHR 0x27]) else Inr steps')"
| "path_from path steps cur (c # cs) =
     (if c = CHR ''.'' then path_from path (flush_key steps cur) [] cs
      else if c = CHR ''['' then
        (case read_index [] cs of
           None \<Rightarrow> Inl (index_error path)
         | Some (digits, rest) \<Rightarrow>
             (case parse_u64 digits of
                None \<Rightarrow> Inl (index_error path)
              | Some idx \<Rightarrow> path_from path (flush_key steps cur @ [Index idx]) [] rest))
      else path_from path steps (cur @ [c]) cs)"
  by pat_completeness auto
termination
  by (relation "measure (\<lambda>(path, steps, cur, cs). length cs)") (auto dest: read_index_shorter)

definition compile_path :: "string \<Rightarrow> string + Step list" where
  "compile_path path = path_from path [] [] path"

text \<open>\<open>as_object()?.get(k)?\<close> and \<open>as_array()?.get(i)?\<close>.\<close>

fun step_value :: "'n JsonValue \<Rightarrow> Step \<Rightarrow> 'n JsonValue option" where
  "step_value (JObject fs) (Key k) = map_of fs k"
| "step_value (JArray vs) (Index i) = get_at vs i"
| "step_value _ _ = None"

fun resolve :: "'n JsonValue \<Rightarrow> Step list \<Rightarrow> 'n JsonValue option" where
  "resolve cur [] = Some cur"
| "resolve cur (step # steps) =
     (case step_value cur step of None \<Rightarrow> None | Some v \<Rightarrow> resolve v steps)"

section \<open>Column builders\<close>

definition for_type :: "string \<Rightarrow> Builder" where
  "for_type ty =
     (if ty = ''int64'' then BI64 []
      else if ty = ''number'' \<or> ty = ''float64'' then BF64 []
      else if ty = ''bool'' then BBool []
      else BStr [])"

fun as_str :: "('n, 'df) JsonOps \<Rightarrow> 'n JsonValue option \<Rightarrow> string option" where
  "as_str ops (Some (JString s)) = Some s"
| "as_str ops (Some (JNumber n)) = Some (num_to_string ops n)"
| "as_str ops (Some (JBool b)) = Some (if b then ''true'' else ''false'')"
| "as_str ops _ = None"

fun as_i64 :: "('n, 'df) JsonOps \<Rightarrow> 'n JsonValue option \<Rightarrow> int option" where
  "as_i64 ops (Some (JNumber n)) =
     (case num_as_i64 ops n of Some i \<Rightarrow> Some i | None \<Rightarrow> map_option f64_to_i64 (num_as_f64 ops n))"
| "as_i64 ops (Some (JString s)) = parse_i64 s"
| "as_i64 ops _ = None"

fun as_f64 :: "('n, 'df) JsonOps \<Rightarrow> 'n JsonValue option \<Rightarrow> f64 option" where
  "as_f64 ops (Some (JNumber n)) = num_as_f64 ops n"
| "as_f64 ops (Some (JString s)) = str_to_f64 ops s"
| "as_f64 ops _ = None"

fun as_bool :: "'n JsonValue option \<Rightarrow> bool option" where
  "as_bool (Some (JBool b)) = Some b"
| "as_bool _ = None"

fun push :: "('n, 'df) JsonOps \<Rightarrow> Builder \<Rightarrow> 'n JsonValue option \<Rightarrow> Builder" where
  "push ops (BStr v) value = BStr (v @ [as_str ops value])"
| "push ops (BI64 v) value = BI64 (v @ [as_i64 ops value])"
| "push ops (BF64 v) value = BF64 (v @ [as_f64 ops value])"
| "push ops (BBool v) value = BBool (v @ [as_bool value])"

section \<open>Files\<close>

text \<open>\<open>text.lines()\<close>: blank lines are passed over, unparseable ones counted.\<close>

fun parse_lines ::
  "('n, 'df) JsonOps \<Rightarrow> string list \<Rightarrow> 'n JsonValue list \<Rightarrow> nat \<Rightarrow> 'n JsonValue list \<times> nat" where
  "parse_lines ops [] records skipped = (records, skipped)"
| "parse_lines ops (line # rest) records skipped =
     (let trimmed = trim line
      in if trimmed = [] then parse_lines ops rest records skipped
         else case parse_value ops trimmed of
                Some v \<Rightarrow> parse_lines ops rest (records @ [v]) skipped
              | None \<Rightarrow> parse_lines ops rest records (skipped + 1))"

definition parse_records ::
  "('n, 'df) JsonOps \<Rightarrow> string \<Rightarrow> SourceFormat \<Rightarrow> string + 'n JsonValue list \<times> nat" where
  "parse_records ops bytes format =
     (case format of
        Ndjson \<Rightarrow>
          rbind (map_err (\<lambda>e. ''invalid UTF-8: '' @ e) (from_utf8 bytes)) (\<lambda>text.
            if starts_with (trim_start text) ''[''
            then Inl (''file looks like a single JSON array; this source reads one JSON object ''
                      @ ''per line (NDJSON)'')
            else Inr (parse_lines ops (str_lines text) [] 0))
      | Csv \<Rightarrow> Inl ''read_json called for a CSV source'')"

definition column_steps :: "ColumnSchema \<Rightarrow> string + Step list" where
  "column_steps col =
     compile_path (case cs_path col of Some p \<Rightarrow> p | None \<Rightarrow> cs_name col)"

text \<open>\<open>builders[i].push(resolve(record, steps))\<close> for each column of one record; an index out of
  range panics.\<close>

fun push_record ::
  "('n, 'df) JsonOps \<Rightarrow> 'n JsonValue \<Rightarrow> nat \<Rightarrow> Step list list \<Rightarrow> Builder list \<Rightarrow> panic + Builder list"
where
  "push_record ops record i [] builders = Inr builders"
| "push_record ops record i (steps # rest) builders =
     (case get_at builders i of
        None \<Rightarrow> Inl Panic
      | Some b \<Rightarrow>
          push_record ops record (Suc i) rest (builders[i := push ops b (resolve record steps)]))"

fun push_records ::
  "('n, 'df) JsonOps \<Rightarrow> 'n JsonValue list \<Rightarrow> Step list list \<Rightarrow> Builder list \<Rightarrow> panic + Builder list"
where
  "push_records ops [] compiled builders = Inr builders"
| "push_records ops (record # records) compiled builders =
     rbind (push_record ops record 0 compiled builders) (push_records ops records compiled)"

definition build_frame ::
  "('n, 'df) JsonOps \<Rightarrow> ColumnSchema list \<Rightarrow> 'n JsonValue list \<Rightarrow> Builder list \<Rightarrow> string + 'df" where
  "build_frame ops schema records builders =
     map_err (\<lambda>e. ''frame build failed: '' @ e)
       (frame_new ops (length records) (map (\<lambda>(b, c). (cs_name c, b)) (zip builders schema)))"

definition read_json_source ::
  "('n, 'df) JsonOps \<Rightarrow> string \<Rightarrow> SourceContainer \<Rightarrow> panic + (string + 'df \<times> nat)" where
  "read_json_source ops bytes source =
     (case parse_records ops bytes (sc_format source) of
        Inl e \<Rightarrow> Inr (Inl e)
      | Inr (records, skipped) \<Rightarrow>
          (case collect_results column_steps (sc_schema source) of
             Inl e \<Rightarrow> Inr (Inl e)
           | Inr compiled \<Rightarrow>
               rbind (push_records ops records compiled
                        (map (\<lambda>c. for_type (cs_type c)) (sc_schema source)))
                 (\<lambda>builders. Inr
                    (rbind (build_frame ops (sc_schema source) records builders)
                      (\<lambda>df. Inr (df, skipped))))))"

end
