(* ===== verification/Json_Source_Proofs.thy ===== *)
theory Json_Source_Proofs
  imports Json_Source
begin

text \<open>
  The lemmas about the JSON reader: paths render and read back, the record-by-record loop builds
  each column as if it were read alone, and every non-blank line is a record or counted.
\<close>

section \<open>Paths\<close>

text \<open>A renderer for paths: a dot before every key but a leading one, brackets around indices.\<close>

fun render_step :: "Step \<Rightarrow> string" where
  "render_step (Key k) = CHR ''.'' # k"
| "render_step (Index i) = CHR ''['' # show_nat i @ '']''"

definition render_path :: "Step list \<Rightarrow> string" where
  "render_path steps =
     (case steps of
        Key k # rest \<Rightarrow> k @ concat (map render_step rest)
      | _ \<Rightarrow> concat (map render_step steps))"

text \<open>Keys are not empty and hold neither a dot nor an opening bracket; indices fit \<open>usize\<close>.\<close>

fun step_ok :: "Step \<Rightarrow> bool" where
  "step_ok (Key k) \<longleftrightarrow> k \<noteq> [] \<and> CHR ''.'' \<notin> set k \<and> CHR ''['' \<notin> set k"
| "step_ok (Index i) \<longleftrightarrow> i \<le> u64_max"

definition path_ok :: "Step list \<Rightarrow> bool" where
  "path_ok steps \<longleftrightarrow> steps \<noteq> [] \<and> (\<forall>s \<in> set steps. step_ok s)"

lemma flush_key_simps [simp]: "flush_key steps [] = steps" "k \<noteq> [] \<Longrightarrow> flush_key steps k = steps @ [Key k]"
  by (simp_all add: flush_key_def)

lemma path_from_key:
  "CHR ''.'' \<notin> set k \<Longrightarrow> CHR ''['' \<notin> set k \<Longrightarrow>
     path_from path steps cur (k @ cs) = path_from path steps (cur @ k) cs"
  by (induction k arbitrary: cur) auto

lemma read_index_digits:
  "\<forall>c \<in> set ds. is_digit c \<Longrightarrow> read_index acc (ds @ CHR '']'' # rest) = Some (acc @ ds, rest)"
proof (induction ds arbitrary: acc)
  case (Cons d ds)
  then have "d \<noteq> CHR '']''" by (auto simp: is_digit_def)
  with Cons show ?case by simp
qed simp

lemma path_from_steps:
  "\<forall>s \<in> set rest. step_ok s \<Longrightarrow>
     path_from path steps cur (concat (map render_step rest)) =
       (let all = flush_key steps cur @ rest
        in if all = [] then path_from path [] [] [] else Inr all)"
proof (induction rest arbitrary: steps cur)
  case (Cons s rest)
  show ?case
  proof (cases s)
    case (Key k)
    with Cons.prems have k: "k \<noteq> []" "CHR ''.'' \<notin> set k" "CHR ''['' \<notin> set k" by auto
    with Key Cons.IH [of "flush_key steps cur" k] Cons.prems show ?thesis
      by (simp add: path_from_key)
  next
    case (Index i)
    then have shown: "concat (map render_step (s # rest))
        = CHR ''['' # show_nat i @ CHR '']'' # concat (map render_step rest)" by simp
    have "read_index [] (show_nat i @ CHR '']'' # concat (map render_step rest))
        = Some (show_nat i, concat (map render_step rest))"
      using read_index_digits [of "show_nat i" "[]"] show_nat_digits by simp
    with Index Cons.prems Cons.IH [of "flush_key steps cur @ [Index i]" "[]"] show ?thesis
      unfolding shown by (simp add: parse_u64_show_nat)
  qed
qed (simp add: Let_def)

lemma compile_render_path: "path_ok steps \<Longrightarrow> compile_path (render_path steps) = Inr steps"
proof -
  assume ok: "path_ok steps"
  then obtain s rest where steps: "steps = s # rest" and rest: "\<forall>s \<in> set rest. step_ok s"
    by (cases steps) (auto simp: path_ok_def)
  show ?thesis
  proof (cases s)
    case (Key k)
    with ok steps have k: "k \<noteq> []" "CHR ''.'' \<notin> set k" "CHR ''['' \<notin> set k"
      by (auto simp: path_ok_def)
    with steps Key rest show ?thesis
      by (simp add: render_path_def compile_path_def path_from_key path_from_steps)
  next
    case (Index i)
    then have "render_path steps = concat (map render_step steps)"
      by (simp add: render_path_def steps)
    with ok path_from_steps [of steps "render_path steps" "[]" "[]"] show ?thesis
      by (simp add: compile_path_def path_ok_def)
  qed
qed

interpretation json_path: codec render_path
  "\<lambda>p. case compile_path p of Inl _ \<Rightarrow> None | Inr steps \<Rightarrow> Some steps" path_ok
  by unfold_locales (simp add: compile_render_path)

lemma parse_u64_bound: "parse_u64 s = Some n \<Longrightarrow> n \<le> u64_max"
  by (auto simp: parse_u64_def split: option.splits if_splits)

lemma path_from_ok:
  "path_from path steps cur cs = Inr out \<Longrightarrow> \<forall>s \<in> set steps. step_ok s \<Longrightarrow>
     CHR ''.'' \<notin> set cur \<Longrightarrow> CHR ''['' \<notin> set cur \<Longrightarrow> path_ok out"
proof (induction path steps cur cs rule: path_from.induct)
  case (1 path steps cur)
  then show ?case
    by (auto simp: Let_def path_ok_def flush_key_def split: if_splits)
next
  case (2 path steps cur c cs)
  have flush: "\<forall>s \<in> set (flush_key steps cur). step_ok s"
    using "2.prems" by (auto simp: flush_key_def)
  show ?case
  proof (cases "c = CHR ''['' ")
    case True
    with "2.prems" obtain digits rest idx where
      r: "read_index [] cs = Some (digits, rest)" "parse_u64 digits = Some idx"
        "path_from path (flush_key steps cur @ [Index idx]) [] rest = Inr out"
      by (auto split: option.splits)
    with flush True "2.IH"(2) [OF _ _ r(1) refl r(2)] show ?thesis
      by (auto dest: parse_u64_bound)
  next
    case False
    with "2.prems" "2.IH"(1,3) flush show ?thesis by (cases "c = CHR ''.'' ") auto
  qed
qed

section \<open>Columns\<close>

text \<open>A column read on its own: one cell per record.\<close>

definition column_of ::
  "('n, 'df) JsonOps \<Rightarrow> string \<Rightarrow> 'n JsonValue option list \<Rightarrow> Builder" where
  "column_of ops ty values = foldl (push ops) (for_type ty) values"

text \<open>What such a column holds: a cell for each value, by the type's name. An absent value, a null or one of
  another kind is an empty cell.\<close>

definition string_cell :: "('n, 'df) JsonOps \<Rightarrow> 'n JsonValue option \<Rightarrow> string option" where
  "string_cell ops x = (case x of
     Some (JString s) \<Rightarrow> Some s
   | Some (JNumber n) \<Rightarrow> Some (num_to_string ops n)
   | Some (JBool b) \<Rightarrow> Some (if b then ''true'' else ''false'')
   | _ \<Rightarrow> None)"

definition int_cell :: "('n, 'df) JsonOps \<Rightarrow> 'n JsonValue option \<Rightarrow> int option" where
  "int_cell ops x = (case x of
     Some (JNumber n) \<Rightarrow> if num_as_i64 ops n = None then map_option f64_to_i64 (num_as_f64 ops n) else num_as_i64 ops n
   | Some (JString s) \<Rightarrow> parse_i64 s
   | _ \<Rightarrow> None)"

definition float_cell :: "('n, 'df) JsonOps \<Rightarrow> 'n JsonValue option \<Rightarrow> f64 option" where
  "float_cell ops x = (case x of
     Some (JNumber n) \<Rightarrow> num_as_f64 ops n | Some (JString s) \<Rightarrow> str_to_f64 ops s | _ \<Rightarrow> None)"

definition bool_cell :: "'n JsonValue option \<Rightarrow> bool option" where
  "bool_cell x = (case x of Some (JBool b) \<Rightarrow> Some b | _ \<Rightarrow> None)"

definition typed_column :: "('n, 'df) JsonOps \<Rightarrow> string \<Rightarrow> 'n JsonValue option list \<Rightarrow> Builder" where
  "typed_column ops ty values =
     (if ty = ''int64'' then BI64 (map (int_cell ops) values)
      else if ty \<in> {''number'', ''float64''} then BF64 (map (float_cell ops) values)
      else if ty = ''bool'' then BBool (map bool_cell values)
      else BStr (map (string_cell ops) values))"

lemma cells: "as_str ops = string_cell ops" "as_i64 ops = int_cell ops" "as_f64 ops = float_cell ops"
  "as_bool = bool_cell"
proof -
  show "as_str ops = string_cell ops"
  proof
    fix x show "as_str ops x = string_cell ops x"
      by (cases "(ops, x)" rule: as_str.cases) (simp_all add: string_cell_def)
  qed
  show "as_i64 ops = int_cell ops"
  proof
    fix x show "as_i64 ops x = int_cell ops x"
      by (cases "(ops, x)" rule: as_i64.cases) (auto simp: int_cell_def split: option.split)
  qed
  show "as_f64 ops = float_cell ops"
  proof
    fix x show "as_f64 ops x = float_cell ops x"
      by (cases "(ops, x)" rule: as_f64.cases) (simp_all add: float_cell_def)
  qed
  show "as_bool = bool_cell"
  proof
    fix x show "as_bool x = bool_cell x"
      by (cases x rule: as_bool.cases) (simp_all add: bool_cell_def)
  qed
qed

lemma foldl_push_cells:
  "foldl (push ops) (BStr v) vs = BStr (v @ map (string_cell ops) vs)"
  "foldl (push ops) (BI64 i) vs = BI64 (i @ map (int_cell ops) vs)"
  "foldl (push ops) (BF64 f) vs = BF64 (f @ map (float_cell ops) vs)"
  "foldl (push ops) (BBool b) vs = BBool (b @ map bool_cell vs)"
  by (induction vs arbitrary: v i f b) (simp_all add: cells)

lemma column_of_typed: "column_of ops ty values = typed_column ops ty values"
  by (simp add: column_of_def typed_column_def for_type_def foldl_push_cells)

text \<open>The value at a path: the member of an object, the element of an array.\<close>

inductive at_path :: "'n JsonValue \<Rightarrow> Step list \<Rightarrow> 'n JsonValue \<Rightarrow> bool" where
  here: "at_path v [] v"
| member: "map_of fs k = Some u \<Longrightarrow> at_path u steps v \<Longrightarrow> at_path (JObject fs) (Key k # steps) v"
| element: "i < length vs \<Longrightarrow> at_path (vs ! i) steps v \<Longrightarrow> at_path (JArray vs) (Index i # steps) v"

inductive_cases at_path_NilE: "at_path r [] v"
inductive_cases at_path_ConsE: "at_path r (step # steps) v"

lemma resolve_at_path: "resolve r steps = Some v \<longleftrightarrow> at_path r steps v"
proof (induction r steps rule: resolve.induct)
  case (1 cur)
  then show ?case by (auto intro: at_path.here elim: at_path_NilE)
next
  case (2 cur step steps)
  have "at_path cur (step # steps) v \<longleftrightarrow> (\<exists>u. step_value cur step = Some u \<and> at_path u steps v)"
    by (cases cur; cases step)
      (auto simp: get_at_def intro: at_path.intros elim!: at_path_ConsE split: if_splits)
  with 2 show ?case by (auto split: option.split)
qed

fun builder_length :: "Builder \<Rightarrow> nat" where
  "builder_length (BStr v) = length v"
| "builder_length (BI64 v) = length v"
| "builder_length (BF64 v) = length v"
| "builder_length (BBool v) = length v"

lemma push_length: "builder_length (push ops b v) = Suc (builder_length b)"
  by (cases b) auto

lemma foldl_push_length: "builder_length (foldl (push ops) b vs) = builder_length b + length vs"
  by (induction vs arbitrary: b) (auto simp: push_length)

lemma column_of_length: "builder_length (column_of ops ty vs) = length vs"
  by (simp add: column_of_def foldl_push_length for_type_def)

lemma push_record_map2:
  "length builders = i + length compiled \<Longrightarrow>
     push_record ops record i compiled builders =
       Inr (take i builders
            @ map2 (\<lambda>b steps. push ops b (resolve record steps)) (drop i builders) compiled)"
proof (induction compiled arbitrary: i builders)
  case (Cons steps rest)
  then have i: "i < length builders" by simp
  let ?b = "push ops (builders ! i) (resolve record steps)"
  have "push_record ops record i (steps # rest) builders =
      push_record ops record (Suc i) rest (builders[i := ?b])"
    using i by (simp add: get_at_def)
  also have "\<dots> = Inr (take (Suc i) (builders[i := ?b])
      @ map2 (\<lambda>b steps. push ops b (resolve record steps)) (drop (Suc i) builders) rest)"
    using Cons by simp
  finally show ?case
    using i by (simp add: take_Suc_conv_app_nth Cons_nth_drop_Suc [symmetric])
qed simp

lemma push_records_columns:
  "length builders = length compiled \<Longrightarrow>
     push_records ops records compiled builders =
       Inr (map2 (\<lambda>b steps. foldl (push ops) b (map (\<lambda>r. resolve r steps) records)) builders compiled)"
proof (induction records arbitrary: builders)
  case Nil
  then show ?case by (simp add: list_eq_iff_nth_eq)
next
  case (Cons r records)
  then show ?case
    by (simp add: push_record_map2 list_eq_iff_nth_eq)
qed

section \<open>Files\<close>

definition content_lines :: "string \<Rightarrow> string list" where
  "content_lines bytes = filter (\<lambda>l. l \<noteq> []) (map trim (str_lines bytes))"

lemma parse_lines_result:
  "parse_lines ops lines records skipped =
     (records @ List.map_filter (parse_value ops) (filter (\<lambda>l. l \<noteq> []) (map trim lines)),
      skipped + length (filter (\<lambda>l. parse_value ops l = None)
        (filter (\<lambda>l. l \<noteq> []) (map trim lines))))"
  by (induction ops lines records skipped rule: parse_lines.induct)
     (auto simp: Let_def map_filter_simps split: option.splits)

lemma parse_records_Inr:
  assumes "parse_records ops bytes format = Inr (records, skipped)"
  shows "format = Ndjson \<and> records = List.map_filter (parse_value ops) (content_lines bytes)
    \<and> skipped = length (filter (\<lambda>l. parse_value ops l = None) (content_lines bytes))"
  using assms
  by (auto simp: parse_records_def result_simps from_utf8_Inr parse_lines_result content_lines_def
        split: SourceFormat.splits if_splits)

lemma push_columns:
  assumes "list_all2 (\<lambda>c s. column_steps c = Inr s) schema compiled"
  shows "push_records ops records compiled (map (\<lambda>c. for_type (cs_type c)) schema) =
    Inr (map2 (\<lambda>c s. column_of ops (cs_type c) (map (\<lambda>r. resolve r s) records)) schema compiled)"
proof -
  from assms have "length schema = length compiled" by (rule list_all2_lengthD)
  then show ?thesis
    by (simp add: push_records_columns column_of_def list_eq_iff_nth_eq)
qed

lemma read_json_result:
  "read_json_source ops bytes source =
     Inr (rbind (parse_records ops bytes (sc_format source)) (\<lambda>(records, skipped).
       rbind (collect_results column_steps (sc_schema source)) (\<lambda>compiled.
       rbind (build_frame ops (sc_schema source) records
                (map2 (\<lambda>c s. column_of ops (cs_type c) (map (\<lambda>r. resolve r s) records))
                   (sc_schema source) compiled))
         (\<lambda>df. Inr (df, skipped)))))"
proof (cases "parse_records ops bytes (sc_format source)")
  case (Inr a)
  show ?thesis
  proof (cases "collect_results column_steps (sc_schema source)")
    case (Inr compiled)
    then have "list_all2 (\<lambda>c s. column_steps c = Inr s) (sc_schema source) compiled"
      by (simp add: collect_results_Inr)
    from push_columns [OF this, of ops "fst a"] Inr \<open>parse_records ops bytes (sc_format source) = Inr a\<close>
    show ?thesis by (cases a) (simp add: read_json_source_def)
  qed (use Inr in \<open>cases a; simp add: read_json_source_def\<close>)
qed (simp add: read_json_source_def)

lemma build_frame_columns:
  "length schema = length columns \<Longrightarrow>
     build_frame ops schema records columns =
       map_err (\<lambda>e. ''frame build failed: '' @ e)
         (frame_new ops (length records) (zip (map cs_name schema) columns))"
proof -
  assume "length schema = length columns"
  then have "map (\<lambda>(b, c). (cs_name c, b)) (zip columns schema) = zip (map cs_name schema) columns"
    by (simp add: list_eq_iff_nth_eq)
  then show ?thesis by (simp add: build_frame_def)
qed

section \<open>Properties\<close>

text \<open>Compiling a path inverts rendering it: every list of non-empty keys without dots and
  brackets and of indices that fit the machine word has a path that compiles to it.\<close>

theorem compile_path_roundtrip: "path_ok steps \<Longrightarrow> compile_path (render_path steps) = Inr steps"
  using json_path.dec_enc [of steps] by (simp split: sum.splits)

text \<open>A path that compiles has at least one step, no empty key, no separator inside a key and
  no index past the machine word.\<close>

theorem compiled_path_ok: "compile_path path = Inr steps \<Longrightarrow> path_ok steps"
  by (auto simp: compile_path_def dest: path_from_ok)

text \<open>C21: What a JSON file reads to. When it reads, its format is NDJSON; the records are the values of its
  non-blank lines that parse, in order, and the other non-blank lines are counted; and the frame has one
  column per schema entry, in order, with one cell per record: the value at the entry's path in that
  record, or none, coerced as the entry's type says.\<close>

theorem json_source_columns:
  assumes "read_json_source ops bytes source = Inr (Inr (df, skipped))"
    and "ls = filter (\<lambda>l. l \<noteq> []) (map trim (str_lines bytes))"
    and "records = List.map_filter (parse_value ops) ls"
  shows "sc_format source = Ndjson
    \<and> skipped = length (filter (\<lambda>l. parse_value ops l = None) ls)
    \<and> (\<exists>columns. frame_new ops (length records) columns = Inr df
        \<and> list_all2 (\<lambda>c (name, col). name = cs_name c
             \<and> (\<exists>path values. compile_path (case cs_path c of Some p \<Rightarrow> p | None \<Rightarrow> cs_name c) = Inr path
                  \<and> list_all2 (\<lambda>r x. \<forall>v. x = Some v \<longleftrightarrow> at_path r path v) records values
                  \<and> col = typed_column ops (cs_type c) values))
           (sc_schema source) columns)"
proof -
  from assms(1) obtain rs compiled where
      rec: "parse_records ops bytes (sc_format source) = Inr (rs, skipped)"
      and paths: "collect_results column_steps (sc_schema source) = Inr compiled"
      and frame: "build_frame ops (sc_schema source) rs
            (map2 (\<lambda>c s. column_of ops (cs_type c) (map (\<lambda>r. resolve r s) rs))
               (sc_schema source) compiled) = Inr df"
    by (auto simp: read_json_result rbind_eq_Inr)
  from parse_records_Inr [OF rec] assms(2,3)
  have f: "sc_format source = Ndjson" "rs = records" "skipped = length (filter (\<lambda>l. parse_value ops l = None) ls)"
    by (simp_all add: content_lines_def)
  from paths have all: "list_all2 (\<lambda>c s. column_steps c = Inr s) (sc_schema source) compiled"
    by (simp add: collect_results_Inr)
  then have len: "length (sc_schema source) = length compiled" by (rule list_all2_lengthD)
  let ?columns = "zip (map cs_name (sc_schema source))
      (map2 (\<lambda>c s. typed_column ops (cs_type c) (map (\<lambda>r. resolve r s) records)) (sc_schema source) compiled)"
  from frame len have "frame_new ops (length records) ?columns = Inr df"
    by (simp add: build_frame_columns map_err_eq_Inr f(2) column_of_typed)
  moreover have "list_all2 (\<lambda>c (name, col). name = cs_name c
             \<and> (\<exists>path values. compile_path (case cs_path c of Some p \<Rightarrow> p | None \<Rightarrow> cs_name c) = Inr path
                  \<and> list_all2 (\<lambda>r x. \<forall>v. x = Some v \<longleftrightarrow> at_path r path v) records values
                  \<and> col = typed_column ops (cs_type c) values)) (sc_schema source) ?columns"
  proof (rule list_all2_all_nthI)
    fix i assume i: "i < length (sc_schema source)"
    with all have "column_steps (sc_schema source ! i) = Inr (compiled ! i)" by (simp add: list_all2_conv_all_nth)
    then have p: "compile_path (case cs_path (sc_schema source ! i) of Some p \<Rightarrow> p | None \<Rightarrow> cs_name (sc_schema source ! i))
        = Inr (compiled ! i)" by (simp add: column_steps_def)
    have v: "list_all2 (\<lambda>r x. \<forall>v. x = Some v \<longleftrightarrow> at_path r (compiled ! i) v) records
        (map (\<lambda>r. resolve r (compiled ! i)) records)"
      by (simp add: list_all2_conv_all_nth resolve_at_path)
    from i len have c: "?columns ! i = (cs_name (sc_schema source ! i),
        typed_column ops (cs_type (sc_schema source ! i)) (map (\<lambda>r. resolve r (compiled ! i)) records))" by simp
    show "case ?columns ! i of (name, col) \<Rightarrow> name = cs_name (sc_schema source ! i)
             \<and> (\<exists>path values. compile_path (case cs_path (sc_schema source ! i) of Some p \<Rightarrow> p
                    | None \<Rightarrow> cs_name (sc_schema source ! i)) = Inr path
                  \<and> list_all2 (\<lambda>r x. \<forall>v. x = Some v \<longleftrightarrow> at_path r path v) records values
                  \<and> col = typed_column ops (cs_type (sc_schema source ! i)) values)"
      unfolding c prod.case using p v by blast
  qed (use len in simp)
  ultimately show ?thesis using f(1,3) by blast
qed

text \<open>Reading a JSON file never panics, whatever its bytes and schema.\<close>

theorem json_source_no_panic: "read_json_source ops bytes source \<noteq> Inl Panic"
  by (simp add: read_json_result)

text \<open>A column built from the cells of its records has one cell per record.\<close>

theorem json_column_length: "builder_length (column_of ops ty values) = length values"
  by (rule column_of_length)

section \<open>Witnesses\<close>

lemma compile_path_roundtrip_witness:
  "compile_path (render_path [Key ''h'', Index 0, Key ''x'']) = Inr [Key ''h'', Index 0, Key ''x'']"
  by (rule compile_path_roundtrip) (simp add: path_ok_def)

lemma compiled_path_ok_witness: "path_ok [Key ''a'', Key ''b'']"
  by (rule compiled_path_ok [of "''a.b''"]) (simp add: compile_path_def)

definition demo_json_with ::
  "(nat \<Rightarrow> (string \<times> Builder) list \<Rightarrow> string + 'df) \<Rightarrow> (nat, 'df) JsonOps" where
  "demo_json_with new =
     \<lparr>parse_value = (\<lambda>s. if s = ''{}'' then Some (JObject [(''a'', JString ''v'')]) else None),
      num_as_i64 = (\<lambda>n. Some (int n)), num_as_f64 = (\<lambda>_. None), num_to_string = show_nat,
      str_to_f64 = (\<lambda>_. None), frame_new = new\<rparr>"

definition demo_json :: "(nat, nat \<times> (string \<times> Builder) list) JsonOps" where
  "demo_json = demo_json_with (\<lambda>h cols. Inr (h, cols))"

definition demo_json_source :: SourceContainer where
  "demo_json_source = \<lparr>sc_id = ''s'', sc_name = ''S'', sc_path_prefix = ''l/'', sc_format = Ndjson,
     sc_schema = [\<lparr>cs_name = ''a'', cs_path = None, cs_type = ''string'', cs_nullable = None,
       cs_assertions = None\<rparr>], sc_record_filter = None\<rparr>"

lemma demo_json_read:
  "read_json_source demo_json ''{}\<newline>x'' demo_json_source = Inr (Inr ((1, [(''a'', BStr [Some ''v''])]), 1))"
proof -
  have "valid_utf8 ''{}\<newline>x''" by (rule valid_utf8_ascii) simp
  then have utf: "from_utf8 ''{}\<newline>x'' = Inr ''{}\<newline>x''" by (simp add: from_utf8_Inr)
  have lines: "str_lines ''{}\<newline>x'' = [''{}'', ''x'']" by (simp add: str_lines_def strip_cr_def)
  have trims: "trim ''{}'' = ''{}''" "trim ''x'' = ''x''" "trim_start ''{}\<newline>x'' = ''{}\<newline>x''"
    by (simp_all add: trim_def trim_start.simps trim_end.simps leading_ws_def trailing_ws_def
        unicode_ws_def suffix_def)
  show ?thesis
    by (simp add: read_json_source_def parse_records_def demo_json_source_def utf lines trims
        demo_json_def demo_json_with_def column_steps_def compile_path_def for_type_def build_frame_def)
qed

lemma json_source_columns_witness:
  "\<exists>path values. compile_path ''a'' = Inr path
    \<and> list_all2 (\<lambda>r x. \<forall>v. x = Some v \<longleftrightarrow> at_path r path v) [JObject [(''a'', JString ''v'')] :: nat JsonValue] values
    \<and> BStr [Some ''v''] = typed_column demo_json ''string'' values"
proof -
  have lines: "filter (\<lambda>l. l \<noteq> []) (map trim (str_lines ''{}\<newline>x'')) = [''{}'', ''x'']"
    by (simp add: str_lines_def strip_cr_def trim_def trim_start.simps trim_end.simps leading_ws_def trailing_ws_def
        unicode_ws_def suffix_def)
  have records: "List.map_filter (parse_value demo_json) [''{}'', ''x''] = [JObject [(''a'', JString ''v'')]]"
    by (simp add: demo_json_def demo_json_with_def map_filter_simps)
  from json_source_columns [OF demo_json_read lines [symmetric] records [symmetric]]
  obtain columns where "frame_new demo_json 1 columns = Inr (1, [(''a'', BStr [Some ''v''])])"
    and "list_all2 (\<lambda>c (name, col). name = cs_name c
             \<and> (\<exists>path values. compile_path (case cs_path c of Some p \<Rightarrow> p | None \<Rightarrow> cs_name c) = Inr path
                  \<and> list_all2 (\<lambda>r x. \<forall>v. x = Some v \<longleftrightarrow> at_path r path v) [JObject [(''a'', JString ''v'')]] values
                  \<and> col = typed_column demo_json (cs_type c) values)) (sc_schema demo_json_source) columns" by (elim conjE exE) simp
  moreover from this(1) have "columns = [(''a'', BStr [Some ''v''])]" by (simp add: demo_json_def demo_json_with_def)
  ultimately show ?thesis by (simp add: demo_json_source_def)
qed

end
