(* ===== verification/Config.thy ===== *)
theory Config
  imports Config_Types
begin

text \<open>
  Models validation in \<open>src/config.rs\<close> (lines 213 to 635). \<open>validate\<close> and its helpers push
  errors onto one vector in a fixed order; each helper here returns the list it pushes, and
  \<open>validate\<close> appends the lists in that order. \<open>valid_config\<close> is the abstract specification
  of what an accepted configuration satisfies.
\<close>

section \<open>Errors\<close>

datatype ConfigError =
    DuplicateId (ce_path: string) (ce_kind: string) (ce_id: string)
  | DanglingReference (ce_path: string) (ce_kind: string) (ce_target: string)
  | SchemaError (ce_path: string) (ce_message: string)
  | MissingField (ce_path: string) (ce_field: string)

text \<open>The \<open>#[error]\<close> renderings.\<close>

fun config_error_display :: "ConfigError \<Rightarrow> string" where
  "config_error_display (DuplicateId path kind i) =
     ''duplicate '' @ kind @ '' id `'' @ i @ ''` at '' @ path"
| "config_error_display (DanglingReference path kind target) =
     ''dangling '' @ kind @ '' reference to `'' @ target @ ''` at '' @ path"
| "config_error_display (SchemaError path message) =
     ''schema error at '' @ path @ '': '' @ message"
| "config_error_display (MissingField path field) =
     ''missing field `'' @ field @ ''` at '' @ path"

section \<open>Walking expression trees\<close>

fun children :: "AstNode \<Rightarrow> AstNode list" where
  "children (Col _) = []"
| "children (Str _) = []"
| "children (Num _) = []"
| "children (Bool _) = []"
| "children Null = []"
| "children (Add l r) = [l, r]"
| "children (Sub l r) = [l, r]"
| "children (Mul l r) = [l, r]"
| "children (Div l r) = [l, r]"
| "children (Eq l r) = [l, r]"
| "children (Ne l r) = [l, r]"
| "children (Gt l r) = [l, r]"
| "children (Lt l r) = [l, r]"
| "children (Ge l r) = [l, r]"
| "children (Le l r) = [l, r]"
| "children (And l r) = [l, r]"
| "children (Or l r) = [l, r]"
| "children (NotNode i) = [i]"
| "children (FromUnix i _) = [i]"
| "children (Concat _ args) = args"
| "children (Coalesce args) = args"
| "children (Upper i) = [i]"
| "children (Lower i) = [i]"
| "children (Trim i) = [i]"
| "children (Substring i _ _) = [i]"
| "children (ParseDate i _) = [i]"
| "children (Year i) = [i]"
| "children (Month i) = [i]"
| "children (Day i) = [i]"
| "children (DimRef _ _ i) = [i]"
| "children (Cast i _) = [i]"
| "children (Contains i p) = [i, p]"
| "children (IfNode c t e) = [c, t, e]"

lemma children_size: "c \<in> set (children n) \<Longrightarrow> size c < size n"
  by (cases n) (auto dest: size_list_estimation' [where f = size, OF _ order_refl])

text \<open>\<open>walk_ast\<close> visits the node, then its children from left to right; the visitor's
  captured state is threaded through.\<close>

function walk_ast :: "(AstNode \<Rightarrow> 's \<Rightarrow> 's) \<Rightarrow> AstNode \<Rightarrow> 's \<Rightarrow> 's" where
  "walk_ast visit n acc = fold (walk_ast visit) (children n) (visit n acc)"
  by pat_completeness auto
termination
  by (relation "measure (\<lambda>(visit, n, acc). size n)") (auto dest: children_size)

declare walk_ast.simps [simp del]

text \<open>The nodes of a tree in visiting order.\<close>

function ast_nodes :: "AstNode \<Rightarrow> AstNode list" where
  "ast_nodes n = n # concat (map ast_nodes (children n))"
  by pat_completeness auto
termination
  by (relation "measure size") (auto dest: children_size)

declare ast_nodes.simps [simp del]

lemma fold_concat_map: "fold f (concat (map g xs)) acc = fold (\<lambda>x. fold f (g x)) xs acc"
  by (induction xs arbitrary: acc) auto

lemma walk_ast_fold: "walk_ast visit n acc = fold visit (ast_nodes n) acc"
proof (induction visit n acc rule: walk_ast.induct)
  case (1 visit n acc)
  have "fold (walk_ast visit) (children n) (visit n acc)
      = fold (\<lambda>x. fold visit (ast_nodes x)) (children n) (visit n acc)"
    by (rule fold_cong) (auto simp: "1")
  then show ?case
    by (simp add: walk_ast.simps [of visit n] ast_nodes.simps [of n] fold_concat_map)
qed

lemma walk_ast_collect:
  "walk_ast (\<lambda>n errs. errs @ f n) e acc = acc @ concat (map f (ast_nodes e))"
proof -
  have "fold (\<lambda>n errs. errs @ f n) ns acc = acc @ concat (map f ns)" for ns
    by (induction ns arbitrary: acc) auto
  then show ?thesis by (simp add: walk_ast_fold)
qed

lemma self_in_ast_nodes [simp]: "n \<in> set (ast_nodes n)"
  by (subst ast_nodes.simps) simp

lemma child_nodes: "c \<in> set (children n) \<Longrightarrow> set (ast_nodes c) \<subseteq> set (ast_nodes n)"
  by (auto simp: ast_nodes.simps [of n])

text \<open>The two node shapes validation looks at.\<close>

fun as_dim_ref :: "AstNode \<Rightarrow> (string \<times> string option) option" where
  "as_dim_ref (DimRef dim_id value _) = Some (dim_id, value)"
| "as_dim_ref _ = None"

fun as_col :: "AstNode \<Rightarrow> string option" where
  "as_col (Col name) = Some name"
| "as_col _ = None"

lemma as_dim_ref_Some: "as_dim_ref n = Some (d, v) \<longleftrightarrow> (\<exists>i. n = DimRef d v i)"
  by (cases n rule: as_dim_ref.cases) simp_all

lemma as_col_Some: "as_col n = Some c \<longleftrightarrow> n = Col c"
  by (cases n rule: as_col.cases) auto

section \<open>Validation\<close>

text \<open>\<open>check_unique_and_required_ids\<close>: the loop keeps the set of ids seen so far.\<close>

fun check_ids_from ::
  "nat \<Rightarrow> string set \<Rightarrow> string \<Rightarrow> string \<Rightarrow> ('a \<Rightarrow> string) \<Rightarrow> ('a \<Rightarrow> string option) \<Rightarrow> 'a list
    \<Rightarrow> ConfigError list" where
  "check_ids_from i seen collection kind id_of name_of [] = []"
| "check_ids_from i seen collection kind id_of name_of (item # items) =
     (let item_id = id_of item;
          at = ''/'' @ collection @ ''/'' @ show_nat i;
          id_errors =
            (if item_id = [] then [MissingField (at @ ''/id'') ''id'']
             else if item_id \<in> seen then [DuplicateId (at @ ''/id'') kind item_id] else []);
          seen' = (if item_id = [] then seen else insert item_id seen);
          name_errors =
            (case name_of item of
               Some name \<Rightarrow> if name = [] then [MissingField (at @ ''/name'') ''name''] else []
             | None \<Rightarrow> [])
      in id_errors @ name_errors
         @ check_ids_from (Suc i) seen' collection kind id_of name_of items)"

definition check_unique_and_required_ids ::
  "'a list \<Rightarrow> string \<Rightarrow> string \<Rightarrow> ('a \<Rightarrow> string) \<Rightarrow> ('a \<Rightarrow> string option) \<Rightarrow> ConfigError list" where
  "check_unique_and_required_ids items collection kind id_of name_of =
     check_ids_from 0 {} collection kind id_of name_of items"

definition resolve_dimension :: "string \<Rightarrow> Dimension list \<Rightarrow> Dimension option" where
  "resolve_dimension dim_id dimensions = List.find (\<lambda>d. d_id d = dim_id) dimensions"

text \<open>The visitor of a column expression: every dimension reference resolves, and so does the
  value column it names.\<close>

definition expr_dim_errors :: "Dimension list \<Rightarrow> string \<Rightarrow> AstNode \<Rightarrow> ConfigError list" where
  "expr_dim_errors dims path node =
     (case as_dim_ref node of
        None \<Rightarrow> []
      | Some (dim_id, value) \<Rightarrow>
          (case resolve_dimension dim_id dims of
             None \<Rightarrow> [DanglingReference path ''dimension'' dim_id]
           | Some dim \<Rightarrow>
               (case value of
                  None \<Rightarrow> []
                | Some v \<Rightarrow>
                    if v \<in> set (value_columns dim) then []
                    else [DanglingReference path ''dimension_value'' (dim_id @ ''.'' @ v)])))"

text \<open>The visitor of a \<open>where\<close> predicate: dimension references resolve (their value column is
  not looked at) and column references name output columns.\<close>

definition where_errors ::
  "Dimension list \<Rightarrow> string \<Rightarrow> string set \<Rightarrow> string \<Rightarrow> AstNode \<Rightarrow> ConfigError list" where
  "where_errors dims mapping_id out_cols path node =
     (case as_dim_ref node of
        Some (dim_id, _) \<Rightarrow>
          (case resolve_dimension dim_id dims of
             None \<Rightarrow> [DanglingReference path ''dimension'' dim_id]
           | Some _ \<Rightarrow> [])
      | None \<Rightarrow>
          (case as_col node of
             Some name \<Rightarrow>
               if name \<in> out_cols then []
               else [DanglingReference path ''mapping_column'' (mapping_id @ ''.'' @ name)]
           | None \<Rightarrow> []))"

definition source_col_errors ::
  "SourceContainer \<Rightarrow> string \<Rightarrow> AstNode \<Rightarrow> ConfigError list" where
  "source_col_errors src path node =
     (case as_col node of
        Some name \<Rightarrow>
          if name \<in> cs_name ` set (sc_schema src) then []
          else [DanglingReference path ''source_column'' (sc_id src @ ''.'' @ name)]
      | None \<Rightarrow> [])"

definition column_path :: "nat \<Rightarrow> nat \<Rightarrow> string \<Rightarrow> string" where
  "column_path i j field =
     ''/mappings/'' @ show_nat i @ ''/columns/'' @ show_nat j @ ''/'' @ field"

definition walk_errors :: "(AstNode \<Rightarrow> ConfigError list) \<Rightarrow> AstNode \<Rightarrow> ConfigError list" where
  "walk_errors visitor e = walk_ast (\<lambda>node errors. errors @ visitor node) e []"

definition mapping_errors :: "PipelineConfig \<Rightarrow> nat \<Rightarrow> Mapping \<Rightarrow> ConfigError list" where
  "mapping_errors cfg i mapping =
     (let sources = cfg_source_containers cfg;
          tables = cfg_analytic_tables cfg;
          dims = cfg_dimensions cfg;
          at = ''/mappings/'' @ show_nat i;
          sid = m_source_container_id mapping;
          tid = m_analytic_table_id mapping;
          cols = enumerate 0 (m_columns mapping)
      in (if sid \<noteq> [] \<and> sid \<notin> sc_id ` set sources
          then [DanglingReference (at @ ''/source_container_id'') ''source_container'' sid]
          else [])
         @ (if tid \<noteq> [] \<and> tid \<notin> t_id ` set tables
            then [DanglingReference (at @ ''/analytic_table_id'') ''analytic_table'' tid]
            else [])
         @ concat (map (\<lambda>(j, column).
             walk_errors (expr_dim_errors dims (column_path i j ''expr'')) (mc_expr column)) cols)
         @ (case m_where mapping of
              None \<Rightarrow> []
            | Some predicate \<Rightarrow>
                walk_errors
                  (where_errors dims (m_id mapping) (mc_name ` set (m_columns mapping))
                     (at @ ''/where''))
                  predicate)
         @ (case List.find (\<lambda>t. t_id t = tid) tables of
              None \<Rightarrow> []
            | Some table \<Rightarrow>
                concat (map (\<lambda>(j, column).
                  if mc_name column \<in> cs_name ` set (t_schema table) then []
                  else [DanglingReference (column_path i j ''name'') ''analytic_table_column''
                          (t_id table @ ''.'' @ mc_name column)]) cols))
         @ (case List.find (\<lambda>s. sc_id s = sid) sources of
              None \<Rightarrow> []
            | Some src \<Rightarrow>
                concat (map (\<lambda>(j, column).
                  walk_errors (source_col_errors src (column_path i j ''expr''))
                    (mc_expr column)) cols)))"

text \<open>A column name declared twice keeps its last type, as collecting into a \<open>HashMap\<close> does.\<close>

definition schema_types :: "ColumnSchema list \<Rightarrow> string \<rightharpoonup> string" where
  "schema_types schema = map_of (rev (map (\<lambda>c. (cs_name c, cs_type c)) schema))"

fun partition_key_errors ::
  "string \<Rightarrow> (string \<rightharpoonup> string) \<Rightarrow> string set \<Rightarrow> string list \<Rightarrow> ConfigError list" where
  "partition_key_errors path types seen [] = []"
| "partition_key_errors path types seen (key # keys) =
     (if key \<in> seen
      then [SchemaError path (''duplicate partition key `'' @ key @ ''`'')]
      else case types key of
             None \<Rightarrow> [DanglingReference path ''schema_column'' key]
           | Some ty \<Rightarrow>
               if ty = ''float64'' \<or> ty = ''number''
               then [SchemaError path (''partition key `'' @ key @
                       ''` is float-capable; floats make unstable path segments'')]
               else [])
     @ partition_key_errors path types (insert key seen) keys"

fun dedup_key_errors ::
  "string \<Rightarrow> (string \<rightharpoonup> string) \<Rightarrow> string set \<Rightarrow> string list \<Rightarrow> ConfigError list" where
  "dedup_key_errors path types seen [] = []"
| "dedup_key_errors path types seen (key # keys) =
     (if key \<in> seen
      then [SchemaError path (''duplicate dedup key `'' @ key @ ''`'')]
      else if types key = None then [DanglingReference path ''schema_column'' key] else [])
     @ dedup_key_errors path types (insert key seen) keys"

definition table_errors :: "nat \<Rightarrow> AnalyticTable \<Rightarrow> ConfigError list" where
  "table_errors i table =
     (let at = ''/analytic_tables/'' @ show_nat i;
          types = schema_types (t_schema table)
      in (if 2 < length (t_partition_keys table)
          then [SchemaError (at @ ''/partition_keys'')
                  (show_nat (length (t_partition_keys table))
                   @ '' partition keys; at most 2 are supported'')]
          else [])
         @ partition_key_errors (at @ ''/partition_keys'') types {} (t_partition_keys table)
         @ dedup_key_errors (at @ ''/dedup_keys'') types {} (t_dedup_keys table))"

definition malformed_prefix :: "string \<Rightarrow> bool" where
  "malformed_prefix p \<longleftrightarrow>
     starts_with p ''/'' \<or> \<not> ends_with p ''/'' \<or> ''..'' \<in> set (split_on (CHR ''/'') p)"

definition prefix_shape_errors :: "nat \<Rightarrow> SourceContainer \<Rightarrow> ConfigError list" where
  "prefix_shape_errors i sc =
     (let path = ''/source_containers/'' @ show_nat i @ ''/path_prefix'';
          p = sc_path_prefix sc
      in if p = [] then [MissingField path ''path_prefix'']
         else if malformed_prefix p
         then [SchemaError path (''path_prefix `'' @ p @
                 ''` must be a relative key prefix ending in `/` without `..` segments'')]
         else [])"

definition prefix_nesting_errors :: "SourceContainer list \<Rightarrow> ConfigError list" where
  "prefix_nesting_errors scs =
     concat (map (\<lambda>(i, a). concat (map (\<lambda>(j, b).
       if i \<noteq> j \<and> sc_path_prefix a \<noteq> [] \<and> starts_with (sc_path_prefix b) (sc_path_prefix a)
       then [SchemaError (''/source_containers/'' @ show_nat j @ ''/path_prefix'')
               (''prefix `'' @ sc_path_prefix b @ ''` is nested under `'' @ sc_path_prefix a @
                ''` (source `'' @ sc_id a @ ''`); source prefixes must not overlap'')]
       else []) (enumerate 0 scs))) (enumerate 0 scs))"

definition validate_errors :: "PipelineConfig \<Rightarrow> ConfigError list" where
  "validate_errors cfg =
     check_unique_and_required_ids (cfg_source_containers cfg) ''source_containers''
       ''source_container'' sc_id (\<lambda>s. Some (sc_name s))
     @ check_unique_and_required_ids (cfg_dimensions cfg) ''dimensions''
       ''lookup_mapping'' d_id (\<lambda>_. None)
     @ check_unique_and_required_ids (cfg_mappings cfg) ''mappings''
       ''mapping'' m_id (\<lambda>_. None)
     @ check_unique_and_required_ids (cfg_analytic_tables cfg) ''analytic_tables''
       ''analytic_table'' t_id (\<lambda>t. Some (t_name t))
     @ concat (map (\<lambda>(i, m). mapping_errors cfg i m) (enumerate 0 (cfg_mappings cfg)))
     @ concat (map (\<lambda>(i, t). table_errors i t) (enumerate 0 (cfg_analytic_tables cfg)))
     @ concat (map (\<lambda>(i, sc). prefix_shape_errors i sc)
         (enumerate 0 (cfg_source_containers cfg)))
     @ prefix_nesting_errors (cfg_source_containers cfg)"

definition validate :: "PipelineConfig \<Rightarrow> ConfigError list + unit" where
  "validate cfg =
     (let errors = validate_errors cfg in if errors = [] then Inr () else Inl errors)"

section \<open>The specification of an accepted configuration\<close>

definition ids_ok :: "('a \<Rightarrow> string) \<Rightarrow> ('a \<Rightarrow> string option) \<Rightarrow> 'a list \<Rightarrow> bool" where
  "ids_ok id_of name_of items \<longleftrightarrow>
     distinct (map id_of items)
     \<and> (\<forall>x \<in> set items. id_of x \<noteq> [] \<and> name_of x \<noteq> Some [])"

text \<open>The dimension references and the column references of an expression.\<close>

definition dim_refs :: "AstNode \<Rightarrow> (string \<times> string option) set" where
  "dim_refs e = {(d, v). \<exists>n \<in> set (ast_nodes e). as_dim_ref n = Some (d, v)}"

definition col_refs :: "AstNode \<Rightarrow> string set" where
  "col_refs e = {c. Col c \<in> set (ast_nodes e)}"

definition valid_mapping :: "PipelineConfig \<Rightarrow> Mapping \<Rightarrow> bool" where
  "valid_mapping cfg m \<longleftrightarrow>
     (m_source_container_id m = [] \<or>
        (\<exists>src \<in> set (cfg_source_containers cfg). sc_id src = m_source_container_id m
           \<and> (\<forall>c \<in> set (m_columns m). col_refs (mc_expr c) \<subseteq> cs_name ` set (sc_schema src))))
     \<and> (m_analytic_table_id m = [] \<or>
          (\<exists>t \<in> set (cfg_analytic_tables cfg). t_id t = m_analytic_table_id m
             \<and> mc_name ` set (m_columns m) \<subseteq> cs_name ` set (t_schema t)))
     \<and> (\<forall>c \<in> set (m_columns m). \<forall>(d, v) \<in> dim_refs (mc_expr c).
          \<exists>dim \<in> set (cfg_dimensions cfg). d_id dim = d
            \<and> (\<forall>col. v = Some col \<longrightarrow> col \<in> set (value_columns dim)))
     \<and> (\<forall>p. m_where m = Some p \<longrightarrow>
          fst ` dim_refs p \<subseteq> d_id ` set (cfg_dimensions cfg)
          \<and> col_refs p \<subseteq> mc_name ` set (m_columns m))"

definition valid_table :: "AnalyticTable \<Rightarrow> bool" where
  "valid_table t \<longleftrightarrow>
     length (t_partition_keys t) \<le> 2 \<and> distinct (t_partition_keys t) \<and> distinct (t_dedup_keys t)
     \<and> set (t_dedup_keys t) \<subseteq> cs_name ` set (t_schema t)
     \<and> (\<forall>k \<in> set (t_partition_keys t). \<exists>ty. schema_types (t_schema t) k = Some ty
          \<and> ty \<noteq> ''float64'' \<and> ty \<noteq> ''number'')"

text \<open>Source prefixes are well formed and none begins another.\<close>

definition prefixes_ok :: "SourceContainer list \<Rightarrow> bool" where
  "prefixes_ok scs \<longleftrightarrow>
     (\<forall>s \<in> set scs. sc_path_prefix s \<noteq> [] \<and> \<not> malformed_prefix (sc_path_prefix s))
     \<and> (\<forall>i < length scs. \<forall>j < length scs. i \<noteq> j \<longrightarrow>
          \<not> starts_with (sc_path_prefix (scs ! j)) (sc_path_prefix (scs ! i)))"

definition valid_config :: "PipelineConfig \<Rightarrow> bool" where
  "valid_config cfg \<longleftrightarrow>
     ids_ok sc_id (\<lambda>s. Some (sc_name s)) (cfg_source_containers cfg)
     \<and> ids_ok d_id (\<lambda>_. None) (cfg_dimensions cfg)
     \<and> ids_ok m_id (\<lambda>_. None) (cfg_mappings cfg)
     \<and> ids_ok t_id (\<lambda>t. Some (t_name t)) (cfg_analytic_tables cfg)
     \<and> (\<forall>m \<in> set (cfg_mappings cfg). valid_mapping cfg m)
     \<and> (\<forall>t \<in> set (cfg_analytic_tables cfg). valid_table t)
     \<and> prefixes_ok (cfg_source_containers cfg)"

end
