(* ===== verification/Config_Proofs.thy ===== *)
theory Config_Proofs
  imports Config
begin

text \<open>
  The lemmas about validation: each helper of \<open>validate\<close> returns no error exactly when its
  clause of \<open>valid_config\<close> holds (the collection \<open>no_errors\<close>), and what an accepted
  configuration gives the components that run it.
\<close>

named_theorems no_errors \<open>when a validation helper reports nothing\<close>

section \<open>When the helpers report nothing\<close>

lemma concat_enumerate_Nil:
  "concat (map (\<lambda>(i, x). f i x) (enumerate 0 xs)) = []
     \<longleftrightarrow> (\<forall>i < length xs. f i (xs ! i) = [])"
  by (simp add: all_set_conv_all_nth nth_enumerate_eq)

lemma concat_enumerate_const:
  assumes "\<And>i x. x \<in> set xs \<Longrightarrow> f i x = [] \<longleftrightarrow> P x"
  shows "concat (map (\<lambda>(i, x). f i x) (enumerate 0 xs)) = [] \<longleftrightarrow> (\<forall>x \<in> set xs. P x)"
  unfolding concat_enumerate_Nil using assms by (auto simp: all_set_conv_all_nth)

lemma check_ids_from_Nil:
  "check_ids_from i seen collection kind id_of name_of items = [] \<longleftrightarrow>
     (\<forall>x \<in> set items. id_of x \<noteq> [] \<and> name_of x \<noteq> Some [])
     \<and> distinct (map id_of items) \<and> seen \<inter> set (map id_of items) = {}"
  by (induction items arbitrary: i seen) (auto simp: Let_def split: option.splits)

lemma check_ids_Nil [no_errors]:
  "check_unique_and_required_ids items collection kind id_of name_of = []
     \<longleftrightarrow> ids_ok id_of name_of items"
  by (auto simp: check_unique_and_required_ids_def check_ids_from_Nil ids_ok_def)

lemma walk_errors_Nil [no_errors]:
  "walk_errors v e = [] \<longleftrightarrow> (\<forall>n \<in> set (ast_nodes e). v n = [])"
  by (simp add: walk_errors_def walk_ast_collect)

lemma expr_dim_errors_Nil:
  "expr_dim_errors dims path n = [] \<longleftrightarrow>
     (\<forall>d v. as_dim_ref n = Some (d, v) \<longrightarrow>
        (\<exists>dim. resolve_dimension d dims = Some dim
           \<and> (\<forall>c. v = Some c \<longrightarrow> c \<in> set (value_columns dim))))"
  by (auto simp: expr_dim_errors_def split: option.splits)

lemma where_errors_Nil:
  "where_errors dims mid outs path n = [] \<longleftrightarrow>
     (\<forall>d v. as_dim_ref n = Some (d, v) \<longrightarrow> resolve_dimension d dims \<noteq> None)
     \<and> (\<forall>c. as_col n = Some c \<longrightarrow> c \<in> outs)"
  by (cases n) (auto simp: where_errors_def split: option.splits)

lemma source_col_errors_Nil:
  "source_col_errors src path n = [] \<longleftrightarrow>
     (\<forall>c. n = Col c \<longrightarrow> c \<in> cs_name ` set (sc_schema src))"
  by (auto simp: source_col_errors_def as_col_Some split: option.splits)

lemma partition_key_errors_Nil:
  "partition_key_errors path types seen keys = [] \<longleftrightarrow>
     distinct keys \<and> seen \<inter> set keys = {}
     \<and> (\<forall>k \<in> set keys. \<exists>ty. types k = Some ty \<and> ty \<noteq> ''float64'' \<and> ty \<noteq> ''number'')"
  by (induction keys arbitrary: seen) (auto split: option.splits)

lemma dedup_key_errors_Nil:
  "dedup_key_errors path types seen keys = [] \<longleftrightarrow>
     distinct keys \<and> seen \<inter> set keys = {} \<and> (\<forall>k \<in> set keys. types k \<noteq> None)"
  by (induction keys arbitrary: seen) auto

lemma schema_types_None: "schema_types schema k = None \<longleftrightarrow> k \<notin> cs_name ` set schema"
  by (simp only: schema_types_def map_of_map_rev_None)

lemma table_errors_Nil [no_errors]: "table_errors i t = [] \<longleftrightarrow> valid_table t"
  by (auto simp: table_errors_def valid_table_def Let_def partition_key_errors_Nil
        dedup_key_errors_Nil schema_types_None)

lemma prefix_shape_errors_Nil [no_errors]:
  "prefix_shape_errors i sc = [] \<longleftrightarrow>
     sc_path_prefix sc \<noteq> [] \<and> \<not> malformed_prefix (sc_path_prefix sc)"
  by (auto simp: prefix_shape_errors_def Let_def)

lemma prefix_nesting_errors_Nil:
  "prefix_nesting_errors scs = [] \<longleftrightarrow>
     (\<forall>i < length scs. \<forall>j < length scs.
        i \<noteq> j \<longrightarrow> sc_path_prefix (scs ! i) \<noteq> [] \<longrightarrow>
        \<not> starts_with (sc_path_prefix (scs ! j)) (sc_path_prefix (scs ! i)))"
  unfolding prefix_nesting_errors_def concat_enumerate_Nil by auto

lemma prefixes_ok_iff:
  "concat (map (\<lambda>(i, sc). prefix_shape_errors i sc) (enumerate 0 scs)) = []
     \<and> prefix_nesting_errors scs = [] \<longleftrightarrow> prefixes_ok scs"
proof -
  have "concat (map (\<lambda>(i, sc). prefix_shape_errors i sc) (enumerate 0 scs)) = [] \<longleftrightarrow>
      (\<forall>s \<in> set scs. sc_path_prefix s \<noteq> [] \<and> \<not> malformed_prefix (sc_path_prefix s))"
    by (rule concat_enumerate_const) (simp add: no_errors)
  then show ?thesis by (auto simp: prefix_nesting_errors_Nil prefixes_ok_def)
qed

section \<open>Finding by a unique id\<close>

lemma find_by_id:
  assumes "distinct (map f xs)" and "x \<in> set xs"
  shows "List.find (\<lambda>y. f y = f x) xs = Some x"
  using assms by (auto intro!: find_unique dest: distinct_map [THEN iffD1, THEN conjunct2, THEN inj_onD])

lemma find_by_id_iff:
  assumes "distinct (map f xs)"
  shows "List.find (\<lambda>y. f y = k) xs = Some x \<longleftrightarrow> x \<in> set xs \<and> f x = k"
  using assms find_by_id [of f xs x] find_Some_mem [of "\<lambda>y. f y = k" xs x] by auto

lemma resolve_dimension_iff:
  "distinct (map d_id dims) \<Longrightarrow>
     resolve_dimension k dims = Some dim \<longleftrightarrow> dim \<in> set dims \<and> d_id dim = k"
  by (simp add: resolve_dimension_def find_by_id_iff)

lemma resolve_dimension_None:
  "resolve_dimension k dims = None \<longleftrightarrow> k \<notin> d_id ` set dims"
  by (auto simp: resolve_dimension_def find_None_iff')

section \<open>Mappings\<close>

lemma ball_dim_refs:
  "(\<forall>(d, v) \<in> dim_refs e. P d v) \<longleftrightarrow>
     (\<forall>n \<in> set (ast_nodes e). \<forall>d v. as_dim_ref n = Some (d, v) \<longrightarrow> P d v)"
  by (auto simp: dim_refs_def)

lemma ball_fst_dim_refs:
  "fst ` dim_refs e \<subseteq> S \<longleftrightarrow>
     (\<forall>n \<in> set (ast_nodes e). \<forall>d v. as_dim_ref n = Some (d, v) \<longrightarrow> d \<in> S)"
  using ball_dim_refs [of e "\<lambda>d v. d \<in> S"] by auto

lemma col_refs_subset:
  "col_refs e \<subseteq> S \<longleftrightarrow> (\<forall>n \<in> set (ast_nodes e). \<forall>c. n = Col c \<longrightarrow> c \<in> S)"
  by (auto simp: col_refs_def)

lemma expr_walk_Nil:
  assumes "distinct (map d_id dims)"
  shows "walk_errors (expr_dim_errors dims path) e = [] \<longleftrightarrow>
     (\<forall>(d, v) \<in> dim_refs e. \<exists>dim \<in> set dims. d_id dim = d
        \<and> (\<forall>col. v = Some col \<longrightarrow> col \<in> set (value_columns dim)))"
  unfolding walk_errors_Nil expr_dim_errors_Nil resolve_dimension_iff [OF assms] ball_dim_refs
  by (simp add: Bex_def)

lemma where_walk_Nil:
  "walk_errors (where_errors dims mid outs path) p = [] \<longleftrightarrow>
     fst ` dim_refs p \<subseteq> d_id ` set dims \<and> col_refs p \<subseteq> outs"
  unfolding walk_errors_Nil where_errors_Nil resolve_dimension_None as_col_Some
    ball_fst_dim_refs col_refs_subset
  by (simp only: ball_conj_distrib not_not)

lemma source_walk_Nil:
  "walk_errors (source_col_errors src path) e = [] \<longleftrightarrow>
     col_refs e \<subseteq> cs_name ` set (sc_schema src)"
  unfolding walk_errors_Nil source_col_errors_Nil col_refs_subset ..

text \<open>A reference by id is reported when it is not empty and names nothing; the check behind it
  runs on what it names. Together they say that the reference is empty or names an item that
  passes.\<close>

lemma reference_by_id:
  assumes "distinct (map f xs)" and "\<forall>x \<in> set xs. f x \<noteq> []"
  shows "(k \<noteq> [] \<longrightarrow> k \<in> f ` set xs)
           \<and> (\<forall>x. List.find (\<lambda>y. f y = k) xs = Some x \<longrightarrow> P x)
         \<longleftrightarrow> k = [] \<or> (\<exists>x \<in> set xs. f x = k \<and> P x)"
  unfolding find_by_id_iff [OF assms(1)]
  using assms by (auto simp: distinct_map dest: inj_onD)

lemma case_find_Nil:
  "(case List.find p xs of None \<Rightarrow> [] | Some x \<Rightarrow> f x) = [] \<longleftrightarrow>
     (\<forall>x. List.find p xs = Some x \<longrightarrow> f x = [])"
  by (simp split: option.splits)

lemma output_columns_Nil:
  "concat (map (\<lambda>(j, column). if mc_name column \<in> S then [] else [e j column])
     (enumerate 0 cols)) = [] \<longleftrightarrow> mc_name ` set cols \<subseteq> S"
  using concat_enumerate_const
    [of cols "\<lambda>j column. if mc_name column \<in> S then [] else [e j column]" "\<lambda>c. mc_name c \<in> S"]
  by auto

lemma source_columns_Nil:
  "concat (map (\<lambda>(j, column). walk_errors (source_col_errors src (path j)) (mc_expr column))
     (enumerate 0 cols)) = []
   \<longleftrightarrow> (\<forall>c \<in> set cols. col_refs (mc_expr c) \<subseteq> cs_name ` set (sc_schema src))"
  by (rule concat_enumerate_const) (rule source_walk_Nil)

lemma expr_columns_Nil:
  assumes "distinct (map d_id dims)"
  shows "concat (map (\<lambda>(j, column). walk_errors (expr_dim_errors dims (path j)) (mc_expr column))
     (enumerate 0 cols)) = []
   \<longleftrightarrow> (\<forall>c \<in> set cols. \<forall>(d, v) \<in> dim_refs (mc_expr c). \<exists>dim \<in> set dims. d_id dim = d
        \<and> (\<forall>col. v = Some col \<longrightarrow> col \<in> set (value_columns dim)))"
  by (rule concat_enumerate_const) (rule expr_walk_Nil [OF assms])

lemma mapping_errors_Nil:
  assumes srcs: "ids_ok sc_id sn (cfg_source_containers cfg)"
    and dims: "ids_ok d_id dn (cfg_dimensions cfg)"
    and tabs: "ids_ok t_id tn (cfg_analytic_tables cfg)"
  shows "mapping_errors cfg i m = [] \<longleftrightarrow> valid_mapping cfg m"
proof -
  let ?cols = "m_columns m"
  let ?out = "\<lambda>src. \<forall>c \<in> set ?cols. col_refs (mc_expr c) \<subseteq> cs_name ` set (sc_schema src)"
  let ?tab = "\<lambda>t. mc_name ` set ?cols \<subseteq> cs_name ` set (t_schema t)"
  from srcs have s: "distinct (map sc_id (cfg_source_containers cfg))"
      "\<forall>x \<in> set (cfg_source_containers cfg). sc_id x \<noteq> []" by (auto simp: ids_ok_def)
  from tabs have t: "distinct (map t_id (cfg_analytic_tables cfg))"
      "\<forall>x \<in> set (cfg_analytic_tables cfg). t_id x \<noteq> []" by (auto simp: ids_ok_def)
  from dims have d: "distinct (map d_id (cfg_dimensions cfg))" by (simp add: ids_ok_def)
  have if_nil: "(if c then [e] else []) = [] \<longleftrightarrow> \<not> c" for c and e :: ConfigError by simp
  show ?thesis
    unfolding mapping_errors_def Let_def append_is_Nil_conv if_nil case_find_Nil
      output_columns_Nil source_columns_Nil expr_columns_Nil [OF d]
      valid_mapping_def
      reference_by_id [OF s, of "m_source_container_id m" ?out, symmetric]
      reference_by_id [OF t, of "m_analytic_table_id m" ?tab, symmetric]
    by (cases "m_where m") (auto simp: where_walk_Nil)
qed

lemma validate_errors_Nil: "validate_errors cfg = [] \<longleftrightarrow> valid_config cfg"
proof -
  let ?ids = "ids_ok sc_id (\<lambda>s. Some (sc_name s)) (cfg_source_containers cfg)
     \<and> ids_ok d_id (\<lambda>_. None) (cfg_dimensions cfg)
     \<and> ids_ok m_id (\<lambda>_. None) (cfg_mappings cfg)
     \<and> ids_ok t_id (\<lambda>t. Some (t_name t)) (cfg_analytic_tables cfg)"
  have maps: "concat (map (\<lambda>(i, m). mapping_errors cfg i m) (enumerate 0 (cfg_mappings cfg))) = []
      \<longleftrightarrow> (\<forall>m \<in> set (cfg_mappings cfg). valid_mapping cfg m)" if "?ids"
    using that by (intro concat_enumerate_const mapping_errors_Nil) auto
  have tabs: "concat (map (\<lambda>(i, t). table_errors i t) (enumerate 0 (cfg_analytic_tables cfg))) = []
      \<longleftrightarrow> (\<forall>t \<in> set (cfg_analytic_tables cfg). valid_table t)"
    by (rule concat_enumerate_const) (rule table_errors_Nil)
  show ?thesis
  proof (cases ?ids)
    case True
    then show ?thesis
      unfolding validate_errors_def append_is_Nil_conv check_ids_Nil maps [OF True] tabs
        valid_config_def prefixes_ok_iff [symmetric]
      by blast
  next
    case False
    then show ?thesis
      unfolding validate_errors_def append_is_Nil_conv check_ids_Nil valid_config_def by blast
  qed
qed

lemma validate_ok: "validate cfg = Inr () \<longleftrightarrow> valid_config cfg"
  by (simp add: validate_def Let_def validate_errors_Nil)

section \<open>What an accepted configuration gives\<close>

lemma valid_sources_distinct:
  "valid_config cfg \<Longrightarrow> distinct (map sc_id (cfg_source_containers cfg))"
  by (simp add: valid_config_def ids_ok_def)

lemma valid_dims_distinct: "valid_config cfg \<Longrightarrow> distinct (map d_id (cfg_dimensions cfg))"
  by (simp add: valid_config_def ids_ok_def)

lemma valid_mappings_distinct: "valid_config cfg \<Longrightarrow> distinct (map m_id (cfg_mappings cfg))"
  by (simp add: valid_config_def ids_ok_def)

lemma valid_tables_distinct: "valid_config cfg \<Longrightarrow> distinct (map t_id (cfg_analytic_tables cfg))"
  by (simp add: valid_config_def ids_ok_def)

text \<open>Two prefixes of one key are comparable, so at most one source matches a key.\<close>

lemma prefixes_ok_unique:
  assumes "prefixes_ok scs" and "a \<in> set scs" and "b \<in> set scs"
    and "starts_with key (sc_path_prefix a)" and "starts_with key (sc_path_prefix b)"
  shows "a = b"
proof (rule ccontr)
  assume "a \<noteq> b"
  with assms(2,3) obtain i j where ij: "i < length scs" "j < length scs" "scs ! i = a"
      "scs ! j = b" "i \<noteq> j" by (metis in_set_conv_nth)
  from assms(4,5) have "prefix (sc_path_prefix a) (sc_path_prefix b)
      \<or> prefix (sc_path_prefix b) (sc_path_prefix a)"
    by (rule prefix_same_cases)
  with ij assms(1) show False unfolding prefixes_ok_def by metis
qed

section \<open>Where duplicates are reported\<close>

lemma check_ids_from_dup:
  "DuplicateId p k x \<in> set (check_ids_from k0 seen collection kind id_of name_of items) \<longleftrightarrow>
     k = kind \<and> x \<noteq> [] \<and>
     (\<exists>i < length items. id_of (items ! i) = x \<and> p = ''/'' @ collection @ ''/'' @ show_nat (k0 + i) @ ''/id''
        \<and> (x \<in> seen \<or> (\<exists>j < i. id_of (items ! j) = x)))"
proof (induction items arbitrary: k0 seen)
  case (Cons item items)
  define at where "at i \<longleftrightarrow> p = ''/'' @ collection @ ''/'' @ show_nat i @ ''/id''" for i
  let ?seen = "if id_of item = [] then seen else insert (id_of item) seen"
  have split: "(\<exists>i < length (item # items). Q i) \<longleftrightarrow> Q 0 \<or> (\<exists>i < length items. Q (Suc i))" for Q
    by (auto simp: less_Suc_eq_0_disj)
  have before: "(\<exists>j < Suc i. id_of ((item # items) ! j) = x)
      \<longleftrightarrow> id_of item = x \<or> (\<exists>j < i. id_of (items ! j) = x)" for i
    by (auto simp: less_Suc_eq_0_disj)
  have seen: "x \<noteq> [] \<Longrightarrow> x \<in> ?seen \<longleftrightarrow> x \<in> seen \<or> id_of item = x" by auto
  have head: "DuplicateId p k x \<in> set (check_ids_from k0 seen collection kind id_of name_of (item # items))
      \<longleftrightarrow> (k = kind \<and> x = id_of item \<and> x \<noteq> [] \<and> x \<in> seen \<and> at k0)
        \<or> DuplicateId p k x \<in> set (check_ids_from (Suc k0) ?seen collection kind id_of name_of items)"
    by (auto simp: Let_def at_def split: option.splits)
  show ?case
  proof (cases "k = kind \<and> x \<noteq> []")
    case True
    then show ?thesis
      unfolding head Cons.IH split before seen [OF True [THEN conjunct2]] at_def [symmetric]
      by auto
  next
    case False
    then show ?thesis unfolding head Cons.IH by blast
  qed
qed simp

section \<open>Properties\<close>

text \<open>C1: Validation accepts a configuration exactly when it meets the specification: ids unique
  and present, every reference of a mapping resolving, partition and dedup keys sound, source
  prefixes well formed and disjoint.\<close>

theorem validate_accepts: "validate cfg = Inr () \<longleftrightarrow> valid_config cfg"
  by (rule validate_ok)

text \<open>In an accepted configuration at most one source container's prefix matches a key, so
  the first match the worker takes is the only one.\<close>

theorem one_source_per_key:
  assumes "validate cfg = Inr ()"
    and "a \<in> set (cfg_source_containers cfg)" and "b \<in> set (cfg_source_containers cfg)"
    and "starts_with key (sc_path_prefix a)" and "starts_with key (sc_path_prefix b)"
  shows "a = b"
  using assms by (auto simp: validate_ok valid_config_def intro: prefixes_ok_unique)

text \<open>The id check reports a duplicate at an item exactly when an earlier item of the
  collection has the same, non-empty id.\<close>

theorem duplicates_reported:
  "DuplicateId p k x \<in> set (check_unique_and_required_ids items collection kind id_of name_of) \<longleftrightarrow>
     k = kind \<and> x \<noteq> [] \<and>
     (\<exists>i j. j < i \<and> i < length items \<and> id_of (items ! i) = x \<and> id_of (items ! j) = x
        \<and> p = ''/'' @ collection @ ''/'' @ show_nat i @ ''/id'')"
  unfolding check_unique_and_required_ids_def check_ids_from_dup by auto

section \<open>A sample configuration\<close>

definition demo_source :: SourceContainer where
  "demo_source = \<lparr>sc_id = ''s'', sc_name = ''S'', sc_path_prefix = ''tx/'', sc_format = Csv,
     sc_schema = [\<lparr>cs_name = ''a'', cs_path = None, cs_type = ''string'', cs_nullable = None,
       cs_assertions = None\<rparr>], sc_record_filter = None\<rparr>"

definition demo_countries :: Dimension where
  "demo_countries = \<lparr>d_id = ''c'', d_name = None, d_match = Exact, d_case_insensitive = None,
     d_on_miss = Passthrough,
     d_rows = Inline [''n''] [\<lparr>ir_patterns = [''CA''], ir_values = [''Canada''], ir_priority = 0\<rparr>]\<rparr>"

definition demo_mapping :: "AstNode option \<Rightarrow> Mapping" where
  "demo_mapping predicate = \<lparr>m_id = ''m'', m_name = ''M'', m_source_container_id = ''s'',
     m_analytic_table_id = ''t'',
     m_columns = [\<lparr>mc_name = ''x'', mc_expr = DimRef ''c'' (Some ''n'') (Col ''a'')\<rparr>],
     m_where = predicate\<rparr>"

definition demo_table :: AnalyticTable where
  "demo_table = \<lparr>t_id = ''t'', t_name = ''T'',
     t_schema = [\<lparr>cs_name = ''x'', cs_path = None, cs_type = ''string'', cs_nullable = None,
       cs_assertions = None\<rparr>], t_partition_keys = [''x''], t_dedup_keys = [''x'']\<rparr>"

definition demo_config :: "AstNode option \<Rightarrow> PipelineConfig" where
  "demo_config predicate = \<lparr>cfg_version = 1, cfg_source_containers = [demo_source],
     cfg_dimensions = [demo_countries], cfg_mappings = [demo_mapping predicate],
     cfg_analytic_tables = [demo_table], cfg_layout = Map.empty\<rparr>"

lemmas demo_defs = demo_config_def demo_source_def demo_countries_def demo_mapping_def demo_table_def

lemma demo_config_nodes:
  "ast_nodes (Col c) = [Col c]"
  "ast_nodes (DimRef d v (Col c)) = [DimRef d v (Col c), Col c]"
  by (simp_all add: ast_nodes.simps [of "Col c"] ast_nodes.simps [of "DimRef d v (Col c)"])

lemma demo_config_valid:
  assumes "\<forall>p. predicate = Some p \<longrightarrow> fst ` dim_refs p \<subseteq> {''c''} \<and> col_refs p \<subseteq> {''x''}"
  shows "valid_config (demo_config predicate)"
proof -
  have "prefixes_ok [demo_source]"
    by (simp add: prefixes_ok_def demo_source_def malformed_prefix_def suffix_def)
  moreover have "valid_table demo_table"
    by (simp add: valid_table_def demo_table_def schema_types_def)
  moreover have "valid_mapping (demo_config predicate) (demo_mapping predicate)"
    using assms by (auto simp: valid_mapping_def demo_defs dim_refs_def col_refs_def
          demo_config_nodes value_columns_def)
  ultimately show ?thesis
    by (simp add: valid_config_def demo_config_def ids_ok_def demo_source_def demo_countries_def
        demo_mapping_def demo_table_def)
qed

lemma one_source_per_key_witness: "demo_source = demo_source \<and> prefix ''tx/'' ''tx/1.csv''"
  using one_source_per_key [of "demo_config None" demo_source demo_source "''tx/1.csv''"]
    demo_config_valid [of None]
  by (simp add: validate_ok demo_config_def demo_source_def)

end
