(* ===== verification/Dimension.thy ===== *)
theory Dimension
  imports Config_Types
begin

text \<open>
  Models \<open>src/dimension.rs\<close>: compiling a dimension's rows into a matcher, looking inputs up,
  building the registry of inline dimensions and reading rows from a CSV reference file.
  \<open>lower\<close> stands for \<open>str::to_lowercase\<close> (Unicode tables); every statement holds for every
  such function.
\<close>

section \<open>Matchers\<close>

definition MAX_DIMENSION_ROWS :: nat where
  "MAX_DIMENSION_ROWS = 1000000"

text \<open>Patterns, one value per value column, priority.\<close>

type_synonym MatcherRow = "string list \<times> string option list \<times> int"

record CompiledRow =
  cr_patterns :: "string list"
  cr_values :: "string option list"
  cr_priority :: int

record DimensionMatcher =
  dm_rows :: "CompiledRow list"
  dm_value_columns :: "string list"
  dm_match_mode :: MatchMode
  dm_case_insensitive :: bool
  dm_on_miss :: OnMiss
  dm_exact_index :: "string \<rightharpoonup> nat"

datatype DimensionError =
    DuplicateKey string string
  | TooManyRows string nat nat
  | MissingColumn string string
  | FileRead string string

fun dimension_error_display :: "DimensionError \<Rightarrow> string" where
  "dimension_error_display (DuplicateKey i key) =
     ''dimension `'' @ i @ ''` has duplicate key `'' @ key @ ''`''"
| "dimension_error_display (TooManyRows i rows cap) =
     ''dimension `'' @ i @ ''` exceeds the '' @ show_nat cap @ ''-row cap ('' @ show_nat rows
     @ '' rows)''"
| "dimension_error_display (MissingColumn i column) =
     ''dimension `'' @ i @ ''` file is missing column `'' @ column @ ''`''"
| "dimension_error_display (FileRead i message) =
     ''dimension `'' @ i @ ''` file could not be read: '' @ message"

definition fold_case :: "(string \<Rightarrow> string) \<Rightarrow> bool \<Rightarrow> string \<Rightarrow> string" where
  "fold_case lower case_insensitive s = (if case_insensitive then lower s else s)"

definition compile_row :: "(string \<Rightarrow> string) \<Rightarrow> bool \<Rightarrow> MatcherRow \<Rightarrow> CompiledRow" where
  "compile_row lower ci row =
     (case row of (patterns, values, priority) \<Rightarrow>
        \<lparr>cr_patterns = map (fold_case lower ci) patterns,
         cr_values = values, cr_priority = priority\<rparr>)"

text \<open>The two nested loops that fill \<open>exact_index\<close>, with their early return.\<close>

fun index_patterns ::
  "string \<Rightarrow> nat \<Rightarrow> string list \<Rightarrow> (string \<rightharpoonup> nat) \<Rightarrow> DimensionError + (string \<rightharpoonup> nat)" where
  "index_patterns dim_id i [] index = Inr index"
| "index_patterns dim_id i (pattern # patterns) index =
     (if index pattern \<noteq> None then Inl (DuplicateKey dim_id pattern)
      else index_patterns dim_id i patterns (index(pattern \<mapsto> i)))"

fun index_rows ::
  "string \<Rightarrow> nat \<Rightarrow> CompiledRow list \<Rightarrow> (string \<rightharpoonup> nat) \<Rightarrow> DimensionError + (string \<rightharpoonup> nat)" where
  "index_rows dim_id i [] index = Inr index"
| "index_rows dim_id i (row # rows) index =
     rbind (index_patterns dim_id i (cr_patterns row) index)
       (\<lambda>index'. index_rows dim_id (Suc i) rows index')"

text \<open>\<open>DimensionMatcher::new\<close>.\<close>

definition new_matcher ::
  "(string \<Rightarrow> string) \<Rightarrow> Dimension \<Rightarrow> MatcherRow list \<Rightarrow> DimensionError + DimensionMatcher" where
  "new_matcher lower dim rows =
     (if MAX_DIMENSION_ROWS < length rows
      then Inl (TooManyRows (d_id dim) (length rows) MAX_DIMENSION_ROWS)
      else
        let ci = (case d_case_insensitive dim of Some b \<Rightarrow> b | None \<Rightarrow> False);
            compiled = map (compile_row lower ci) rows
        in rbind (if d_match dim = Exact then index_rows (d_id dim) 0 compiled Map.empty
                  else Inr Map.empty)
             (\<lambda>index. Inr
                \<lparr>dm_rows = compiled, dm_value_columns = value_columns dim,
                 dm_match_mode = d_match dim, dm_case_insensitive = ci,
                 dm_on_miss = d_on_miss dim, dm_exact_index = index\<rparr>))"

definition value_index :: "DimensionMatcher \<Rightarrow> string option \<Rightarrow> nat option" where
  "value_index m name =
     (case name of None \<Rightarrow> Some 0 | Some n \<Rightarrow> position (\<lambda>c. c = n) (dm_value_columns m))"

definition row_matches :: "string \<Rightarrow> CompiledRow \<Rightarrow> bool" where
  "row_matches folded row \<longleftrightarrow> list_ex (\<lambda>p. str_contains folded p) (cr_patterns row)"

text \<open>The substring loop: \<open>best\<close> is replaced only by a row of strictly higher priority.\<close>

fun best_match :: "string \<Rightarrow> CompiledRow option \<Rightarrow> CompiledRow list \<Rightarrow> CompiledRow option" where
  "best_match folded best [] = best"
| "best_match folded best (row # rows) =
     (if row_matches folded row
      then (case best of
              Some current \<Rightarrow>
                if cr_priority row \<le> cr_priority current then best_match folded best rows
                else best_match folded (Some row) rows
            | None \<Rightarrow> best_match folded (Some row) rows)
      else best_match folded best rows)"

text \<open>\<open>rows[i]\<close> panics when the index is out of range.\<close>

definition find_hit :: "DimensionMatcher \<Rightarrow> string \<Rightarrow> panic + CompiledRow option" where
  "find_hit m folded =
     (case dm_match_mode m of
        Exact \<Rightarrow>
          (case dm_exact_index m folded of
             None \<Rightarrow> Inr None
           | Some i \<Rightarrow>
               (case get_at (dm_rows m) i of None \<Rightarrow> Inl Panic | Some row \<Rightarrow> Inr (Some row)))
      | KeywordSubstring \<Rightarrow> Inr (best_match folded None (dm_rows m)))"

definition row_value :: "CompiledRow \<Rightarrow> nat \<Rightarrow> string option" where
  "row_value row i = (case get_at (cr_values row) i of Some (Some v) \<Rightarrow> Some v | _ \<Rightarrow> None)"

definition miss_value :: "OnMiss \<Rightarrow> string \<Rightarrow> string option" where
  "miss_value on_miss input =
     (case on_miss of OnMissNull \<Rightarrow> None | Passthrough \<Rightarrow> Some input | Literal l \<Rightarrow> Some l)"

definition lookup ::
  "(string \<Rightarrow> string) \<Rightarrow> DimensionMatcher \<Rightarrow> string \<Rightarrow> nat \<Rightarrow> panic + string option" where
  "lookup lower m input i =
     rbind (find_hit m (fold_case lower (dm_case_insensitive m) input))
       (\<lambda>hit. Inr (case hit of
          Some row \<Rightarrow> row_value row i
        | None \<Rightarrow> miss_value (dm_on_miss m) input))"

section \<open>The registry of inline dimensions\<close>

definition inline_triples :: "InlineDimensionRow list \<Rightarrow> MatcherRow list" where
  "inline_triples rows =
     map (\<lambda>r. (ir_patterns r, map Some (ir_values r), ir_priority r)) rows"

fun register_inline ::
  "(string \<Rightarrow> string) \<Rightarrow> Dimension list \<Rightarrow> (string \<rightharpoonup> DimensionMatcher)
    \<Rightarrow> DimensionError + (string \<rightharpoonup> DimensionMatcher)" where
  "register_inline lower [] registry = Inr registry"
| "register_inline lower (dim # dims) registry =
     (case d_rows dim of
        Inline _ rows \<Rightarrow>
          rbind (new_matcher lower dim (inline_triples rows))
            (\<lambda>m. register_inline lower dims (registry(d_id dim \<mapsto> m)))
      | File _ _ _ _ \<Rightarrow> register_inline lower dims registry)"

definition build_inline_registry ::
  "(string \<Rightarrow> string) \<Rightarrow> Dimension list \<Rightarrow> DimensionError + (string \<rightharpoonup> DimensionMatcher)" where
  "build_inline_registry lower dims = register_inline lower dims Map.empty"

section \<open>CSV reference files\<close>

text \<open>\<open>split_csv_line\<close>: the finished fields, the current field, whether inside quotes.\<close>

function split_csv_from :: "string list \<Rightarrow> string \<Rightarrow> bool \<Rightarrow> string \<Rightarrow> string list" where
  "split_csv_from out field in_quotes [] = out @ [trim_end_cr field]"
| "split_csv_from out field in_quotes (c # cs) =
     (if c = CHR 0x22 \<and> in_quotes \<and> cs \<noteq> [] \<and> hd cs = CHR 0x22
      then split_csv_from out (field @ [CHR 0x22]) in_quotes (tl cs)
      else if c = CHR 0x22 then split_csv_from out field (\<not> in_quotes) cs
      else if c = CHR '','' \<and> \<not> in_quotes then split_csv_from (out @ [field]) [] in_quotes cs
      else split_csv_from out (field @ [c]) in_quotes cs)"
  by pat_completeness auto
termination
  by (relation "measure (\<lambda>(out, field, q, cs). length cs)") auto

definition split_csv_line :: "string \<Rightarrow> string list" where
  "split_csv_line line = split_csv_from [] [] False line"

definition csv_column :: "string \<Rightarrow> string list \<Rightarrow> string \<Rightarrow> DimensionError + nat" where
  "csv_column dim_id header name =
     ok_or (MissingColumn dim_id name) (position (\<lambda>h. h = name) header)"

text \<open>One data line: \<open>None\<close> when its key is empty and the line is skipped.\<close>

definition csv_row :: "nat \<Rightarrow> nat list \<Rightarrow> nat option \<Rightarrow> string \<Rightarrow> MatcherRow option" where
  "csv_row key_idx value_idxs priority_idx line =
     (let fields = split_csv_line line;
          key_value = (case get_at fields key_idx of Some k \<Rightarrow> k | None \<Rightarrow> [])
      in if key_value = [] then None
         else Some
           ([key_value], map (\<lambda>i. get_at fields i) value_idxs,
            (case Option.bind (Option.bind priority_idx (\<lambda>i. get_at fields i)) parse_i64 of
               Some p \<Rightarrow> p | None \<Rightarrow> 0)))"

fun csv_rows ::
  "string \<Rightarrow> nat \<Rightarrow> nat list \<Rightarrow> nat option \<Rightarrow> string list \<Rightarrow> MatcherRow list
    \<Rightarrow> DimensionError + MatcherRow list" where
  "csv_rows dim_id key_idx value_idxs priority_idx [] out = Inr out"
| "csv_rows dim_id key_idx value_idxs priority_idx (line # rest) out =
     (case csv_row key_idx value_idxs priority_idx line of
        None \<Rightarrow> csv_rows dim_id key_idx value_idxs priority_idx rest out
      | Some row \<Rightarrow>
          let out' = out @ [row]
          in if MAX_DIMENSION_ROWS < length out'
             then Inl (TooManyRows dim_id (length out') MAX_DIMENSION_ROWS)
             else csv_rows dim_id key_idx value_idxs priority_idx rest out')"

definition rows_from_csv ::
  "Dimension \<Rightarrow> string \<Rightarrow> string list \<Rightarrow> string option \<Rightarrow> string
    \<Rightarrow> DimensionError + MatcherRow list" where
  "rows_from_csv dim key values priority_column bytes =
     rbind (map_err (\<lambda>e. FileRead (d_id dim) (''invalid UTF-8: '' @ e)) (from_utf8 bytes))
       (\<lambda>text. case filter (\<lambda>l. trim l \<noteq> []) (str_lines text) of
          [] \<Rightarrow> Inl (FileRead (d_id dim) ''file is empty'')
        | h # rest \<Rightarrow>
            (let header = split_csv_line h;
                 index_of = csv_column (d_id dim) header
             in rbind (index_of key) (\<lambda>key_idx.
                rbind (collect_results index_of values) (\<lambda>value_idxs.
                rbind (case priority_column of
                         Some p \<Rightarrow> rbind (index_of p) (\<lambda>i. Inr (Some i))
                       | None \<Rightarrow> Inr None)
                  (\<lambda>priority_idx.
                     csv_rows (d_id dim) key_idx value_idxs priority_idx rest [])))))"

end
