(* ===== verification/Dimension_Proofs.thy ===== *)
theory Dimension_Proofs
  imports Dimension
begin

text \<open>
  Lemmas and properties of the dimension matcher: when compiling succeeds, what a lookup
  returns in both match modes, that it never panics, the registry's domain, and the CSV reader.
\<close>

section \<open>The exact index\<close>

lemma index_patterns_Inr:
  "index_patterns d i ps index = Inr index' \<longleftrightarrow>
     distinct ps \<and> set ps \<inter> dom index = {}
     \<and> index' = (\<lambda>p. if p \<in> set ps then Some i else index p)"
proof (induction ps arbitrary: index)
  case (Cons p ps)
  have upd: "(\<lambda>q. if q \<in> set ps then Some i else (index(p \<mapsto> i)) q)
      = (\<lambda>q. if q \<in> set (p # ps) then Some i else index q)"
    by auto
  have "index_patterns d i (p # ps) index = Inr index' \<longleftrightarrow>
      index p = None \<and> index_patterns d i ps (index(p \<mapsto> i)) = Inr index'"
    by simp
  also have "\<dots> \<longleftrightarrow> distinct (p # ps) \<and> set (p # ps) \<inter> dom index = {}
      \<and> index' = (\<lambda>q. if q \<in> set (p # ps) then Some i else index q)"
    unfolding Cons.IH upd dom_fun_upd by (auto simp: domIff)
  finally show ?case .
qed auto

definition row_index :: "string \<Rightarrow> CompiledRow list \<Rightarrow> nat option" where
  "row_index p rows = position (\<lambda>r. p \<in> set (cr_patterns r)) rows"

lemma row_index_None: "row_index p rows = None \<longleftrightarrow> p \<notin> set (concat (map cr_patterns rows))"
  by (auto simp: row_index_def position_None)

lemma row_index_Cons:
  "row_index p (r # rs) = (if p \<in> set (cr_patterns r) then Some 0 else map_option Suc (row_index p rs))"
  by (simp add: row_index_def)

lemma index_rows_Inr:
  "index_rows d i rows index = Inr index' \<longleftrightarrow>
     distinct (concat (map cr_patterns rows))
     \<and> set (concat (map cr_patterns rows)) \<inter> dom index = {}
     \<and> index' = (\<lambda>p. case row_index p rows of Some j \<Rightarrow> Some (i + j) | None \<Rightarrow> index p)"
proof (induction rows arbitrary: i index)
  case Nil
  then show ?case by (auto simp: row_index_def)
next
  case (Cons r rs)
  let ?ps = "cr_patterns r" and ?qs = "concat (map cr_patterns rs)"
  let ?index = "\<lambda>p. if p \<in> set ?ps then Some i else index p"
  have dom: "dom ?index = set ?ps \<union> dom index" by (auto simp: dom_def)
  have val: "(\<lambda>p. case row_index p rs of Some j \<Rightarrow> Some (Suc i + j) | None \<Rightarrow> ?index p)
      = (\<lambda>p. case row_index p (r # rs) of Some j \<Rightarrow> Some (i + j) | None \<Rightarrow> index p)"
    if "set ?qs \<inter> set ?ps = {}"
  proof
    fix p
    show "(case row_index p rs of Some j \<Rightarrow> Some (Suc i + j) | None \<Rightarrow> ?index p)
        = (case row_index p (r # rs) of Some j \<Rightarrow> Some (i + j) | None \<Rightarrow> index p)"
      using that row_index_None [of p rs]
      by (cases "row_index p rs") (auto simp: row_index_Cons)
  qed
  have "index_rows d i (r # rs) index = Inr index' \<longleftrightarrow>
      (distinct ?ps \<and> set ?ps \<inter> dom index = {}) \<and> index_rows d (Suc i) rs ?index = Inr index'"
    by (auto simp: rbind_eq_Inr index_patterns_Inr)
  also have "\<dots> \<longleftrightarrow> (distinct ?ps \<and> set ?ps \<inter> dom index = {})
      \<and> distinct ?qs \<and> set ?qs \<inter> (set ?ps \<union> dom index) = {}
      \<and> index' = (\<lambda>p. case row_index p rs of Some j \<Rightarrow> Some (Suc i + j) | None \<Rightarrow> ?index p)"
    unfolding Cons.IH dom ..
  also have "\<dots> \<longleftrightarrow> (distinct ?ps \<and> set ?ps \<inter> dom index = {})
      \<and> distinct ?qs \<and> set ?qs \<inter> (set ?ps \<union> dom index) = {}
      \<and> index' = (\<lambda>p. case row_index p (r # rs) of Some j \<Rightarrow> Some (i + j) | None \<Rightarrow> index p)"
    using val by (cases "set ?qs \<inter> set ?ps = {}") (simp, blast)
  also have "\<dots> \<longleftrightarrow> distinct (?ps @ ?qs) \<and> set (?ps @ ?qs) \<inter> dom index = {}
      \<and> index' = (\<lambda>p. case row_index p (r # rs) of Some j \<Rightarrow> Some (i + j) | None \<Rightarrow> index p)"
    unfolding distinct_append set_append by blast
  finally show ?case by simp
qed

section \<open>Compiled matchers\<close>

text \<open>The patterns of all rows after case folding, in row order.\<close>

definition folded_patterns :: "(string \<Rightarrow> string) \<Rightarrow> Dimension \<Rightarrow> MatcherRow list \<Rightarrow> string list" where
  "folded_patterns lower dim rows =
     concat (map (\<lambda>(ps, _, _). map (fold_case lower (d_case_insensitive dim = Some True)) ps) rows)"

lemma case_insensitive_flag:
  "(case ci of Some b \<Rightarrow> b | None \<Rightarrow> False) = (ci = Some True)"
  by (auto split: option.splits)

lemma patterns_of_compiled:
  "concat (map cr_patterns (map (compile_row lower (d_case_insensitive dim = Some True)) rows))
     = folded_patterns lower dim rows"
proof -
  have "cr_patterns \<circ> compile_row lower ci = (\<lambda>(ps, _, _). map (fold_case lower ci) ps)" for ci
    by (auto simp: compile_row_def)
  then show ?thesis by (simp add: folded_patterns_def)
qed

lemma new_matcher_Inr:
  "new_matcher lower dim rows = Inr m \<longleftrightarrow>
     length rows \<le> MAX_DIMENSION_ROWS
     \<and> (d_match dim = Exact \<longrightarrow> distinct (folded_patterns lower dim rows))
     \<and> m = (let ci = (d_case_insensitive dim = Some True);
                compiled = map (compile_row lower ci) rows
            in \<lparr>dm_rows = compiled, dm_value_columns = value_columns dim,
                dm_match_mode = d_match dim, dm_case_insensitive = ci,
                dm_on_miss = d_on_miss dim,
                dm_exact_index = (if d_match dim = Exact then (\<lambda>p. row_index p compiled)
                                  else Map.empty)\<rparr>)"
proof -
  have index: "(\<lambda>p. case row_index p rs of Some j \<Rightarrow> Some (0 + j) | None \<Rightarrow> Map.empty p)
      = (\<lambda>p. row_index p rs)" for rs
    by (auto split: option.splits)
  have rows: "index_rows d 0 (map (compile_row lower (d_case_insensitive dim = Some True)) rows)
        Map.empty = Inr index \<longleftrightarrow> distinct (folded_patterns lower dim rows)
      \<and> index = (\<lambda>p. row_index p
          (map (compile_row lower (d_case_insensitive dim = Some True)) rows))" for d index
    unfolding index_rows_Inr patterns_of_compiled index by simp
  show ?thesis
    unfolding new_matcher_def case_insensitive_flag Let_def
    by (cases "d_match dim = Exact") (auto simp: rbind_eq_Inr rows not_less)
qed

definition built :: "(string \<Rightarrow> string) \<Rightarrow> DimensionMatcher \<Rightarrow> bool" where
  "built lower m \<longleftrightarrow> (\<exists>dim rows. new_matcher lower dim rows = Inr m)"

lemma row_index_Some:
  assumes "row_index p rows = Some i"
  shows "i < length rows" and "p \<in> set (cr_patterns (rows ! i))"
  using position_Some [OF assms [unfolded row_index_def]] by auto

lemma find_hit_built:
  assumes "new_matcher lower dim rows = Inr m" and "d_match dim = Exact"
  shows "find_hit m s = Inr (map_option (\<lambda>i. dm_rows m ! i) (row_index s (dm_rows m)))"
  using assms row_index_Some(1) [of s "dm_rows m"]
  by (auto simp: find_hit_def new_matcher_Inr Let_def get_at_def split: option.splits)

lemma lookup_total:
  assumes "built lower m"
  shows "\<exists>v. lookup lower m s i = Inr v"
proof -
  from assms obtain dim rows where new: "new_matcher lower dim rows = Inr m"
    by (auto simp: built_def)
  then have "dm_match_mode m = d_match dim" by (auto simp: new_matcher_Inr Let_def)
  then have "\<exists>hit. find_hit m t = Inr hit" for t
    using find_hit_built [OF new, of t]
    by (cases "d_match dim") (auto simp: find_hit_def)
  then show ?thesis by (auto simp: lookup_def) (metis rbind_simps(2))
qed

section \<open>Lookups\<close>

text \<open>The cell of a row at a value column: absent cells and cells past the end are null.\<close>

definition cell :: "string option list \<Rightarrow> nat \<Rightarrow> string option" where
  "cell vs i = Option.bind (get_at vs i) (\<lambda>v. v)"

lemma row_value_cell: "row_value row i = cell (cr_values row) i"
  by (auto simp: row_value_def cell_def split: option.splits)

definition folds_to :: "(string \<Rightarrow> string) \<Rightarrow> Dimension \<Rightarrow> string \<Rightarrow> string" where
  "folds_to lower dim = fold_case lower (d_case_insensitive dim = Some True)"

lemma folded_patterns_alt:
  "folded_patterns lower dim rows = concat (map (\<lambda>(ps, _, _). map (folds_to lower dim) ps) rows)"
  by (simp add: folded_patterns_def folds_to_def)

lemma distinct_concat_unique:
  assumes "distinct (concat xss)" and "i < length xss" and "j < length xss"
    and "x \<in> set (xss ! i)" and "x \<in> set (xss ! j)"
  shows "i = j"
  using assms
proof (induction xss arbitrary: i j)
  case (Cons xs xss)
  then show ?case by (fastforce simp: nth_Cons split: nat.splits dest: nth_mem)
qed simp

lemma lookup_exact_hit:
  assumes new: "new_matcher lower dim rows = Inr m" and exact: "d_match dim = Exact"
    and row: "(ps, vs, pr) \<in> set rows" and hit: "folds_to lower dim input \<in> folds_to lower dim ` set ps"
  shows "lookup lower m input i = Inr (cell vs i)"
proof -
  let ?ci = "d_case_insensitive dim = Some True"
  let ?compiled = "map (compile_row lower ?ci) rows" and ?key = "folds_to lower dim input"
  from new have m: "dm_rows m = ?compiled" "dm_case_insensitive m = ?ci"
    by (auto simp: new_matcher_Inr Let_def)
  from new exact have dist: "distinct (concat (map cr_patterns ?compiled))"
    unfolding patterns_of_compiled by (simp add: new_matcher_Inr)
  from row obtain k where k: "k < length rows" "rows ! k = (ps, vs, pr)"
    by (auto simp: in_set_conv_nth)
  with hit have in_k: "?key \<in> set (cr_patterns (?compiled ! k))"
    by (simp add: compile_row_def folds_to_def)
  moreover from k have "?compiled ! k \<in> set ?compiled" by (intro nth_mem) simp
  ultimately have "row_index ?key ?compiled \<noteq> None"
    unfolding row_index_def position_None by blast
  then obtain j where j: "row_index ?key ?compiled = Some j" by auto
  from row_index_Some [OF j] k in_k have "j = k"
    using distinct_concat_unique [OF dist, of j k ?key] by simp
  with j m find_hit_built [OF new exact, of ?key]
  have "find_hit m ?key = Inr (Some (?compiled ! k))" by simp
  with k m show ?thesis
    by (simp add: lookup_def folds_to_def row_value_cell compile_row_def)
qed

lemma lookup_exact_miss:
  assumes new: "new_matcher lower dim rows = Inr m" and exact: "d_match dim = Exact"
    and miss: "folds_to lower dim input \<notin> set (folded_patterns lower dim rows)"
  shows "lookup lower m input i = Inr (miss_value (d_on_miss dim) input)"
proof -
  let ?ci = "d_case_insensitive dim = Some True"
  from new have m: "dm_rows m = map (compile_row lower ?ci) rows" "dm_case_insensitive m = ?ci"
      "dm_on_miss m = d_on_miss dim"
    by (auto simp: new_matcher_Inr Let_def)
  have "row_index (folds_to lower dim input) (dm_rows m) = None"
    using miss unfolding m(1) row_index_None patterns_of_compiled .
  with m find_hit_built [OF new exact] show ?thesis by (simp add: lookup_def folds_to_def)
qed

subsection \<open>Substring matching\<close>

definition best_at :: "string \<Rightarrow> CompiledRow list \<Rightarrow> nat \<Rightarrow> bool" where
  "best_at folded rows k \<longleftrightarrow>
     k < length rows \<and> row_matches folded (rows ! k)
     \<and> (\<forall>j < length rows. row_matches folded (rows ! j) \<longrightarrow>
          cr_priority (rows ! j) < cr_priority (rows ! k)
          \<or> cr_priority (rows ! j) = cr_priority (rows ! k) \<and> k \<le> j)"

lemma best_match_append:
  "best_match f best (xs @ ys) = best_match f (best_match f best xs) ys"
  by (induction xs arbitrary: best) (auto split: option.splits)

lemma best_at_unique: "best_at f rows j \<Longrightarrow> best_at f rows k \<Longrightarrow> j = k"
  unfolding best_at_def by (metis dual_order.antisym less_asym')

lemma best_match_spec:
  "(best_match f None rows = None \<and> (\<forall>r \<in> set rows. \<not> row_matches f r))
   \<or> (\<exists>k. best_at f rows k \<and> best_match f None rows = Some (rows ! k))"
proof (induction rows rule: rev_induct)
  case (snoc r rows)
  show ?case
  proof (cases "row_matches f r")
    case False
    then have same: "best_match f None (rows @ [r]) = best_match f None rows"
      by (simp add: best_match_append)
    have keep: "best_at f (rows @ [r]) k \<and> (rows @ [r]) ! k = rows ! k" if "best_at f rows k" for k
      using that False by (auto simp: best_at_def nth_append less_Suc_eq)
    from snoc show ?thesis
    proof
      assume "best_match f None rows = None \<and> (\<forall>r \<in> set rows. \<not> row_matches f r)"
      with same False show ?thesis by simp
    next
      assume "\<exists>k. best_at f rows k \<and> best_match f None rows = Some (rows ! k)"
      with same keep show ?thesis by metis
    qed
  next
    case True
    from snoc show ?thesis
    proof
      assume none: "best_match f None rows = None \<and> (\<forall>r \<in> set rows. \<not> row_matches f r)"
      with True have "best_at f (rows @ [r]) (length rows)"
        by (auto simp: best_at_def nth_append less_Suc_eq)
      with none True show ?thesis by (auto simp: best_match_append intro!: exI)
    next
      assume "\<exists>k. best_at f rows k \<and> best_match f None rows = Some (rows ! k)"
      then obtain k where k: "best_at f rows k" "best_match f None rows = Some (rows ! k)" by blast
      show ?thesis
      proof (cases "cr_priority r \<le> cr_priority (rows ! k)")
        case True
        with k \<open>row_matches f r\<close> have "best_at f (rows @ [r]) k"
          by (auto simp: best_at_def nth_append less_Suc_eq)
        with k True \<open>row_matches f r\<close> show ?thesis
          by (auto simp: best_match_append best_at_def nth_append intro!: exI [of _ k])
      next
        case False
        with k \<open>row_matches f r\<close> have "best_at f (rows @ [r]) (length rows)"
          by (fastforce simp: best_at_def nth_append less_Suc_eq)
        with k False \<open>row_matches f r\<close> show ?thesis
          by (auto simp: best_match_append intro!: exI [of _ "length rows"])
      qed
    qed
  qed
qed simp

lemma lookup_substring:
  assumes new: "new_matcher lower dim rows = Inr m" and mode: "d_match dim = KeywordSubstring"
  shows "best_at (folds_to lower dim input) (dm_rows m) k \<Longrightarrow>
           lookup lower m input i = Inr (cell (cr_values (dm_rows m ! k)) i)"
    and "\<forall>r \<in> set (dm_rows m). \<not> row_matches (folds_to lower dim input) r \<Longrightarrow>
           lookup lower m input i = Inr (miss_value (d_on_miss dim) input)"
proof -
  from new mode have m: "dm_match_mode m = KeywordSubstring"
      "dm_case_insensitive m = (d_case_insensitive dim = Some True)" "dm_on_miss m = d_on_miss dim"
    by (auto simp: new_matcher_Inr Let_def)
  note spec = best_match_spec [of "folds_to lower dim input" "dm_rows m"]
  show "lookup lower m input i = Inr (cell (cr_values (dm_rows m ! k)) i)"
    if "best_at (folds_to lower dim input) (dm_rows m) k"
  proof -
    from that have "dm_rows m ! k \<in> set (dm_rows m)"
        "row_matches (folds_to lower dim input) (dm_rows m ! k)" by (auto simp: best_at_def)
    with spec that best_at_unique [OF that]
    have "best_match (folds_to lower dim input) None (dm_rows m) = Some (dm_rows m ! k)" by blast
    with m show ?thesis by (simp add: lookup_def find_hit_def folds_to_def row_value_cell)
  qed
  show "lookup lower m input i = Inr (miss_value (d_on_miss dim) input)"
    if "\<forall>r \<in> set (dm_rows m). \<not> row_matches (folds_to lower dim input) r"
  proof -
    from that spec have "best_match (folds_to lower dim input) None (dm_rows m) = None"
      by (auto simp: best_at_def)
    with m show ?thesis by (simp add: lookup_def find_hit_def folds_to_def)
  qed
qed

section \<open>The registry\<close>

definition is_inline :: "Dimension \<Rightarrow> bool" where
  "is_inline d = (case d_rows d of Inline _ _ \<Rightarrow> True | File _ _ _ _ \<Rightarrow> False)"

text \<open>A registry entry is a matcher compiled from the dimension it is filed under.\<close>

definition registers :: "(string \<Rightarrow> string) \<Rightarrow> Dimension list \<Rightarrow> (string \<rightharpoonup> DimensionMatcher) \<Rightarrow> bool" where
  "registers lower dims reg \<longleftrightarrow>
     (\<forall>k m. reg k = Some m \<longrightarrow>
        (\<exists>dim rows. dim \<in> set dims \<and> d_id dim = k \<and> new_matcher lower dim rows = Inr m))"

lemma register_inline_Inr:
  "register_inline lower dims reg = Inr reg' \<Longrightarrow>
     dom reg' = dom reg \<union> d_id ` {d \<in> set dims. is_inline d}
     \<and> (\<forall>known. set dims \<subseteq> set known \<longrightarrow> registers lower known reg \<longrightarrow> registers lower known reg')"
proof (induction dims arbitrary: reg)
  case (Cons d dims)
  show ?case
  proof (cases "d_rows d")
    case (Inline vs rows)
    with Cons.prems obtain m where m: "new_matcher lower d (inline_triples rows) = Inr m"
        and rest: "register_inline lower dims (reg(d_id d \<mapsto> m)) = Inr reg'"
      by (auto simp: rbind_eq_Inr)
    have step: "registers lower known (reg(d_id d \<mapsto> m))"
      if "set (d # dims) \<subseteq> set known" "registers lower known reg" for known
      using that m by (auto simp: registers_def)
    have "{x \<in> set (d # dims). is_inline x} = insert d {x \<in> set dims. is_inline x}"
      using Inline by (auto simp: is_inline_def)
    with Cons.IH [OF rest]
    have "dom reg' = dom reg \<union> d_id ` {x \<in> set (d # dims). is_inline x}"
      unfolding dom_fun_upd by auto
    with Cons.IH [OF rest] step show ?thesis by (metis list.set_intros(2) set_subset_Cons subset_trans)
  next
    case (File a b c e)
    then have "{x \<in> set (d # dims). is_inline x} = {x \<in> set dims. is_inline x}"
      by (auto simp: is_inline_def)
    with File Cons show ?thesis by auto
  qed
qed simp

lemma registers_value_index:
  assumes "registers lower dims reg" and "reg k = Some m"
  shows "\<exists>dim \<in> set dims. d_id dim = k \<and> dm_value_columns m = value_columns dim"
  using assms by (fastforce simp: registers_def new_matcher_Inr Let_def)

lemma registers_built: "registers lower dims reg \<Longrightarrow> reg k = Some m \<Longrightarrow> built lower m"
  unfolding registers_def built_def by blast

section \<open>CSV lines and files\<close>

text \<open>A renderer for the reader's dialect: every field quoted, quotes doubled.\<close>

definition csv_escape :: "string \<Rightarrow> string" where
  "csv_escape f = concat (map (\<lambda>c. if c = CHR 0x22 then [c, c] else [c]) f)"

definition csv_quote :: "string \<Rightarrow> string" where
  "csv_quote f = CHR 0x22 # csv_escape f @ [CHR 0x22]"

definition csv_render :: "string list \<Rightarrow> string" where
  "csv_render fs = join '','' (map csv_quote fs)"

text \<open>The reader strips carriage returns from the end of the last field.\<close>

definition csv_ok :: "string list \<Rightarrow> bool" where
  "csv_ok fs \<longleftrightarrow> fs \<noteq> [] \<and> (last fs = [] \<or> last (last fs) \<noteq> CHR 0x0D)"

lemma split_csv_quoted:
  assumes "rest = [] \<or> hd rest \<noteq> CHR 0x22"
  shows "split_csv_from out field True (csv_escape f @ CHR 0x22 # rest)
      = split_csv_from out (field @ f) False rest"
  using assms by (induction f arbitrary: field) (auto simp: csv_escape_def)

lemma split_csv_quote:
  assumes "rest = [] \<or> hd rest \<noteq> CHR 0x22"
  shows "split_csv_from out [] False (csv_quote f @ rest) = split_csv_from out f False rest"
  using split_csv_quoted [OF assms, of out "[]" f] by (simp add: csv_quote_def)

lemma split_csv_render:
  "csv_ok fs \<Longrightarrow> split_csv_from out [] False (csv_render fs) = out @ fs"
proof (induction fs arbitrary: out)
  case (Cons f fs)
  show ?case
  proof (cases "fs = []")
    case True
    with Cons.prems show ?thesis
      using split_csv_quote [of "[]" out f] by (auto simp: csv_render_def csv_ok_def trim_end_cr_id)
  next
    case False
    then have "csv_render (f # fs) = csv_quote f @ '','' @ csv_render fs"
      by (simp add: csv_render_def join_Cons)
    with split_csv_quote [of "CHR '','' # csv_render fs" out f]
    have "split_csv_from out [] False (csv_render (f # fs))
        = split_csv_from (out @ [f]) [] False (csv_render fs)" by simp
    with Cons.IH [of "out @ [f]"] Cons.prems False show ?thesis by (simp add: csv_ok_def)
  qed
qed (simp add: csv_ok_def)

interpretation csv: codec csv_render "\<lambda>l. Some (split_csv_line l)" csv_ok
  by unfold_locales (simp add: split_csv_line_def split_csv_render)

definition csv_data_row :: "MatcherRow \<Rightarrow> nat \<Rightarrow> bool" where
  "csv_data_row row n \<longleftrightarrow>
     (\<exists>k vs pr. row = ([k], vs, pr) \<and> k \<noteq> [] \<and> length vs = n \<and> i64_min \<le> pr \<and> pr \<le> i64_max)"

lemma parse_i64_range: "parse_i64 s = Some v \<Longrightarrow> i64_min \<le> v \<and> v \<le> i64_max"
  by (auto simp: parse_i64_def Let_def split: option.splits if_splits)

lemma csv_row_shape: "csv_row ki vis pri line = Some row \<Longrightarrow> csv_data_row row (length vis)"
  by (auto simp: csv_row_def csv_data_row_def Let_def bind_eq_Some_conv
        split: if_splits option.splits dest: parse_i64_range) (simp_all add: i64_min_def i64_max_def)

lemma csv_rows_Inr:
  "csv_rows d ki vis pri lines out = Inr res \<Longrightarrow> length out \<le> MAX_DIMENSION_ROWS \<Longrightarrow>
     res = out @ List.map_filter (csv_row ki vis pri) lines \<and> length res \<le> MAX_DIMENSION_ROWS"
proof (induction lines arbitrary: out)
  case (Cons l lines)
  show ?case
  proof (cases "csv_row ki vis pri l")
    case None
    with Cons show ?thesis by (simp add: map_filter_simps)
  next
    case (Some row)
    with Cons.prems have "csv_rows d ki vis pri lines (out @ [row]) = Inr res"
        "length (out @ [row]) \<le> MAX_DIMENSION_ROWS"
      by (auto simp: Let_def split: if_splits)
    from Cons.IH [OF this] Some show ?thesis by (auto simp: map_filter_simps)
  qed
qed (simp add: map_filter_simps)

lemma rows_from_csv_shape:
  assumes "rows_from_csv dim key values pc bytes = Inr rows"
  shows "length rows \<le> MAX_DIMENSION_ROWS \<and> (\<forall>row \<in> set rows. csv_data_row row (length values))"
proof -
  let ?lines = "filter (\<lambda>l. trim l \<noteq> []) (str_lines bytes)"
  from assms have lines: "?lines \<noteq> []"
    by (auto simp: rows_from_csv_def rbind_eq_Inr map_err_eq_Inr from_utf8_Inr)
  then obtain h rest where hr: "?lines = h # rest" by (cases ?lines) auto
  with assms obtain ki vis pri where
      vis: "collect_results (csv_column (d_id dim) (split_csv_line h)) values = Inr vis"
      and rows: "csv_rows (d_id dim) ki vis pri rest [] = Inr rows"
    by (auto simp: rows_from_csv_def rbind_eq_Inr map_err_eq_Inr from_utf8_Inr Let_def)
  from vis have "length vis = length values"
    by (auto simp: collect_results_Inr dest: list_all2_lengthD)
  moreover from csv_rows_Inr [OF rows]
  have "rows = List.map_filter (csv_row ki vis pri) rest" "length rows \<le> MAX_DIMENSION_ROWS"
    by auto
  ultimately show ?thesis using csv_row_shape [of ki vis pri] by (fastforce simp: List.map_filter_def)
qed

section \<open>Properties\<close>

text \<open>Compiling a dimension succeeds exactly when it has at most a million rows and, in exact
  mode, no key occurs twice after case folding, within a row or across rows.\<close>

theorem new_matcher_accepts:
  "is_ok (new_matcher lower dim rows) \<longleftrightarrow>
     length rows \<le> MAX_DIMENSION_ROWS
     \<and> (d_match dim = KeywordSubstring \<or> distinct (folded_patterns lower dim rows))"
  by (cases "d_match dim") (auto simp: is_ok_iff new_matcher_Inr)

text \<open>C20: An exact lookup returns the value of the one row that holds the folded input among its
  keys, and applies \<open>on_miss\<close> when no row does.\<close>

theorem lookup_exact:
  assumes "new_matcher lower dim rows = Inr m" and "d_match dim = Exact"
  shows "((ps, vs, pr) \<in> set rows \<longrightarrow> folds_to lower dim input \<in> folds_to lower dim ` set ps
            \<longrightarrow> lookup lower m input i = Inr (cell vs i))
       \<and> (folds_to lower dim input \<notin> set (folded_patterns lower dim rows)
            \<longrightarrow> lookup lower m input i = Inr (miss_value (d_on_miss dim) input))"
  using lookup_exact_hit [OF assms] lookup_exact_miss [OF assms] by blast

text \<open>C19: A substring lookup returns the value of the matching row of highest priority, the
  earliest one on a tie, and applies \<open>on_miss\<close> when no row matches.\<close>

theorem lookup_keyword:
  assumes "new_matcher lower dim rows = Inr m" and "d_match dim = KeywordSubstring"
  shows "(\<exists>k. best_at (folds_to lower dim input) (map (compile_row lower (d_case_insensitive dim = Some True)) rows) k
            \<and> lookup lower m input i = Inr (cell (fst (snd (rows ! k))) i))
       \<or> ((\<forall>(ps, _, _) \<in> set rows. \<forall>p \<in> set ps.
              \<not> str_contains (folds_to lower dim input) (folds_to lower dim p))
            \<and> lookup lower m input i = Inr (miss_value (d_on_miss dim) input))"
proof -
  let ?compiled = "map (compile_row lower (d_case_insensitive dim = Some True)) rows"
  let ?key = "folds_to lower dim input"
  from assms(1) have m: "dm_rows m = ?compiled" by (simp add: new_matcher_Inr Let_def)
  from best_match_spec [of ?key ?compiled] show ?thesis
  proof
    assume "best_match ?key None ?compiled = None \<and> (\<forall>r \<in> set ?compiled. \<not> row_matches ?key r)"
    with lookup_substring(2) [OF assms] m show ?thesis
      by (fastforce simp: row_matches_def compile_row_def folds_to_def list_ex_iff)
  next
    assume "\<exists>k. best_at ?key ?compiled k \<and> best_match ?key None ?compiled = Some (?compiled ! k)"
    then obtain k where k: "best_at ?key ?compiled k" by blast
    then have "k < length rows" by (simp add: best_at_def)
    then have "cr_values (?compiled ! k) = fst (snd (rows ! k))"
      by (simp add: compile_row_def split: prod.splits)
    with lookup_substring(1) [OF assms] k m show ?thesis by metis
  qed
qed

text \<open>A lookup in a compiled matcher never panics: every index the exact table holds is a row.\<close>

theorem lookup_never_panics:
  assumes "new_matcher lower dim rows = Inr m"
  shows "lookup lower m input i \<noteq> Inl Panic"
proof -
  from assms have "built lower m" unfolding built_def by blast
  from lookup_total [OF this, of input i] show ?thesis by auto
qed

text \<open>Reading a CSV line inverts rendering it with every field quoted: commas, quotes and
  empty fields survive. Only carriage returns that end the last field are lost.\<close>

theorem split_csv_line_roundtrip:
  "csv_ok fs \<Longrightarrow> split_csv_line (csv_render fs) = fs"
  using csv.dec_enc [of fs] by simp

text \<open>Every row read from a reference file has one non-empty key, one cell per declared value
  column and a 64-bit priority, and there are at most a million rows.\<close>

theorem rows_from_csv_ok:
  assumes "rows_from_csv dim key values pc bytes = Inr rows"
  shows "length rows \<le> MAX_DIMENSION_ROWS \<and> (\<forall>row \<in> set rows. csv_data_row row (length values))"
  by (rule rows_from_csv_shape [OF assms])

section \<open>Witnesses\<close>

definition demo_dim :: "MatchMode \<Rightarrow> Dimension" where
  "demo_dim mode =
     \<lparr>d_id = ''d'', d_name = None, d_match = mode, d_case_insensitive = None,
      d_on_miss = Passthrough, d_rows = File ''d/'' ''code'' [''name''] (Some ''p'')\<rparr>"

definition demo_rows :: "MatcherRow list" where
  "demo_rows = [([''CA''], [Some ''Canada''], 0), ([''DE'', ''D''], [None], 7)]"

definition demo_matcher :: "MatchMode \<Rightarrow> DimensionMatcher" where
  "demo_matcher mode = projr (new_matcher (\<lambda>s. s) (demo_dim mode) demo_rows)"

lemma demo_matcher_new:
  "new_matcher (\<lambda>s. s) (demo_dim mode) demo_rows = Inr (demo_matcher mode)"
proof -
  have "is_ok (new_matcher (\<lambda>s. s) (demo_dim mode) demo_rows)"
    by (auto simp: is_ok_iff new_matcher_Inr folded_patterns_def demo_rows_def fold_case_def
          MAX_DIMENSION_ROWS_def)
  then show ?thesis by (auto simp: is_ok_iff demo_matcher_def)
qed

lemma lookup_exact_witness:
  "lookup (\<lambda>s. s) (demo_matcher Exact) ''CA'' 0 = Inr (Some ''Canada'')
   \<and> lookup (\<lambda>s. s) (demo_matcher Exact) ''XX'' 0 = Inr (Some ''XX'')"
  using lookup_exact [OF demo_matcher_new, of Exact "[''CA'']" "[Some ''Canada'']" 0 "''CA''" 0]
    lookup_exact [OF demo_matcher_new, of Exact "[''CA'']" "[Some ''Canada'']" 0 "''XX''" 0]
  by (simp add: demo_dim_def demo_rows_def folds_to_def fold_case_def folded_patterns_def
        cell_def miss_value_def)

lemma lookup_keyword_witness:
  "\<exists>k. lookup (\<lambda>s. s) (demo_matcher KeywordSubstring) ''IN CA'' 0 =
     Inr (cell (fst (snd (demo_rows ! k))) 0)"
proof -
  have "sublist ''CA'' ''IN CA''" by (simp add: sublist_Cons_right)
  then have "\<not> (\<forall>(ps, _, _) \<in> set demo_rows. \<forall>p \<in> set ps.
      \<not> str_contains (folds_to (\<lambda>s. s) (demo_dim KeywordSubstring) ''IN CA'')
          (folds_to (\<lambda>s. s) (demo_dim KeywordSubstring) p))"
    by (auto simp: demo_rows_def folds_to_def fold_case_def demo_dim_def)
  then show ?thesis
    using lookup_keyword [OF demo_matcher_new, of KeywordSubstring "''IN CA''" 0]
    by (auto simp: demo_dim_def)
qed

lemma lookup_never_panics_witness:
  "lookup (\<lambda>s. s) (demo_matcher Exact) ''CA'' 5 \<noteq> Inl Panic"
  by (rule lookup_never_panics [OF demo_matcher_new])

lemma split_csv_line_roundtrip_witness:
  "split_csv_line (csv_render [''a,b'', [], ''c'']) = [''a,b'', [], ''c'']"
  by (rule split_csv_line_roundtrip) (simp add: csv_ok_def)

lemma demo_csv:
  "rows_from_csv (demo_dim Exact) ''k'' [''v''] None ''k,v\<newline>A,B'' = Inr [([''A''], [Some ''B''], 0)]"
proof -
  have "valid_utf8 ''k,v\<newline>A,B''" by (rule valid_utf8_ascii) simp
  then have utf: "from_utf8 ''k,v\<newline>A,B'' = Inr ''k,v\<newline>A,B''" by (simp add: from_utf8_Inr)
  have lines: "str_lines ''k,v\<newline>A,B'' = [''k,v'', ''A,B'']"
    by (simp add: str_lines_def strip_cr_def)
  have trims: "trim ''k,v'' \<noteq> []" "trim ''A,B'' \<noteq> []"
    by (simp_all add: trim_def trim_start.simps trim_end.simps leading_ws_def trailing_ws_def
        unicode_ws_def suffix_def)
  show ?thesis
    by (simp add: rows_from_csv_def utf lines trims split_csv_line_def csv_column_def
        csv_row_def get_at_def demo_dim_def trim_end_cr_def MAX_DIMENSION_ROWS_def)
qed

lemma rows_from_csv_ok_witness:
  "csv_data_row ([''A''], [Some ''B''], 0) (length [''v''])"
  using rows_from_csv_ok [OF demo_csv] by simp

end
