(* ===== verification/Evaluator.thy ===== *)
theory Evaluator
  imports Config_Proofs Dimension_Proofs
begin

text \<open>
  Models \<open>src/evaluator.rs\<close>: compiling a mapping expression into a Polars expression.

  A Polars \<open>Expr\<close> is built and never inspected by the worker, so it is modelled as the term of
  the builder calls that made it, one constructor per builder method. What a builder computes
  is Polars' business and is not modelled; the one closure the worker itself supplies, the
  dimension probe of a \<open>DimRef\<close>, is carried by \<open>EMap\<close> as a function on one cell.
\<close>

section \<open>Polars expressions as builder terms\<close>

datatype DataType = DTInt64 | DTFloat64 | DTString | DTDate | DTDatetimeMs

datatype LitValue = LitStr string | LitNum f64 | LitBool bool | LitInt int | LitNull

datatype BinOp =
    OpAdd | OpSub | OpMul | OpDiv | OpEq | OpNeq | OpGt | OpLt | OpGtEq | OpLtEq | OpAnd | OpOr
  | StrContainsLiteral | StrStripChars

datatype UnOp = OpNot | StrToUppercase | StrToLowercase | DtYear | DtMonth | DtDay

text \<open>\<open>EStrToDate e format strict\<close>, \<open>EConcatStr args separator ignore_nulls\<close>,
  \<open>EWhen cond then otherwise\<close>.\<close>

datatype (plugins only: code size) Expr =
    ECol string
  | ELit LitValue
  | EBin BinOp Expr Expr
  | EUn UnOp Expr
  | ESlice Expr Expr Expr
  | EConcatStr "Expr list" string bool
  | EWhen Expr Expr Expr
  | ECoalesce "Expr list"
  | ECast Expr DataType
  | EStrToDate Expr string bool
  | EMap Expr "string option \<Rightarrow> panic + string option"

datatype EvalError =
    UnknownDimension string
  | UnknownDimensionValue string string
  | EvalPolars string

fun eval_error_display :: "EvalError \<Rightarrow> string" where
  "eval_error_display (UnknownDimension i) = ''unknown dimension `'' @ i @ ''`''"
| "eval_error_display (UnknownDimensionValue i v) =
     ''dimension `'' @ i @ ''` has no value column `'' @ v @ ''`''"
| "eval_error_display (EvalPolars e) = ''polars error: '' @ e"

section \<open>Compilation\<close>

text \<open>\<open>CompileCtx.dimensions\<close>.\<close>

type_synonym Registry = "string \<rightharpoonup> DimensionMatcher"

text \<open>The literal \<open>1000.0\<close>.\<close>

definition f64_thousand :: f64 where "f64_thousand = 0x408F400000000000"

definition cast_dtype :: "CastType \<Rightarrow> DataType" where
  "cast_dtype ty = (case ty of CastInt64 \<Rightarrow> DTInt64 | CastFloat64 \<Rightarrow> DTFloat64
     | CastString \<Rightarrow> DTString | CastDate \<Rightarrow> DTDate)"

text \<open>The closure of a dimension reference, on one cell: \<open>s_opt.and_then(|s| lookup)\<close>.\<close>

definition probe ::
  "(string \<Rightarrow> string) \<Rightarrow> DimensionMatcher \<Rightarrow> nat \<Rightarrow> string option \<Rightarrow> panic + string option" where
  "probe lower m i s_opt = (case s_opt of None \<Rightarrow> Inr None | Some s \<Rightarrow> lookup lower m s i)"

definition compile2 ::
  "BinOp \<Rightarrow> EvalError + Expr \<Rightarrow> EvalError + Expr \<Rightarrow> EvalError + Expr" where
  "compile2 bop l r = rbind l (\<lambda>a. rbind r (\<lambda>b. Inr (EBin bop a b)))"

definition compile1 :: "(Expr \<Rightarrow> Expr) \<Rightarrow> EvalError + Expr \<Rightarrow> EvalError + Expr" where
  "compile1 f i = rbind i (\<lambda>a. Inr (f a))"

definition unix_date :: "Expr \<Rightarrow> Expr" where
  "unix_date millis = ECast (ECast (ECast millis DTInt64) DTDatetimeMs) DTDate"

text \<open>The two checks of a dimension reference, in the order of the code.\<close>

definition dim_ref_probe ::
  "(string \<Rightarrow> string) \<Rightarrow> Registry \<Rightarrow> string \<Rightarrow> string option
    \<Rightarrow> EvalError + (string option \<Rightarrow> panic + string option)" where
  "dim_ref_probe lower reg dim_id value =
     rbind (ok_or (UnknownDimension dim_id) (reg dim_id)) (\<lambda>matcher.
     rbind (ok_or (UnknownDimensionValue dim_id (case value of None \<Rightarrow> [] | Some v \<Rightarrow> v))
              (value_index matcher value)) (\<lambda>i.
     Inr (probe lower matcher i)))"

fun compile :: "(string \<Rightarrow> string) \<Rightarrow> Registry \<Rightarrow> AstNode \<Rightarrow> EvalError + Expr" where
  "compile lower reg (Col name) = Inr (ECol name)"
| "compile lower reg (Str value) = Inr (ELit (LitStr value))"
| "compile lower reg (Num value) = Inr (ELit (LitNum value))"
| "compile lower reg (Bool value) = Inr (ELit (LitBool value))"
| "compile lower reg Null = Inr (ELit LitNull)"
| "compile lower reg (Add l r) = compile2 OpAdd (compile lower reg l) (compile lower reg r)"
| "compile lower reg (Sub l r) = compile2 OpSub (compile lower reg l) (compile lower reg r)"
| "compile lower reg (Mul l r) = compile2 OpMul (compile lower reg l) (compile lower reg r)"
| "compile lower reg (Div l r) = compile2 OpDiv (compile lower reg l) (compile lower reg r)"
| "compile lower reg (Eq l r) = compile2 OpEq (compile lower reg l) (compile lower reg r)"
| "compile lower reg (Ne l r) = compile2 OpNeq (compile lower reg l) (compile lower reg r)"
| "compile lower reg (Gt l r) = compile2 OpGt (compile lower reg l) (compile lower reg r)"
| "compile lower reg (Lt l r) = compile2 OpLt (compile lower reg l) (compile lower reg r)"
| "compile lower reg (Ge l r) = compile2 OpGtEq (compile lower reg l) (compile lower reg r)"
| "compile lower reg (Le l r) = compile2 OpLtEq (compile lower reg l) (compile lower reg r)"
| "compile lower reg (Contains i p) =
     compile2 StrContainsLiteral (compile lower reg i) (compile lower reg p)"
| "compile lower reg (FromUnix i unit) =
     compile1 (\<lambda>e. unix_date (if unit = Some ''ms'' then e
                 else EBin OpMul e (ELit (LitNum f64_thousand))))
       (compile lower reg i)"
| "compile lower reg (And l r) = compile2 OpAnd (compile lower reg l) (compile lower reg r)"
| "compile lower reg (Or l r) = compile2 OpOr (compile lower reg l) (compile lower reg r)"
| "compile lower reg (NotNode i) = compile1 (EUn OpNot) (compile lower reg i)"
| "compile lower reg (Upper i) = compile1 (EUn StrToUppercase) (compile lower reg i)"
| "compile lower reg (Lower i) = compile1 (EUn StrToLowercase) (compile lower reg i)"
| "compile lower reg (Trim i) =
     compile1 (\<lambda>e. EBin StrStripChars e (ELit LitNull)) (compile lower reg i)"
| "compile lower reg (Substring i start len) =
     compile1 (\<lambda>e. ESlice e (ELit (LitInt start))
                 (case len of Some l \<Rightarrow> ELit (LitInt l) | None \<Rightarrow> ELit LitNull))
       (compile lower reg i)"
| "compile lower reg (Concat sep args) =
     rbind (collect_results (compile lower reg) args) (\<lambda>es. Inr (EConcatStr es sep True))"
| "compile lower reg (IfNode c t e) =
     rbind (compile lower reg c) (\<lambda>c'. rbind (compile lower reg t) (\<lambda>t'.
     rbind (compile lower reg e) (\<lambda>e'. Inr (EWhen c' t' e'))))"
| "compile lower reg (Coalesce args) =
     (if args = [] then Inr (ELit LitNull)
      else rbind (collect_results (compile lower reg) args) (\<lambda>es. Inr (ECoalesce es)))"
| "compile lower reg (Cast i ty) =
     compile1 (\<lambda>e. ECast e (cast_dtype ty)) (compile lower reg i)"
| "compile lower reg (Year i) = compile1 (\<lambda>e. ECast (EUn DtYear e) DTInt64) (compile lower reg i)"
| "compile lower reg (Month i) =
     compile1 (\<lambda>e. ECast (EUn DtMonth e) DTInt64) (compile lower reg i)"
| "compile lower reg (Day i) = compile1 (\<lambda>e. ECast (EUn DtDay e) DTInt64) (compile lower reg i)"
| "compile lower reg (ParseDate i format) =
     compile1 (\<lambda>e. EStrToDate e format False) (compile lower reg i)"
| "compile lower reg (DimRef dim_id value i) =
     rbind (dim_ref_probe lower reg dim_id value) (\<lambda>f.
     rbind (compile lower reg i) (\<lambda>e. Inr (EMap e f)))"

end
