(* ===== verification/Evaluator_Proofs.thy ===== *)
theory Evaluator_Proofs
  imports Evaluator
begin

text \<open>
  The lemmas about compilation: when it succeeds, which error it reports, what the compiled
  expression reads, and that a validated configuration compiles.
\<close>

section \<open>References of a tree from those of its children\<close>

text \<open>The reference a node itself makes.\<close>

definition own_refs :: "AstNode \<Rightarrow> (string \<times> string option) set" where
  "own_refs n = set_option (as_dim_ref n)"

definition own_cols :: "AstNode \<Rightarrow> string set" where
  "own_cols n = set_option (as_col n)"

lemma dim_refs_step: "dim_refs n = own_refs n \<union> (\<Union>c \<in> set (children n). dim_refs c)"
  unfolding dim_refs_def own_refs_def by (subst ast_nodes.simps) auto

lemma col_refs_step: "col_refs n = own_cols n \<union> (\<Union>c \<in> set (children n). col_refs c)"
  unfolding col_refs_def own_cols_def by (subst ast_nodes.simps) (auto simp: as_col_Some)

lemma ast_induct:
  assumes "\<And>n. (\<And>c. c \<in> set (children n) \<Longrightarrow> P c) \<Longrightarrow> P n"
  shows "P n"
proof (induction "size n" arbitrary: n rule: less_induct)
  case less
  then show ?case using assms children_size by blast
qed

section \<open>One node\<close>

text \<open>Why a dimension reference does not resolve, if it does not.\<close>

definition unresolved :: "Registry \<Rightarrow> string \<times> string option \<Rightarrow> EvalError option" where
  "unresolved reg r =
     (case r of (d, v) \<Rightarrow>
        (case reg d of
           None \<Rightarrow> Some (UnknownDimension d)
         | Some m \<Rightarrow>
             (case v of
                None \<Rightarrow> None
              | Some c \<Rightarrow> if c \<in> set (dm_value_columns m) then None
                          else Some (UnknownDimensionValue d c))))"

lemma value_index_None:
  "value_index m v = None \<longleftrightarrow> (\<exists>c. v = Some c \<and> c \<notin> set (dm_value_columns m))"
  by (auto simp: value_index_def position_None split: option.splits)

lemma dim_ref_probe_result:
  "(unresolved reg (d, v) = None \<and> (\<exists>m i. reg d = Some m \<and> value_index m v = Some i
       \<and> dim_ref_probe lower reg d v = Inr (probe lower m i)))
   \<or> (\<exists>e. unresolved reg (d, v) = Some e \<and> dim_ref_probe lower reg d v = Inl e)"
proof (cases "reg d")
  case (Some m)
  then show ?thesis
    using value_index_None [of m v]
    by (cases "value_index m v") (auto simp: dim_ref_probe_def unresolved_def split: option.splits)
qed (simp add: dim_ref_probe_def unresolved_def)

lemma compile2_eq [result_simps]:
  "compile2 bop l r = Inr e \<longleftrightarrow> (\<exists>a b. l = Inr a \<and> r = Inr b \<and> e = EBin bop a b)"
  "compile2 bop l r = Inl err \<longleftrightarrow> l = Inl err \<or> (\<exists>a. l = Inr a \<and> r = Inl err)"
  by (auto simp: compile2_def result_simps)

lemma compile1_eq [result_simps]:
  "compile1 f i = Inr e \<longleftrightarrow> (\<exists>a. i = Inr a \<and> e = f a)"
  "compile1 f i = Inl err \<longleftrightarrow> i = Inl err"
  by (auto simp: compile1_def result_simps)

text \<open>The references of a node are its own and its children's; it compiles when they do.\<close>

lemma compile_step:
  "is_ok (compile lower reg n) \<longleftrightarrow>
     (\<forall>r \<in> own_refs n. unresolved reg r = None)
     \<and> (\<forall>c \<in> set (children n). is_ok (compile lower reg c))"
proof (cases "as_dim_ref n")
  case None
  then show ?thesis
    by (cases n) (auto simp: own_refs_def is_ok_iff result_simps is_ok_collect [unfolded is_ok_iff])
next
  case (Some r)
  then obtain d v i where n: "n = DimRef d v i" by (cases r) (auto simp: as_dim_ref_Some)
  show ?thesis
    using dim_ref_probe_result [of reg d v lower] unfolding n
    by (auto simp: own_refs_def is_ok_iff result_simps)
qed

lemma compile_ok_iff:
  "is_ok (compile lower reg n) \<longleftrightarrow> (\<forall>r \<in> dim_refs n. unresolved reg r = None)"
proof (induction n rule: ast_induct)
  case (1 n)
  then show ?case
    by (subst compile_step, subst dim_refs_step) blast
qed

lemma compile_Inl_step:
  assumes "compile lower reg n = Inl e"
  shows "(\<exists>r \<in> own_refs n. unresolved reg r = Some e)
       \<or> (\<exists>c \<in> set (children n). compile lower reg c = Inl e)"
proof (cases "as_dim_ref n")
  case None
  with assms show ?thesis
    by (cases n) (auto simp: result_simps split: if_splits dest: collect_results_Inl)
next
  case (Some r)
  then obtain d v i where n: "n = DimRef d v i" by (cases r) (auto simp: as_dim_ref_Some)
  show ?thesis
    using dim_ref_probe_result [of reg d v lower] assms unfolding n
    by (auto simp: own_refs_def result_simps)
qed

lemma compile_Inl:
  "compile lower reg n = Inl e \<Longrightarrow> \<exists>r \<in> dim_refs n. unresolved reg r = Some e"
proof (induction n rule: ast_induct)
  case (1 n)
  from compile_Inl_step [OF 1(2)] 1(1) show ?case by (subst dim_refs_step) blast
qed

section \<open>What a compiled expression reads\<close>

fun expr_cols :: "Expr \<Rightarrow> string set" where
  "expr_cols (ECol c) = {c}"
| "expr_cols (ELit v) = {}"
| "expr_cols (EBin bop l r) = expr_cols l \<union> expr_cols r"
| "expr_cols (EUn uop e) = expr_cols e"
| "expr_cols (ESlice e s l) = expr_cols e \<union> expr_cols s \<union> expr_cols l"
| "expr_cols (EConcatStr es sep b) = (\<Union>e \<in> set es. expr_cols e)"
| "expr_cols (EWhen c t e) = expr_cols c \<union> expr_cols t \<union> expr_cols e"
| "expr_cols (ECoalesce es) = (\<Union>e \<in> set es. expr_cols e)"
| "expr_cols (ECast e ty) = expr_cols e"
| "expr_cols (EStrToDate e f b) = expr_cols e"
| "expr_cols (EMap e f) = expr_cols e"

text \<open>The closures the worker hands to Polars.\<close>

fun expr_probes :: "Expr \<Rightarrow> (string option \<Rightarrow> panic + string option) set" where
  "expr_probes (ECol c) = {}"
| "expr_probes (ELit v) = {}"
| "expr_probes (EBin bop l r) = expr_probes l \<union> expr_probes r"
| "expr_probes (EUn uop e) = expr_probes e"
| "expr_probes (ESlice e s l) = expr_probes e \<union> expr_probes s \<union> expr_probes l"
| "expr_probes (EConcatStr es sep b) = (\<Union>e \<in> set es. expr_probes e)"
| "expr_probes (EWhen c t e) = expr_probes c \<union> expr_probes t \<union> expr_probes e"
| "expr_probes (ECoalesce es) = (\<Union>e \<in> set es. expr_probes e)"
| "expr_probes (ECast e ty) = expr_probes e"
| "expr_probes (EStrToDate e f b) = expr_probes e"
| "expr_probes (EMap e f) = insert f (expr_probes e)"

lemma unix_date_reads [simp]:
  "expr_cols (unix_date e) = expr_cols e"
  "expr_probes (unix_date e) = expr_probes e"
  by (simp_all add: unix_date_def)

text \<open>What a result contributes: nothing when it is an error.\<close>

definition ok_set :: "('a \<Rightarrow> 'b set) \<Rightarrow> 'e + 'a \<Rightarrow> 'b set" where
  "ok_set g r = (case r of Inl _ \<Rightarrow> {} | Inr a \<Rightarrow> g a)"

lemma ok_set_simps [simp]: "ok_set g (Inl e) = {}" "ok_set g (Inr a) = g a"
  by (simp_all add: ok_set_def)

lemma collect_ok_set:
  "collect_results f xs = Inr ys \<Longrightarrow> (\<Union>y \<in> set ys. g y) = (\<Union>x \<in> set xs. ok_set g (f x))"
proof (induction xs arbitrary: ys)
  case (Cons x xs)
  then obtain a as where "f x = Inr a" "collect_results f xs = Inr as" "ys = a # as"
    by (auto simp: rbind_eq_Inr)
  with Cons.IH [of as] show ?case by simp
qed simp

lemma compile_cols_step:
  "compile lower reg n = Inr e \<Longrightarrow>
     expr_cols e = own_cols n \<union> (\<Union>c \<in> set (children n). ok_set expr_cols (compile lower reg c))"
  by (cases n) (auto simp: own_cols_def result_simps collect_ok_set split: if_splits option.splits)

definition own_probes ::
  "(string \<Rightarrow> string) \<Rightarrow> Registry \<Rightarrow> AstNode \<Rightarrow> (string option \<Rightarrow> panic + string option) set" where
  "own_probes lower reg n =
     (case as_dim_ref n of None \<Rightarrow> {}
      | Some (d, v) \<Rightarrow> ok_set (\<lambda>f. {f}) (dim_ref_probe lower reg d v))"

lemma compile_probes_step:
  "compile lower reg n = Inr e \<Longrightarrow>
     expr_probes e =
       own_probes lower reg n \<union> (\<Union>c \<in> set (children n). ok_set expr_probes (compile lower reg c))"
  by (cases n) (auto simp: own_probes_def result_simps collect_ok_set split: if_splits option.splits)

lemma compile_child_ok:
  "compile lower reg n = Inr e \<Longrightarrow> c \<in> set (children n) \<Longrightarrow> \<exists>a. compile lower reg c = Inr a"
  using compile_step [of lower reg n] by (auto simp: is_ok_iff)

lemma compile_cols: "compile lower reg n = Inr e \<Longrightarrow> expr_cols e = col_refs n"
proof (induction n arbitrary: e rule: ast_induct)
  case (1 n)
  have "ok_set expr_cols (compile lower reg c) = col_refs c" if "c \<in> set (children n)" for c
    using compile_child_ok [OF "1.prems" that] "1.IH" [OF that] by auto
  with compile_cols_step [OF "1.prems"] show ?case by (simp add: col_refs_step [of n])
qed

lemma compile_probes:
  "compile lower reg n = Inr e \<Longrightarrow> f \<in> expr_probes e \<Longrightarrow>
     \<exists>d v m i. (d, v) \<in> dim_refs n \<and> reg d = Some m \<and> value_index m v = Some i
       \<and> f = probe lower m i"
proof (induction n arbitrary: e rule: ast_induct)
  case (1 n)
  from compile_probes_step [OF "1.prems"(1)] "1.prems"(2) consider
      (own) "f \<in> own_probes lower reg n"
    | (child) c where "c \<in> set (children n)" "f \<in> ok_set expr_probes (compile lower reg c)"
    by blast
  then show ?case
  proof cases
    case own
    then obtain d v where ref: "as_dim_ref n = Some (d, v)"
        and f: "dim_ref_probe lower reg d v = Inr f"
      by (auto simp: own_probes_def ok_set_def split: option.splits sum.splits)
    from ref have "(d, v) \<in> dim_refs n" by (simp add: dim_refs_step [of n] own_refs_def)
    moreover from dim_ref_probe_result [of reg d v lower] f
    obtain m i where "reg d = Some m" "value_index m v = Some i" "f = probe lower m i" by auto
    ultimately show ?thesis by blast
  next
    case child
    from compile_child_ok [OF "1.prems"(1) child(1)] child "1.IH" [OF child(1)]
    have "\<exists>d v m i. (d, v) \<in> dim_refs c \<and> reg d = Some m \<and> value_index m v = Some i
       \<and> f = probe lower m i" by auto
    moreover have "dim_refs c \<subseteq> dim_refs n"
      using child(1) by (auto simp: dim_refs_step [of n])
    ultimately show ?thesis by blast
  qed
qed

lemma probe_total:
  assumes "registers lower dims reg" and "reg d = Some m"
  shows "\<exists>v. probe lower m i s = Inr v"
  using lookup_total [OF registers_built [OF assms]]
  by (cases s) (auto simp: probe_def)

section \<open>Validated configurations compile\<close>

text \<open>A registry that holds a matcher compiled from each dimension, as \<open>execute_job\<close> builds it.\<close>

definition covers :: "(string \<Rightarrow> string) \<Rightarrow> Dimension list \<Rightarrow> Registry \<Rightarrow> bool" where
  "covers lower dims reg \<longleftrightarrow> registers lower dims reg \<and> d_id ` set dims \<subseteq> dom reg"

lemma build_inline_Inr:
  assumes "build_inline_registry lower dims = Inr reg"
  shows "registers lower dims reg \<and> dom reg = d_id ` {d \<in> set dims. is_inline d}"
proof -
  have "registers lower dims Map.empty" by (simp add: registers_def)
  with register_inline_Inr [OF assms [unfolded build_inline_registry_def]] show ?thesis by simp
qed

lemma covers_matcher:
  assumes "covers lower dims reg" and "distinct (map d_id dims)" and "dim \<in> set dims"
  shows "\<exists>m. reg (d_id dim) = Some m \<and> dm_value_columns m = value_columns dim"
proof -
  from assms(1,3) obtain m where m: "reg (d_id dim) = Some m" by (auto simp: covers_def)
  from assms(1) have "registers lower dims reg" by (simp add: covers_def)
  from registers_value_index [OF this m] obtain dim' where
    "dim' \<in> set dims" "d_id dim' = d_id dim" "dm_value_columns m = value_columns dim'" by blast
  with assms(2,3) have "dim' = dim" by (auto simp: distinct_map dest: inj_onD)
  with m \<open>dm_value_columns m = value_columns dim'\<close> show ?thesis by simp
qed

lemma valid_mapping_dims:
  "valid_mapping cfg mp \<Longrightarrow> c \<in> set (m_columns mp) \<Longrightarrow> (d, v) \<in> dim_refs (mc_expr c) \<Longrightarrow>
     \<exists>dim \<in> set (cfg_dimensions cfg). d_id dim = d
       \<and> (\<forall>col. v = Some col \<longrightarrow> col \<in> set (value_columns dim))"
  unfolding valid_mapping_def by fast

lemma valid_columns_compile:
  assumes "valid_config cfg" and "covers lower (cfg_dimensions cfg) reg"
    and "mp \<in> set (cfg_mappings cfg)" and "c \<in> set (m_columns mp)"
  shows "is_ok (compile lower reg (mc_expr c))"
  unfolding compile_ok_iff
proof
  fix r
  assume r: "r \<in> dim_refs (mc_expr c)"
  obtain d v where dv: "r = (d, v)" by (cases r)
  from assms(1,3) have "valid_mapping cfg mp" by (simp add: valid_config_def)
  from valid_mapping_dims [OF this assms(4) r [unfolded dv]] obtain dim where
    dim: "dim \<in> set (cfg_dimensions cfg)" "d_id dim = d"
      "\<forall>col. v = Some col \<longrightarrow> col \<in> set (value_columns dim)" by blast
  from covers_matcher [OF assms(2) valid_dims_distinct [OF assms(1)] dim(1)] dim
  show "unresolved reg r = None" by (auto simp: dv unresolved_def split: option.splits)
qed

section \<open>Properties\<close>

text \<open>An expression compiles exactly when every dimension reference in it, at any depth, names
  a registered matcher and a value column of it.\<close>

theorem compile_succeeds:
  "is_ok (compile lower reg n) \<longleftrightarrow> dim_refs n \<subseteq> {r. unresolved reg r = None}"
  by (auto simp: compile_ok_iff)

text \<open>A compilation error is the one a dimension reference of the expression calls for:
  \<open>UnknownDimension\<close> when the registry lacks it, \<open>UnknownDimensionValue\<close> when its matcher has no
  such column.\<close>

theorem compile_error_is_real:
  "compile lower reg n = Inl e \<Longrightarrow> \<exists>r \<in> dim_refs n. unresolved reg r = Some e"
  by (rule compile_Inl)

text \<open>The compiled expression reads exactly the columns the source expression names.\<close>

theorem compiled_columns: "compile lower reg n = Inr e \<Longrightarrow> expr_cols e = col_refs n"
  by (rule compile_cols)

text \<open>Every closure of a compiled expression maps null to null and any other cell to the lookup
  of a referenced dimension, and cannot panic when the registry's matchers were compiled from the
  configuration's dimensions.\<close>

theorem compiled_probes:
  assumes "compile lower reg n = Inr e" and "registers lower dims reg" and "f \<in> expr_probes e"
  shows "f None = Inr None \<and> f s \<noteq> Inl Panic
    \<and> (\<exists>d v m i. (d, v) \<in> dim_refs n \<and> reg d = Some m \<and> value_index m v = Some i
         \<and> f (Some t) = lookup lower m t i)"
proof -
  from compile_probes [OF assms(1,3)] obtain d v m i where
    r: "(d, v) \<in> dim_refs n" "reg d = Some m" "value_index m v = Some i" "f = probe lower m i"
    by blast
  moreover from probe_total [OF assms(2) r(2), of i s] r(4) have "f s \<noteq> Inl Panic" by auto
  ultimately show ?thesis by (auto simp: probe_def)
qed

text \<open>In a validated configuration every mapping column compiles against a registry that has a
  matcher for each dimension.\<close>

theorem validated_columns_compile:
  assumes "validate cfg = Inr ()" and "covers lower (cfg_dimensions cfg) reg"
    and "mp \<in> set (cfg_mappings cfg)" and "c \<in> set (m_columns mp)"
  shows "is_ok (compile lower reg (mc_expr c))"
  using assms valid_columns_compile unfolding validate_ok by blast

text \<open>Compiling the inline dimensions of a validated configuration, all of whose dimensions are
  inline, gives a registry against which every mapping column compiles.\<close>

theorem inline_registry_suffices:
  assumes "validate cfg = Inr ()" and "\<forall>d \<in> set (cfg_dimensions cfg). is_inline d"
    and "build_inline_registry lower (cfg_dimensions cfg) = Inr reg"
    and "mp \<in> set (cfg_mappings cfg)" and "c \<in> set (m_columns mp)"
  shows "is_ok (compile lower reg (mc_expr c))"
proof -
  from build_inline_Inr [OF assms(3)] assms(2)
  have "covers lower (cfg_dimensions cfg) reg" by (auto simp: covers_def)
  with assms show ?thesis using valid_columns_compile unfolding validate_ok by blast
qed

section \<open>Witnesses\<close>

definition demo_registry :: Registry where
  "demo_registry = projr (build_inline_registry (\<lambda>s. s) [demo_countries])"

lemma demo_registry_built:
  "build_inline_registry (\<lambda>s. s) (cfg_dimensions (demo_config p)) = Inr demo_registry"
proof -
  have "is_ok (new_matcher (\<lambda>s. s) demo_countries [([''CA''], [Some ''Canada''], 0)])"
    by (auto simp: is_ok_iff new_matcher_Inr folded_patterns_def fold_case_def MAX_DIMENSION_ROWS_def)
  then show ?thesis
    by (auto simp: is_ok_iff demo_registry_def build_inline_registry_def demo_config_def
          demo_countries_def inline_triples_def)
qed

lemma demo_dims: "cfg_dimensions (demo_config p) = [demo_countries]"
  by (simp add: demo_config_def)

lemma demo_registry_registers: "registers (\<lambda>s. s) [demo_countries] demo_registry"
  using build_inline_Inr [OF demo_registry_built] by (simp add: demo_dims)

lemma demo_covers: "covers (\<lambda>s. s) (cfg_dimensions (demo_config p)) demo_registry"
proof -
  have "is_inline demo_countries" by (simp add: is_inline_def demo_countries_def)
  with build_inline_Inr [OF demo_registry_built] show ?thesis
    unfolding covers_def demo_dims by auto
qed

lemma demo_matcher_columns:
  "\<exists>m. demo_registry ''c'' = Some m \<and> dm_value_columns m = [''n'']"
  using covers_matcher [OF demo_covers [of None], of demo_countries]
  by (simp add: demo_config_def) (simp add: demo_countries_def value_columns_def)

lemma demo_config_ok: "validate (demo_config None) = Inr ()"
  by (simp add: validate_ok demo_config_valid)

lemma compile_error_is_real_witness:
  "\<exists>r \<in> dim_refs (DimRef ''c'' None (Col ''a'')).
     unresolved Map.empty r = Some (UnknownDimension ''c'')"
  by (rule compile_error_is_real [of "\<lambda>s. s"]) (simp add: dim_ref_probe_def)

lemma compiled_columns_witness: "expr_cols (EUn StrToUppercase (ECol ''a'')) = col_refs (Upper (Col ''a''))"
  by (rule compiled_columns [of "\<lambda>s. s" Map.empty]) (simp add: compile1_def)

definition demo_probe :: "string option \<Rightarrow> panic + string option" where
  "demo_probe = probe (\<lambda>s. s) (the (demo_registry ''c'')) 0"

lemma demo_compiles:
  "compile (\<lambda>s. s) demo_registry (DimRef ''c'' None (Col ''a'')) = Inr (EMap (ECol ''a'') demo_probe)"
  using demo_matcher_columns by (auto simp: dim_ref_probe_def value_index_def demo_probe_def)

lemma compiled_probes_witness: "demo_probe None = Inr None \<and> demo_probe (Some ''CA'') \<noteq> Inl Panic"
  using compiled_probes [OF demo_compiles demo_registry_registers, of demo_probe "Some ''CA''"]
  by simp

lemma validated_columns_compile_witness:
  "is_ok (compile (\<lambda>s. s) demo_registry (DimRef ''c'' (Some ''n'') (Col ''a'')))"
  using validated_columns_compile [OF demo_config_ok demo_covers, of "demo_mapping None"
      "\<lparr>mc_name = ''x'', mc_expr = DimRef ''c'' (Some ''n'') (Col ''a'')\<rparr>"]
  by (simp add: demo_config_def) (simp add: demo_mapping_def)

lemma inline_registry_suffices_witness:
  "is_ok (compile (\<lambda>s. s) demo_registry (DimRef ''c'' (Some ''n'') (Col ''a'')))"
  using inline_registry_suffices [OF demo_config_ok _ demo_registry_built, of "demo_mapping None"
      "\<lparr>mc_name = ''x'', mc_expr = DimRef ''c'' (Some ''n'') (Col ''a'')\<rparr>"]
  by (simp add: demo_config_def) (simp add: demo_mapping_def is_inline_def demo_countries_def)

section \<open>A value column named by a filter\<close>

text \<open>Validation does not look at the value column a \<open>where\<close> predicate names.\<close>

definition demo_filter :: AstNode where
  "demo_filter = Eq (DimRef ''c'' (Some ''nope'') (Col ''x'')) (Col ''x'')"

lemma demo_filter_refs:
  "dim_refs demo_filter = {(''c'', Some ''nope'')}" "col_refs demo_filter = {''x''}"
proof -
  have "ast_nodes demo_filter = [demo_filter, DimRef ''c'' (Some ''nope'') (Col ''x''), Col ''x'', Col ''x'']"
    by (subst ast_nodes.simps) (simp add: demo_filter_def demo_config_nodes)
  then show "dim_refs demo_filter = {(''c'', Some ''nope'')}" "col_refs demo_filter = {''x''}"
    by (auto simp: dim_refs_def col_refs_def demo_filter_def)
qed

text \<open>A configuration whose filter names an unknown value column is accepted by validation, and
  the filter then fails to compile in every job.\<close>

theorem where_value_unchecked:
  "\<exists>cfg mp p reg. validate cfg = Inr () \<and> mp \<in> set (cfg_mappings cfg) \<and> m_where mp = Some p
     \<and> covers (\<lambda>s. s) (cfg_dimensions cfg) reg
     \<and> compile (\<lambda>s. s) reg p = Inl (UnknownDimensionValue ''c'' ''nope'')"
proof (intro exI conjI)
  show "validate (demo_config (Some demo_filter)) = Inr ()"
    unfolding validate_ok by (rule demo_config_valid) (simp add: demo_filter_refs)
  show "demo_mapping (Some demo_filter) \<in> set (cfg_mappings (demo_config (Some demo_filter)))"
    by (simp add: demo_config_def)
  show "m_where (demo_mapping (Some demo_filter)) = Some demo_filter" by (simp add: demo_mapping_def)
  show "covers (\<lambda>s. s) (cfg_dimensions (demo_config (Some demo_filter))) demo_registry"
    by (rule demo_covers)
  show "compile (\<lambda>s. s) demo_registry demo_filter = Inl (UnknownDimensionValue ''c'' ''nope'')"
    using demo_matcher_columns
    by (auto simp: demo_filter_def dim_ref_probe_def value_index_def compile2_def)
qed

end
