(* ===== verification/S3.thy ===== *)
theory S3
  imports Prelude "HOL-Library.AList"
begin

text \<open>
  Models \<open>src/s3.rs\<close>. The S3 client is third-party code: its four calls are the fields of
  \<open>S3Ops\<close>, on a state \<open>'w\<close> that stands for the object store and whatever makes a call fail. An
  SDK error is its message and the messages of its source chain. \<open>s3_laws\<close> is the documented
  behaviour later statements assume; \<open>Mem_Store\<close> is an instance that meets it.
\<close>

section \<open>The client\<close>

type_synonym S3Error = "string \<times> string list"

text \<open>Bucket and key.\<close>

type_synonym Object = "string \<times> string"

text \<open>A listing page holds the optional key of each object and the next continuation token. A body
  is collected after \<open>get_object\<close> has answered, and can fail on its own.\<close>

record 'w S3Ops =
  list_objects_v2 ::
    "'w \<Rightarrow> string \<Rightarrow> string \<Rightarrow> string option \<Rightarrow> (S3Error + string option list \<times> string option) \<times> 'w"
  get_object :: "'w \<Rightarrow> string \<Rightarrow> string \<Rightarrow> (S3Error + (S3Error + string)) \<times> 'w"
  put_object :: "'w \<Rightarrow> string \<Rightarrow> string \<Rightarrow> string \<Rightarrow> (S3Error + unit) \<times> 'w"
  delete_object :: "'w \<Rightarrow> string \<Rightarrow> string \<Rightarrow> (S3Error + unit) \<times> 'w"

section \<open>The helpers\<close>

fun err_chain_from :: "string \<Rightarrow> string list \<Rightarrow> string" where
  "err_chain_from out [] = out"
| "err_chain_from out (inner # rest) =
     err_chain_from (if ends_with out inner then out else out @ '': '' @ inner) rest"

definition err_chain :: "S3Error \<Rightarrow> string" where
  "err_chain e = err_chain_from (fst e) (snd e)"

text \<open>The paging loop, which ends when the store stops sending tokens.\<close>

partial_function (option) list_from ::
  "'w S3Ops \<Rightarrow> 'w \<Rightarrow> string \<Rightarrow> string \<Rightarrow> string option \<Rightarrow> string list
    \<Rightarrow> ((string + string list) \<times> 'w) option" where
  "list_from s3 w bucket pre token keys =
     (case list_objects_v2 s3 w bucket pre token of
        (Inl e, w') \<Rightarrow> Some (Inl (''S3 ListObjects failed: '' @ err_chain e), w')
      | (Inr (contents, next_token), w') \<Rightarrow>
          (let keys' = keys @ List.map_filter (\<lambda>k. k) contents
           in case next_token of
                Some t \<Rightarrow> list_from s3 w' bucket pre (Some t) keys'
              | None \<Rightarrow> Some (Inr keys', w')))"

definition list_keys ::
  "'w S3Ops \<Rightarrow> 'w \<Rightarrow> string \<Rightarrow> string \<Rightarrow> ((string + string list) \<times> 'w) option" where
  "list_keys s3 w bucket pre = list_from s3 w bucket pre None []"

definition get_bytes :: "'w S3Ops \<Rightarrow> 'w \<Rightarrow> string \<Rightarrow> string \<Rightarrow> (string + string) \<times> 'w" where
  "get_bytes s3 w bucket key =
     (case get_object s3 w bucket key of
        (Inl e, w') \<Rightarrow> (Inl (''S3 GetObject failed for '' @ key @ '': '' @ err_chain e), w')
      | (Inr (Inl e), w') \<Rightarrow> (Inl (''S3 body read: '' @ err_chain e), w')
      | (Inr (Inr bytes), w') \<Rightarrow> (Inr bytes, w'))"

section \<open>Documented behaviour\<close>

text \<open>
  \<open>obj w\<close> is what the store holds. Reads do not change it; a put or a delete that succeeds takes
  effect, one that fails has taken effect or not, on that one object. \<open>rest t\<close> are the keys a
  listing has left to send at token \<open>t\<close>, none twice: every page sends the next of them, and a page that
  announces another one is not empty.
\<close>

definition pages ::
  "'w S3Ops \<Rightarrow> ('w \<Rightarrow> Object \<rightharpoonup> string) \<Rightarrow> (Object \<rightharpoonup> string) \<Rightarrow> string \<Rightarrow> string
    \<Rightarrow> (string option \<Rightarrow> string list) \<Rightarrow> bool" where
  "pages s3 obj objects bucket pre rest \<longleftrightarrow>
     (\<forall>w t r w'. obj w = objects \<longrightarrow> list_objects_v2 s3 w bucket pre t = (r, w') \<longrightarrow>
        obj w' = objects
        \<and> (\<forall>contents. r = Inr (contents, None) \<longrightarrow> rest t = List.map_filter (\<lambda>k. k) contents)
        \<and> (\<forall>contents t'. r = Inr (contents, Some t') \<longrightarrow>
             rest t = List.map_filter (\<lambda>k. k) contents @ rest (Some t')
             \<and> length (rest (Some t')) < length (rest t)))"

definition get_law :: "'w S3Ops \<Rightarrow> ('w \<Rightarrow> Object \<rightharpoonup> string) \<Rightarrow> bool" where
  "get_law s3 obj \<longleftrightarrow>
     (\<forall>w b k r w'. get_object s3 w b k = (r, w') \<longrightarrow>
        obj w' = obj w \<and> (\<forall>body. r = Inr (Inr body) \<longrightarrow> obj w (b, k) = Some body))"

definition put_law :: "'w S3Ops \<Rightarrow> ('w \<Rightarrow> Object \<rightharpoonup> string) \<Rightarrow> bool" where
  "put_law s3 obj \<longleftrightarrow>
     (\<forall>w b k body r w'. put_object s3 w b k body = (r, w') \<longrightarrow>
        obj w' = (obj w)((b, k) \<mapsto> body) \<or> r \<noteq> Inr () \<and> obj w' = obj w)"

definition delete_law :: "'w S3Ops \<Rightarrow> ('w \<Rightarrow> Object \<rightharpoonup> string) \<Rightarrow> bool" where
  "delete_law s3 obj \<longleftrightarrow>
     (\<forall>w b k r w'. delete_object s3 w b k = (r, w') \<longrightarrow>
        obj w' = (obj w)((b, k) := None) \<or> r \<noteq> Inr () \<and> obj w' = obj w)"

definition list_law :: "'w S3Ops \<Rightarrow> ('w \<Rightarrow> Object \<rightharpoonup> string) \<Rightarrow> bool" where
  "list_law s3 obj \<longleftrightarrow>
     (\<forall>w b pre. \<exists>rest. pages s3 obj (obj w) b pre rest \<and> distinct (rest None)
        \<and> set (rest None) = {k. obj w (b, k) \<noteq> None \<and> starts_with k pre})"

definition s3_laws :: "'w S3Ops \<Rightarrow> ('w \<Rightarrow> Object \<rightharpoonup> string) \<Rightarrow> bool" where
  "s3_laws s3 obj \<longleftrightarrow> get_law s3 obj \<and> put_law s3 obj \<and> delete_law s3 obj \<and> list_law s3 obj"

lemma s3_put:
  assumes "s3_laws s3 obj" and "put_object s3 w b k body = (r, w')"
  shows "obj w' = (obj w)((b, k) \<mapsto> body) \<or> r \<noteq> Inr () \<and> obj w' = obj w"
  using assms unfolding s3_laws_def put_law_def by blast

lemma s3_delete:
  assumes "s3_laws s3 obj" and "delete_object s3 w b k = (r, w')"
  shows "obj w' = (obj w)((b, k) := None) \<or> r \<noteq> Inr () \<and> obj w' = obj w"
  using assms unfolding s3_laws_def delete_law_def by blast

lemma s3_get:
  assumes "s3_laws s3 obj" and "get_object s3 w b k = (r, w')"
  shows "obj w' = obj w \<and> (\<forall>body. r = Inr (Inr body) \<longrightarrow> obj w (b, k) = Some body)"
  using assms unfolding s3_laws_def get_law_def by blast

lemma get_bytes_ok:
  assumes "s3_laws s3 obj" and "get_bytes s3 w b k = (r, w')"
  shows "obj w' = obj w" and "r = Inr body \<Longrightarrow> obj w (b, k) = Some body"
proof -
  obtain q u where g: "get_object s3 w b k = (q, u)" by fastforce
  with assms(2) have u: "u = w'" and q: "r = Inr body \<Longrightarrow> q = Inr (Inr body)"
    by (auto simp: get_bytes_def split: sum.splits)
  show "obj w' = obj w" using s3_get [OF assms(1) g] u by simp
  show "obj w (b, k) = Some body" if "r = Inr body"
    using s3_get [OF assms(1) g] q that by blast
qed

lemma list_from_pages:
  assumes "pages s3 obj objects b pre rest" and "obj w = objects"
  shows "\<exists>r w'. list_from s3 w b pre t keys = Some (r, w') \<and> obj w' = objects
    \<and> (\<forall>ks. r = Inr ks \<longrightarrow> ks = keys @ rest t)"
  using assms(2)
proof (induction "length (rest t)" arbitrary: w t keys rule: less_induct)
  case less
  obtain q u where page: "list_objects_v2 s3 w b pre t = (q, u)" by fastforce
  from assms(1) less.prems page have u: "obj u = objects"
    and last: "\<And>contents. q = Inr (contents, None) \<Longrightarrow> rest t = List.map_filter (\<lambda>k. k) contents"
    and more: "\<And>contents t'. q = Inr (contents, Some t') \<Longrightarrow>
        rest t = List.map_filter (\<lambda>k. k) contents @ rest (Some t')
        \<and> length (rest (Some t')) < length (rest t)"
    unfolding pages_def by blast+
  show ?case
  proof (cases q)
    case (Inl e)
    with page u show ?thesis by (subst list_from.simps) simp
  next
    case (Inr p)
    obtain contents nt where p: "p = (contents, nt)" by (cases p)
    show ?thesis
    proof (cases nt)
      case None
      with page u Inr p last [of contents] show ?thesis
        by (subst list_from.simps) (simp add: Let_def)
    next
      case (Some t')
      with Inr p more have r: "rest t = List.map_filter (\<lambda>k. k) contents @ rest (Some t')"
          "length (rest (Some t')) < length (rest t)" by auto
      from less.hyps [OF r(2) u, of "keys @ List.map_filter (\<lambda>k. k) contents"]
        page Inr p Some r(1) show ?thesis
        by (subst list_from.simps) (simp add: Let_def)
    qed
  qed
qed

lemma list_keys_ok:
  assumes "s3_laws s3 obj"
  shows "\<exists>r w'. list_keys s3 w b pre = Some (r, w') \<and> obj w' = obj w
    \<and> (\<forall>ks. r = Inr ks \<longrightarrow>
          distinct ks \<and> set ks = {k. obj w (b, k) \<noteq> None \<and> starts_with k pre})"
proof -
  from assms obtain rest where "pages s3 obj (obj w) b pre rest" "distinct (rest None)"
      "set (rest None) = {k. obj w (b, k) \<noteq> None \<and> starts_with k pre}"
    unfolding s3_laws_def list_law_def by blast
  with list_from_pages [OF this(1) refl, of None "[]"] show ?thesis
    unfolding list_keys_def by fastforce
qed

section \<open>An in-memory store\<close>

text \<open>The objects, and for each coming call whether it fails; a call after the last entry succeeds.
  A failing put or delete has no effect.\<close>

record MemStore =
  ms_objects :: "(Object \<times> string) list"
  ms_faults :: "bool list"

definition mem_fault :: "MemStore \<Rightarrow> bool \<times> MemStore" where
  "mem_fault w = (case ms_faults w of [] \<Rightarrow> (False, w) | f # fs \<Rightarrow> (f, w\<lparr>ms_faults := fs\<rparr>))"

definition mem_obj :: "MemStore \<Rightarrow> Object \<rightharpoonup> string" where
  "mem_obj w = map_of (ms_objects w)"

definition mem_error :: S3Error where "mem_error = (''service error'', [])"

text \<open>The keys of a bucket that start with a prefix, in lexicographic order.\<close>

definition mem_keys :: "MemStore \<Rightarrow> string \<Rightarrow> string \<Rightarrow> string list" where
  "mem_keys w b pre =
     sort (map snd (filter (\<lambda>x. fst x = b \<and> starts_with (snd x) pre)
       (remdups (map fst (ms_objects w)))))"

definition mem_s3 :: "MemStore S3Ops" where
  "mem_s3 = \<lparr>
     list_objects_v2 = (\<lambda>w b pre t. case mem_fault w of (f, w') \<Rightarrow>
        if f then (Inl mem_error, w')
        else (Inr (map Some (mem_keys w b pre), None), w')),
     get_object = (\<lambda>w b k. case mem_fault w of (f, w') \<Rightarrow>
        if f then (Inl mem_error, w')
        else (case mem_obj w (b, k) of None \<Rightarrow> (Inl (''NoSuchKey'', []), w')
              | Some body \<Rightarrow> (Inr (Inr body), w'))),
     put_object = (\<lambda>w b k body. case mem_fault w of (f, w') \<Rightarrow>
        if f then (Inl mem_error, w')
        else (Inr (), w'\<lparr>ms_objects := AList.update (b, k) body (ms_objects w')\<rparr>)),
     delete_object = (\<lambda>w b k. case mem_fault w of (f, w') \<Rightarrow>
        if f then (Inl mem_error, w')
        else (Inr (), w'\<lparr>ms_objects := AList.delete (b, k) (ms_objects w')\<rparr>))\<rparr>"

lemma mem_fault_objects: "mem_fault w = (f, w') \<Longrightarrow> ms_objects w' = ms_objects w"
  by (auto simp: mem_fault_def split: list.splits)

lemma mem_map_filter: "List.map_filter (\<lambda>k. k) (map Some ks) = ks"
  by (induction ks) (simp_all add: map_filter_simps)

lemma mem_keys_set: "set (mem_keys w b pre) = {k. mem_obj w (b, k) \<noteq> None \<and> starts_with k pre}"
  by (force simp: mem_keys_def mem_obj_def map_of_eq_None_iff)

lemma mem_keys_distinct: "distinct (mem_keys w b pre)"
  by (auto simp: mem_keys_def distinct_map intro!: inj_onI)

lemma mem_keys_eq: "mem_obj v = mem_obj w \<Longrightarrow> mem_keys v b pre = mem_keys w b pre"
  by (rule sorted_distinct_set_unique) (auto simp: mem_keys_set mem_keys_distinct, auto simp: mem_keys_def)

lemma mem_pages: "pages mem_s3 mem_obj (mem_obj w) b pre (\<lambda>_. mem_keys w b pre)"
proof -
  have "mem_obj v' = mem_obj w \<and> (\<forall>contents. r = Inr (contents, None) \<longrightarrow>
        mem_keys w b pre = List.map_filter (\<lambda>k. k) contents) \<and> (\<forall>contents t'. r \<noteq> Inr (contents, Some t'))"
    if "mem_obj v = mem_obj w" and "list_objects_v2 mem_s3 v b pre t = (r, v')" for v t r v'
  proof -
    obtain f u where f: "mem_fault v = (f, u)" by fastforce
    from mem_fault_objects [OF f] have "mem_obj u = mem_obj v" by (simp add: mem_obj_def)
    with that f mem_keys_eq [OF that(1), of b pre] show ?thesis
      by (auto simp: mem_s3_def mem_map_filter split: if_splits)
  qed
  then show ?thesis unfolding pages_def by blast
qed

lemma mem_get:
  assumes "get_object mem_s3 w b k = (r, w')"
  shows "mem_obj w' = mem_obj w \<and> (\<forall>body. r = Inr (Inr body) \<longrightarrow> mem_obj w (b, k) = Some body)"
  using assms by (auto simp: mem_s3_def mem_obj_def split: prod.splits if_splits option.splits
      dest: mem_fault_objects)

lemma mem_put:
  assumes "put_object mem_s3 w b k body = (r, w')"
  shows "mem_obj w' = (mem_obj w)((b, k) \<mapsto> body) \<or> r \<noteq> Inr () \<and> mem_obj w' = mem_obj w"
  using assms by (auto simp: mem_s3_def mem_obj_def update_conv' split: prod.splits if_splits
      dest: mem_fault_objects)

lemma mem_delete:
  assumes "delete_object mem_s3 w b k = (r, w')"
  shows "mem_obj w' = (mem_obj w)((b, k) := None) \<or> r \<noteq> Inr () \<and> mem_obj w' = mem_obj w"
  using assms by (auto simp: mem_s3_def mem_obj_def delete_conv' split: prod.splits if_splits
      dest: mem_fault_objects)

lemma mem_laws: "s3_laws mem_s3 mem_obj"
proof -
  have "get_law mem_s3 mem_obj" unfolding get_law_def using mem_get by blast
  moreover have "put_law mem_s3 mem_obj" unfolding put_law_def using mem_put by blast
  moreover have "delete_law mem_s3 mem_obj" unfolding delete_law_def using mem_delete by blast
  moreover have "list_law mem_s3 mem_obj" unfolding list_law_def using mem_pages mem_keys_set mem_keys_distinct by blast
  ultimately show ?thesis by (simp add: s3_laws_def)
qed

lemma mem_list_keys:
  "list_keys mem_s3 w b pre =
     (case mem_fault w of (f, w') \<Rightarrow>
        Some (if f then Inl (''S3 ListObjects failed: '' @ err_chain mem_error) else Inr (mem_keys w b pre), w'))"
  unfolding list_keys_def
  by (subst list_from.simps) (simp add: mem_s3_def mem_map_filter Let_def split: prod.splits)

section \<open>Properties\<close>

text \<open>Listing a prefix always returns, changes nothing in the store and, when it succeeds,
  returns exactly the keys that exist under the prefix, over however many pages.\<close>

theorem list_keys_complete:
  assumes "s3_laws s3 obj"
  shows "\<exists>r w'. list_keys s3 w b pre = Some (r, w') \<and> obj w' = obj w
    \<and> (\<forall>ks. r = Inr ks \<longrightarrow>
          distinct ks \<and> set ks = {k. obj w (b, k) \<noteq> None \<and> starts_with k pre})"
  by (rule list_keys_ok [OF assms])

section \<open>Witnesses\<close>

lemma list_keys_complete_witness:
  "\<exists>r w'. list_keys mem_s3 \<lparr>ms_objects = [((''b'', ''a/1''), [])], ms_faults = [True]\<rparr> ''b'' ''a/''
     = Some (r, w')"
  using list_keys_complete [OF mem_laws] by blast

end
