(* ===== verification/Percent.thy ===== *)
theory Percent
  imports Rust_Text
begin

text \<open>
  Percent encoding: \<open>encode_segment\<close> of \<open>src/pipeline.rs\<close> writes partition values into object
  keys, \<open>urldecode\<close> of \<open>src/http.rs\<close> reads the keys of upload events. The two are inverse on
  UTF-8 text, so they are the encoder and the decoder of a \<open>codec\<close>.
\<close>

section \<open>Encoding\<close>

definition hex_upper :: "nat \<Rightarrow> char" where
  "hex_upper d = char_of (if d < 10 then 48 + d else 55 + d)"

definition is_unreserved :: "char \<Rightarrow> bool" where
  "is_unreserved c \<longleftrightarrow>
     (let b = (of_char c :: nat)
      in (65 \<le> b \<and> b \<le> 90) \<or> (97 \<le> b \<and> b \<le> 122) \<or> (48 \<le> b \<and> b \<le> 57)
         \<or> c = CHR ''.'' \<or> c = CHR ''_'' \<or> c = CHR ''-'')"

definition encode_byte :: "char \<Rightarrow> string" where
  "encode_byte c =
     (if is_unreserved c then [c]
      else [CHR ''%'', hex_upper (of_char c div 16), hex_upper (of_char c mod 16)])"

definition encode_segment :: "string \<Rightarrow> string" where
  "encode_segment value = concat (map encode_byte value)"

section \<open>Decoding\<close>

definition hex_digit :: "char \<Rightarrow> nat option" where
  "hex_digit c =
     (let b = (of_char c :: nat)
      in if 48 \<le> b \<and> b \<le> 57 then Some (b - 48)
         else if 65 \<le> b \<and> b \<le> 70 then Some (b - 55)
         else if 97 \<le> b \<and> b \<le> 102 then Some (b - 87) else None)"

text \<open>\<open>u8::from_str_radix(h, 16)\<close> on two bytes: a leading plus sign is accepted. Bytes that are
  not UTF-8 are no digits either, so the \<open>from_utf8\<close> before it changes nothing.\<close>

definition hex_byte :: "char \<Rightarrow> char \<Rightarrow> nat option" where
  "hex_byte a b =
     (if a = CHR ''+'' then hex_digit b
      else case (hex_digit a, hex_digit b) of
             (Some h, Some l) \<Rightarrow> Some (16 * h + l) | _ \<Rightarrow> None)"

function urldecode_bytes :: "string \<Rightarrow> string" where
  "urldecode_bytes [] = []"
| "urldecode_bytes (c # cs) =
     (if c = CHR ''%'' \<and> 2 \<le> length cs then
        (case hex_byte (cs ! 0) (cs ! 1) of
           Some b \<Rightarrow> char_of b # urldecode_bytes (drop 2 cs)
         | None \<Rightarrow> c # urldecode_bytes cs)
      else if c = CHR ''+'' then CHR '' '' # urldecode_bytes cs
      else c # urldecode_bytes cs)"
  by pat_completeness auto
termination
  by (relation "measure length") auto

definition urldecode :: "string \<Rightarrow> string" where
  "urldecode s = from_utf8_lossy (urldecode_bytes s)"

section \<open>Round trip\<close>

lemma of_char_lt [simp]: "(of_char c :: nat) < 256"
  using nat_of_char_less_256 [of c] by simp

lemma hex_digit_upper: "d < 16 \<Longrightarrow> hex_digit (hex_upper d) = Some d"
  by (auto simp: hex_digit_def hex_upper_def)

lemma hex_upper_not_plus: "d < 16 \<Longrightarrow> hex_upper d \<noteq> CHR ''+''"
proof -
  assume "d < 16"
  then have "hex_digit (hex_upper d) \<noteq> None" by (simp add: hex_digit_upper)
  moreover have "hex_digit (CHR ''+'') = None" by (simp add: hex_digit_def)
  ultimately show ?thesis by metis
qed

lemma hex_byte_encoded:
  "hex_byte (hex_upper (of_char c div 16)) (hex_upper (of_char c mod 16)) = Some (of_char c)"
proof -
  have "(of_char c :: nat) div 16 < 16" using of_char_lt [of c] by (simp add: less_mult_imp_div_less)
  then show ?thesis
    by (simp add: hex_byte_def hex_digit_upper hex_upper_not_plus)
qed

lemma urldecode_encode_byte: "urldecode_bytes (encode_byte c @ cs) = c # urldecode_bytes cs"
proof (cases "is_unreserved c")
  case True
  then have "c \<noteq> CHR ''%''" "c \<noteq> CHR ''+''" by (auto simp: is_unreserved_def)
  with True show ?thesis by (simp add: encode_byte_def)
next
  case False
  then show ?thesis by (simp add: encode_byte_def hex_byte_encoded)
qed

lemma urldecode_bytes_encode: "urldecode_bytes (encode_segment s) = s"
  by (induction s) (auto simp: encode_segment_def urldecode_encode_byte)

interpretation percent: codec encode_segment "\<lambda>s. Some (urldecode s)" valid_utf8
  by unfold_locales (simp add: urldecode_def urldecode_bytes_encode from_utf8_lossy_valid)

interpretation percent_bytes: codec encode_segment "\<lambda>s. Some (urldecode_bytes s)" "\<lambda>_. True"
  by unfold_locales (simp add: urldecode_bytes_encode)

lemma encode_segment_inj: "encode_segment s = encode_segment t \<longleftrightarrow> s = t"
  by (rule percent_bytes.enc_eq_iff) simp_all

lemma encode_segment_chars: "c \<in> set (encode_segment s) \<Longrightarrow> is_unreserved c \<or> c = CHR ''%''"
proof (induction s)
  case (Cons x s)
  have hex: "is_unreserved (hex_upper d)" if "d < 16" for d
    using that by (auto simp: is_unreserved_def hex_upper_def Let_def)
  have "(of_char x :: nat) div 16 < 16" using of_char_lt [of x] by (simp add: less_mult_imp_div_less)
  then have "is_unreserved c \<or> c = CHR ''%''" if "c \<in> set (encode_byte x)"
    using that hex by (auto simp: encode_byte_def split: if_splits)
  with Cons show ?case by (auto simp: encode_segment_def)
qed (simp add: encode_segment_def)

section \<open>Properties\<close>

text \<open>C22: Decoding an encoded partition value gives the value back, for every UTF-8 string, so a
  value read from an object key is the value that was written.\<close>

theorem urldecode_encode_segment: "valid_utf8 s \<Longrightarrow> urldecode (encode_segment s) = s"
  using percent.dec_enc [of s] by simp

text \<open>An encoded partition value stays within one path segment: it holds no slash, no equals
  sign, no plus sign and no space, and two values with the same encoding are equal.\<close>

theorem encode_segment_safe:
  "set (encode_segment s) \<inter> {CHR ''/'', CHR ''='', CHR ''+'', CHR '' ''} = {}
   \<and> inj encode_segment"
proof -
  have "c \<notin> set (encode_segment s)" if "\<not> is_unreserved c" "c \<noteq> CHR ''%''" for c
    using that encode_segment_chars by blast
  then show ?thesis by (simp add: is_unreserved_def inj_on_def encode_segment_inj)
qed

section \<open>Witnesses\<close>

lemma urldecode_encode_segment_witness: "urldecode (encode_segment ''a b/c'') = ''a b/c''"
  by (rule urldecode_encode_segment) (simp add: valid_utf8_ascii)

end
