(* ===== verification/Http.thy ===== *)
theory Http
  imports Config S3 Percent
begin

text \<open>
  Models \<open>src/http.rs\<close>: token comparison, the prefix gate, the upload-routing table and its
  cache, and the handlers. A request is what a handler reads of it: the two headers and the body.
  Parsing of JSON bodies, the clock, the S3 client and the Redis calls are arguments. Handlers
  that touch shared state take it and return it; the routing cache's read and write sections are
  atomic, as the lock makes them.
\<close>

section \<open>Responses\<close>

datatype Json =
    JsBool bool
  | JsInt int
  | JsStr string
  | JsArr "Json list"
  | JsObj "(string \<times> Json) list"

datatype Body = PlainBody string | JsonBody Json

record Response =
  r_status :: nat
  r_body :: Body

definition error_response :: "nat \<Rightarrow> string \<Rightarrow> string \<Rightarrow> string list \<Rightarrow> Response" where
  "error_response status kind message details =
     \<lparr>r_status = status,
      r_body = JsonBody (JsObj [(''error'', JsObj [(''kind'', JsStr kind),
        (''message'', JsStr message), (''details'', JsArr (map JsStr details))])])\<rparr>"

definition root :: Response where
  "root = \<lparr>r_status = 200, r_body = PlainBody ''karet-worker''\<rparr>"

section \<open>Tokens\<close>

text \<open>The accumulated differences of the byte pairs.\<close>

unbundle bit_operations_syntax

definition byte_diff :: "char \<times> char \<Rightarrow> 8 word \<Rightarrow> 8 word" where
  "byte_diff xy diff = diff OR (of_char (fst xy) XOR of_char (snd xy))"

definition constant_time_eq :: "string \<Rightarrow> string \<Rightarrow> bool" where
  "constant_time_eq a b =
     (if length a \<noteq> length b then False else fold byte_diff (zip a b) 0 = 0)"

text \<open>The middleware in front of the mutating route: \<open>authorization\<close> is the header's value when it
  is present and text, \<open>run_next\<close> the rest of the stack on the state \<open>s\<close>.\<close>

definition require_bearer_token ::
  "string \<Rightarrow> string option \<Rightarrow> ('s \<Rightarrow> (Response \<times> 's) option) \<Rightarrow> 's \<Rightarrow> (Response \<times> 's) option" where
  "require_bearer_token auth_token authorization run_next s =
     (case Option.bind authorization (strip_prefix ''Bearer '') of
        Some token \<Rightarrow>
          if constant_time_eq token auth_token then run_next s
          else Some (error_response 401 ''unauthorized'' ''missing or invalid bearer token'' [], s)
      | None \<Rightarrow> Some (error_response 401 ''unauthorized'' ''missing or invalid bearer token'' [], s))"

section \<open>The prefix gate\<close>

definition MAX_PREFIX_LEN :: nat where "MAX_PREFIX_LEN = 512"

text \<open>\<open>is_unreserved\<close> is the byte class \<open>[A-Za-z0-9._-]\<close>.\<close>

fun check_segments :: "string list \<Rightarrow> string + unit" where
  "check_segments [] = Inr ()"
| "check_segments (segment # rest) =
     (if segment = [] then Inl ''pipeline_prefix must not contain empty path segments''
      else if segment = ''.'' \<or> segment = ''..''
      then Inl (''pipeline_prefix must not contain '' @ [CHR 0x27] @ ''.'' @ [CHR 0x27] @ '' or ''
                @ [CHR 0x27] @ ''..'' @ [CHR 0x27] @ '' segments'')
      else if \<not> list_all is_unreserved segment
      then Inl (''pipeline_prefix segment '' @ [CHR 0x27] @ segment @ [CHR 0x27]
                @ '' contains characters outside [A-Za-z0-9._-]'')
      else check_segments rest)"

definition validate_pipeline_prefix :: "string \<Rightarrow> string + unit" where
  "validate_pipeline_prefix p =
     (if p = [] then Inl ''pipeline_prefix must not be empty''
      else if MAX_PREFIX_LEN < length p
      then Inl (''pipeline_prefix is too long ('' @ show_nat (length p) @ '' bytes, max ''
                @ show_nat MAX_PREFIX_LEN @ '')'')
      else if starts_with p ''/'' then Inl (''pipeline_prefix must not start with ''
                @ [CHR 0x27] @ ''/'' @ [CHR 0x27])
      else if \<not> ends_with p ''/'' then Inl (''pipeline_prefix must end with ''
                @ [CHR 0x27] @ ''/'' @ [CHR 0x27])
      else check_segments (split_on (CHR ''/'') (take (length p - 1) p)))"

section \<open>Upload routing\<close>

text \<open>\<open>(path_prefix, slug)\<close> pairs and the time they were built, in milliseconds.\<close>

record RoutingCache =
  rc_built_at :: "nat option"
  rc_entries :: "(string \<times> string) list"

definition ROUTING_TTL :: nat where "ROUTING_TTL = 30000"

definition match_key :: "(string \<times> string) list \<Rightarrow> string \<Rightarrow> string list" where
  "match_key entries key =
     remdups_adj (sort (map snd (filter (\<lambda>(p, slug). p \<noteq> [] \<and> starts_with key p) entries)))"

text \<open>\<open>parse_routing\<close> reads the path prefixes of a stored configuration.\<close>

definition routing_slug :: "string \<Rightarrow> string option" where
  "routing_slug key =
     (case Option.bind (strip_prefix ''pipelines/'' key) (strip_suffix ''/pipeline.json'') of
        None \<Rightarrow> None
      | Some slug \<Rightarrow> if slug = [] \<or> CHR ''/'' \<in> set slug then None else Some slug)"

fun routing_entries ::
  "'w S3Ops \<Rightarrow> (string \<Rightarrow> string + string list) \<Rightarrow> 'w \<Rightarrow> string \<Rightarrow> string list
    \<Rightarrow> (string \<times> string) list \<Rightarrow> (string \<times> string) list \<times> 'w" where
  "routing_entries s3 parse_routing w bucket [] entries = (entries, w)"
| "routing_entries s3 parse_routing w bucket (key # keys) entries =
     (case routing_slug key of
        None \<Rightarrow> routing_entries s3 parse_routing w bucket keys entries
      | Some slug \<Rightarrow>
          (case get_bytes s3 w bucket key of
             (Inl _, w') \<Rightarrow> routing_entries s3 parse_routing w' bucket keys entries
           | (Inr bytes, w') \<Rightarrow>
               (case parse_routing bytes of
                  Inl _ \<Rightarrow> routing_entries s3 parse_routing w' bucket keys entries
                | Inr pres \<Rightarrow>
                    routing_entries s3 parse_routing w' bucket keys
                      (entries @ map (\<lambda>p. (p, slug)) pres))))"

text \<open>Without a client the table is empty; so it is when the listing fails. \<open>None\<close> when the listing
  never ends.\<close>

definition build_routing ::
  "'w S3Ops option \<Rightarrow> (string \<Rightarrow> string + string list) \<Rightarrow> 'w \<Rightarrow> string
    \<Rightarrow> ((string \<times> string) list \<times> 'w) option" where
  "build_routing s3_client parse_routing w pipelines_bucket =
     (case s3_client of
        None \<Rightarrow> Some ([], w)
      | Some s3 \<Rightarrow>
          (case list_keys s3 w pipelines_bucket ''pipelines/'' of
             None \<Rightarrow> None
           | Some (Inl _, w') \<Rightarrow> Some ([], w')
           | Some (Inr keys, w') \<Rightarrow>
               Some (routing_entries s3 parse_routing w' pipelines_bucket keys [])))"

text \<open>The stages of \<open>route_key\<close>: the look at the table under the read lock, the rebuild outside any lock, and
  the swap under the write lock.\<close>

definition fresh_routes :: "nat \<Rightarrow> RoutingCache \<Rightarrow> string \<Rightarrow> string list option" where
  "fresh_routes now cache key =
     (if (case rc_built_at cache of None \<Rightarrow> False | Some t \<Rightarrow> now - t < ROUTING_TTL)
      then Some (match_key (rc_entries cache) key) else None)"

definition swap_routing :: "nat \<Rightarrow> (string \<times> string) list \<Rightarrow> RoutingCache \<Rightarrow> RoutingCache" where
  "swap_routing later entries cache = cache\<lparr>rc_entries := entries, rc_built_at := Some later\<rparr>"

text \<open>One call that nobody disturbs between its stages; \<open>now\<close> is the time of the freshness check, \<open>later\<close> the
  time after the rebuild. \<open>Routing_Machine\<close> interleaves the stages of several calls.\<close>

definition route_key ::
  "'w S3Ops option \<Rightarrow> (string \<Rightarrow> string + string list) \<Rightarrow> string \<Rightarrow> nat \<Rightarrow> nat
    \<Rightarrow> RoutingCache \<Rightarrow> 'w \<Rightarrow> string \<Rightarrow> (string list \<times> RoutingCache \<times> 'w) option" where
  "route_key s3_client parse_routing pipelines_bucket now later cache w key =
     (case fresh_routes now cache key of
        Some slugs \<Rightarrow> Some (slugs, cache, w)
      | None \<Rightarrow>
          (case build_routing s3_client parse_routing w pipelines_bucket of
             None \<Rightarrow> None
           | Some (entries, w') \<Rightarrow>
               (let cache' = swap_routing later entries cache
                in Some (match_key (rc_entries cache') key, cache', w'))))"

section \<open>Health\<close>

text \<open>\<open>xlen\<close> is the outcome of connecting to Redis and, once connected, of asking for the stream's
  length. A worker without a queue is always healthy.\<close>

definition health :: "(nat \<times> bool \<times> (string + (string + int))) option \<Rightarrow> Response" where
  "health queue =
     (case queue of
        None \<Rightarrow> \<lparr>r_status = 200, r_body = PlainBody ''ok''\<rparr>
      | Some (in_flight, consumer_ok, xlen) \<Rightarrow>
          (case xlen of
             Inr len \<Rightarrow>
               (let depth = (case len of Inl _ \<Rightarrow> -1 | Inr n \<Rightarrow> n)
                in \<lparr>r_status = (if consumer_ok \<and> 0 \<le> depth then 200 else 503),
                    r_body = JsonBody (JsObj
                      [(''redis'', JsStr (if 0 \<le> depth then ''ok'' else ''error'')),
                       (''consumer'', JsStr (if consumer_ok then ''ok'' else ''reconnecting'')),
                       (''queue_depth'', JsInt depth), (''in_flight'', JsInt (int in_flight))])\<rparr>)
           | Inl e \<Rightarrow>
               \<lparr>r_status = 503,
                r_body = JsonBody (JsObj [(''redis'', JsStr (''error: '' @ e)),
                  (''in_flight'', JsInt (int in_flight))])\<rparr>))"

section \<open>Upload events\<close>

record S3EventRecord =
  ev_name :: string
  ev_bucket :: "string option"
  ev_key :: "string option"

text \<open>The secret a request carries: the worker's own header, or \<open>Authorization\<close> with or without
  \<open>Bearer\<close>.\<close>

definition webhook_provided :: "string option \<Rightarrow> string option \<Rightarrow> string option" where
  "webhook_provided secret_header authorization =
     (case secret_header of
        Some v \<Rightarrow> Some v
      | None \<Rightarrow>
          map_option (\<lambda>v. case strip_prefix ''Bearer '' v of Some r \<Rightarrow> r | None \<Rightarrow> v) authorization)"

text \<open>The key of a record that counts: an object created in the lake bucket.\<close>

definition upload_key :: "string \<Rightarrow> S3EventRecord \<Rightarrow> string option" where
  "upload_key lake_bucket rec =
     (if \<not> starts_with (ev_name rec) ''s3:ObjectCreated:'' then None
      else if ev_bucket rec \<noteq> Some lake_bucket then None
      else ev_key rec)"

text \<open>\<open>debounce\<close> is \<open>queue::debounce_event\<close>; a slug is listed once, and only when recorded.\<close>

fun debounce_slugs ::
  "('r \<Rightarrow> string \<Rightarrow> (string + int) \<times> 'r) \<Rightarrow> 'r \<Rightarrow> string list \<Rightarrow> string list \<Rightarrow> string list \<times> 'r" where
  "debounce_slugs debounce conn [] scheduled = (scheduled, conn)"
| "debounce_slugs debounce conn (slug # slugs) scheduled =
     (case debounce conn slug of
        (Inr _, conn') \<Rightarrow>
          debounce_slugs debounce conn' slugs
            (if slug \<in> set scheduled then scheduled else scheduled @ [slug])
      | (Inl _, conn') \<Rightarrow> debounce_slugs debounce conn' slugs scheduled)"

text \<open>\<open>route\<close> is \<open>route_key\<close> on the state \<open>'s\<close> of the cache and the store.\<close>

fun handle_records ::
  "('s \<Rightarrow> string \<Rightarrow> (string list \<times> 's) option) \<Rightarrow> ('r \<Rightarrow> string \<Rightarrow> (string + int) \<times> 'r) \<Rightarrow> string
    \<Rightarrow> 's \<Rightarrow> 'r \<Rightarrow> S3EventRecord list \<Rightarrow> string list \<Rightarrow> (string list \<times> 's \<times> 'r) option" where
  "handle_records route debounce lake_bucket s conn [] scheduled = Some (scheduled, s, conn)"
| "handle_records route debounce lake_bucket s conn (rec # records) scheduled =
     (case upload_key lake_bucket rec of
        None \<Rightarrow> handle_records route debounce lake_bucket s conn records scheduled
      | Some key \<Rightarrow>
          (case route s (urldecode key) of
             None \<Rightarrow> None
           | Some (slugs, s') \<Rightarrow>
               (case debounce_slugs debounce conn slugs scheduled of
                  (scheduled', conn') \<Rightarrow>
                    handle_records route debounce lake_bucket s' conn' records scheduled')))"

text \<open>The checks before any event is recorded, in order. \<open>connection\<close> is what connecting to Redis
  gives; \<open>payload\<close> the parsed body, \<open>Inl False\<close> when it cannot be read.\<close>

definition authorize_events ::
  "bool \<Rightarrow> string option \<Rightarrow> string option \<Rightarrow> string option \<Rightarrow> Response option" where
  "authorize_events has_queue webhook_secret secret_header authorization =
     (if \<not> has_queue
      then Some (error_response 503 ''queue_disabled''
             ''REDIS_URL is not configured; webhook events have nowhere to go'' [])
      else case webhook_secret of
             None \<Rightarrow> Some (error_response 401 ''unauthorized'' ''webhook secret is not configured'' [])
           | Some expected \<Rightarrow>
               if expected = []
               then Some (error_response 401 ''unauthorized'' ''webhook secret is not configured'' [])
               else (case webhook_provided secret_header authorization of
                       Some secret \<Rightarrow>
                         if constant_time_eq secret expected then None
                         else Some (error_response 401 ''unauthorized''
                                ''missing or invalid webhook secret'' [])
                     | None \<Rightarrow> Some (error_response 401 ''unauthorized''
                                ''missing or invalid webhook secret'' [])))"

definition post_s3_events ::
  "('s \<Rightarrow> string \<Rightarrow> (string list \<times> 's) option) \<Rightarrow> ('r \<Rightarrow> string \<Rightarrow> (string + int) \<times> 'r)
    \<Rightarrow> (string \<Rightarrow> S3EventRecord list option) \<Rightarrow> string \<Rightarrow> bool \<Rightarrow> string option
    \<Rightarrow> string option \<Rightarrow> string option \<Rightarrow> string option \<Rightarrow> string + 'r \<Rightarrow> 's
    \<Rightarrow> (Response \<times> 's \<times> 'r option) option" where
  "post_s3_events route debounce parse lake_bucket has_queue webhook_secret
     secret_header authorization body connection s =
     (case authorize_events has_queue webhook_secret secret_header authorization of
        Some response \<Rightarrow> Some (response, s, None)
      | None \<Rightarrow>
          (case body of
             None \<Rightarrow> Some (error_response 400 ''invalid_body'' ''unreadable body'' [], s, None)
           | Some bytes \<Rightarrow>
               (case parse bytes of
                  None \<Rightarrow> Some (error_response 400 ''invalid_json''
                            ''body is not an S3 event payload'' [], s, None)
                | Some records \<Rightarrow>
                    (case connection of
                       Inl e \<Rightarrow> Some (error_response 503 ''redis_unavailable''
                                  (''cannot record event: '' @ e) [], s, None)
                     | Inr conn \<Rightarrow>
                         (case handle_records route debounce lake_bucket s conn records [] of
                            None \<Rightarrow> None
                          | Some (scheduled, s', conn') \<Rightarrow>
                              Some (\<lparr>r_status = 200, r_body = JsonBody (JsObj
                                [(''received'', JsInt (int (length records))),
                                 (''scheduled'', JsArr (map JsStr scheduled))])\<rparr>,
                                s', Some conn'))))))"

section \<open>Configuration checks\<close>

definition error_kind :: "ConfigError \<Rightarrow> string" where
  "error_kind e = (case e of DuplicateId _ _ _ \<Rightarrow> ''duplicate_id''
     | DanglingReference _ _ _ \<Rightarrow> ''dangling_reference''
     | MissingField _ _ \<Rightarrow> ''missing_field'' | SchemaError _ _ \<Rightarrow> ''schema'')"

definition error_to_json :: "ConfigError \<Rightarrow> Json" where
  "error_to_json e = JsObj [(''kind'', JsStr (error_kind e)),
     (''message'', JsStr (config_error_display e)), (''path'', JsStr (ce_path e))]"

text \<open>Dropping the build time makes the next event rebuild the table.\<close>

definition post_config_validate ::
  "(string \<Rightarrow> string + PipelineConfig) \<Rightarrow> RoutingCache \<Rightarrow> string \<Rightarrow> Response \<times> RoutingCache" where
  "post_config_validate parse_config cache body =
     (\<lparr>r_status = 200, r_body = JsonBody
        (case parse_config body of
           Inr cfg \<Rightarrow>
             (case validate cfg of
                Inr _ \<Rightarrow> JsObj [(''ok'', JsBool True)]
              | Inl errs \<Rightarrow> JsObj [(''ok'', JsBool False), (''errors'', JsArr (map error_to_json errs))])
         | Inl e \<Rightarrow> JsObj [(''ok'', JsBool False), (''errors'', JsArr [JsObj
             [(''kind'', JsStr ''schema''), (''message'', JsStr e), (''path'', JsStr ''/'')]])])\<rparr>,
      cache\<lparr>rc_built_at := None\<rparr>)"

end
