(* ===== verification/Http_Proofs.thy ===== *)
theory Http_Proofs
  imports Http
begin

text \<open>
  Facts about the HTTP interface: both token checks are equality, the prefix gate accepts exactly
  the safe key prefixes, what the routing table and the webhook schedule, and how long a failed
  rebuild of the table is kept.
\<close>

section \<open>Tokens\<close>

lemma of_char_byte_eq_iff: "(of_char c :: 8 word) = of_char d \<longleftrightarrow> c = d"
proof
  assume "(of_char c :: 8 word) = of_char d"
  then have "(of_nat (of_char c) :: 8 word) = of_nat (of_char d)" by (simp only: of_nat_of_char)
  then have "take_bit LENGTH(8) (of_char c :: nat) = take_bit LENGTH(8) (of_char d)"
    by (simp only: word_of_nat_eq_iff)
  then show "c = d" by (simp add: take_bit_eq_mod)
qed simp

lemma xor_eq_zero_iff: "(x :: 'a :: len word) XOR y = 0 \<longleftrightarrow> x = y"
  by (metis xor.assoc xor_self_eq xor.left_neutral xor.right_neutral)

lemma byte_diff_fold:
  "fold byte_diff ps d = 0 \<longleftrightarrow> d = 0 \<and> (\<forall>p \<in> set ps. fst p = snd p)"
  by (induction ps arbitrary: d)
    (auto simp: byte_diff_def of_char_byte_eq_iff or_eq_0_iff xor_eq_zero_iff)

lemma constant_time_eq_iff [simp]: "constant_time_eq a b \<longleftrightarrow> a = b"
proof (cases "length a = length b")
  case True
  then have "(\<forall>p \<in> set (zip a b). fst p = snd p) \<longleftrightarrow> a = b"
    by (induction a b rule: list_induct2) auto
  with True show ?thesis by (simp add: constant_time_eq_def byte_diff_fold)
qed (auto simp: constant_time_eq_def)

section \<open>The prefix gate\<close>

definition safe_segment :: "string \<Rightarrow> bool" where
  "safe_segment s \<longleftrightarrow> s \<noteq> [] \<and> s \<noteq> ''.'' \<and> s \<noteq> ''..'' \<and> list_all is_unreserved s"

lemma check_segments_ok: "check_segments segs = Inr () \<longleftrightarrow> list_all safe_segment segs"
  by (induction segs) (auto simp: safe_segment_def)

lemma unreserved_no_slash: "\<not> is_unreserved (CHR ''/'')"
  by (simp add: is_unreserved_def)

lemma safe_segment_no_slash: "safe_segment s \<Longrightarrow> CHR ''/'' \<notin> set s"
  using unreserved_no_slash by (auto simp: safe_segment_def list_all_iff)

lemma concat_slashed: "segs \<noteq> [] \<Longrightarrow> concat (map (\<lambda>s. s @ ''/'') segs) = join ''/'' segs @ ''/''"
proof (induction segs)
  case (Cons s ss)
  then show ?case by (cases "ss = []") (simp_all add: join_Cons)
qed simp

lemma validate_prefix_steps:
  "validate_pipeline_prefix p = Inr () \<longleftrightarrow>
     p \<noteq> [] \<and> length p \<le> 512 \<and> \<not> starts_with p ''/'' \<and> ends_with p ''/''
     \<and> list_all safe_segment (split_on (CHR ''/'') (take (length p - 1) p))"
  by (auto simp: validate_pipeline_prefix_def check_segments_ok MAX_PREFIX_LEN_def)

lemma slashed_split:
  assumes "segs \<noteq> []" and "list_all safe_segment segs" and "p = concat (map (\<lambda>s. s @ ''/'') segs)"
  shows "split_on (CHR ''/'') (take (length p - 1) p) = segs"
    and "p \<noteq> []" and "\<not> starts_with p ''/''" and "ends_with p ''/''"
proof -
  have p: "p = join ''/'' segs @ ''/''" using assms(3) concat_slashed [OF assms(1)] by simp
  from assms(2) have "\<forall>s \<in> set segs. CHR ''/'' \<notin> set s"
    by (auto simp: list_all_iff dest: safe_segment_no_slash)
  with assms(1) p show "split_on (CHR ''/'') (take (length p - 1) p) = segs"
    by (simp add: split_on_join)
  from p show "p \<noteq> []" and "ends_with p ''/''" by (auto simp: suffix_def)
  from assms obtain s ss where "segs = s # ss" and "safe_segment s" by (cases segs) auto
  with assms(3) safe_segment_no_slash [of s] show "\<not> starts_with p ''/''"
    by (cases s) (auto simp: safe_segment_def)
qed

lemma prefix_gate_iff:
  "validate_pipeline_prefix p = Inr () \<longleftrightarrow>
     length p \<le> 512 \<and> (\<exists>segs. segs \<noteq> [] \<and> list_all safe_segment segs
       \<and> p = concat (map (\<lambda>s. s @ ''/'') segs))"
proof
  assume ok: "validate_pipeline_prefix p = Inr ()"
  let ?segs = "split_on (CHR ''/'') (take (length p - 1) p)"
  from ok have ends: "ends_with p ''/''" and safe: "list_all safe_segment ?segs" and "length p \<le> 512"
    by (auto simp: validate_prefix_steps)
  from ends obtain q where "p = q @ ''/''" by (auto simp: suffix_def)
  then have "p = join ''/'' ?segs @ ''/''" by simp
  then have "p = concat (map (\<lambda>s. s @ ''/'') ?segs)" using concat_slashed [of ?segs] by simp
  with safe \<open>length p \<le> 512\<close> show "length p \<le> 512 \<and> (\<exists>segs. segs \<noteq> [] \<and> list_all safe_segment segs
       \<and> p = concat (map (\<lambda>s. s @ ''/'') segs))" by (metis split_on_ne)
next
  assume "length p \<le> 512 \<and> (\<exists>segs. segs \<noteq> [] \<and> list_all safe_segment segs
       \<and> p = concat (map (\<lambda>s. s @ ''/'') segs))"
  then obtain segs where "length p \<le> 512" "segs \<noteq> []" "list_all safe_segment segs"
    "p = concat (map (\<lambda>s. s @ ''/'') segs)" by blast
  with slashed_split [of segs p] show "validate_pipeline_prefix p = Inr ()"
    by (simp add: validate_prefix_steps)
qed

section \<open>Routing\<close>

text \<open>What the table should be: the prefixes of every stored configuration with a routable slug.\<close>

definition routes :: "(string \<Rightarrow> string + string list) \<Rightarrow> (Object \<rightharpoonup> string) \<Rightarrow> string \<Rightarrow> (string \<times> string) set" where
  "routes parse_routing objects bucket =
     {(p, slug). slug \<noteq> [] \<and> CHR ''/'' \<notin> set slug
        \<and> (\<exists>body pres. objects (bucket, ''pipelines/'' @ slug @ ''/pipeline.json'') = Some body
             \<and> parse_routing body = Inr pres \<and> p \<in> set pres)}"

lemma routing_slug_Some:
  "routing_slug key = Some slug \<longleftrightarrow>
     key = ''pipelines/'' @ slug @ ''/pipeline.json'' \<and> slug \<noteq> [] \<and> CHR ''/'' \<notin> set slug"
proof -
  let ?b = "Option.bind (strip_prefix ''pipelines/'' key) (strip_suffix ''/pipeline.json'')"
  have "?b = Some s \<longleftrightarrow> key = ''pipelines/'' @ s @ ''/pipeline.json''" for s
    by (simp only: bind_eq_Some_conv strip_prefix_Some strip_suffix_Some) blast
  then have b: "key = ''pipelines/'' @ slug @ ''/pipeline.json'' \<longleftrightarrow> ?b = Some slug" by blast
  show ?thesis unfolding b routing_slug_def by (cases ?b) auto
qed

lemma match_key_set:
  "set (match_key entries key) = {slug. \<exists>p. (p, slug) \<in> set entries \<and> p \<noteq> [] \<and> starts_with key p}"
  by (force simp: match_key_def)

lemma match_key_sorted: "sorted (match_key entries key)" "distinct (match_key entries key)"
proof -
  show "sorted (match_key entries key)" by (simp add: match_key_def sorted_remdups_adj)
  have "sorted xs \<Longrightarrow> distinct (remdups_adj xs)" for xs :: "string list"
    by (induction xs rule: remdups_adj.induct) auto
  then show "distinct (match_key entries key)" by (simp add: match_key_def)
qed

text \<open>Reads that the store answers for every object that exists.\<close>

definition reads_answered :: "'w S3Ops \<Rightarrow> ('w \<Rightarrow> Object \<rightharpoonup> string) \<Rightarrow> bool" where
  "reads_answered s3 obj \<longleftrightarrow>
     (\<forall>w b k body. obj w (b, k) = Some body \<longrightarrow> fst (get_object s3 w b k) = Inr (Inr body))"

lemma get_bytes_iff:
  assumes "s3_laws s3 obj" and "reads_answered s3 obj"
  shows "fst (get_bytes s3 w b k) = Inr body \<longleftrightarrow> obj w (b, k) = Some body"
proof
  assume "fst (get_bytes s3 w b k) = Inr body"
  then show "obj w (b, k) = Some body"
    using get_bytes_ok(2) [OF assms(1)] by (metis prod.collapse)
next
  assume "obj w (b, k) = Some body"
  then have "fst (get_object s3 w b k) = Inr (Inr body)"
    using assms(2) by (simp add: reads_answered_def)
  then show "fst (get_bytes s3 w b k) = Inr body"
    by (cases "get_object s3 w b k") (simp add: get_bytes_def)
qed

text \<open>The pairs one listed key adds.\<close>

definition key_routes ::
  "(string \<Rightarrow> string + string list) \<Rightarrow> (Object \<rightharpoonup> string) \<Rightarrow> string \<Rightarrow> string \<Rightarrow> (string \<times> string) set" where
  "key_routes parse_routing objects bucket key =
     {(p, slug). routing_slug key = Some slug
        \<and> (\<exists>body pres. objects (bucket, key) = Some body \<and> parse_routing body = Inr pres \<and> p \<in> set pres)}"

lemma routing_entries_exact:
  assumes "s3_laws s3 obj" and "reads_answered s3 obj"
    and "routing_entries s3 parse_routing w bucket keys entries = (entries', w')"
  shows "obj w' = obj w
    \<and> set entries' = set entries \<union> (\<Union>key \<in> set keys. key_routes parse_routing (obj w) bucket key)"
  using assms(3)
proof (induction keys arbitrary: w entries)
  case (Cons key keys)
  show ?case
  proof (cases "routing_slug key")
    case None
    with Cons show ?thesis by (simp add: key_routes_def)
  next
    case (Some slug)
    obtain r v where get: "get_bytes s3 w bucket key = (r, v)" by fastforce
    have v: "obj v = obj w" using get_bytes_ok(1) [OF assms(1) get] .
    have r: "\<And>body. r = Inr body \<longleftrightarrow> obj w (bucket, key) = Some body"
      using get_bytes_iff [OF assms(1,2), of w bucket key] get by simp
    show ?thesis
    proof (cases r)
      case (Inl e)
      with r have "obj w (bucket, key) = None" by (metis not_None_eq Inl_Inr_False)
      then have "key_routes parse_routing (obj w) bucket key = {}" by (simp add: key_routes_def)
      with Cons Some get Inl v show ?thesis by simp
    next
      case (Inr body)
      with r [of body] have body: "obj w (bucket, key) = Some body" by blast
      show ?thesis
      proof (cases "parse_routing body")
        case (Inl e)
        with body have "key_routes parse_routing (obj w) bucket key = {}" by (simp add: key_routes_def)
        with Cons Some get \<open>r = Inr body\<close> Inl v show ?thesis by simp
      next
        case (Inr pres)
        with body Some have "key_routes parse_routing (obj w) bucket key = (\<lambda>p. (p, slug)) ` set pres"
          by (auto simp: key_routes_def)
        with Cons.IH [of v "entries @ map (\<lambda>p. (p, slug)) pres"] Cons.prems Some get \<open>r = Inr body\<close> Inr v
        show ?thesis by auto
      qed
    qed
  qed
qed simp

lemma build_routing_exact:
  assumes "s3_laws s3 obj" and "reads_answered s3 obj"
    and "list_keys s3 w bucket ''pipelines/'' = Some (Inr keys, w1)"
  shows "\<exists>entries w'. build_routing (Some s3) parse_routing w bucket = Some (entries, w')
    \<and> obj w' = obj w \<and> set entries = routes parse_routing (obj w) bucket"
proof -
  obtain entries w' where e: "routing_entries s3 parse_routing w1 bucket keys [] = (entries, w')"
    by fastforce
  from list_keys_ok [OF assms(1), of w bucket "''pipelines/''"] assms(3)
  have w1: "obj w1 = obj w"
    and keys: "set keys = {k. obj w (bucket, k) \<noteq> None \<and> starts_with k ''pipelines/''}" by auto
  have "(\<Union>key \<in> set keys. key_routes parse_routing (obj w) bucket key)
      = routes parse_routing (obj w) bucket"
    by (force simp: keys key_routes_def routes_def routing_slug_Some prefix_def)
  with routing_entries_exact [OF assms(1,2) e] w1 assms(3) e show ?thesis
    by (simp add: build_routing_def)
qed

text \<open>The freshness check of \<open>route_key\<close>.\<close>

definition cache_fresh :: "nat \<Rightarrow> RoutingCache \<Rightarrow> bool" where
  "cache_fresh now cache = (case rc_built_at cache of None \<Rightarrow> False | Some t \<Rightarrow> now - t < ROUTING_TTL)"

lemma route_key_fresh:
  "cache_fresh now cache \<Longrightarrow>
     route_key s3_client parse_routing bucket now later cache w key
       = Some (match_key (rc_entries cache) key, cache, w)"
  by (simp add: route_key_def fresh_routes_def cache_fresh_def)

lemma route_key_stale:
  "\<not> cache_fresh now cache \<Longrightarrow> build_routing s3_client parse_routing w bucket = Some (entries, w') \<Longrightarrow>
     route_key s3_client parse_routing bucket now later cache w key
       = Some (match_key entries key, \<lparr>rc_built_at = Some later, rc_entries = entries\<rparr>, w')"
  by (cases cache) (simp add: route_key_def fresh_routes_def swap_routing_def cache_fresh_def)

lemma fresh_routes_cache: "fresh_routes now cache key =
    (if cache_fresh now cache then Some (match_key (rc_entries cache) key) else None)"
  by (simp add: fresh_routes_def cache_fresh_def)

section \<open>Events\<close>

lemma authorize_events_None:
  "authorize_events has_queue webhook_secret secret_header authorization = None \<longleftrightarrow>
     has_queue \<and> (\<exists>secret. webhook_secret = Some secret \<and> secret \<noteq> []
       \<and> webhook_provided secret_header authorization = Some secret)"
  by (auto simp: authorize_events_def split: option.splits)

lemma authorize_events_status:
  "authorize_events has_queue webhook_secret secret_header authorization = Some response \<Longrightarrow>
     r_status response \<in> {401, 503}"
  by (auto simp: authorize_events_def error_response_def split: option.splits if_splits)

lemma debounce_slugs_append:
  "debounce_slugs debounce conn (xs @ ys) scheduled =
     (case debounce_slugs debounce conn xs scheduled of
        (scheduled', conn') \<Rightarrow> debounce_slugs debounce conn' ys scheduled')"
  by (induction xs arbitrary: conn scheduled) (auto split: prod.splits sum.splits)

text \<open>Routing and recording do not share state: the records are routed one by one, then their slugs recorded.\<close>

fun route_records ::
  "('s \<Rightarrow> string \<Rightarrow> (string list \<times> 's) option) \<Rightarrow> string \<Rightarrow> 's \<Rightarrow> S3EventRecord list \<Rightarrow> (string list \<times> 's) option" where
  "route_records route lake_bucket s [] = Some ([], s)"
| "route_records route lake_bucket s (rec # records) =
     (case upload_key lake_bucket rec of
        None \<Rightarrow> route_records route lake_bucket s records
      | Some key \<Rightarrow>
          (case route s (urldecode key) of
             None \<Rightarrow> None
           | Some (slugs, s') \<Rightarrow>
               map_option (\<lambda>(rest, s''). (slugs @ rest, s'')) (route_records route lake_bucket s' records)))"

lemma handle_records_split:
  "handle_records route debounce lake_bucket s conn records scheduled =
     map_option (\<lambda>(slugs, s'). case debounce_slugs debounce conn slugs scheduled of
         (scheduled', conn') \<Rightarrow> (scheduled', s', conn'))
       (route_records route lake_bucket s records)"
proof (induction records arbitrary: s conn scheduled)
  case (Cons rec records)
  show ?case
  proof (cases "upload_key lake_bucket rec")
    case None
    with Cons show ?thesis by simp
  next
    case (Some key)
    then show ?thesis
      by (auto simp: Cons option.map_comp o_def debounce_slugs_append split: option.splits prod.splits
          intro!: option.map_cong)
  qed
qed simp

text \<open>The outcomes of recording slugs one after the other, and the list the handler makes of them: each slug whose
  recording succeeded, once, in the order of the first success.\<close>

fun record_slugs :: "('r \<Rightarrow> string \<Rightarrow> (string + int) \<times> 'r) \<Rightarrow> 'r \<Rightarrow> string list \<Rightarrow> (string \<times> bool) list \<times> 'r" where
  "record_slugs debounce conn [] = ([], conn)"
| "record_slugs debounce conn (slug # slugs) =
     (case debounce conn slug of
        (x, conn') \<Rightarrow> apfst (Cons (slug, is_ok x)) (record_slugs debounce conn' slugs))"

definition successes :: "(string \<times> bool) list \<Rightarrow> string list" where
  "successes tries = rev (remdups (rev (map fst (filter snd tries))))"

lemma successes_set [simp]: "set (successes tries) = {slug. (slug, True) \<in> set tries}" "distinct (successes tries)"
  by (force simp: successes_def)+

lemma record_slugs_tried: "record_slugs debounce conn slugs = (tries, conn') \<Longrightarrow> map fst tries = slugs"
proof (induction slugs arbitrary: conn tries)
  case (Cons slug slugs)
  then show ?case by (auto simp: apfst_def map_prod_def split: prod.splits)
qed simp

lemma debounce_slugs_successes:
  "debounce_slugs debounce conn slugs scheduled =
     (case record_slugs debounce conn slugs of
        (tries, conn') \<Rightarrow> (scheduled @ filter (\<lambda>slug. slug \<notin> set scheduled) (successes tries), conn'))"
proof (induction slugs arbitrary: conn scheduled)
  case (Cons slug slugs)
  obtain x c where d: "debounce conn slug = (x, c)" by fastforce
  obtain tries conn' where r: "record_slugs debounce c slugs = (tries, conn')" by fastforce
  show ?case
  proof (cases x)
    case (Inl e)
    then show ?thesis using Cons [of c scheduled] d r by (simp add: successes_def)
  next
    case (Inr n)
    have "remdups (xs @ [slug]) = filter (\<lambda>s. s \<noteq> slug) (remdups xs) @ [slug]" for xs
      by (induction xs) auto
    then have "successes ((slug, True) # tries) = slug # filter (\<lambda>s. s \<noteq> slug) (successes tries)"
      by (simp add: successes_def rev_filter)
    then show ?thesis using Cons [of c "if slug \<in> set scheduled then scheduled else scheduled @ [slug]"] d r Inr
      by (auto intro!: filter_cong)
  qed
qed (simp add: successes_def)

section \<open>Properties\<close>

text \<open>The prefix gate accepts a string exactly when it is at most 512 bytes of one or more
  segments, each followed by a slash, where every segment is non-empty, not \<open>.\<close> or \<open>..\<close>, and made of
  the unreserved characters. Nothing else is interpolated into an object key.\<close>

theorem prefix_gate:
  "validate_pipeline_prefix p = Inr () \<longleftrightarrow>
     length p \<le> 512 \<and> (\<exists>segs. segs \<noteq> [] \<and> list_all safe_segment segs
       \<and> p = concat (map (\<lambda>s. s @ ''/'') segs))"
  by (rule prefix_gate_iff)

text \<open>The webhook handler fails closed. Unless the queue is enabled, a non-empty secret is
  configured and the request carries exactly that secret, it answers 401 or 503 and neither the
  routing state nor Redis is touched, whatever the body holds.\<close>

theorem events_fail_closed:
  assumes "\<not> (has_queue \<and> webhook_secret \<noteq> Some []
      \<and> webhook_secret \<noteq> None \<and> webhook_provided secret_header authorization = webhook_secret)"
  shows "\<exists>response. post_s3_events route debounce parse lake_bucket has_queue webhook_secret
      secret_header authorization body connection s = Some (response, s, None)
    \<and> r_status response \<in> {401, 503}"
proof -
  from assms obtain response where
    a: "authorize_events has_queue webhook_secret secret_header authorization = Some response"
    by (cases "authorize_events has_queue webhook_secret secret_header authorization")
      (auto simp: authorize_events_None)
  with authorize_events_status [OF a] show ?thesis by (simp add: post_s3_events_def)
qed

text \<open>When the routing table is rebuilt over a store that answers, an uploaded key is routed to
  exactly the pipelines whose stored configuration has a non-empty source prefix the key starts
  with; the slugs come sorted and without repetition, and the store is left as it was.\<close>

theorem routing_exact:
  assumes "s3_laws s3 obj" and "reads_answered s3 obj"
    and "list_keys s3 w bucket ''pipelines/'' = Some (Inr keys, w1)"
    and "\<not> cache_fresh now cache"
  shows "\<exists>slugs cache' w'. route_key (Some s3) parse_routing bucket now later cache w key
      = Some (slugs, cache', w') \<and> obj w' = obj w \<and> sorted slugs \<and> distinct slugs
    \<and> set slugs = {slug. \<exists>p. (p, slug) \<in> routes parse_routing (obj w) bucket \<and> p \<noteq> [] \<and> starts_with key p}"
proof -
  from build_routing_exact [OF assms(1-3)] obtain entries w' where
    b: "build_routing (Some s3) parse_routing w bucket = Some (entries, w')" and "obj w' = obj w"
    "set entries = routes parse_routing (obj w) bucket" by blast
  then show ?thesis
    by (simp add: route_key_stale [OF assms(4) b] match_key_set match_key_sorted)
qed

text \<open>A rebuild whose listing fails is kept like any other: until the cache expires 30 seconds
  later, no key is routed to any pipeline and the store is not asked again, although it may have
  recovered. The comment on \<open>build_routing\<close> says that the next event retries.\<close>

theorem routing_outage_cached:
  assumes "\<not> cache_fresh now cache"
    and "list_keys s3 w bucket ''pipelines/'' = Some (Inl e, w1)"
    and "now2 - later < 30000"
  shows "\<exists>cache'. route_key (Some s3) parse_routing bucket now later cache w key = Some ([], cache', w1)
    \<and> route_key s3_client parse_routing bucket now2 later2 cache' w2 key2 = Some ([], cache', w2)"
proof -
  have "build_routing (Some s3) parse_routing w bucket = Some ([], w1)"
    using assms(2) by (simp add: build_routing_def)
  from route_key_stale [OF assms(1) this]
  have "route_key (Some s3) parse_routing bucket now later cache w key
      = Some ([], \<lparr>rc_built_at = Some later, rc_entries = []\<rparr>, w1)" by (simp add: match_key_def)
  moreover have "cache_fresh now2 \<lparr>rc_built_at = Some later, rc_entries = []\<rparr>"
    using assms(3) by (simp add: cache_fresh_def ROUTING_TTL_def)
  ultimately show ?thesis by (auto simp: route_key_fresh match_key_def)
qed

section \<open>Witnesses\<close>

text \<open>A store whose reads do not fail, with one pipeline \<open>demo\<close> that reads from \<open>raw/\<close>.\<close>

definition steady_s3 :: "MemStore S3Ops" where
  "steady_s3 = mem_s3\<lparr>get_object := (\<lambda>w b k.
     case mem_obj w (b, k) of None \<Rightarrow> (Inl (''NoSuchKey'', []), w) | Some body \<Rightarrow> (Inr (Inr body), w))\<rparr>"

definition demo_pipelines :: MemStore where
  "demo_pipelines = \<lparr>ms_objects = [((''b'', ''pipelines/demo/pipeline.json''), ''raw/'')], ms_faults = []\<rparr>"

definition outage :: MemStore where "outage = \<lparr>ms_objects = [], ms_faults = [True]\<rparr>"

definition no_cache :: RoutingCache where "no_cache = \<lparr>rc_built_at = None, rc_entries = []\<rparr>"

definition lake_event :: S3EventRecord where
  "lake_event = \<lparr>ev_name = ''s3:ObjectCreated:Put'', ev_bucket = Some ''lake'', ev_key = Some ''raw/a.csv''\<rparr>"

lemma steady_laws: "s3_laws steady_s3 mem_obj"
proof -
  have other: "list_objects_v2 steady_s3 = list_objects_v2 mem_s3"
    "put_object steady_s3 = put_object mem_s3" "delete_object steady_s3 = delete_object mem_s3"
    by (simp_all add: steady_s3_def)
  have "get_law steady_s3 mem_obj"
    by (auto simp: get_law_def steady_s3_def split: option.splits)
  with mem_laws show ?thesis
    by (simp add: s3_laws_def put_law_def delete_law_def list_law_def pages_def other)
qed

lemma steady_reads: "reads_answered steady_s3 mem_obj"
  by (simp add: reads_answered_def steady_s3_def)

lemma steady_list: "list_keys steady_s3 w b pre = list_keys mem_s3 w b pre"
proof -
  have other: "list_objects_v2 steady_s3 = list_objects_v2 mem_s3" by (simp add: steady_s3_def)
  show ?thesis unfolding list_keys_def
    by (subst (1 2) list_from.simps) (simp add: other mem_s3_def Let_def split: prod.splits)
qed

lemma prefix_gate_witness:
  "validate_pipeline_prefix ''pipelines/demo/'' = Inr ()
   \<and> is_ok (validate_pipeline_prefix ''pipelines/../'') = False"
proof
  show "validate_pipeline_prefix ''pipelines/demo/'' = Inr ()"
    unfolding prefix_gate
    by (intro conjI exI [of _ "[''pipelines'', ''demo'']"])
      (simp_all add: safe_segment_def is_unreserved_def)
qed (simp add: validate_pipeline_prefix_def MAX_PREFIX_LEN_def suffix_def is_unreserved_def)

lemma events_fail_closed_witness:
  "\<exists>response. post_s3_events (\<lambda>s k. Some ([], s)) (\<lambda>c slug. (Inr 0, c)) (\<lambda>b. Some []) ''lake'' True
      (Some ''secret'') None (Some ''Bearer guess'') (Some []) (Inr ()) () = Some (response, (), None)
    \<and> r_status response \<in> {401, 503}"
  by (rule events_fail_closed) (simp add: webhook_provided_def strip_prefix_def)

lemma routing_exact_witness:
  "\<exists>slugs cache' w'. route_key (Some steady_s3) (\<lambda>body. Inr [body]) ''b'' 5 6 no_cache demo_pipelines ''raw/a.csv''
      = Some (slugs, cache', w')
    \<and> set slugs = {slug. \<exists>p. (p, slug) \<in> routes (\<lambda>body. Inr [body]) (mem_obj demo_pipelines) ''b''
        \<and> p \<noteq> [] \<and> starts_with ''raw/a.csv'' p}"
proof -
  have "list_keys steady_s3 demo_pipelines ''b'' ''pipelines/''
      = Some (Inr (mem_keys demo_pipelines ''b'' ''pipelines/''), demo_pipelines)"
    by (simp add: steady_list mem_list_keys mem_fault_def demo_pipelines_def)
  from routing_exact [OF steady_laws steady_reads this, of 5 no_cache "\<lambda>body. Inr [body]" 6 "''raw/a.csv''"]
  show ?thesis by (auto simp: cache_fresh_def no_cache_def)
qed

lemma routing_outage_cached_witness:
  "\<exists>cache'. route_key (Some mem_s3) (\<lambda>body. Inr [body]) ''b'' 5 6 no_cache outage ''raw/a.csv''
      = Some ([], cache', outage\<lparr>ms_faults := []\<rparr>)
    \<and> route_key (Some mem_s3) (\<lambda>body. Inr [body]) ''b'' 20000 20001 cache' demo_pipelines ''raw/a.csv''
      = Some ([], cache', demo_pipelines)"
  by (rule routing_outage_cached)
    (simp_all add: cache_fresh_def no_cache_def mem_list_keys mem_fault_def outage_def)

end
