(* ===== verification/Frames.thy ===== *)
theory Frames
  imports Evaluator
begin

text \<open>
  The Polars operations the worker calls on frames and columns, as the fields of \<open>FrameOps\<close>.
  \<open>'df\<close> is a \<open>DataFrame\<close>, \<open>'lf\<close> a \<open>LazyFrame\<close>, \<open>'col\<close> a column; a \<open>PolarsError\<close> is its
  message. \<open>group_laws\<close> and \<open>unique_laws\<close> state the documented behaviour that statements below
  rely on, always as a named hypothesis.
\<close>

text \<open>\<open>AnyValue\<close>: the variants the worker tells apart; \<open>AvOther\<close> is any other one, carried as
  its debug rendering. A date is its day count since 1970 as an \<open>i32\<close>.\<close>

datatype AnyValue =
    AvInt8 int | AvInt16 int | AvInt32 int | AvInt64 int
  | AvUInt8 nat | AvUInt16 nat | AvUInt32 nat | AvUInt64 nat
  | AvBoolean bool
  | AvDate "32 word"
  | AvString string
  | AvStringOwned string
  | AvOther string

text \<open>\<open>date_string\<close> is \<open>NaiveDate::from_num_days_from_ce_opt\<close> followed by \<open>format("%Y-%m-%d")\<close>.
  \<open>lf_select\<close> takes each expression with its alias.\<close>

record ('df, 'lf, 'col) FrameOps =
  df_column_names :: "'df \<Rightarrow> string list"
  df_column :: "'df \<Rightarrow> string \<Rightarrow> string + 'col"
  df_height :: "'df \<Rightarrow> nat"
  df_select :: "'df \<Rightarrow> string list \<Rightarrow> string + 'df"
  df_lazy :: "'df \<Rightarrow> 'lf"
  lf_select :: "'lf \<Rightarrow> (string \<times> Expr) list \<Rightarrow> 'lf"
  lf_filter :: "'lf \<Rightarrow> Expr \<Rightarrow> 'lf"
  lf_collect :: "'lf \<Rightarrow> string + 'df"
  lf_concat :: "'lf list \<Rightarrow> string + 'lf"
  df_unique_stable :: "'df \<Rightarrow> string list \<Rightarrow> string + 'df"
  df_partition_by_stable :: "'df \<Rightarrow> string list \<Rightarrow> string + 'df list"
  df_drop_many :: "'df \<Rightarrow> string list \<Rightarrow> 'df"
  df_parquet :: "'df \<Rightarrow> string + string"
  csv_read :: "string \<Rightarrow> string + 'df"
  col_null_count :: "'col \<Rightarrow> nat"
  col_get :: "'col \<Rightarrow> nat \<Rightarrow> string + AnyValue"
  col_to_f64 :: "'col \<Rightarrow> string + f64 option list"
  date_string :: "int \<Rightarrow> string option"
  f64_opt_debug :: "f64 option \<Rightarrow> string"

text \<open>The value of a column in a frame's first row.\<close>

definition first_cell :: "('df, 'lf, 'col) FrameOps \<Rightarrow> 'df \<Rightarrow> string \<Rightarrow> string + AnyValue" where
  "first_cell ops df key = rbind (df_column ops df key) (\<lambda>c. col_get ops c 0)"

fun av_tag :: "AnyValue \<Rightarrow> nat" where
  "av_tag (AvInt8 _) = 0"
| "av_tag (AvInt16 _) = 1"
| "av_tag (AvInt32 _) = 2"
| "av_tag (AvInt64 _) = 3"
| "av_tag (AvUInt8 _) = 4"
| "av_tag (AvUInt16 _) = 5"
| "av_tag (AvUInt32 _) = 6"
| "av_tag (AvUInt64 _) = 7"
| "av_tag (AvBoolean _) = 8"
| "av_tag (AvDate _) = 9"
| "av_tag (AvString _) = 10"
| "av_tag (AvStringOwned _) = 11"
| "av_tag (AvOther _) = 12"

text \<open>Documented behaviour of \<open>partition_by_stable\<close>: two different groups differ in the value
  of some key column, and the cells of a column without nulls are of one type.\<close>

definition group_laws :: "('df, 'lf, 'col) FrameOps \<Rightarrow> bool" where
  "group_laws ops \<longleftrightarrow>
     (\<forall>df keys groups i j. df_partition_by_stable ops df keys = Inr groups \<longrightarrow>
        i < length groups \<longrightarrow> j < length groups \<longrightarrow> i \<noteq> j \<longrightarrow>
        (\<exists>k \<in> set keys. first_cell ops (groups ! i) k \<noteq> first_cell ops (groups ! j) k)
        \<and> (\<forall>k c u v. df_column ops df k = Inr c \<longrightarrow> col_null_count ops c = 0 \<longrightarrow>
             first_cell ops (groups ! i) k = Inr u \<longrightarrow> first_cell ops (groups ! j) k = Inr v
             \<longrightarrow> av_tag u = av_tag v))"

text \<open>Documented behaviour of chrono's \<open>%Y-%m-%d\<close>: different days render differently and without
  a slash.\<close>

definition date_laws :: "('df, 'lf, 'col) FrameOps \<Rightarrow> bool" where
  "date_laws ops \<longleftrightarrow>
     (\<forall>d e s. date_string ops d = Some s \<longrightarrow> CHR ''/'' \<notin> set s
        \<and> (date_string ops e = Some s \<longrightarrow> d = e))"

text \<open>Documented behaviour of \<open>unique_stable\<close>: it never adds rows.\<close>

definition unique_laws :: "('df, 'lf, 'col) FrameOps \<Rightarrow> bool" where
  "unique_laws ops \<longleftrightarrow>
     (\<forall>df keys df'. df_unique_stable ops df keys = Inr df' \<longrightarrow> df_height ops df' \<le> df_height ops df)"

end
