(* ===== verification/Frames_Model.thy ===== *)
theory Frames_Model
  imports Frames
begin

text \<open>
  An in-memory instance of the Polars operations: a frame is a list of named columns of optional
  strings. It meets the laws of \<open>Frames\<close>, so the statements that assume them are not empty;
  the witnesses run on it. Queries and readers, which no law speaks about, are trivial here.
\<close>

type_synonym DemoCol = "string option list"
type_synonym DemoFrame = "(string \<times> DemoCol) list"

definition demo_column :: "DemoFrame \<Rightarrow> string \<Rightarrow> string + DemoCol" where
  "demo_column df name = ok_or ''no such column'' (map_of df name)"

definition demo_height :: "DemoFrame \<Rightarrow> nat" where
  "demo_height df = (case df of [] \<Rightarrow> 0 | (_, c) # _ \<Rightarrow> length c)"

definition demo_at :: "DemoCol \<Rightarrow> nat \<Rightarrow> string option" where
  "demo_at c i = (case get_at c i of Some v \<Rightarrow> v | None \<Rightarrow> Some [])"

definition demo_value :: "string option \<Rightarrow> AnyValue" where
  "demo_value v = (case v of Some s \<Rightarrow> AvString s | None \<Rightarrow> AvOther ''Null'')"

definition demo_get :: "DemoCol \<Rightarrow> nat \<Rightarrow> string + AnyValue" where
  "demo_get c i = (case get_at c i of Some v \<Rightarrow> Inr (demo_value v) | None \<Rightarrow> Inl ''out of bounds'')"

definition demo_cell :: "DemoFrame \<Rightarrow> string \<Rightarrow> nat \<Rightarrow> string + AnyValue" where
  "demo_cell df k i = rbind (demo_column df k) (\<lambda>c. Inr (demo_value (demo_at c i)))"

definition demo_rows_at :: "DemoFrame \<Rightarrow> nat list \<Rightarrow> DemoFrame" where
  "demo_rows_at df ixs = map (\<lambda>(n, c). (n, map (demo_at c) ixs)) df"

definition demo_key :: "DemoFrame \<Rightarrow> string list \<Rightarrow> nat \<Rightarrow> (string + AnyValue) list" where
  "demo_key df keys i = map (\<lambda>k. demo_cell df k i) keys"

definition demo_groups :: "DemoFrame \<Rightarrow> string list \<Rightarrow> DemoFrame list" where
  "demo_groups df keys =
     (let rows = [0..<demo_height df]
      in map (\<lambda>t. demo_rows_at df (filter (\<lambda>i. demo_key df keys i = t) rows))
           (rev (remdups (rev (map (demo_key df keys) rows)))))"

definition demo_unique :: "DemoFrame \<Rightarrow> string list \<Rightarrow> DemoFrame" where
  "demo_unique df keys =
     demo_rows_at df
       (filter (\<lambda>i. list_all (\<lambda>j. demo_key df keys j \<noteq> demo_key df keys i) [0..<i])
          [0..<demo_height df])"

definition demo_ops :: "(DemoFrame, DemoFrame, DemoCol) FrameOps" where
  "demo_ops = \<lparr>df_column_names = map fst, df_column = demo_column, df_height = demo_height,
     df_select = (\<lambda>df names. collect_results (\<lambda>n. rbind (demo_column df n) (\<lambda>c. Inr (n, c))) names),
     df_lazy = (\<lambda>df. df), lf_select = (\<lambda>lf es. lf), lf_filter = (\<lambda>lf e. lf), lf_collect = Inr,
     lf_concat = (\<lambda>lfs. Inr (concat lfs)), df_unique_stable = (\<lambda>df keys. Inr (demo_unique df keys)),
     df_partition_by_stable = (\<lambda>df keys. Inr (demo_groups df keys)),
     df_drop_many = (\<lambda>df names. filter (\<lambda>(n, _). n \<notin> set names) df),
     df_parquet = (\<lambda>df. Inr ''PAR1''),
     csv_read = (\<lambda>b. if b = [] then Inl ''empty'' else Inr [(''a'', [Some b])]),
     col_null_count = (\<lambda>c. length (filter (\<lambda>v. v = None) c)), col_get = demo_get,
     col_to_f64 = (\<lambda>c. Inl ''not numeric''), date_string = (\<lambda>d. Some (show_int d)),
     f64_opt_debug = (\<lambda>_. ''None'')\<rparr>"

lemma demo_first_cell: "first_cell demo_ops (demo_rows_at df (r # rs)) k = demo_cell df k r"
proof -
  have "map_of (demo_rows_at df ixs) k = map_option (\<lambda>c. map (demo_at c) ixs) (map_of df k)" for ixs
    by (simp add: demo_rows_at_def map_of_map)
  then show ?thesis
    by (cases "map_of df k")
       (simp_all add: first_cell_def demo_ops_def demo_column_def demo_cell_def demo_get_def)
qed

lemma demo_group_first:
  assumes "i < length (demo_groups df keys)"
  shows "\<exists>r rs. demo_groups df keys ! i = demo_rows_at df (r # rs)
    \<and> demo_key df keys r = rev (remdups (rev (map (demo_key df keys) [0..<demo_height df]))) ! i"
proof -
  let ?ts = "rev (remdups (rev (map (demo_key df keys) [0..<demo_height df])))"
  let ?ixs = "filter (\<lambda>j. demo_key df keys j = ?ts ! i) [0..<demo_height df]"
  from assms have i: "i < length ?ts" by (simp add: demo_groups_def Let_def)
  then have grp: "demo_groups df keys ! i = demo_rows_at df ?ixs" by (simp add: demo_groups_def Let_def)
  from i have "?ts ! i \<in> set ?ts" by (rule nth_mem)
  then have "?ixs \<noteq> []" by (auto simp: filter_empty_conv)
  then obtain r rs where "?ixs = r # rs" by (cases ?ixs) auto
  moreover from this have "r \<in> set ?ixs" by simp
  then have "demo_key df keys r = ?ts ! i" by simp
  ultimately show ?thesis using grp by metis
qed

lemma demo_tag:
  assumes "df_column demo_ops df k = Inr c" and "col_null_count demo_ops c = 0"
    and "demo_cell df k n = Inr u"
  shows "av_tag u = 10"
proof -
  from assms(2) have "\<forall>v \<in> set c. v \<noteq> None" by (simp add: demo_ops_def filter_empty_conv)
  then have "demo_at c n \<noteq> None" by (auto simp: demo_at_def get_at_def)
  moreover from assms(1,3) have "u = demo_value (demo_at c n)" by (simp add: demo_ops_def demo_cell_def)
  ultimately show ?thesis by (auto simp: demo_value_def)
qed

lemma demo_tags:
  assumes "df_column demo_ops df k = Inr c" and "col_null_count demo_ops c = 0"
    and "demo_cell df k n = Inr u" and "demo_cell df k m = Inr v"
  shows "av_tag u = av_tag v"
  using demo_tag [OF assms(1-3)] demo_tag [OF assms(1,2,4)] by simp

lemma demo_group_laws: "group_laws demo_ops"
proof -
  have "(\<exists>k \<in> set keys. first_cell demo_ops (gs ! i) k \<noteq> first_cell demo_ops (gs ! j) k)
      \<and> (\<forall>k c u v. df_column demo_ops df k = Inr c \<longrightarrow> col_null_count demo_ops c = 0 \<longrightarrow>
           first_cell demo_ops (gs ! i) k = Inr u \<longrightarrow> first_cell demo_ops (gs ! j) k = Inr v
           \<longrightarrow> av_tag u = av_tag v)" (is "?diff \<and> ?same")
    if gs: "gs = demo_groups df keys" and ij: "i < length gs" "j < length gs" "i \<noteq> j"
    for df keys gs i j
  proof
    let ?ts = "rev (remdups (rev (map (demo_key df keys) [0..<demo_height df])))"
    have "length gs = length ?ts" by (simp add: gs demo_groups_def Let_def)
    moreover have "distinct ?ts" by simp
    ultimately have diff: "?ts ! i \<noteq> ?ts ! j" using ij by (metis nth_eq_iff_index_eq)
    from demo_group_first [of i df keys] ij gs obtain r rs where
      r: "gs ! i = demo_rows_at df (r # rs)" "demo_key df keys r = ?ts ! i" by blast
    from demo_group_first [of j df keys] ij gs obtain q qs where
      q: "gs ! j = demo_rows_at df (q # qs)" "demo_key df keys q = ?ts ! j" by blast
    from diff r q have "demo_key df keys r \<noteq> demo_key df keys q" by simp
    then show ?diff unfolding r(1) q(1) demo_first_cell by (auto simp: demo_key_def)
    show ?same unfolding r(1) q(1) demo_first_cell using demo_tags by blast
  qed
  moreover have "df_partition_by_stable demo_ops df keys = Inr (demo_groups df keys)" for df keys
    by (simp add: demo_ops_def)
  ultimately show ?thesis unfolding group_laws_def by (metis sum.inject(2))
qed

lemma demo_date_laws: "date_laws demo_ops"
  by (simp add: date_laws_def demo_ops_def show_int_no_char is_digit_def)

lemma demo_unique_laws: "unique_laws demo_ops"
proof -
  have "demo_height (demo_unique df keys) \<le> demo_height df" for df keys
    using length_filter_le [of "\<lambda>i. list_all (\<lambda>j. demo_key df keys j \<noteq> demo_key df keys i) [0..<i]"
        "[0..<demo_height df]"]
    by (cases df) (auto simp: demo_unique_def demo_rows_at_def demo_height_def)
  then show ?thesis by (simp add: unique_laws_def demo_ops_def)
qed

end
