(* ===== verification/Assertions.thy ===== *)
theory Assertions
  imports Frames_Model
begin

text \<open>
  Models \<open>src/assertions.rs\<close>: the data-quality checks on the columns of an analytic table, and
  what it means that they report nothing. Both error arms of the float conversion push the same
  violation, so the conversion is one fallible operation.
\<close>

record AssertionViolation =
  av_column :: string
  av_kind :: string
  av_message :: string

definition violation_display :: "AssertionViolation \<Rightarrow> string" where
  "violation_display v = ''column `'' @ av_column v @ ''` '' @ av_kind v @ '': '' @ av_message v"

text \<open>The counting loop: a value below the minimum is not compared with the maximum.\<close>

fun count_range ::
  "f64 option \<Rightarrow> f64 option \<Rightarrow> f64 list \<Rightarrow> nat \<Rightarrow> nat \<Rightarrow> nat \<times> nat" where
  "count_range lo hi [] lows highs = (lows, highs)"
| "count_range lo hi (v # vs) lows highs =
     (if (case lo of Some l \<Rightarrow> f64_lt v l | None \<Rightarrow> False)
      then count_range lo hi vs (lows + 1) highs
      else if (case hi of Some h \<Rightarrow> f64_lt h v | None \<Rightarrow> False)
      then count_range lo hi vs lows (highs + 1)
      else count_range lo hi vs lows highs)"

definition not_null_violations ::
  "('df, 'lf, 'col) FrameOps \<Rightarrow> string \<Rightarrow> 'col \<Rightarrow> ColumnAssertions \<Rightarrow> AssertionViolation list" where
  "not_null_violations ops name col a =
     (if ca_not_null a = Some True \<and> 0 < col_null_count ops col
      then [\<lparr>av_column = name, av_kind = ''not_null'',
             av_message = show_nat (col_null_count ops col) @ '' null value(s) found''\<rparr>]
      else [])"

definition range_violations ::
  "('df, 'lf, 'col) FrameOps \<Rightarrow> string \<Rightarrow> 'col \<Rightarrow> ColumnAssertions \<Rightarrow> AssertionViolation list" where
  "range_violations ops name col a =
     (if ca_min a = None \<and> ca_max a = None then []
      else case col_to_f64 ops col of
             Inl e \<Rightarrow> [\<lparr>av_column = name, av_kind = ''range'',
                       av_message = ''cast to float64 failed: '' @ e\<rparr>]
           | Inr cells \<Rightarrow>
               (case count_range (ca_min a) (ca_max a) (List.map_filter (\<lambda>c. c) cells) 0 0 of
                  (lows, highs) \<Rightarrow>
                    if 0 < lows \<or> 0 < highs
                    then [\<lparr>av_column = name, av_kind = ''range'',
                           av_message = show_nat lows @ '' below min, '' @ show_nat highs
                             @ '' above max (min='' @ f64_opt_debug ops (ca_min a)
                             @ '', max='' @ f64_opt_debug ops (ca_max a) @ '')''\<rparr>]
                    else []))"

definition check_column ::
  "('df, 'lf, 'col) FrameOps \<Rightarrow> string \<Rightarrow> 'col \<Rightarrow> ColumnAssertions \<Rightarrow> AssertionViolation list" where
  "check_column ops name col a =
     not_null_violations ops name col a @ range_violations ops name col a"

definition column_violations ::
  "('df, 'lf, 'col) FrameOps \<Rightarrow> 'df \<Rightarrow> ColumnSchema \<Rightarrow> AssertionViolation list" where
  "column_violations ops df col =
     (case cs_assertions col of
        None \<Rightarrow> []
      | Some a \<Rightarrow>
          (case df_column ops df (cs_name col) of
             Inl _ \<Rightarrow> [\<lparr>av_column = cs_name col, av_kind = ''missing_column'',
                       av_message = ''column not present in produced DataFrame''\<rparr>]
           | Inr series \<Rightarrow> check_column ops (cs_name col) series a))"

definition validate_assertions ::
  "('df, 'lf, 'col) FrameOps \<Rightarrow> 'df \<Rightarrow> AnalyticTable \<Rightarrow> AssertionViolation list" where
  "validate_assertions ops df table = concat (map (column_violations ops df) (t_schema table))"

section \<open>When nothing is reported\<close>

definition below_min :: "f64 option \<Rightarrow> f64 \<Rightarrow> bool" where
  "below_min lo v \<longleftrightarrow> (\<exists>l. lo = Some l \<and> f64_lt v l)"

definition above_max :: "f64 option \<Rightarrow> f64 \<Rightarrow> bool" where
  "above_max hi v \<longleftrightarrow> (\<exists>h. hi = Some h \<and> f64_lt h v)"

lemma count_range_counts:
  "count_range lo hi vs lows highs =
     (lows + length (filter (below_min lo) vs),
      highs + length (filter (\<lambda>v. \<not> below_min lo v \<and> above_max hi v) vs))"
  by (induction lo hi vs lows highs rule: count_range.induct)
     (auto simp: below_min_def above_max_def split: option.splits)

text \<open>A column meets its assertions: no null when that is asked for, and, when a bound is set, a
  numeric reading of which no value lies outside the bounds. Nulls are not compared.\<close>

definition column_ok :: "('df, 'lf, 'col) FrameOps \<Rightarrow> 'col \<Rightarrow> ColumnAssertions \<Rightarrow> bool" where
  "column_ok ops col a \<longleftrightarrow>
     (ca_not_null a = Some True \<longrightarrow> col_null_count ops col = 0)
     \<and> (ca_min a = None \<and> ca_max a = None
        \<or> (\<exists>cells. col_to_f64 ops col = Inr cells
             \<and> (\<forall>v. Some v \<in> set cells \<longrightarrow> \<not> below_min (ca_min a) v \<and> \<not> above_max (ca_max a) v)))"

lemma map_filter_id: "set (List.map_filter (\<lambda>c. c) cells) = {v. Some v \<in> set cells}"
  by (auto simp: List.map_filter_def image_iff) (metis option.sel option.distinct(1))

lemma check_column_Nil: "check_column ops name col a = [] \<longleftrightarrow> column_ok ops col a"
proof -
  have nn: "not_null_violations ops name col a = []
      \<longleftrightarrow> (ca_not_null a = Some True \<longrightarrow> col_null_count ops col = 0)"
    by (auto simp: not_null_violations_def)
  have rg: "range_violations ops name col a = []
      \<longleftrightarrow> (ca_min a = None \<and> ca_max a = None
        \<or> (\<exists>cells. col_to_f64 ops col = Inr cells
             \<and> (\<forall>v. Some v \<in> set cells \<longrightarrow> \<not> below_min (ca_min a) v \<and> \<not> above_max (ca_max a) v)))"
    by (auto simp: range_violations_def count_range_counts filter_empty_conv map_filter_id
        split: sum.splits)
  show ?thesis by (simp add: check_column_def column_ok_def nn rg)
qed

lemma column_violations_Nil:
  "column_violations ops df c = [] \<longleftrightarrow>
     (\<forall>a. cs_assertions c = Some a \<longrightarrow>
        (\<exists>col. df_column ops df (cs_name c) = Inr col \<and> column_ok ops col a))"
  by (cases "df_column ops df (cs_name c)")
     (auto simp: column_violations_def check_column_Nil split: option.splits)

section \<open>Properties\<close>

text \<open>The assertions of a table report nothing exactly when every asserted column of its
  schema is present in the frame and meets its assertions.\<close>

theorem assertions_pass:
  "validate_assertions ops df table = [] \<longleftrightarrow>
     (\<forall>c \<in> set (t_schema table). \<forall>a. cs_assertions c = Some a \<longrightarrow>
        (\<exists>col. df_column ops df (cs_name c) = Inr col \<and> column_ok ops col a))"
  by (simp add: validate_assertions_def column_violations_Nil)

section \<open>Witnesses\<close>

definition asserted_table :: AnalyticTable where
  "asserted_table = \<lparr>t_id = ''t'', t_name = ''T'',
     t_schema = [\<lparr>cs_name = ''x'', cs_path = None, cs_type = ''string'', cs_nullable = None,
       cs_assertions = Some \<lparr>ca_not_null = Some True, ca_min = None, ca_max = None\<rparr>\<rparr>],
     t_partition_keys = [''x''], t_dedup_keys = [''x'']\<rparr>"

lemma assertions_pass_witness:
  "validate_assertions demo_ops [(''x'', [Some ''1''])] asserted_table = []"
  unfolding assertions_pass
  by (simp add: demo_ops_def demo_column_def asserted_table_def column_ok_def)

end
