(* ===== verification/Pipeline.thy ===== *)
theory Pipeline
  imports Assertions Json_Source Percent
begin

text \<open>
  Models \<open>src/pipeline.rs\<close> and the pipeline errors of \<open>src/error.rs\<close>: ingesting a file through a
  mapping, the union over files, deduplication, hive partitioning and the sequential upload.
  Log lines are not modelled. \<open>debug_assert_eq\<close> is compiled out of release builds and has no
  counterpart; integer arithmetic wraps, as it does there.
\<close>

section \<open>Errors\<close>

datatype PipelineError =
    JsonRead string string
  | UnknownSourceContainer string
  | MissingColumns string "string list"
  | Eval string EvalError
  | Polars string string
  | NoFilesSucceeded
  | Partition string
  | PartitionUploadFailed string string

text \<open>\<open>debug_list\<close> renders a list of strings as \<open>{:?}\<close> does.\<close>

fun pipeline_error_display :: "(string list \<Rightarrow> string) \<Rightarrow> PipelineError \<Rightarrow> string" where
  "pipeline_error_display debug_list (JsonRead key message) =
     ''JSON read failed for `'' @ key @ ''`: '' @ message"
| "pipeline_error_display debug_list (UnknownSourceContainer key) =
     ''unknown source container for key `'' @ key @ ''`''"
| "pipeline_error_display debug_list (MissingColumns key missing) =
     ''CSV `'' @ key @ ''` missing required columns: '' @ debug_list missing"
| "pipeline_error_display debug_list (Eval key src) =
     ''evaluator error for key `'' @ key @ ''`: '' @ eval_error_display src"
| "pipeline_error_display debug_list (Polars key src) =
     ''polars error for key `'' @ key @ ''`: '' @ src"
| "pipeline_error_display debug_list NoFilesSucceeded = ''no files succeeded during ingestion''"
| "pipeline_error_display debug_list (Partition message) = ''partitioning failed: '' @ message"
| "pipeline_error_display debug_list (PartitionUploadFailed key message) =
     ''partition upload failed for key `'' @ key @ ''`: '' @ message"

section \<open>Ingestion\<close>

definition validate_csv_headers :: "string list \<Rightarrow> ColumnSchema list \<Rightarrow> string list + unit" where
  "validate_csv_headers headers schema =
     (let missing = map cs_name (filter (\<lambda>col. \<not> list_ex (\<lambda>h. h = cs_name col) headers) schema)
      in if missing = [] then Inr () else Inl missing)"

definition project_schema_columns ::
  "('df, 'lf, 'col) FrameOps \<Rightarrow> 'df \<Rightarrow> ColumnSchema list \<Rightarrow> string + 'df" where
  "project_schema_columns ops df schema = df_select ops df (map cs_name schema)"

definition resolve_source_container ::
  "string \<Rightarrow> PipelineConfig \<Rightarrow> PipelineError + SourceContainer" where
  "resolve_source_container key cfg =
     ok_or (UnknownSourceContainer key)
       (List.find (\<lambda>sc. starts_with key (sc_path_prefix sc)) (cfg_source_containers cfg))"

definition read_source :: "('df, 'lf, 'col) FrameOps \<Rightarrow> string \<Rightarrow> string \<Rightarrow> PipelineError + 'df" where
  "read_source ops key bytes = map_err (Polars key) (csv_read ops bytes)"

definition read_csv_projected ::
  "('df, 'lf, 'col) FrameOps \<Rightarrow> string \<Rightarrow> string \<Rightarrow> SourceContainer \<Rightarrow> PipelineError + 'df" where
  "read_csv_projected ops key bytes sc =
     rbind (read_source ops key bytes) (\<lambda>df.
       case validate_csv_headers (df_column_names ops df) (sc_schema sc) of
         Inl missing \<Rightarrow> Inl (MissingColumns key missing)
       | Inr _ \<Rightarrow> map_err (Polars key) (project_schema_columns ops df (sc_schema sc)))"

text \<open>The record filter runs before the column expressions.\<close>

definition filter_records ::
  "(string \<Rightarrow> string) \<Rightarrow> ('df, 'lf, 'col) FrameOps \<Rightarrow> string \<Rightarrow> Registry \<Rightarrow> AstNode option \<Rightarrow> 'df
    \<Rightarrow> PipelineError + 'df" where
  "filter_records lower ops key matchers record_filter df =
     (case record_filter of
        None \<Rightarrow> Inr df
      | Some f \<Rightarrow>
          rbind (map_err (Eval key) (compile lower matchers f)) (\<lambda>expr.
            map_err (Polars key) (lf_collect ops (lf_filter ops (df_lazy ops df) expr))))"

definition read_projected ::
  "(string \<Rightarrow> string) \<Rightarrow> ('df, 'lf, 'col) FrameOps \<Rightarrow> ('n, 'df) JsonOps \<Rightarrow> string \<Rightarrow> string
    \<Rightarrow> SourceContainer \<Rightarrow> Registry \<Rightarrow> panic + (PipelineError + 'df)" where
  "read_projected lower ops jops key bytes sc matchers =
     (case sc_format sc of
        Csv \<Rightarrow> Inr (read_csv_projected ops key bytes sc)
      | Ndjson \<Rightarrow>
          rbind (read_json_source jops bytes sc) (\<lambda>r. Inr
            (rbind (map_err (JsonRead key) r) (\<lambda>(df, skipped).
               filter_records lower ops key matchers (sc_record_filter sc) df))))"

text \<open>The loop over the mapping's columns, stopping at the first that does not compile.\<close>

definition compile_columns ::
  "(string \<Rightarrow> string) \<Rightarrow> string \<Rightarrow> Registry \<Rightarrow> MappingColumn list
    \<Rightarrow> PipelineError + (string \<times> Expr) list" where
  "compile_columns lower key matchers columns =
     collect_results (\<lambda>c.
       rbind (map_err (Eval key) (compile lower matchers (mc_expr c))) (\<lambda>e. Inr (mc_name c, e)))
       columns"

text \<open>The projection, then the filter on its output columns.\<close>

definition apply_mapping ::
  "(string \<Rightarrow> string) \<Rightarrow> ('df, 'lf, 'col) FrameOps \<Rightarrow> string \<Rightarrow> Mapping \<Rightarrow> Registry \<Rightarrow> 'df
    \<Rightarrow> PipelineError + 'df" where
  "apply_mapping lower ops key mapping matchers projected =
     rbind (compile_columns lower key matchers (m_columns mapping)) (\<lambda>exprs.
       let lf = lf_select ops (df_lazy ops projected) exprs
       in rbind (case m_where mapping of
                   None \<Rightarrow> Inr lf
                 | Some predicate \<Rightarrow>
                     rbind (map_err (Eval key) (compile lower matchers predicate))
                       (\<lambda>expr. Inr (lf_filter ops lf expr)))
            (\<lambda>lf'. map_err (Polars key) (lf_collect ops lf')))"

definition ingest_file ::
  "(string \<Rightarrow> string) \<Rightarrow> ('df, 'lf, 'col) FrameOps \<Rightarrow> ('n, 'df) JsonOps \<Rightarrow> string \<Rightarrow> string
    \<Rightarrow> PipelineConfig \<Rightarrow> Mapping \<Rightarrow> Registry \<Rightarrow> panic + (PipelineError + 'df)" where
  "ingest_file lower ops jops key bytes cfg mapping matchers =
     (case resolve_source_container key cfg of
        Inl e \<Rightarrow> Inr (Inl e)
      | Inr sc \<Rightarrow>
          rbind (read_projected lower ops jops key bytes sc matchers) (\<lambda>r.
            Inr (rbind r (apply_mapping lower ops key mapping matchers))))"

text \<open>A file that fails is skipped.\<close>

fun ingest_frames ::
  "(string \<Rightarrow> string) \<Rightarrow> ('df, 'lf, 'col) FrameOps \<Rightarrow> ('n, 'df) JsonOps \<Rightarrow> PipelineConfig \<Rightarrow> Mapping
    \<Rightarrow> Registry \<Rightarrow> (string \<times> string) list \<Rightarrow> 'lf list \<Rightarrow> panic + 'lf list" where
  "ingest_frames lower ops jops cfg mapping matchers [] frames = Inr frames"
| "ingest_frames lower ops jops cfg mapping matchers ((key, bytes) # files) frames =
     rbind (ingest_file lower ops jops key bytes cfg mapping matchers) (\<lambda>r.
       case r of
         Inr df \<Rightarrow>
           ingest_frames lower ops jops cfg mapping matchers files (frames @ [df_lazy ops df])
       | Inl _ \<Rightarrow> ingest_frames lower ops jops cfg mapping matchers files frames)"

definition ingest_many ::
  "(string \<Rightarrow> string) \<Rightarrow> ('df, 'lf, 'col) FrameOps \<Rightarrow> ('n, 'df) JsonOps \<Rightarrow> (string \<times> string) list
    \<Rightarrow> PipelineConfig \<Rightarrow> Mapping \<Rightarrow> Registry \<Rightarrow> panic + (PipelineError + 'lf)" where
  "ingest_many lower ops jops files cfg mapping matchers =
     rbind (ingest_frames lower ops jops cfg mapping matchers files []) (\<lambda>frames. Inr
       (if frames = [] then Inl NoFilesSucceeded
        else map_err (Polars ''<multi>'') (lf_concat ops frames)))"

section \<open>Partitioning\<close>

record PartitionOutput =
  po_key :: string
  po_bytes :: string

definition show_bool :: "bool \<Rightarrow> string" where
  "show_bool b = (if b then ''true'' else ''false'')"

fun segment_value :: "('df, 'lf, 'col) FrameOps \<Rightarrow> AnyValue \<Rightarrow> PipelineError + string" where
  "segment_value ops (AvInt8 v) = Inr (show_int v)"
| "segment_value ops (AvInt16 v) = Inr (show_int v)"
| "segment_value ops (AvInt32 v) = Inr (show_int v)"
| "segment_value ops (AvInt64 v) = Inr (show_int v)"
| "segment_value ops (AvUInt8 v) = Inr (show_nat v)"
| "segment_value ops (AvUInt16 v) = Inr (show_nat v)"
| "segment_value ops (AvUInt32 v) = Inr (show_nat v)"
| "segment_value ops (AvUInt64 v) = Inr (show_nat v)"
| "segment_value ops (AvBoolean v) = Inr (show_bool v)"
| "segment_value ops (AvDate days) =
     ok_or (Partition (''date value '' @ show_int (sint days) @ '' out of range''))
       (date_string ops (sint (days + 719163)))"
| "segment_value ops (AvString v) = Inr (encode_segment v)"
| "segment_value ops (AvStringOwned v) = Inr (encode_segment v)"
| "segment_value ops (AvOther dbg) =
     Inl (Partition (''unsupported partition key value: '' @ dbg))"

definition unpartitioned_key :: "string \<Rightarrow> string \<Rightarrow> string" where
  "unpartitioned_key analytic_table_id mapping_id = analytic_table_id @ ''/'' @ mapping_id @ ''.parquet''"

text \<open>Subtraction on \<open>usize\<close>.\<close>

definition usize_sub :: "nat \<Rightarrow> nat \<Rightarrow> nat" where
  "usize_sub a b = (if b \<le> a then a - b else 2 ^ 64 - (b - a) mod 2 ^ 64)"

definition dedup_rows ::
  "('df, 'lf, 'col) FrameOps \<Rightarrow> 'df \<Rightarrow> AnalyticTable \<Rightarrow> PipelineError + 'df \<times> nat" where
  "dedup_rows ops df table =
     (if t_dedup_keys table = [] then Inr (df, 0)
      else rbind (map_err (Polars ''<dedup>'') (df_unique_stable ops df (t_dedup_keys table)))
             (\<lambda>deduped. Inr (deduped, usize_sub (df_height ops df) (df_height ops deduped))))"

text \<open>The loop over the partition keys that rejects null values.\<close>

fun check_null_keys ::
  "('df, 'lf, 'col) FrameOps \<Rightarrow> 'df \<Rightarrow> string list \<Rightarrow> PipelineError + unit" where
  "check_null_keys ops df [] = Inr ()"
| "check_null_keys ops df (key # keys) =
     rbind (map_err (Polars ''<partition>'') (df_column ops df key)) (\<lambda>column.
       if 0 < col_null_count ops column
       then Inl (Partition (''partition key `'' @ key @ ''` has ''
              @ show_nat (col_null_count ops column)
              @ '' null value(s); rows cannot be assigned to a partition (coalesce in the ''
              @ ''expression to supply a default)''))
       else check_null_keys ops df keys)"

definition group_segment ::
  "('df, 'lf, 'col) FrameOps \<Rightarrow> 'df \<Rightarrow> string \<Rightarrow> PipelineError + string" where
  "group_segment ops grp key =
     rbind (map_err (Polars ''<partition>'') (first_cell ops grp key)) (\<lambda>av.
     rbind (segment_value ops av) (\<lambda>v. Inr (key @ ''='' @ v)))"

definition group_output ::
  "('df, 'lf, 'col) FrameOps \<Rightarrow> Mapping \<Rightarrow> AnalyticTable \<Rightarrow> 'df \<Rightarrow> PipelineError + PartitionOutput" where
  "group_output ops mapping table grp =
     rbind (collect_results (group_segment ops grp) (t_partition_keys table)) (\<lambda>segments.
     rbind (map_err (Polars ''<partition>'')
              (df_parquet ops (df_drop_many ops grp (t_partition_keys table)))) (\<lambda>bytes.
     Inr \<lparr>po_key = t_id table @ ''/'' @ join ''/'' segments @ ''/'' @ m_id mapping @ ''.parquet'',
          po_bytes = bytes\<rparr>))"

definition produce_partitions ::
  "('df, 'lf, 'col) FrameOps \<Rightarrow> 'df \<Rightarrow> Mapping \<Rightarrow> AnalyticTable
    \<Rightarrow> PipelineError + PartitionOutput list" where
  "produce_partitions ops df mapping table =
     (if t_partition_keys table = []
      then rbind (map_err (Polars ''<partition>'') (df_parquet ops df)) (\<lambda>bytes.
             Inr [\<lparr>po_key = unpartitioned_key (t_id table) (m_id mapping), po_bytes = bytes\<rparr>])
      else rbind (check_null_keys ops df (t_partition_keys table)) (\<lambda>_.
           rbind (map_err (Polars ''<partition>'')
                    (df_partition_by_stable ops df (t_partition_keys table))) (\<lambda>groups.
             collect_results (group_output ops mapping table) groups)))"

section \<open>Upload\<close>

text \<open>The \<open>PartitionUploader\<close> trait: one \<open>put\<close> on the uploader's state.\<close>

type_synonym 'u Uploader = "'u \<Rightarrow> string \<Rightarrow> string \<Rightarrow> (string + unit) \<times> 'u"

fun upload_from ::
  "'u Uploader \<Rightarrow> 'u \<Rightarrow> PartitionOutput list \<Rightarrow> string list \<Rightarrow> (PipelineError + string list) \<times> 'u" where
  "upload_from put u [] uploaded = (Inr uploaded, u)"
| "upload_from put u (p # ps) uploaded =
     (case put u (po_key p) (po_bytes p) of
        (Inl message, u') \<Rightarrow> (Inl (PartitionUploadFailed (po_key p) message), u')
      | (Inr _, u') \<Rightarrow> upload_from put u' ps (uploaded @ [po_key p]))"

definition upload_partitions ::
  "'u Uploader \<Rightarrow> 'u \<Rightarrow> PartitionOutput list \<Rightarrow> (PipelineError + string list) \<times> 'u" where
  "upload_partitions put u partitions = upload_from put u partitions []"

end
