(* ===== verification/Manifest.thy ===== *)
theory Manifest
  imports S3 Rust_Text
begin

text \<open>
  Models \<open>src/manifest.rs\<close>: the version pointer and the manifests of a table, the file list a run
  publishes, and vacuum. Versions are \<open>u64\<close>. \<open>ManifestJson\<close> holds the \<open>serde_json\<close> conversions
  of the two stored documents; \<open>json_laws\<close> says that what is written reads back.
\<close>

section \<open>Documents\<close>

definition CURRENT_KEY :: string where "CURRENT_KEY = ''_current.json''"
definition MANIFEST_PREFIX :: string where "MANIFEST_PREFIX = ''_manifests/''"
definition RETAINED_VERSIONS :: nat where "RETAINED_VERSIONS = 10"

record ManifestFile =
  mf_key :: string
  mf_mapping_id :: string
  mf_bytes :: nat

record TableManifest =
  tm_version :: nat
  tm_created_at :: string
  tm_job_id :: "string option"
  tm_files :: "ManifestFile list"

definition empty_manifest :: TableManifest where
  "empty_manifest = \<lparr>tm_version = 0, tm_created_at = [], tm_job_id = None, tm_files = []\<rparr>"

text \<open>The sum of the sizes, wrapping at the word.\<close>

definition manifest_bytes :: "TableManifest \<Rightarrow> nat" where
  "manifest_bytes m = fold (\<lambda>f acc. (acc + mf_bytes f) mod 2 ^ 64) (tm_files m) 0"

record ManifestJson =
  enc_pointer :: "nat \<Rightarrow> string + string"
  dec_pointer :: "string \<Rightarrow> string + nat"
  enc_manifest :: "TableManifest \<Rightarrow> string + string"
  dec_manifest :: "string \<Rightarrow> string + TableManifest"

definition json_laws :: "ManifestJson \<Rightarrow> bool" where
  "json_laws js \<longleftrightarrow>
     (\<forall>v b. enc_pointer js v = Inr b \<longrightarrow> dec_pointer js b = Inr v)
     \<and> (\<forall>m b. enc_manifest js m = Inr b \<longrightarrow> dec_manifest js b = Inr m)"

definition version_prefix :: "nat \<Rightarrow> string" where
  "version_prefix version = ''v'' @ show_nat version @ ''/''"

definition manifest_key :: "nat \<Rightarrow> string" where
  "manifest_key version = MANIFEST_PREFIX @ show_nat version @ ''.json''"

section \<open>File lists\<close>

text \<open>\<open>sort_by\<close> is stable, as \<open>sort_key\<close> is.\<close>

definition apply_mapping_writes ::
  "ManifestFile list \<Rightarrow> string \<Rightarrow> ManifestFile list \<Rightarrow> ManifestFile list" where
  "apply_mapping_writes previous mapping_id files =
     sort_key mf_key (filter (\<lambda>f. mf_mapping_id f \<noteq> mapping_id) previous @ files)"

definition versions_to_drop :: "nat list \<Rightarrow> nat \<Rightarrow> nat \<Rightarrow> nat list" where
  "versions_to_drop versions current retain =
     (let vs = filter (\<lambda>v. v \<le> current) (sort versions)
      in take (length vs - retain) vs)"

definition unreferenced_keys :: "TableManifest list \<Rightarrow> string list \<Rightarrow> string list" where
  "unreferenced_keys retained present =
     (let referenced = set (concat (map (\<lambda>m. map mf_key (tm_files m)) retained))
      in filter (\<lambda>k. \<not> starts_with k MANIFEST_PREFIX \<and> k \<noteq> CURRENT_KEY \<and> k \<notin> referenced) present)"

section \<open>The store\<close>

definition read_version ::
  "'w S3Ops \<Rightarrow> ManifestJson \<Rightarrow> 'w \<Rightarrow> string \<Rightarrow> string \<Rightarrow> nat \<Rightarrow> (string + TableManifest) \<times> 'w" where
  "read_version s3 js w bucket table_prefix version =
     (let key = table_prefix @ manifest_key version
      in case get_bytes s3 w bucket key of
           (Inl e, w') \<Rightarrow> (Inl e, w')
         | (Inr bytes, w') \<Rightarrow>
             (map_err (\<lambda>e. key @ '' is not a manifest: '' @ e) (dec_manifest js bytes), w'))"

text \<open>Any error reading the pointer counts as an unpublished table.\<close>

definition read_current ::
  "'w S3Ops \<Rightarrow> ManifestJson \<Rightarrow> 'w \<Rightarrow> string \<Rightarrow> string \<Rightarrow> (string + TableManifest) \<times> 'w" where
  "read_current s3 js w bucket table_prefix =
     (case get_bytes s3 w bucket (table_prefix @ CURRENT_KEY) of
        (Inl _, w') \<Rightarrow> (Inr empty_manifest, w')
      | (Inr bytes, w') \<Rightarrow>
          (case dec_pointer js bytes of
             Inl e \<Rightarrow>
               (Inl (table_prefix @ CURRENT_KEY @ '' is not a version pointer: '' @ e), w')
           | Inr version \<Rightarrow> read_version s3 js w' bucket table_prefix version))"

definition put_document ::
  "'w S3Ops \<Rightarrow> 'w \<Rightarrow> string \<Rightarrow> string \<Rightarrow> string \<Rightarrow> (string + unit) \<times> 'w" where
  "put_document s3 w bucket key body =
     (case put_object s3 w bucket key body of
        (r, w') \<Rightarrow> (map_err (\<lambda>e. ''PutObject '' @ key @ '': '' @ err_chain e) r, w'))"

text \<open>The manifest first, then the pointer.\<close>

definition publish ::
  "'w S3Ops \<Rightarrow> ManifestJson \<Rightarrow> 'w \<Rightarrow> string \<Rightarrow> string \<Rightarrow> TableManifest \<Rightarrow> (string + unit) \<times> 'w" where
  "publish s3 js w bucket table_prefix m =
     (case enc_manifest js m of
        Inl e \<Rightarrow> (Inl (''serialize manifest: '' @ e), w)
      | Inr body \<Rightarrow>
          (case put_document s3 w bucket (table_prefix @ manifest_key (tm_version m)) body of
             (Inl e, w') \<Rightarrow> (Inl e, w')
           | (Inr _, w') \<Rightarrow>
               (case enc_pointer js (tm_version m) of
                  Inl e \<Rightarrow> (Inl (''serialize pointer: '' @ e), w')
                | Inr pointer \<Rightarrow> put_document s3 w' bucket (table_prefix @ CURRENT_KEY) pointer)))"

text \<open>\<open>filter_map\<close> over the keys under the table prefix that are manifests.\<close>

definition manifest_version :: "string \<Rightarrow> nat option" where
  "manifest_version k =
     Option.bind (strip_prefix MANIFEST_PREFIX k) (\<lambda>v.
     Option.bind (strip_suffix ''.json'' v) parse_u64)"

text \<open>The loop that reads the retained manifests; one that does not read aborts vacuum.\<close>

fun read_retained ::
  "'w S3Ops \<Rightarrow> ManifestJson \<Rightarrow> 'w \<Rightarrow> string \<Rightarrow> string \<Rightarrow> nat list \<Rightarrow> TableManifest list
    \<Rightarrow> (string + TableManifest list) \<times> 'w" where
  "read_retained s3 js w bucket table_prefix [] retained = (Inr retained, w)"
| "read_retained s3 js w bucket table_prefix (v # vs) retained =
     (case read_version s3 js w bucket table_prefix v of
        (Inl e, w') \<Rightarrow>
          (Inl (''vacuum aborted, manifest '' @ show_nat v @ '' unreadable: '' @ e), w')
      | (Inr m, w') \<Rightarrow> read_retained s3 js w' bucket table_prefix vs (retained @ [m]))"

text \<open>A delete that fails is logged and not counted.\<close>

fun delete_all ::
  "'w S3Ops \<Rightarrow> 'w \<Rightarrow> string \<Rightarrow> string \<Rightarrow> string list \<Rightarrow> nat \<Rightarrow> nat \<times> 'w" where
  "delete_all s3 w bucket table_prefix [] deleted = (deleted, w)"
| "delete_all s3 w bucket table_prefix (key # keys) deleted =
     (case delete_object s3 w bucket (table_prefix @ key) of
        (Inr _, w') \<Rightarrow> delete_all s3 w' bucket table_prefix keys (deleted + 1)
      | (Inl _, w') \<Rightarrow> delete_all s3 w' bucket table_prefix keys deleted)"

text \<open>\<open>None\<close> when the listing never ends.\<close>

definition vacuum ::
  "'w S3Ops \<Rightarrow> ManifestJson \<Rightarrow> 'w \<Rightarrow> string \<Rightarrow> string \<Rightarrow> nat \<Rightarrow> ((string + nat) \<times> 'w) option" where
  "vacuum s3 js w bucket table_prefix current =
     (case list_keys s3 w bucket table_prefix of
        None \<Rightarrow> None
      | Some (Inl e, w') \<Rightarrow> Some (Inl e, w')
      | Some (Inr all, w') \<Rightarrow>
          (let relative = List.map_filter (strip_prefix table_prefix) all;
               versions = List.map_filter manifest_version relative;
               doomed = versions_to_drop versions current RETAINED_VERSIONS;
               retained_versions = filter (\<lambda>v. v \<notin> set doomed \<and> v \<le> current) versions
           in case read_retained s3 js w' bucket table_prefix retained_versions [] of
                (Inl e, w'') \<Rightarrow> Some (Inl e, w'')
              | (Inr retained, w'') \<Rightarrow>
                  (let targets = unreferenced_keys retained relative @ map manifest_key doomed
                   in case delete_all s3 w'' bucket table_prefix targets 0 of
                        (deleted, w''') \<Rightarrow> Some (Inr deleted, w'''))))"

end
