(* ===== verification/Db.thy ===== *)
theory Db
  imports Prelude
begin

text \<open>
  Models \<open>src/db.rs\<close>. Postgres is a service: a statement with its bound parameters is sent through
  \<open>PgOps\<close>, on a state \<open>'w\<close> that holds the database. Runs of white space in a statement are
  one space here. A JSON column is its text. The connection pool is not modelled.
\<close>

datatype SqlParam = SqlText "string option" | SqlInt "int option" | SqlInt32 "32 word option"

record 'w PgOps =
  pg_fetch_json :: "'w \<Rightarrow> string \<Rightarrow> SqlParam list \<Rightarrow> (string + string option) \<times> 'w"
  pg_fetch_int :: "'w \<Rightarrow> string \<Rightarrow> SqlParam list \<Rightarrow> (string + int option) \<times> 'w"
  pg_execute :: "'w \<Rightarrow> string \<Rightarrow> SqlParam list \<Rightarrow> (string + unit) \<times> 'w"

definition config_for_version :: "'w PgOps \<Rightarrow> 'w \<Rightarrow> int \<Rightarrow> (string + string option) \<times> 'w" where
  "config_for_version pg w config_version_id =
     pg_fetch_json pg w ''SELECT config FROM config_versions WHERE id = $1''
       [SqlInt (Some config_version_id)]"

definition current_version_for :: "'w PgOps \<Rightarrow> 'w \<Rightarrow> string \<Rightarrow> (string + int option) \<times> 'w" where
  "current_version_for pg w pipeline =
     pg_fetch_int pg w ''SELECT config_version_id FROM pipelines_current WHERE pipeline = $1''
       [SqlText (Some pipeline)]"

text \<open>A text constant of a statement.\<close>

definition sql_quote :: "string \<Rightarrow> string" where
  "sql_quote s = [CHR 0x27] @ s @ [CHR 0x27]"

definition insert_queued ::
  "'w PgOps \<Rightarrow> 'w \<Rightarrow> string \<Rightarrow> string \<Rightarrow> int option \<Rightarrow> string \<Rightarrow> int \<Rightarrow> (string + unit) \<times> 'w" where
  "insert_queued pg w job_id pipeline config_version_id trigger enqueued_at_ms =
     pg_execute pg w
       (''INSERT INTO jobs (id, pipeline, config_version_id, status, trigger, enqueued_at) ''
        @ ''VALUES ($1, $2, $3, '' @ sql_quote ''queued''
        @ '', $4, to_timestamp($5::double precision / 1000)) ON CONFLICT (id) DO NOTHING'')
       [SqlText (Some job_id), SqlText (Some pipeline), SqlInt config_version_id,
        SqlText (Some trigger), SqlInt (Some enqueued_at_ms)]"

definition mark_running :: "'w PgOps \<Rightarrow> 'w \<Rightarrow> string \<Rightarrow> string \<Rightarrow> (string + unit) \<times> 'w" where
  "mark_running pg w job_id worker =
     pg_execute pg w
       (''UPDATE jobs SET status = '' @ sql_quote ''running''
        @ '', worker = $2, started_at = now(), attempts = attempts + 1 WHERE id = $1'')
       [SqlText (Some job_id), SqlText (Some worker)]"

record JobOutcomeRow =
  jr_status :: string
  jr_error :: "string option"
  jr_files_processed :: "32 word option"
  jr_partitions_written :: "32 word option"
  jr_rows_deduped :: "32 word option"

definition mark_finished :: "'w PgOps \<Rightarrow> 'w \<Rightarrow> string \<Rightarrow> JobOutcomeRow \<Rightarrow> (string + unit) \<times> 'w" where
  "mark_finished pg w job_id outcome =
     pg_execute pg w
       (''UPDATE jobs SET status = $2, completed_at = now(), error = $3, files_processed = $4, ''
        @ ''partitions_written = $5, rows_deduped = $6 WHERE id = $1'')
       [SqlText (Some job_id), SqlText (Some (jr_status outcome)), SqlText (jr_error outcome),
        SqlInt32 (jr_files_processed outcome), SqlInt32 (jr_partitions_written outcome),
        SqlInt32 (jr_rows_deduped outcome)]"

end
