(* ===== verification/Job.thy ===== *)
theory Job
  imports Pipeline Manifest Db
begin

text \<open>
  Models \<open>src/job.rs\<close>. One state \<open>'w\<close> stands for the outside world: the object store, the
  database, the cancel flag, the progress sink and the clock. \<open>JobOps\<close> collects the interfaces the
  run uses. A step of the run is a \<open>task\<close>: \<open>None\<close> when it never returns (only a listing may not),
  else an error or a value, and the world after it. Log lines are not modelled.
\<close>

section \<open>Tasks\<close>

type_synonym ('w, 'e, 'a) task = "'w \<Rightarrow> (('e + 'a) \<times> 'w) option"

definition and_then :: "('w, 'e, 'a) task \<Rightarrow> ('a \<Rightarrow> ('w, 'e, 'b) task) \<Rightarrow> ('w, 'e, 'b) task" where
  "and_then m f w =
     (case m w of
        None \<Rightarrow> None
      | Some (Inl e, w') \<Rightarrow> Some (Inl e, w')
      | Some (Inr a, w') \<Rightarrow> f a w')"

definition task_result :: "'e + 'a \<Rightarrow> ('w, 'e, 'a) task" where
  "task_result r w = Some (r, w)"

text \<open>A call that always returns, with its error converted.\<close>

definition task_call :: "('f \<Rightarrow> 'e) \<Rightarrow> ('w \<Rightarrow> ('f + 'a) \<times> 'w) \<Rightarrow> ('w, 'e, 'a) task" where
  "task_call f call w = (case call w of (r, w') \<Rightarrow> Some (map_err f r, w'))"

text \<open>A call that may not return, with its outcome as a value.\<close>

definition task_try :: "('w \<Rightarrow> ('a \<times> 'w) option) \<Rightarrow> ('w, 'e, 'a) task" where
  "task_try call w = map_option (\<lambda>(r, w'). (Inr r, w')) (call w)"

definition task_run :: "('w \<Rightarrow> 'a \<times> 'w) \<Rightarrow> ('w, 'e, 'a) task" where
  "task_run act w = (case act w of (a, w') \<Rightarrow> Some (Inr a, w'))"

definition task_mod :: "('w \<Rightarrow> 'w) \<Rightarrow> ('w, 'e, unit) task" where
  "task_mod f w = Some (Inr (), f w)"

section \<open>Data\<close>

datatype Progress =
    Downloading nat nat
  | Ingesting nat nat nat

record JobOutcome =
  jo_partitions_written :: nat
  jo_files_processed :: nat
  jo_rows_deduped :: nat
  jo_errors :: "string list"

datatype JobError =
    ConfigRead string
  | ConfigParse string
  | ConfigInvalid string
  | NoFiles
  | DimensionFailed string
  | Cancelled

fun job_error_display :: "JobError \<Rightarrow> string" where
  "job_error_display (ConfigRead e) = ''config read failed: '' @ e"
| "job_error_display (ConfigParse e) = ''config parse failed: '' @ e"
| "job_error_display (ConfigInvalid e) = ''config invalid: '' @ e"
| "job_error_display NoFiles = ''no CSV files found to process''"
| "job_error_display (DimensionFailed e) = ''dimension error: '' @ e"
| "job_error_display Cancelled = ''cancelled: lock lost to a newer attempt''"

text \<open>The publish state of a table during a run.\<close>

record TablePublish =
  tp_prefix :: string
  tp_version :: nat
  tp_files :: "ManifestFile list"
  tp_touched :: bool

text \<open>\<open>publishes\<close> is a hash map: an association list here, whose iteration order is
  \<open>jb_order\<close>.\<close>

type_synonym Publishes = "(string \<times> TablePublish) list"

record JobContext =
  jc_lake_bucket :: string
  jc_warehouse_bucket :: string

text \<open>\<open>jb_cancel\<close> loads the cancel flag; \<open>jb_join_error\<close> is what a panic of a blocking task
  displays; \<open>jb_lower\<close>, \<open>jb_debug_list\<close> are \<open>to_lowercase\<close> and the debug rendering of a list.\<close>

record ('w, 'df, 'lf, 'col, 'n) JobOps =
  jb_s3 :: "'w S3Ops"
  jb_js :: ManifestJson
  jb_pg :: "'w PgOps"
  jb_frames :: "('df, 'lf, 'col) FrameOps"
  jb_json :: "('n, 'df) JsonOps"
  jb_lower :: "string \<Rightarrow> string"
  jb_debug_list :: "string list \<Rightarrow> string"
  jb_parse_config :: "string \<Rightarrow> string + PipelineConfig"
  jb_cancel :: "'w \<Rightarrow> bool \<times> 'w"
  jb_progress :: "Progress \<Rightarrow> 'w \<Rightarrow> 'w"
  jb_now :: "'w \<Rightarrow> string"
  jb_join_error :: string
  jb_order :: "Publishes \<Rightarrow> Publishes"

section \<open>Configuration\<close>

definition resolve_version ::
  "('w, 'df, 'lf, 'col, 'n) JobOps \<Rightarrow> string \<Rightarrow> int option \<Rightarrow> ('w, JobError, int) task" where
  "resolve_version jb pipeline config_version_id =
     (case config_version_id of
        Some v \<Rightarrow> task_result (Inr v)
      | None \<Rightarrow>
          and_then (task_call (\<lambda>e. ConfigRead (''resolving live config version: '' @ e))
                     (\<lambda>w. current_version_for (jb_pg jb) w pipeline)) (\<lambda>found.
          task_result (ok_or (ConfigRead (''pipeline '' @ pipeline @ '' has no published config'')) found)))"

definition load_config ::
  "('w, 'df, 'lf, 'col, 'n) JobOps \<Rightarrow> int \<Rightarrow> ('w, JobError, PipelineConfig) task" where
  "load_config jb version_id =
     and_then (task_call (\<lambda>e. ConfigRead (''reading config version '' @ show_int version_id @ '': '' @ e))
                (\<lambda>w. config_for_version (jb_pg jb) w version_id)) (\<lambda>found.
     task_result
       (rbind (ok_or (ConfigRead (''config version '' @ show_int version_id @ '' not found'')) found) (\<lambda>json.
        rbind (map_err ConfigParse (jb_parse_config jb json)) (\<lambda>cfg.
        rbind (map_err (\<lambda>errs. ConfigInvalid (join ''; '' (map config_error_display errs))) (validate cfg)) (\<lambda>_.
        Inr cfg)))))"

section \<open>Publish state\<close>

text \<open>The next version is computed on \<open>u64\<close>.\<close>

definition table_publish :: "string \<Rightarrow> bool \<Rightarrow> TableManifest \<Rightarrow> TablePublish" where
  "table_publish table_prefix clean_run current =
     \<lparr>tp_prefix = table_prefix, tp_version = (tm_version current + 1) mod 2 ^ 64,
      tp_files = (if clean_run then [] else tm_files current), tp_touched = False\<rparr>"

fun init_publishes ::
  "('w, 'df, 'lf, 'col, 'n) JobOps \<Rightarrow> JobContext \<Rightarrow> string \<Rightarrow> bool \<Rightarrow> AnalyticTable list \<Rightarrow> Publishes
    \<Rightarrow> ('w, JobError, Publishes) task" where
  "init_publishes jb ctx pre clean_run [] publishes = task_result (Inr publishes)"
| "init_publishes jb ctx pre clean_run (table # tables) publishes =
     (let table_prefix = pre @ t_id table @ ''/''
      in and_then (task_call ConfigRead
           (\<lambda>w. read_current (jb_s3 jb) (jb_js jb) w (jc_warehouse_bucket ctx) table_prefix)) (\<lambda>current.
         init_publishes jb ctx pre clean_run tables
           (AList.update (t_id table) (table_publish table_prefix clean_run current) publishes)))"

section \<open>Download\<close>

text \<open>The keys of one listing that are new and have an extension of the format.\<close>

fun admit_keys :: "string list \<Rightarrow> string list \<Rightarrow> string list \<Rightarrow> string list" where
  "admit_keys exts [] candidates = candidates"
| "admit_keys exts (k # ks) candidates =
     admit_keys exts ks
       (if list_ex (ends_with k) exts \<and> k \<notin> set candidates then candidates @ [k] else candidates)"

text \<open>A source whose listing fails contributes no key.\<close>

fun collect_keys ::
  "('w, 'df, 'lf, 'col, 'n) JobOps \<Rightarrow> JobContext \<Rightarrow> SourceContainer list \<Rightarrow> string list
    \<Rightarrow> ('w, JobError, string list) task" where
  "collect_keys jb ctx [] candidates = task_result (Inr candidates)"
| "collect_keys jb ctx (sc # scs) candidates =
     and_then (task_try (\<lambda>w. list_keys (jb_s3 jb) w (jc_lake_bucket ctx) (sc_path_prefix sc))) (\<lambda>r.
     collect_keys jb ctx scs
       (case r of
          Inr keys \<Rightarrow> admit_keys (extensions (sc_format sc)) keys candidates
        | Inl _ \<Rightarrow> candidates))"

definition check_cancel :: "('w, 'df, 'lf, 'col, 'n) JobOps \<Rightarrow> ('w, JobError, unit) task" where
  "check_cancel jb =
     and_then (task_run (jb_cancel jb)) (\<lambda>c. task_result (if c then Inl Cancelled else Inr ()))"

text \<open>A key whose download fails is skipped.\<close>

fun download ::
  "('w, 'df, 'lf, 'col, 'n) JobOps \<Rightarrow> JobContext \<Rightarrow> nat \<Rightarrow> nat \<Rightarrow> string list \<Rightarrow> (string \<times> string) list
    \<Rightarrow> ('w, JobError, (string \<times> string) list) task" where
  "download jb ctx n_keys so_far [] files = task_result (Inr files)"
| "download jb ctx n_keys so_far (key # keys) files =
     and_then (check_cancel jb) (\<lambda>_.
     and_then (task_run (\<lambda>w. get_bytes (jb_s3 jb) w (jc_lake_bucket ctx) key)) (\<lambda>r.
     and_then (task_mod (jb_progress jb (Downloading (so_far + 1) n_keys))) (\<lambda>_.
     download jb ctx n_keys (so_far + 1) keys
       (case r of Inr bytes \<Rightarrow> files @ [(key, bytes)] | Inl _ \<Rightarrow> files))))"

section \<open>Dimensions\<close>

fun file_rows ::
  "('w, 'df, 'lf, 'col, 'n) JobOps \<Rightarrow> JobContext \<Rightarrow> Dimension \<Rightarrow> string \<Rightarrow> string list \<Rightarrow> string option
    \<Rightarrow> string list \<Rightarrow> MatcherRow list \<Rightarrow> ('w, JobError, MatcherRow list) task" where
  "file_rows jb ctx dim key values priority_column [] rows = task_result (Inr rows)"
| "file_rows jb ctx dim key values priority_column (k # ks) rows =
     and_then (task_call (\<lambda>e. DimensionFailed (''reading '' @ k @ '': '' @ e))
                (\<lambda>w. get_bytes (jb_s3 jb) w (jc_lake_bucket ctx) k)) (\<lambda>bytes.
     and_then (task_result (map_err (\<lambda>e. DimensionFailed (dimension_error_display e))
                (rows_from_csv dim key values priority_column bytes))) (\<lambda>more.
     file_rows jb ctx dim key values priority_column ks (rows @ more)))"

fun load_dimensions ::
  "('w, 'df, 'lf, 'col, 'n) JobOps \<Rightarrow> JobContext \<Rightarrow> Dimension list \<Rightarrow> Registry
    \<Rightarrow> ('w, JobError, Registry) task" where
  "load_dimensions jb ctx [] matchers = task_result (Inr matchers)"
| "load_dimensions jb ctx (dim # dims) matchers =
     (case d_rows dim of
        Inline _ _ \<Rightarrow> load_dimensions jb ctx dims matchers
      | File path_prefix key values priority_column \<Rightarrow>
          and_then (task_try (\<lambda>w. list_keys (jb_s3 jb) w (jc_lake_bucket ctx) path_prefix)) (\<lambda>r.
          and_then (task_result (map_err (\<lambda>e. DimensionFailed (''listing '' @ path_prefix @ '': '' @ e)) r)) (\<lambda>keys.
          and_then (file_rows jb ctx dim key values priority_column
                     (filter (\<lambda>k. ends_with k ''.csv'') keys) []) (\<lambda>rows.
          and_then (task_result (map_err (\<lambda>e. DimensionFailed (dimension_error_display e))
                     (new_matcher (jb_lower jb) dim rows))) (\<lambda>matcher.
          load_dimensions jb ctx dims (matchers(d_id dim \<mapsto> matcher)))))))"

definition build_matchers ::
  "('w, 'df, 'lf, 'col, 'n) JobOps \<Rightarrow> JobContext \<Rightarrow> PipelineConfig \<Rightarrow> ('w, JobError, Registry) task" where
  "build_matchers jb ctx cfg =
     and_then (task_result (map_err (\<lambda>e. DimensionFailed (dimension_error_display e))
                (build_inline_registry (jb_lower jb) (cfg_dimensions cfg)))) (\<lambda>matchers.
     load_dimensions jb ctx (cfg_dimensions cfg) matchers)"

section \<open>Mappings\<close>

definition ingest_error ::
  "('w, 'df, 'lf, 'col, 'n) JobOps \<Rightarrow> string \<Rightarrow> string \<Rightarrow> PipelineError \<Rightarrow> string" where
  "ingest_error jb stage mapping_id e =
     stage @ '' '' @ mapping_id @ '': '' @ pipeline_error_display (jb_debug_list jb) e"

text \<open>The part of the closure after the frame is collected.\<close>

definition finish_frame ::
  "('w, 'df, 'lf, 'col, 'n) JobOps \<Rightarrow> PipelineConfig \<Rightarrow> Mapping \<Rightarrow> string \<Rightarrow> 'df
    \<Rightarrow> string + PartitionOutput list \<times> nat" where
  "finish_frame jb cfg mapping table_id df =
     rbind (ok_or (''table '' @ table_id @ '' not found'')
              (List.find (\<lambda>t. t_id t = table_id) (cfg_analytic_tables cfg))) (\<lambda>table.
     let violations = validate_assertions (jb_frames jb) df table
     in if violations \<noteq> []
        then Inl (join ''; '' (map (\<lambda>v. ''assertion '' @ m_id mapping @ '': '' @ violation_display v) violations))
        else rbind (map_err (ingest_error jb ''dedup'' (m_id mapping))
                 (dedup_rows (jb_frames jb) df table)) (\<lambda>(df', dropped).
             rbind (map_err (ingest_error jb ''partition'' (m_id mapping))
                 (produce_partitions (jb_frames jb) df' mapping table)) (\<lambda>parts. Inr (parts, dropped))))"

text \<open>The closure run on the blocking pool: it looks the mapping up again by its id, and may panic.\<close>

definition mapping_task ::
  "('w, 'df, 'lf, 'col, 'n) JobOps \<Rightarrow> PipelineConfig \<Rightarrow> Registry \<Rightarrow> string \<Rightarrow> string \<Rightarrow> (string \<times> string) list
    \<Rightarrow> panic + (string + PartitionOutput list \<times> nat)" where
  "mapping_task jb cfg matchers mapping_id table_id mapping_files =
     (case List.find (\<lambda>m. m_id m = mapping_id) (cfg_mappings cfg) of
        None \<Rightarrow> Inl Panic
      | Some mapping \<Rightarrow>
          rbind (ingest_many (jb_lower jb) (jb_frames jb) (jb_json jb) mapping_files cfg mapping matchers) (\<lambda>lf.
          Inr (rbind (map_err (ingest_error jb ''ingest'' (m_id mapping)) lf) (\<lambda>lf'.
               rbind (map_err (\<lambda>e. ''collect '' @ m_id mapping @ '': '' @ e) (lf_collect (jb_frames jb) lf')) (\<lambda>df.
               finish_frame jb cfg mapping table_id df)))))"

text \<open>\<open>split_once('/')\<close>.\<close>

definition split_once :: "char \<Rightarrow> string \<Rightarrow> (string \<times> string) option" where
  "split_once c s =
     (case dropWhile (\<lambda>x. x \<noteq> c) s of [] \<Rightarrow> None | _ # rest \<Rightarrow> Some (takeWhile (\<lambda>x. x \<noteq> c) s, rest))"

text \<open>Stops at the first failure; what was uploaded before stays in the bucket.\<close>

fun upload_partitions_async ::
  "'w S3Ops \<Rightarrow> string \<Rightarrow> string \<Rightarrow> nat \<Rightarrow> string \<Rightarrow> PartitionOutput list \<Rightarrow> ManifestFile list
    \<Rightarrow> 'w \<Rightarrow> (string + ManifestFile list) \<times> 'w" where
  "upload_partitions_async s3 bucket pre version mapping_id [] written w = (Inr written, w)"
| "upload_partitions_async s3 bucket pre version mapping_id (p # ps) written w =
     (case split_once (CHR ''/'') (po_key p) of
        None \<Rightarrow> (Inl (''partition key '' @ po_key p @ '' has no table segment''), w)
      | Some (table_id, rest) \<Rightarrow>
          (let relative = version_prefix version @ rest;
               full_key = pre @ table_id @ ''/'' @ relative
           in case put_object s3 w bucket full_key (po_bytes p) of
                (Inl e, w') \<Rightarrow> (Inl (''S3 PutObject failed for '' @ full_key @ '': '' @ err_chain e), w')
              | (Inr _, w') \<Rightarrow>
                  upload_partitions_async s3 bucket pre version mapping_id ps
                    (written @ [\<lparr>mf_key = relative, mf_mapping_id = mapping_id,
                                 mf_bytes = length (po_bytes p)\<rparr>]) w'))"

text \<open>The counters, messages and publish state the loop carries.\<close>

record RunState =
  rs_publishes :: Publishes
  rs_partitions :: nat
  rs_deduped :: nat
  rs_errors :: "string list"

definition push_error :: "string \<Rightarrow> RunState \<Rightarrow> RunState" where
  "push_error e st = st\<lparr>rs_errors := rs_errors st @ [e]\<rparr>"

text \<open>What a successful upload records.\<close>

definition record_writes :: "string \<Rightarrow> string \<Rightarrow> TablePublish \<Rightarrow> ManifestFile list \<Rightarrow> RunState \<Rightarrow> RunState" where
  "record_writes table_id mapping_id entry written st =
     st\<lparr>rs_partitions := rs_partitions st + length written,
        rs_publishes := AList.update table_id
          (entry\<lparr>tp_files := apply_mapping_writes (tp_files entry) mapping_id written,
                   tp_touched := True\<rparr>) (rs_publishes st)\<rparr>"

definition upload_mapping ::
  "('w, 'df, 'lf, 'col, 'n) JobOps \<Rightarrow> JobContext \<Rightarrow> string \<Rightarrow> Mapping \<Rightarrow> PartitionOutput list \<times> nat
    \<Rightarrow> RunState \<Rightarrow> 'w \<Rightarrow> RunState \<times> 'w" where
  "upload_mapping jb ctx pre mapping = (\<lambda>(partitions, dropped) st w.
     let st' = st\<lparr>rs_deduped := rs_deduped st + dropped\<rparr>
     in case map_of (rs_publishes st') (m_analytic_table_id mapping) of
          None \<Rightarrow> (push_error (''mapping '' @ m_id mapping @ '': table '' @ m_analytic_table_id mapping
                    @ '' not declared'') st', w)
        | Some entry \<Rightarrow>
            (case upload_partitions_async (jb_s3 jb) (jc_warehouse_bucket ctx) pre (tp_version entry)
                    (m_id mapping) partitions [] w of
               (Inr written, w') \<Rightarrow>
                 (record_writes (m_analytic_table_id mapping) (m_id mapping) entry written st', w')
             | (Inl e, w') \<Rightarrow> (push_error (''upload '' @ m_id mapping @ '': '' @ e) st', w')))"

text \<open>One mapping after its cancel check: no source, or no file under the source, skips it.\<close>

definition run_mapping ::
  "('w, 'df, 'lf, 'col, 'n) JobOps \<Rightarrow> JobContext \<Rightarrow> string \<Rightarrow> PipelineConfig \<Rightarrow> Registry
    \<Rightarrow> (string \<times> string) list \<Rightarrow> Mapping \<Rightarrow> RunState \<Rightarrow> 'w \<Rightarrow> RunState \<times> 'w" where
  "run_mapping jb ctx pre cfg matchers all_files mapping st w =
     (case List.find (\<lambda>s. sc_id s = m_source_container_id mapping) (cfg_source_containers cfg) of
        None \<Rightarrow> (st, w)
      | Some sc \<Rightarrow>
          (let mapping_files = filter (\<lambda>(k, v). starts_with k (sc_path_prefix sc)) all_files
           in if mapping_files = [] then (st, w)
              else case mapping_task jb cfg matchers (m_id mapping) (m_analytic_table_id mapping) mapping_files of
                     Inl _ \<Rightarrow> (push_error (''mapping '' @ m_id mapping @ '' task panicked: ''
                                @ jb_join_error jb) st, w)
                   | Inr (Inl msg) \<Rightarrow> (push_error msg st, w)
                   | Inr (Inr output) \<Rightarrow> upload_mapping jb ctx pre mapping output st w))"

fun run_mappings ::
  "('w, 'df, 'lf, 'col, 'n) JobOps \<Rightarrow> JobContext \<Rightarrow> string \<Rightarrow> PipelineConfig \<Rightarrow> Registry
    \<Rightarrow> (string \<times> string) list \<Rightarrow> nat \<Rightarrow> Mapping list \<Rightarrow> RunState \<Rightarrow> ('w, JobError, RunState) task" where
  "run_mappings jb ctx pre cfg matchers all_files idx [] st = task_result (Inr st)"
| "run_mappings jb ctx pre cfg matchers all_files idx (mapping # mappings) st =
     and_then (check_cancel jb) (\<lambda>_.
     and_then (task_mod (jb_progress jb
                (Ingesting idx (length (cfg_mappings cfg)) (rs_partitions st)))) (\<lambda>_.
     and_then (task_run (run_mapping jb ctx pre cfg matchers all_files mapping st)) (\<lambda>st'.
     run_mappings jb ctx pre cfg matchers all_files (idx + 1) mappings st')))"

section \<open>Publishing\<close>

text \<open>The tables that got output; a vacuum that fails is only logged.\<close>

fun publish_tables ::
  "('w, 'df, 'lf, 'col, 'n) JobOps \<Rightarrow> JobContext \<Rightarrow> Publishes \<Rightarrow> string list
    \<Rightarrow> ('w, JobError, string list) task" where
  "publish_tables jb ctx [] errors = task_result (Inr errors)"
| "publish_tables jb ctx ((table_id, p) # ps) errors =
     (if \<not> tp_touched p then publish_tables jb ctx ps errors
      else and_then (task_run (\<lambda>w. publish (jb_s3 jb) (jb_js jb) w (jc_warehouse_bucket ctx) (tp_prefix p)
                 \<lparr>tm_version = tp_version p, tm_created_at = jb_now jb w, tm_job_id = None,
                  tm_files = tp_files p\<rparr>)) (\<lambda>r.
           case r of
             Inl e \<Rightarrow> publish_tables jb ctx ps (errors @ [''publish '' @ table_id @ '': '' @ e])
           | Inr _ \<Rightarrow>
               and_then (task_try (\<lambda>w. vacuum (jb_s3 jb) (jb_js jb) w (jc_warehouse_bucket ctx)
                          (tp_prefix p) (tp_version p))) (\<lambda>_.
               publish_tables jb ctx ps errors)))"

section \<open>The run\<close>

definition run_config ::
  "('w, 'df, 'lf, 'col, 'n) JobOps \<Rightarrow> JobContext \<Rightarrow> string \<Rightarrow> bool \<Rightarrow> PipelineConfig
    \<Rightarrow> ('w, JobError, JobOutcome) task" where
  "run_config jb ctx pre clean_run cfg =
     and_then (init_publishes jb ctx pre clean_run (cfg_analytic_tables cfg) []) (\<lambda>publishes.
     and_then (task_mod (jb_progress jb (Downloading 0 0))) (\<lambda>_.
     and_then (collect_keys jb ctx (cfg_source_containers cfg) []) (\<lambda>candidates.
     and_then (download jb ctx (length candidates) 0 candidates []) (\<lambda>all_files.
     and_then (task_result (if all_files = [] then Inl NoFiles else Inr ())) (\<lambda>_.
     and_then (build_matchers jb ctx cfg) (\<lambda>matchers.
     and_then (run_mappings jb ctx pre cfg matchers all_files 0 (cfg_mappings cfg)
                \<lparr>rs_publishes = publishes, rs_partitions = 0, rs_deduped = 0, rs_errors = []\<rparr>) (\<lambda>st.
     and_then (publish_tables jb ctx (jb_order jb (rs_publishes st)) (rs_errors st)) (\<lambda>errors.
     and_then (task_mod (jb_progress jb (Ingesting (length (cfg_mappings cfg)) (length (cfg_mappings cfg))
                (rs_partitions st)))) (\<lambda>_.
     task_result (Inr \<lparr>jo_partitions_written = rs_partitions st, jo_files_processed = length all_files,
       jo_rows_deduped = rs_deduped st, jo_errors = errors\<rparr>))))))))))"

definition execute_job ::
  "('w, 'df, 'lf, 'col, 'n) JobOps \<Rightarrow> JobContext \<Rightarrow> string \<Rightarrow> string \<Rightarrow> int option \<Rightarrow> bool
    \<Rightarrow> ('w, JobError, JobOutcome) task" where
  "execute_job jb ctx pre pipeline config_version_id clean_run =
     and_then (resolve_version jb pipeline config_version_id) (\<lambda>version_id.
     and_then (load_config jb version_id) (run_config jb ctx pre clean_run))"

end
