(* ===== verification/Manifest_Proofs.thy ===== *)
theory Manifest_Proofs
  imports Manifest "HOL-Library.Multiset"
begin

text \<open>
  The lemmas about manifests: what a mapping's writes replace, which versions are dropped, that
  publishing switches readers at one object, and that vacuum leaves every version of the
  retention window whole.
\<close>

section \<open>File lists\<close>

lemma apply_mapping_writes_mset:
  "mset (apply_mapping_writes prev m files) = filter_mset (\<lambda>f. mf_mapping_id f \<noteq> m) (mset prev) + mset files"
  by (simp add: apply_mapping_writes_def)

lemma apply_mapping_writes_of:
  "filter (\<lambda>f. mf_mapping_id f = other) (apply_mapping_writes prev m files) =
     sort_key mf_key (filter (\<lambda>f. mf_mapping_id f = other)
       (filter (\<lambda>f. mf_mapping_id f \<noteq> m) prev @ files))"
  by (simp add: apply_mapping_writes_def filter_sort del: filter_append filter_filter)

section \<open>Dropped versions\<close>

definition newer_versions :: "nat set \<Rightarrow> nat \<Rightarrow> nat \<Rightarrow> nat set" where
  "newer_versions vs current v = {u \<in> vs. v < u \<and> u \<le> current}"

lemma versions_to_drop_split:
  "\<exists>kept. mset (versions_to_drop vs current retain @ kept) = mset (filter (\<lambda>v. v \<le> current) vs)
     \<and> sorted (versions_to_drop vs current retain @ kept)
     \<and> length kept = min retain (length (filter (\<lambda>v. v \<le> current) vs))"
proof -
  let ?all = "filter (\<lambda>v. v \<le> current) (sort vs)"
  let ?kept = "drop (length ?all - retain) ?all"
  have len: "length ?all = length (filter (\<lambda>v. v \<le> current) vs)"
    by (metis mset_filter mset_sort size_mset)
  have "versions_to_drop vs current retain @ ?kept = ?all" by (simp add: versions_to_drop_def Let_def)
  moreover have "sorted ?all" by (simp add: sorted_filter [where f = "\<lambda>x. x", simplified])
  moreover have "mset ?all = mset (filter (\<lambda>v. v \<le> current) vs)" by simp
  moreover have "length ?kept = min retain (length (filter (\<lambda>v. v \<le> current) vs))"
    using len by simp
  ultimately show ?thesis by (metis (no_types, lifting))
qed

lemma dropped_is_old:
  assumes "distinct vs" and "v \<in> set (versions_to_drop vs current retain)"
  shows "retain \<le> card (newer_versions (set vs) current v)"
proof -
  let ?d = "versions_to_drop vs current retain"
  from versions_to_drop_split [of vs current retain] obtain kept where
    perm: "mset (?d @ kept) = mset (filter (\<lambda>v. v \<le> current) vs)" and sorted: "sorted (?d @ kept)"
    and len: "length kept = min retain (length (filter (\<lambda>v. v \<le> current) vs))" by blast
  from assms(1) have "distinct (?d @ kept)" by (metis distinct_filter mset_eq_imp_distinct_iff perm)
  then have dist: "distinct kept" "set ?d \<inter> set kept = {}" by auto
  have "length (?d @ kept) = length (filter (\<lambda>v. v \<le> current) vs)" by (metis perm size_mset)
  with assms(2) len have "length kept = retain" by (cases ?d) auto
  moreover have "set kept \<subseteq> newer_versions (set vs) current v"
  proof
    fix u
    assume u: "u \<in> set kept"
    with sorted assms(2) have "v \<le> u" by (auto simp: sorted_append)
    with u dist(2) assms(2) have "v < u" by (metis disjoint_iff le_neq_implies_less)
    moreover from u perm have "u \<in> set (filter (\<lambda>v. v \<le> current) vs)"
      by (metis Un_iff set_append set_mset_mset)
    ultimately show "u \<in> newer_versions (set vs) current v" by (simp add: newer_versions_def)
  qed
  moreover have "finite (newer_versions (set vs) current v)" by (simp add: newer_versions_def)
  ultimately show ?thesis using dist(1) by (metis card_mono distinct_card)
qed

section \<open>Keys\<close>

lemma manifest_key_ne_current [simp]: "manifest_key v \<noteq> CURRENT_KEY" "CURRENT_KEY \<noteq> manifest_key v"
  by (simp_all add: manifest_key_def MANIFEST_PREFIX_def CURRENT_KEY_def)

lemma manifest_key_prefix [simp]: "prefix MANIFEST_PREFIX (manifest_key v)"
  by (simp add: manifest_key_def)

lemma manifest_key_inj [simp]: "manifest_key v = manifest_key u \<longleftrightarrow> v = u"
  by (simp add: manifest_key_def)

lemma manifest_version_key: "v \<le> u64_max \<Longrightarrow> manifest_version (manifest_key v) = Some v"
proof -
  assume "v \<le> u64_max"
  moreover have "strip_prefix MANIFEST_PREFIX (manifest_key v) = Some (show_nat v @ ''.json'')"
    by (simp add: strip_prefix_Some manifest_key_def)
  moreover have "strip_suffix ''.json'' (show_nat v @ ''.json'') = Some (show_nat v)"
    by (simp add: strip_suffix_Some)
  ultimately show ?thesis by (simp add: manifest_version_def parse_u64_show_nat)
qed

section \<open>Publishing\<close>

definition pointer_object :: "string \<Rightarrow> string \<Rightarrow> Object" where
  "pointer_object bucket table_prefix = (bucket, table_prefix @ CURRENT_KEY)"

definition manifest_object :: "string \<Rightarrow> string \<Rightarrow> nat \<Rightarrow> Object" where
  "manifest_object bucket table_prefix v = (bucket, table_prefix @ manifest_key v)"

lemma put_document_result:
  assumes "s3_laws s3 obj" and "put_document s3 w b k body = (r, w')"
  shows "obj w' = (obj w)((b, k) \<mapsto> body) \<or> r \<noteq> Inr () \<and> obj w' = obj w"
proof -
  obtain q u where q: "put_object s3 w b k body = (q, u)" by fastforce
  with assms(2) have "u = w'" "r = Inr () \<longleftrightarrow> q = Inr ()"
    by (auto simp: put_document_def map_err_eq_Inr)
  with s3_put [OF assms(1) q] show ?thesis by blast
qed

text \<open>A table is on a version when the pointer names it and its manifest is stored.\<close>

definition on_version ::
  "ManifestJson \<Rightarrow> (Object \<rightharpoonup> string) \<Rightarrow> string \<Rightarrow> string \<Rightarrow> TableManifest \<Rightarrow> bool" where
  "on_version js objects bucket table_prefix m \<longleftrightarrow>
     (\<exists>ptr body. objects (pointer_object bucket table_prefix) = Some ptr
        \<and> dec_pointer js ptr = Inr (tm_version m)
        \<and> objects (manifest_object bucket table_prefix (tm_version m)) = Some body
        \<and> dec_manifest js body = Inr m)"

lemma publish_result:
  assumes "s3_laws s3 obj" and "json_laws js" and "publish s3 js w b p m = (r, w')"
  shows "(r = Inr () \<longrightarrow> on_version js (obj w') b p m)
    \<and> (obj w' (pointer_object b p) = obj w (pointer_object b p) \<or> on_version js (obj w') b p m)
    \<and> (\<forall>x. x \<noteq> pointer_object b p \<longrightarrow> x \<noteq> manifest_object b p (tm_version m) \<longrightarrow> obj w' x = obj w x)"
proof (cases "enc_manifest js m")
  case (Inl e)
  with assms(3) show ?thesis by (auto simp: publish_def)
next
  case (Inr body)
  obtain r1 w1 where p1: "put_document s3 w b (p @ manifest_key (tm_version m)) body = (r1, w1)"
    by fastforce
  have o1: "obj w1 = (obj w)(manifest_object b p (tm_version m) \<mapsto> body) \<or> r1 \<noteq> Inr () \<and> obj w1 = obj w"
    using put_document_result [OF assms(1) p1] by (simp add: manifest_object_def)
  have ne: "pointer_object b p \<noteq> manifest_object b p (tm_version m)"
    by (simp add: pointer_object_def manifest_object_def)
  show ?thesis
  proof (cases "r1 = Inr () \<and> (\<exists>ptr. enc_pointer js (tm_version m) = Inr ptr)")
    case False
    with assms(3) Inr p1 have "w' = w1" "r \<noteq> Inr ()"
      by (auto simp: publish_def split: sum.splits)
    with o1 ne show ?thesis by auto
  next
    case True
    then obtain ptr where ptr: "enc_pointer js (tm_version m) = Inr ptr" by blast
    with True Inr p1 assms(3) have p2: "put_document s3 w1 b (p @ CURRENT_KEY) ptr = (r, w')"
      by (auto simp: publish_def)
    have o2: "obj w' = (obj w1)(pointer_object b p \<mapsto> ptr) \<or> r \<noteq> Inr () \<and> obj w' = obj w1"
      using put_document_result [OF assms(1) p2] by (simp add: pointer_object_def)
    from True o1 have w1: "obj w1 = (obj w)(manifest_object b p (tm_version m) \<mapsto> body)" by blast
    have "on_version js (obj w') b p m" if "obj w' = (obj w1)(pointer_object b p \<mapsto> ptr)"
      using that w1 ne assms(2) Inr ptr by (auto simp: on_version_def json_laws_def)
    with o2 w1 ne show ?thesis by auto
  qed
qed

lemma read_version_result:
  assumes "s3_laws s3 obj" and "read_version s3 js w b p v = (r, w')"
  shows "obj w' = obj w \<and> (\<forall>m. r = Inr m \<longrightarrow>
    (\<exists>body. obj w (manifest_object b p v) = Some body \<and> dec_manifest js body = Inr m))"
proof -
  obtain q u where g: "get_bytes s3 w b (p @ manifest_key v) = (q, u)" by fastforce
  with assms(2) have "u = w'" "\<And>m. r = Inr m \<Longrightarrow> \<exists>body. q = Inr body \<and> dec_manifest js body = Inr m"
    by (auto simp: read_version_def Let_def map_err_eq_Inr split: sum.splits)
  with get_bytes_ok [OF assms(1) g] show ?thesis by (auto simp: manifest_object_def)
qed

lemma read_current_result:
  assumes "s3_laws s3 obj" and "read_current s3 js w b p = (Inr m, w')"
  shows "obj w' = obj w \<and> (m = empty_manifest \<or> (\<exists>ptr v body. obj w (pointer_object b p) = Some ptr
    \<and> dec_pointer js ptr = Inr v \<and> obj w (manifest_object b p v) = Some body \<and> dec_manifest js body = Inr m))"
proof -
  obtain q u where g: "get_bytes s3 w b (p @ CURRENT_KEY) = (q, u)" by fastforce
  show ?thesis
  proof (cases q)
    case (Inl e)
    with assms(2) g get_bytes_ok [OF assms(1) g] show ?thesis by (auto simp: read_current_def)
  next
    case (Inr ptr)
    with assms(2) g obtain v where v: "dec_pointer js ptr = Inr v" "read_version s3 js u b p v = (Inr m, w')"
      by (auto simp: read_current_def split: sum.splits)
    from read_version_result [OF assms(1) v(2)] v(1) get_bytes_ok [OF assms(1) g] Inr
    show ?thesis by (auto simp: pointer_object_def)
  qed
qed

section \<open>Vacuum\<close>

lemma delete_all_result:
  "s3_laws s3 obj \<Longrightarrow> delete_all s3 w b p keys n = (d, w') \<Longrightarrow>
     (\<forall>x. x \<notin> (\<lambda>k. (b, p @ k)) ` set keys \<longrightarrow> obj w' x = obj w x) \<and> d \<le> n + length keys"
proof (induction s3 w b p keys n rule: delete_all.induct)
  case (2 s3 w b p key keys n)
  obtain r u where del: "delete_object s3 w b (p @ key) = (r, u)" by fastforce
  have step: "obj u x = obj w x" if "x \<noteq> (b, p @ key)" for x
    using s3_delete [OF "2.prems"(1) del] that by auto
  show ?case
  proof (cases r)
    case (Inl e)
    with "2.prems" del have "delete_all s3 u b p keys n = (d, w')" by simp
    from "2.IH"(1) [OF del [symmetric] Inl "2.prems"(1) this] step show ?thesis by auto
  next
    case (Inr y)
    with "2.prems" del have "delete_all s3 u b p keys (n + 1) = (d, w')" by simp
    from "2.IH"(2) [OF del [symmetric] Inr "2.prems"(1) this] step show ?thesis by auto
  qed
qed simp

lemma read_retained_result:
  "s3_laws s3 obj \<Longrightarrow> read_retained s3 js w b p vs acc = (r, w') \<Longrightarrow>
     obj w' = obj w \<and> (\<forall>ms. r = Inr ms \<longrightarrow> (\<forall>v \<in> set vs. \<exists>m \<in> set ms. \<exists>body.
        obj w (manifest_object b p v) = Some body \<and> dec_manifest js body = Inr m) \<and> set acc \<subseteq> set ms)"
proof (induction s3 js w b p vs acc rule: read_retained.induct)
  case (2 s3 js w b p v vs acc)
  obtain q u where rv: "read_version s3 js w b p v = (q, u)" by fastforce
  note one = read_version_result [OF "2.prems"(1) rv]
  show ?case
  proof (cases q)
    case (Inl e)
    with "2.prems" rv one show ?thesis by auto
  next
    case (Inr m)
    with "2.prems" rv have "read_retained s3 js u b p vs (acc @ [m]) = (r, w')" by simp
    from "2.IH" [OF rv [symmetric] Inr "2.prems"(1) this] one Inr show ?thesis by fastforce
  qed
qed auto

lemma read_retained_only:
  "s3_laws s3 obj \<Longrightarrow> read_retained s3 js w b p vs acc = (Inr ms, w') \<Longrightarrow>
     (\<forall>m \<in> set ms. m \<in> set acc \<or> (\<exists>v \<in> set vs. \<exists>body.
        obj w (manifest_object b p v) = Some body \<and> dec_manifest js body = Inr m))"
proof (induction s3 js w b p vs acc rule: read_retained.induct)
  case (2 s3 js w b p v vs acc)
  obtain q u where rv: "read_version s3 js w b p v = (q, u)" by fastforce
  note one = read_version_result [OF "2.prems"(1) rv]
  from "2.prems"(2) rv obtain m where q: "q = Inr m" by (cases q) auto
  with "2.prems" rv have "read_retained s3 js u b p vs (acc @ [m]) = (Inr ms, w')" by simp
  from "2.IH" [OF rv [symmetric] q "2.prems"(1) this] one q show ?case by fastforce
qed auto

lemma delete_all_removes:
  "s3_laws s3 obj \<Longrightarrow> delete_all s3 w b p keys n = (d, w') \<Longrightarrow> obj w' x = obj w x \<or> obj w' x = None"
proof (induction s3 w b p keys n rule: delete_all.induct)
  case (2 s3 w b p key keys n)
  obtain r u where del: "delete_object s3 w b (p @ key) = (r, u)" by fastforce
  have step: "obj u x = obj w x \<or> obj u x = None"
    using s3_delete [OF "2.prems"(1) del] by (auto split: if_splits)
  show ?case
  proof (cases r)
    case (Inl e)
    with "2.prems" del have "delete_all s3 u b p keys n = (d, w')" by simp
    from "2.IH"(1) [OF del [symmetric] Inl "2.prems"(1) this] step show ?thesis by auto
  next
    case (Inr y)
    with "2.prems" del have "delete_all s3 u b p keys (n + 1) = (d, w')" by simp
    from "2.IH"(2) [OF del [symmetric] Inr "2.prems"(1) this] step show ?thesis by auto
  qed
qed simp

text \<open>Deletions that are carried out.\<close>

definition deletes :: "'w S3Ops \<Rightarrow> bool" where
  "deletes s3 \<longleftrightarrow> (\<forall>w b k. \<exists>w'. delete_object s3 w b k = (Inr (), w'))"

lemma delete_all_deletes:
  "s3_laws s3 obj \<Longrightarrow> deletes s3 \<Longrightarrow> delete_all s3 w b p keys n = (d, w') \<Longrightarrow> k \<in> set keys \<Longrightarrow> obj w' (b, p @ k) = None"
proof (induction s3 w b p keys n rule: delete_all.induct)
  case (2 s3 w b p key keys n)
  from "2.prems"(2) obtain u where del: "delete_object s3 w b (p @ key) = (Inr (), u)"
    unfolding deletes_def by blast
  with "2.prems" have run: "delete_all s3 u b p keys (n + 1) = (d, w')" by simp
  show ?case
  proof (cases "k \<in> set keys")
    case True
    from "2.IH"(2) [OF del [symmetric] refl "2.prems"(1,2) run this] show ?thesis .
  next
    case False
    with "2.prems"(4) s3_delete [OF "2.prems"(1) del] have "obj u (b, p @ k) = None" by auto
    with delete_all_removes [OF "2.prems"(1) run, of "(b, p @ k)"] show ?thesis by auto
  qed
qed simp

text \<open>Every manifest of the table is stored under its canonical name.\<close>

definition canonical_manifests :: "(Object \<rightharpoonup> string) \<Rightarrow> string \<Rightarrow> string \<Rightarrow> bool" where
  "canonical_manifests objects bucket table_prefix \<longleftrightarrow>
     (\<forall>k v. objects (bucket, table_prefix @ k) \<noteq> None \<longrightarrow> manifest_version k = Some v
        \<longrightarrow> k = manifest_key v)"

definition stored_versions :: "(Object \<rightharpoonup> string) \<Rightarrow> string \<Rightarrow> string \<Rightarrow> nat set" where
  "stored_versions objects bucket table_prefix =
     {v. v \<le> u64_max \<and> objects (manifest_object bucket table_prefix v) \<noteq> None}"

lemma set_map_filter: "set (List.map_filter f xs) = {y. \<exists>x \<in> set xs. f x = Some y}"
  by (induction xs) (auto simp: map_filter_simps split: option.splits)

lemma distinct_map_filter:
  "distinct xs \<Longrightarrow> (\<And>x y z. x \<in> set xs \<Longrightarrow> y \<in> set xs \<Longrightarrow> f x = Some z \<Longrightarrow> f y = Some z \<Longrightarrow> x = y) \<Longrightarrow>
     distinct (List.map_filter f xs)"
  by (induction xs) (auto simp: map_filter_simps set_map_filter split: option.splits)

lemma manifest_version_bound: "manifest_version k = Some v \<Longrightarrow> v \<le> u64_max"
  by (auto simp: manifest_version_def bind_eq_Some_conv parse_u64_def split: option.splits if_splits)

lemma relative_keys:
  assumes "set all = {k. objects (b, k) \<noteq> None \<and> starts_with k p}"
  shows "set (List.map_filter (strip_prefix p) all) = {k. objects (b, p @ k) \<noteq> None}"
  using assms by (auto simp: set_map_filter strip_prefix_Some)

lemma listed_versions:
  assumes "distinct all" and "set all = {k. objects (b, k) \<noteq> None \<and> starts_with k p}"
    and "canonical_manifests objects b p"
  defines "vs \<equiv> List.map_filter manifest_version (List.map_filter (strip_prefix p) all)"
  shows "distinct vs" and "set vs = stored_versions objects b p"
proof -
  let ?rel = "List.map_filter (strip_prefix p) all"
  have rel: "set ?rel = {k. objects (b, p @ k) \<noteq> None}" by (rule relative_keys [OF assms(2)])
  have "distinct ?rel" using assms(1) by (rule distinct_map_filter) (auto simp: strip_prefix_Some)
  then show "distinct vs" unfolding vs_def
  proof (rule distinct_map_filter)
    fix x y z
    assume in_rel: "x \<in> set ?rel" "y \<in> set ?rel"
      and z: "manifest_version x = Some z" "manifest_version y = Some z"
    have "k = manifest_key z" if "k \<in> set ?rel" "manifest_version k = Some z" for k
      using that assms(3) unfolding rel canonical_manifests_def by blast
    from this [OF in_rel(1) z(1)] this [OF in_rel(2) z(2)] show "x = y" by simp
  qed
  have "v \<in> set vs \<longleftrightarrow> v \<in> stored_versions objects b p" for v
  proof
    assume "v \<in> set vs"
    then obtain k where "k \<in> set ?rel" "manifest_version k = Some v"
      unfolding vs_def set_map_filter [of manifest_version] by blast
    with rel have k: "objects (b, p @ k) \<noteq> None" "manifest_version k = Some v" by auto
    with assms(3) have "k = manifest_key v" by (auto simp: canonical_manifests_def)
    with k manifest_version_bound show "v \<in> stored_versions objects b p"
      by (auto simp: stored_versions_def manifest_object_def)
  next
    assume v: "v \<in> stored_versions objects b p"
    then have "manifest_key v \<in> set ?rel" by (simp add: rel stored_versions_def manifest_object_def)
    moreover from v have "manifest_version (manifest_key v) = Some v"
      by (simp add: manifest_version_key stored_versions_def)
    ultimately show "v \<in> set vs" unfolding vs_def set_map_filter [of manifest_version] by blast
  qed
  then show "set vs = stored_versions objects b p" by blast
qed

text \<open>A retained version: stored, not past the current one, and among the newest.\<close>

definition retained_version :: "(Object \<rightharpoonup> string) \<Rightarrow> string \<Rightarrow> string \<Rightarrow> nat \<Rightarrow> nat \<Rightarrow> bool" where
  "retained_version objects bucket table_prefix current v \<longleftrightarrow>
     v \<in> stored_versions objects bucket table_prefix \<and> v \<le> current
     \<and> card (newer_versions (stored_versions objects bucket table_prefix) current v) < RETAINED_VERSIONS"

lemma vacuum_keeps:
  assumes laws: "s3_laws s3 obj" and canon: "canonical_manifests (obj w) b p"
    and run: "vacuum s3 js w b p current = Some (r, w')"
    and v: "retained_version (obj w) b p current v"
    and m: "obj w (manifest_object b p v) = Some body" "dec_manifest js body = Inr m"
  shows "obj w' (pointer_object b p) = obj w (pointer_object b p)
    \<and> obj w' (manifest_object b p v) = Some body
    \<and> (\<forall>f \<in> set (tm_files m). \<not> starts_with (mf_key f) MANIFEST_PREFIX \<longrightarrow>
         obj w' (b, p @ mf_key f) = obj w (b, p @ mf_key f))"
proof -
  from list_keys_ok [OF laws, of w b p] obtain q w1 where list: "list_keys s3 w b p = Some (q, w1)"
    "obj w1 = obj w" and keys: "\<And>ks. q = Inr ks \<Longrightarrow>
       distinct ks \<and> set ks = {k. obj w (b, k) \<noteq> None \<and> starts_with k p}" by blast
  show ?thesis
  proof (cases q)
    case (Inl e)
    with run list m show ?thesis by (simp add: vacuum_def)
  next
    case (Inr all)
    let ?rel = "List.map_filter (strip_prefix p) all"
    let ?vs = "List.map_filter manifest_version ?rel"
    let ?doomed = "versions_to_drop ?vs current RETAINED_VERSIONS"
    let ?keep = "filter (\<lambda>u. u \<notin> set ?doomed \<and> u \<le> current) ?vs"
    from keys [OF Inr] have all: "distinct all" "set all = {k. obj w (b, k) \<noteq> None \<and> starts_with k p}"
      by auto
    note vs = listed_versions [OF all canon]
    have alive: "u \<notin> set ?doomed" if "retained_version (obj w) b p current u" for u
      using dropped_is_old [OF vs(1), of u current RETAINED_VERSIONS] that vs(2)
      by (auto simp: retained_version_def)
    obtain s w2 where rr: "read_retained s3 js w1 b p ?keep [] = (s, w2)" by fastforce
    note ret = read_retained_result [OF laws rr]
    show ?thesis
    proof (cases s)
      case (Inl e)
      with run list Inr rr ret m show ?thesis by (simp add: vacuum_def Let_def)
    next
      case (Inr ms)
      let ?targets = "unreferenced_keys ms ?rel @ map manifest_key ?doomed"
      obtain d w3 where del: "delete_all s3 w2 b p ?targets 0 = (d, w3)" by fastforce
      with run list \<open>q = Inr all\<close> rr Inr have w': "w' = w3" by (simp add: vacuum_def Let_def)
      from v vs(2) alive [OF v] have "v \<in> set ?keep" by (simp add: retained_version_def)
      with ret Inr list(2) m have "m \<in> set ms" by fastforce
      then have safe: "mf_key f \<notin> set ?targets"
        if "f \<in> set (tm_files m)" "\<not> starts_with (mf_key f) MANIFEST_PREFIX" for f
        using that by (auto simp: unreferenced_keys_def Let_def)
      have "manifest_key v \<notin> set ?targets" "CURRENT_KEY \<notin> set ?targets"
        using alive [OF v] by (auto simp: unreferenced_keys_def Let_def)
      moreover have "obj w' (b, p @ k) = obj w (b, p @ k)" if "k \<notin> set ?targets" for k
      proof -
        from that have "(b, p @ k) \<notin> (\<lambda>k. (b, p @ k)) ` set ?targets" by blast
        with delete_all_result [OF laws del] ret list(2) show ?thesis by (simp add: w')
      qed
      ultimately show ?thesis using safe m(1)
        by (simp add: pointer_object_def manifest_object_def)
    qed
  qed
qed

lemma few_dropped:
  assumes "distinct vs"
  shows "versions_to_drop vs 1 RETAINED_VERSIONS = []"
proof -
  have "card {v \<in> set vs. v \<le> 1} \<le> card {0, 1 :: nat}" by (rule card_mono) auto
  then have "length (filter (\<lambda>v. v \<le> 1) (sort vs)) \<le> 2"
    using assms by (simp add: distinct_length_filter Collect_conj_eq Int_commute)
  then show ?thesis by (simp add: versions_to_drop_def RETAINED_VERSIONS_def Let_def)
qed

text \<open>A vacuum of version 1 takes every object of the table that the manifest of version 1 does not
  list, when no version 0 is stored.\<close>

lemma vacuum_from_one:
  assumes laws: "s3_laws s3 obj" and dels: "deletes s3" and canon: "canonical_manifests (obj w) b p"
    and run: "vacuum s3 js w b p 1 = Some (Inr n, w')"
    and zero: "obj w (manifest_object b p 0) = None"
    and m: "obj w (manifest_object b p 1) = Some body" "dec_manifest js body = Inr m"
    and k: "k \<notin> mf_key ` set (tm_files m)" "\<not> starts_with k MANIFEST_PREFIX" "k \<noteq> CURRENT_KEY"
  shows "obj w' (b, p @ k) = None"
proof -
  from list_keys_ok [OF laws, of w b p] run obtain all w1 where list: "list_keys s3 w b p = Some (Inr all, w1)"
    "obj w1 = obj w" and all: "distinct all" "set all = {k. obj w (b, k) \<noteq> None \<and> starts_with k p}"
    by (auto simp: vacuum_def split: sum.splits)
  let ?rel = "List.map_filter (strip_prefix p) all"
  let ?vs = "List.map_filter manifest_version ?rel"
  note vs = listed_versions [OF all canon]
  from run list few_dropped [OF vs(1)] obtain ms w2
    where rr: "read_retained s3 js w1 b p (filter (\<lambda>u. u \<le> 1) ?vs) [] = (Inr ms, w2)"
      and del: "delete_all s3 w2 b p (unreferenced_keys ms ?rel) 0 = (n, w')"
    by (auto simp: vacuum_def Let_def split: sum.splits prod.splits)
  have "u = 1" if "u \<in> set (filter (\<lambda>u. u \<le> 1) ?vs)" for u
  proof -
    from that vs(2) have "u \<le> 1" "u \<in> stored_versions (obj w) b p" by auto
    with zero show "u = 1" by (cases "u = 0") (auto simp: stored_versions_def)
  qed
  with read_retained_only [OF laws rr] list(2) m have "set ms \<subseteq> {m}" by fastforce
  show ?thesis
  proof (cases "obj w (b, p @ k)")
    case None
    with read_retained_result [OF laws rr] list(2) delete_all_removes [OF laws del, of "(b, p @ k)"]
    show ?thesis by auto
  next
    case (Some x)
    with relative_keys [OF all(2)] have "k \<in> set ?rel" by auto
    with k \<open>set ms \<subseteq> {m}\<close> have "k \<in> set (unreferenced_keys ms ?rel)"
      by (auto simp: unreferenced_keys_def Let_def)
    from delete_all_deletes [OF laws dels del this] show ?thesis .
  qed
qed

lemma vacuum_total:
  assumes "s3_laws s3 obj"
  shows "\<exists>r w'. vacuum s3 js w b p current = Some (r, w')"
proof -
  from list_keys_ok [OF assms, of w b p] obtain q w1 where "list_keys s3 w b p = Some (q, w1)" by blast
  then show ?thesis by (auto simp: vacuum_def Let_def split: sum.splits prod.splits)
qed

section \<open>Properties\<close>

text \<open>A mapping's writes replace its own files in a table's list and leave those of every other
  mapping; the list is sorted by key.\<close>

theorem mapping_writes_replace:
  "mset (apply_mapping_writes prev m files)
     = filter_mset (\<lambda>f. mf_mapping_id f \<noteq> m) (mset prev) + mset files
   \<and> sorted (map mf_key (apply_mapping_writes prev m files))"
  using apply_mapping_writes_mset by (simp add: apply_mapping_writes_def)

text \<open>The versions to drop and the versions kept are together those up to the current one; the
  dropped ones are the oldest, in ascending order, and as many are kept as the window allows.\<close>

theorem versions_dropped:
  "\<exists>kept. mset (versions_to_drop vs current retain @ kept) = mset (filter (\<lambda>v. v \<le> current) vs)
     \<and> sorted (versions_to_drop vs current retain @ kept)
     \<and> length kept = min retain (length (filter (\<lambda>v. v \<le> current) vs))"
  by (rule versions_to_drop_split)

text \<open>C3: Publishing switches readers at the pointer: whatever fails, either the pointer is what it
  was or the table is on the new version with its manifest stored, success means the latter, and
  no other object is touched.\<close>

theorem publish_atomic:
  assumes "s3_laws s3 obj" and "json_laws js" and "publish s3 js w b p m = (r, w')"
  shows "(r = Inr () \<longrightarrow> on_version js (obj w') b p m)
    \<and> (obj w' (pointer_object b p) = obj w (pointer_object b p) \<or> on_version js (obj w') b p m)
    \<and> (\<forall>x. x \<noteq> pointer_object b p \<longrightarrow> x \<noteq> manifest_object b p (tm_version m) \<longrightarrow> obj w' x = obj w x)"
  by (rule publish_result [OF assms])

text \<open>Reading a table back gives the version it is on, or, when the read fails at the pointer,
  the empty version 0; it changes nothing.\<close>

theorem read_after_publish:
  assumes "s3_laws s3 obj" and "on_version js (obj w) b p m"
    and "read_current s3 js w b p = (Inr m', w')"
  shows "(m' = m \<or> m' = empty_manifest) \<and> obj w' = obj w"
  using read_current_result [OF assms(1,3)] assms(2) by (auto simp: on_version_def)

text \<open>C2: Vacuum never deletes the pointer, the manifest of a version in the retention window, or a
  file such a manifest lists, however its calls fail.\<close>

theorem vacuum_safe:
  assumes "s3_laws s3 obj" and "canonical_manifests (obj w) b p"
    and "vacuum s3 js w b p current = Some (r, w')"
    and "retained_version (obj w) b p current v"
    and "obj w (manifest_object b p v) = Some body" and "dec_manifest js body = Inr m"
  shows "obj w' (pointer_object b p) = obj w (pointer_object b p)
    \<and> obj w' (manifest_object b p v) = Some body
    \<and> (\<forall>f \<in> set (tm_files m). \<not> starts_with (mf_key f) MANIFEST_PREFIX \<longrightarrow>
         obj w' (b, p @ mf_key f) = obj w (b, p @ mf_key f))"
  by (rule vacuum_keeps [OF assms])

text \<open>Vacuum always returns, given a store whose listings end.\<close>

theorem vacuum_returns:
  assumes "s3_laws s3 obj"
  shows "\<exists>r w'. vacuum s3 js w b p current = Some (r, w')"
  by (rule vacuum_total [OF assms])

section \<open>A sample store\<close>

definition demo_file :: "string \<Rightarrow> ManifestFile" where
  "demo_file k = \<lparr>mf_key = k, mf_mapping_id = ''m'', mf_bytes = 1\<rparr>"

definition demo_manifest :: "nat \<Rightarrow> TableManifest" where
  "demo_manifest v = \<lparr>tm_version = v, tm_created_at = [], tm_job_id = None,
     tm_files = [demo_file (version_prefix v @ ''m.parquet'')]\<rparr>"

text \<open>Documents of the sample: a pointer is its number; a manifest is written as its version, which
  determines it, and any other manifest is refused.\<close>

definition demo_serde :: ManifestJson where
  "demo_serde = \<lparr>enc_pointer = (\<lambda>v. Inr (show_nat v)),
     dec_pointer = (\<lambda>s. ok_or ''expected number'' (parse_nat s)),
     enc_manifest = (\<lambda>m. if m = demo_manifest (tm_version m) then Inr (show_nat (tm_version m))
       else Inl ''not a sample''),
     dec_manifest = (\<lambda>s. case parse_nat s of None \<Rightarrow> Inl ''expected number'' | Some v \<Rightarrow> Inr (demo_manifest v))\<rparr>"

lemma demo_serde_laws: "json_laws demo_serde"
  by (auto simp: json_laws_def demo_serde_def split: if_splits)

text \<open>A table published at version 7, in a store whose coming calls fail as listed.\<close>

definition demo_store :: "bool list \<Rightarrow> MemStore" where
  "demo_store faults = \<lparr>ms_objects =
     [((''b'', ''t/_current.json''), ''7''), ((''b'', ''t/_manifests/7.json''), ''7''),
      ((''b'', ''t/v7/m.parquet''), ''PAR1'')], ms_faults = faults\<rparr>"

lemma demo_digits: "show_nat 7 = ''7''" "show_nat 1 = ''1''" "show_nat (Suc 0) = ''1''"
  by code_simp+

lemma demo_keys:
  "manifest_key 7 = ''_manifests/7.json''" "manifest_key (Suc 0) = ''_manifests/1.json''"
  "version_prefix 7 = ''v7/''" "version_prefix (Suc 0) = ''v1/''"
  by (simp_all add: manifest_key_def MANIFEST_PREFIX_def version_prefix_def demo_digits)

lemma demo_parse: "parse_nat ''7'' = Some 7" "parse_nat ''1'' = Some (Suc 0)"
  using parse_show_nat [of 7] parse_show_nat [of "Suc 0"] by (simp_all add: demo_digits)

lemmas demo_simps = demo_digits demo_keys demo_parse demo_store_def demo_serde_def mem_s3_def mem_fault_def mem_obj_def
  CURRENT_KEY_def get_bytes_def

lemma demo_on_version:
  "on_version demo_serde (mem_obj (demo_store f)) ''b'' ''t/'' (demo_manifest 7)"
  by (simp add: on_version_def demo_simps pointer_object_def manifest_object_def demo_manifest_def)

section \<open>Witnesses\<close>

lemma demo_publish:
  "\<exists>w. publish mem_s3 demo_serde (demo_store []) ''b'' ''t/'' (demo_manifest 1) = (Inr (), w)"
  by (simp add: publish_def put_document_def demo_simps demo_manifest_def)

lemma publish_atomic_witness:
  "\<exists>w. on_version demo_serde (mem_obj w) ''b'' ''t/'' (demo_manifest 1)"
  using demo_publish publish_atomic [OF mem_laws demo_serde_laws] by blast

lemma read_after_publish_witness:
  "\<exists>m w. read_current mem_s3 demo_serde (demo_store [True]) ''b'' ''t/'' = (Inr m, w) \<and> m = empty_manifest"
proof -
  have r: "read_current mem_s3 demo_serde (demo_store [True]) ''b'' ''t/'' = (Inr empty_manifest, demo_store [])"
    by (simp add: read_current_def demo_simps)
  from read_after_publish [OF mem_laws demo_on_version r] r show ?thesis by blast
qed

lemma demo_stored: "stored_versions (mem_obj (demo_store f)) ''b'' ''t/'' = {7}"
proof -
  have "mem_obj (demo_store f) (manifest_object ''b'' ''t/'' v) \<noteq> None \<longleftrightarrow> v = 7" for v
  proof -
    have "manifest_key v = ''_manifests/7.json'' \<longleftrightarrow> v = 7"
      using manifest_key_inj [of v 7] by (simp only: demo_keys)
    moreover have "manifest_key v \<noteq> ''_current.json''" "manifest_key v \<noteq> ''v7/m.parquet''"
      by (simp_all add: manifest_key_def MANIFEST_PREFIX_def)
    ultimately show ?thesis by (auto simp: demo_store_def mem_obj_def manifest_object_def)
  qed
  then show ?thesis by (auto simp: stored_versions_def u64_max_def)
qed

lemma demo_manifest_versions:
  "manifest_version ''_current.json'' = None" "manifest_version ''v7/m.parquet'' = None"
  "manifest_version ''v1/m.parquet'' = None" "manifest_version ''_manifests/7.json'' = Some 7"
  "manifest_version ''_manifests/1.json'' = Some 1"
  using manifest_version_key [of 7] manifest_version_key [of "Suc 0"]
  by (simp_all add: demo_keys u64_max_def manifest_version_def strip_prefix_def MANIFEST_PREFIX_def)

lemma demo_canonical: "canonical_manifests (mem_obj (demo_store f)) ''b'' ''t/''"
  by (auto simp: canonical_manifests_def demo_store_def mem_obj_def demo_keys demo_manifest_versions
      split: if_splits)

lemma demo_retained: "retained_version (mem_obj (demo_store f)) ''b'' ''t/'' 7 7"
proof -
  have "newer_versions {7} 7 7 = {}" by (auto simp: newer_versions_def)
  then show ?thesis by (simp add: retained_version_def demo_stored RETAINED_VERSIONS_def)
qed

lemma vacuum_returns_witness:
  "\<exists>r w'. vacuum mem_s3 demo_serde (demo_store [True, False]) ''b'' ''t/'' 7 = Some (r, w')"
  by (rule vacuum_returns [OF mem_laws])

lemma vacuum_safe_witness:
  "\<exists>r w'. vacuum mem_s3 demo_serde (demo_store []) ''b'' ''t/'' 7 = Some (r, w')
     \<and> mem_obj w' (''b'', ''t/v7/m.parquet'') = Some ''PAR1''"
proof -
  obtain r w' where run: "vacuum mem_s3 demo_serde (demo_store []) ''b'' ''t/'' 7 = Some (r, w')"
    using vacuum_total [OF mem_laws] by blast
  have "mem_obj (demo_store []) (manifest_object ''b'' ''t/'' 7) = Some ''7''"
       "dec_manifest demo_serde ''7'' = Inr (demo_manifest 7)"
    by (simp_all add: demo_simps manifest_object_def)
  from vacuum_safe [OF mem_laws demo_canonical run demo_retained this]
  have "mem_obj w' (''b'', ''t/'' @ ''v7/m.parquet'') = mem_obj (demo_store []) (''b'', ''t/'' @ ''v7/m.parquet'')"
    by (simp add: demo_manifest_def demo_file_def demo_keys MANIFEST_PREFIX_def)
  with run show ?thesis by (simp add: demo_store_def mem_obj_def)
qed

section \<open>A failed read of the pointer\<close>

text \<open>C18: One failed read of a pointer loses the published version. While readers are on the version
  of \<open>m\<close>, a run whose read of the pointer fails, with any error, starts from the empty version 0. When it
  later publishes version 1 and vacuums, with the deletions carried out, readers are on version 1, and
  every file that \<open>m\<close> lists and version 1 does not is deleted: neither the newer version nor its
  retention window protects it.\<close>

theorem transient_read_loses_version:
  assumes "s3_laws s3 obj" and "json_laws js" and "deletes s3"
    and "on_version js (obj w) b p m"
    and "get_object s3 w b (p @ CURRENT_KEY) = (Inl e, w1)"
    and "canonical_manifests (obj w3) b p" and "obj w3 (manifest_object b p 0) = None"
    and "tm_version m1 = 1" and "publish s3 js w2 b p m1 = (Inr (), w3)"
    and "vacuum s3 js w3 b p 1 = Some (Inr n, w4)"
  shows "read_current s3 js w b p = (Inr empty_manifest, w1) \<and> on_version js (obj w1) b p m
    \<and> tm_version empty_manifest + 1 = tm_version m1
    \<and> on_version js (obj w4) b p m1
    \<and> (\<forall>f \<in> set (tm_files m). mf_key f \<notin> mf_key ` set (tm_files m1)
         \<longrightarrow> \<not> starts_with (mf_key f) MANIFEST_PREFIX \<longrightarrow> mf_key f \<noteq> CURRENT_KEY
         \<longrightarrow> obj w4 (b, p @ mf_key f) = None)"
proof (intro conjI ballI impI)
  show "read_current s3 js w b p = (Inr empty_manifest, w1)"
    using assms(5) by (simp add: read_current_def get_bytes_def)
  show "on_version js (obj w1) b p m" using assms(4) s3_get [OF assms(1,5)] by simp
  show "tm_version empty_manifest + 1 = tm_version m1" using assms(8) by (simp add: empty_manifest_def)
  from publish_result [OF assms(1,2,9)] have on: "on_version js (obj w3) b p m1" by simp
  then obtain ptr body where o: "obj w3 (pointer_object b p) = Some ptr" "dec_pointer js ptr = Inr (tm_version m1)"
    "obj w3 (manifest_object b p 1) = Some body" "dec_manifest js body = Inr m1"
    using assms(8) by (auto simp: on_version_def)
  have "newer_versions S 1 1 = {}" for S by (auto simp: newer_versions_def)
  then have "retained_version (obj w3) b p 1 1"
    using o(3) by (simp add: retained_version_def stored_versions_def RETAINED_VERSIONS_def u64_max_def)
  from vacuum_keeps [OF assms(1,6,10) this o(3,4)] o assms(8) show "on_version js (obj w4) b p m1"
    by (auto simp: on_version_def)
  show "obj w4 (b, p @ mf_key f) = None"
    if "mf_key f \<notin> mf_key ` set (tm_files m1)" "\<not> starts_with (mf_key f) MANIFEST_PREFIX" "mf_key f \<noteq> CURRENT_KEY"
    for f
    by (rule vacuum_from_one [OF assms(1,3,6,10,7) o(3,4) that])
qed

text \<open>A store whose deletions never fail.\<close>

definition sure_s3 :: "MemStore S3Ops" where
  "sure_s3 = mem_s3\<lparr>delete_object := (\<lambda>w b k. (Inr (), w\<lparr>ms_objects := AList.delete (b, k) (ms_objects w)\<rparr>))\<rparr>"

lemma sure_deletes: "deletes sure_s3" by (simp add: deletes_def sure_s3_def)

lemma sure_laws: "s3_laws sure_s3 mem_obj"
  using mem_laws
  by (auto simp: s3_laws_def get_law_def put_law_def delete_law_def list_law_def pages_def sure_s3_def mem_obj_def
      delete_conv')

text \<open>The store after the run that mistook version 7 for none: its file is up, version 1 published.\<close>

definition demo_overwritten :: MemStore where
  "demo_overwritten = \<lparr>ms_objects =
     [((''b'', ''t/_current.json''), ''1''), ((''b'', ''t/_manifests/7.json''), ''7''),
      ((''b'', ''t/v7/m.parquet''), ''PAR1''), ((''b'', ''t/v1/m.parquet''), ''PAR1''),
      ((''b'', ''t/_manifests/1.json''), ''1'')], ms_faults = []\<rparr>"

lemma demo_overwritten_keys:
  "mem_keys demo_overwritten ''b'' ''t/'' =
     [''t/_current.json'', ''t/_manifests/1.json'', ''t/_manifests/7.json'', ''t/v1/m.parquet'',
      ''t/v7/m.parquet'']"
  by code_simp

lemma demo_relative:
  "List.map_filter (strip_prefix ''t/'') (mem_keys demo_overwritten ''b'' ''t/'') =
     [''_current.json'', ''_manifests/1.json'', ''_manifests/7.json'', ''v1/m.parquet'', ''v7/m.parquet'']"
  unfolding demo_overwritten_keys by code_simp

lemma sure_vacuum:
  "\<exists>n w. vacuum sure_s3 demo_serde demo_overwritten ''b'' ''t/'' 1 = Some (Inr n, w)"
proof -
  have fault: "mem_fault demo_overwritten = (False, demo_overwritten)"
    by (simp add: mem_fault_def demo_overwritten_def)
  have list: "list_keys sure_s3 demo_overwritten ''b'' ''t/''
      = Some (Inr (mem_keys demo_overwritten ''b'' ''t/''), demo_overwritten)"
    unfolding list_keys_def
    by (subst list_from.simps) (simp add: sure_s3_def mem_s3_def mem_map_filter Let_def fault)
  have drop: "versions_to_drop [Suc 0, 7] (Suc 0) RETAINED_VERSIONS = []"
    by (simp add: versions_to_drop_def RETAINED_VERSIONS_def)
  have read: "read_retained sure_s3 demo_serde demo_overwritten ''b'' ''t/'' [Suc 0] []
      = (Inr [demo_manifest (Suc 0)], demo_overwritten)"
    by (simp add: read_version_def sure_s3_def demo_simps demo_overwritten_def)
  show ?thesis unfolding vacuum_def list
    by (simp add: Let_def demo_relative map_filter_simps demo_manifest_versions drop read
        del: read_retained.simps split: prod.splits)
qed

lemma demo_overwritten_canonical: "canonical_manifests (mem_obj demo_overwritten) ''b'' ''t/''"
  unfolding canonical_manifests_def
proof (intro allI impI)
  fix k v assume k: "mem_obj demo_overwritten (''b'', ''t/'' @ k) \<noteq> None" "manifest_version k = Some v"
  have "manifest_version ''_current.json'' = None" "manifest_version ''v7/m.parquet'' = None"
    "manifest_version ''v1/m.parquet'' = None"
    by (simp_all add: manifest_version_def strip_prefix_def MANIFEST_PREFIX_def)
  with k have "k = manifest_key 7 \<or> k = manifest_key 1"
    by (auto simp: mem_obj_def demo_overwritten_def demo_keys split: if_splits)
  with k(2) show "k = manifest_key v" by (auto simp: manifest_version_key u64_max_def)
qed

lemma transient_read_loses_version_witness:
  "\<exists>w4. on_version demo_serde (mem_obj w4) ''b'' ''t/'' (demo_manifest 1) \<and> mem_obj w4 (''b'', ''t/v7/m.parquet'') = None"
proof -
  from sure_vacuum obtain n w4 where vac: "vacuum sure_s3 demo_serde demo_overwritten ''b'' ''t/'' 1 = Some (Inr n, w4)"
    by blast
  obtain w2 where pub: "publish sure_s3 demo_serde w2 ''b'' ''t/'' (demo_manifest 1) = (Inr (), demo_overwritten)"
  proof
    let ?w2 = "\<lparr>ms_objects =
     [((''b'', ''t/_current.json''), ''7''), ((''b'', ''t/_manifests/7.json''), ''7''),
      ((''b'', ''t/v7/m.parquet''), ''PAR1''), ((''b'', ''t/v1/m.parquet''), ''PAR1'')], ms_faults = []\<rparr>"
    show "publish sure_s3 demo_serde ?w2 ''b'' ''t/'' (demo_manifest 1) = (Inr (), demo_overwritten)"
      by (simp add: publish_def put_document_def sure_s3_def demo_simps demo_manifest_def demo_overwritten_def)
  qed
  have get: "get_object sure_s3 (demo_store [True]) ''b'' (''t/'' @ CURRENT_KEY) = (Inl mem_error, demo_store [])"
    by (simp add: sure_s3_def demo_simps)
  have "digit_char 0 = CHR ''0''" by code_simp
  then have "mem_obj demo_overwritten (manifest_object ''b'' ''t/'' 0) = None"
    by (simp add: demo_overwritten_def mem_obj_def manifest_object_def manifest_key_def show_nat.simps
        MANIFEST_PREFIX_def)
  from transient_read_loses_version [OF sure_laws demo_serde_laws sure_deletes demo_on_version get
      demo_overwritten_canonical this _ pub vac]
  show ?thesis
    by (auto simp: demo_manifest_def demo_file_def demo_keys MANIFEST_PREFIX_def CURRENT_KEY_def)
qed

end
