(* ===== verification/Pipeline_Proofs.thy ===== *)
theory Pipeline_Proofs
  imports Pipeline Json_Source_Proofs Evaluator_Proofs
begin

text \<open>
  The lemmas about the pipeline: which files and columns ingestion accepts, that path segments
  identify the values they encode, that partitions get different keys, and how far an upload
  goes.
\<close>

section \<open>Ingestion\<close>

lemma read_projected_total: "\<exists>r. read_projected lower ops jops key bytes sc matchers = Inr r"
  by (auto simp: read_projected_def read_json_result split: SourceFormat.splits)

lemma ingest_file_total: "\<exists>r. ingest_file lower ops jops key bytes cfg mp reg = Inr r"
  using read_projected_total [of lower ops jops key bytes _ reg]
  by (auto simp: ingest_file_def split: sum.splits) (metis rbind_simps(2))

text \<open>The frames of the files that ingest, in order.\<close>

definition ingested ::
  "(string \<Rightarrow> string) \<Rightarrow> ('df, 'lf, 'col) FrameOps \<Rightarrow> ('n, 'df) JsonOps \<Rightarrow> PipelineConfig \<Rightarrow> Mapping
    \<Rightarrow> Registry \<Rightarrow> (string \<times> string) list \<Rightarrow> 'df list" where
  "ingested lower ops jops cfg mp reg files =
     List.map_filter (\<lambda>(key, bytes).
       case ingest_file lower ops jops key bytes cfg mp reg of
         Inr (Inr df) \<Rightarrow> Some df | _ \<Rightarrow> None) files"

lemma ingest_frames_result:
  "ingest_frames lower ops jops cfg mp reg files frames =
     Inr (frames @ map (df_lazy ops) (ingested lower ops jops cfg mp reg files))"
proof (induction files arbitrary: frames)
  case Nil
  show ?case by (simp add: ingested_def map_filter_simps)
next
  case (Cons f files)
  obtain key bytes where f: "f = (key, bytes)" by (cases f)
  from ingest_file_total [of lower ops jops key bytes cfg mp reg]
  obtain r where "ingest_file lower ops jops key bytes cfg mp reg = Inr r" by blast
  with Cons f show ?case by (cases r) (auto simp: ingested_def map_filter_simps)
qed

lemma missing_columns:
  "validate_csv_headers headers schema =
     (if set (map cs_name schema) \<subseteq> set headers then Inr ()
      else Inl (filter (\<lambda>n. n \<notin> set headers) (map cs_name schema)))"
  by (auto simp: validate_csv_headers_def Let_def list_ex_iff filter_map filter_empty_conv comp_def)

section \<open>Path segments\<close>

lemma segment_value_inj:
  assumes "date_laws ops" and "av_tag u = av_tag v"
    and "segment_value ops u = Inr s" and "segment_value ops v = Inr s"
  shows "u = v"
proof (cases "\<exists>d. u = AvDate d")
  case True
  then obtain d where u: "u = AvDate d" by blast
  with assms(2) obtain e where v: "v = AvDate e" by (cases v) auto
  from assms(1,3,4) have "sint (d + 719163) = sint (e + 719163)"
    unfolding u v by (auto simp: ok_or_eq_Inr date_laws_def)
  then have "d + 719163 = e + 719163" by (metis uint_sint word_uint_eq_iff)
  then show ?thesis by (simp add: u v)
next
  case False
  with assms(2-4) show ?thesis
    by (cases u; cases v) (auto simp: encode_segment_inj show_bool_def split: if_splits)
qed

lemma segment_value_no_slash:
  assumes "date_laws ops" and "segment_value ops av = Inr s"
  shows "CHR ''/'' \<notin> set s"
proof -
  have "\<not> is_digit (CHR ''/'')" by (simp add: is_digit_def)
  then have "CHR ''/'' \<notin> set (show_int i)" "CHR ''/'' \<notin> set (show_nat n)" for i n
    by (simp_all add: show_int_no_char show_nat_no_char)
  moreover have "CHR ''/'' \<notin> set (encode_segment t)" for t using encode_segment_safe [of t] by blast
  ultimately show ?thesis
    using assms by (cases av) (auto simp: ok_or_eq_Inr date_laws_def show_bool_def split: if_splits)
qed

text \<open>The segments of a path determine the values in them.\<close>

definition hive_segments :: "string list \<Rightarrow> string list \<Rightarrow> string list" where
  "hive_segments keys vals = map2 (\<lambda>k v. k @ ''='' @ v) keys vals"

lemma append_sep_cancel:
  "c \<notin> set v \<Longrightarrow> c \<notin> set w \<Longrightarrow> v @ c # xs = w @ c # ys \<longleftrightarrow> v = w \<and> xs = ys"
proof (induction v arbitrary: w)
  case Nil
  then show ?case by (cases w) auto
next
  case (Cons a v)
  then show ?case by (cases w) auto
qed

lemma hive_path_inj:
  "length vs = length keys \<Longrightarrow> length ws = length keys \<Longrightarrow>
     \<forall>v \<in> set vs. CHR ''/'' \<notin> set v \<Longrightarrow> \<forall>w \<in> set ws. CHR ''/'' \<notin> set w \<Longrightarrow>
     join ''/'' (hive_segments keys vs) @ ''/'' @ rest = join ''/'' (hive_segments keys ws) @ ''/'' @ rest \<Longrightarrow>
     vs = ws"
proof (induction keys arbitrary: vs ws)
  case (Cons k keys)
  from Cons.prems(1,2) obtain v vs' w ws' where vw: "vs = v # vs'" "ws = w # ws'"
    by (auto simp: length_Suc_conv)
  show ?case
  proof (cases "keys = []")
    case True
    with Cons.prems vw append_sep_cancel [of "CHR ''/''" v w rest rest] show ?thesis
      by (simp add: hive_segments_def)
  next
    case False
    with Cons.prems vw have ne: "hive_segments keys vs' \<noteq> []" "hive_segments keys ws' \<noteq> []"
      by (auto simp: hive_segments_def zip_eq_Nil_iff)
    have "hive_segments (k # keys) vs = (k @ ''='' @ v) # hive_segments keys vs'"
        "hive_segments (k # keys) ws = (k @ ''='' @ w) # hive_segments keys ws'"
      by (simp_all add: hive_segments_def vw)
    with Cons.prems(5) ne have "v @ CHR ''/'' # (join ''/'' (hive_segments keys vs') @ ''/'' @ rest)
        = w @ CHR ''/'' # (join ''/'' (hive_segments keys ws') @ ''/'' @ rest)"
      by (simp add: join_Cons)
    with Cons.prems vw have "v = w" and
        "join ''/'' (hive_segments keys vs') @ ''/'' @ rest = join ''/'' (hive_segments keys ws') @ ''/'' @ rest"
      by (simp_all add: append_sep_cancel)
    with Cons.IH [of vs' ws'] Cons.prems vw show ?thesis by simp
  qed
qed simp

section \<open>Partitions\<close>

definition key_values ::
  "('df, 'lf, 'col) FrameOps \<Rightarrow> string list \<Rightarrow> 'df \<Rightarrow> string list \<Rightarrow> bool" where
  "key_values ops keys grp vals \<longleftrightarrow>
     list_all2 (\<lambda>k v. \<exists>av. first_cell ops grp k = Inr av \<and> segment_value ops av = Inr v) keys vals"

definition hive_key :: "Mapping \<Rightarrow> AnalyticTable \<Rightarrow> string list \<Rightarrow> string" where
  "hive_key mp table vals =
     t_id table @ ''/'' @ join ''/'' (hive_segments (t_partition_keys table) vals)
     @ ''/'' @ m_id mp @ ''.parquet''"

lemma group_segment_Inr:
  "group_segment ops grp k = Inr seg \<longleftrightarrow>
     (\<exists>av v. first_cell ops grp k = Inr av \<and> segment_value ops av = Inr v \<and> seg = k @ ''='' @ v)"
  by (auto simp: rbind_eq_Inr group_segment_def map_err_eq_Inr)

lemma group_segments:
  "collect_results (group_segment ops grp) keys = Inr segs \<Longrightarrow>
     \<exists>vals. key_values ops keys grp vals \<and> segs = hive_segments keys vals"
proof (induction keys arbitrary: segs)
  case Nil
  then show ?case by (simp add: key_values_def hive_segments_def)
next
  case (Cons k keys)
  then obtain av v rest where
      cell: "first_cell ops grp k = Inr av" "segment_value ops av = Inr v"
      and rest: "collect_results (group_segment ops grp) keys = Inr rest"
      and segs: "segs = (k @ ''='' @ v) # rest"
    by (auto simp: rbind_eq_Inr group_segment_Inr)
  from Cons.IH [OF rest] obtain vals where
    "key_values ops keys grp vals" "rest = hive_segments keys vals" by blast
  with cell segs have "key_values ops (k # keys) grp (v # vals)
      \<and> segs = hive_segments (k # keys) (v # vals)"
    by (auto simp: key_values_def hive_segments_def)
  then show ?case by blast
qed

lemma group_output_key:
  "group_output ops mp table grp = Inr out \<Longrightarrow>
     \<exists>vals. key_values ops (t_partition_keys table) grp vals \<and> po_key out = hive_key mp table vals
       \<and> df_parquet ops (df_drop_many ops grp (t_partition_keys table)) = Inr (po_bytes out)"
  by (auto simp: group_output_def rbind_eq_Inr map_err_eq_Inr hive_key_def dest!: group_segments)

lemma key_values_no_slash:
  assumes "date_laws ops" and "key_values ops keys grp vals"
  shows "length vals = length keys \<and> (\<forall>v \<in> set vals. CHR ''/'' \<notin> set v)"
  using assms(2) unfolding key_values_def
  by (induction rule: list_all2_induct) (auto dest: segment_value_no_slash [OF assms(1)])

lemma key_values_eq:
  assumes "date_laws ops" and "key_values ops keys g vals" and "key_values ops keys h vals"
    and tags: "\<forall>u v. first_cell ops g k = Inr u \<longrightarrow> first_cell ops h k = Inr v \<longrightarrow> av_tag u = av_tag v"
    and "k \<in> set keys"
  shows "first_cell ops g k = first_cell ops h k"
proof -
  from assms(5) obtain i where i: "i < length keys" "keys ! i = k" by (auto simp: in_set_conv_nth)
  from assms(2) i obtain u where
    u: "first_cell ops g k = Inr u" "segment_value ops u = Inr (vals ! i)"
    by (auto simp: key_values_def list_all2_conv_all_nth)
  from assms(3) i obtain v where
    v: "first_cell ops h k = Inr v" "segment_value ops v = Inr (vals ! i)"
    by (auto simp: key_values_def list_all2_conv_all_nth)
  from tags u v have "av_tag u = av_tag v" by blast
  from segment_value_inj [OF assms(1) this u(2) v(2)] u v show ?thesis by simp
qed

lemma produce_partitions_groups:
  assumes "produce_partitions ops df mp table = Inr outs" and "t_partition_keys table \<noteq> []"
  shows "\<exists>groups. df_partition_by_stable ops df (t_partition_keys table) = Inr groups
    \<and> list_all2 (\<lambda>g out. group_output ops mp table g = Inr out) groups outs"
  using assms by (auto simp: produce_partitions_def rbind_eq_Inr map_err_eq_Inr collect_results_Inr)

lemma check_null_keys_Inr:
  "check_null_keys ops df keys = Inr () \<longleftrightarrow>
     (\<forall>k \<in> set keys. \<exists>c. df_column ops df k = Inr c \<and> col_null_count ops c = 0)"
  by (induction keys) (auto simp: rbind_eq_Inr map_err_eq_Inr)

lemma hive_keys_distinct:
  assumes laws: "group_laws ops" "date_laws ops"
    and nulls: "check_null_keys ops df (t_partition_keys table) = Inr ()"
    and groups: "df_partition_by_stable ops df (t_partition_keys table) = Inr groups"
    and outs: "list_all2 (\<lambda>g out. group_output ops mp table g = Inr out) groups outs"
  shows "distinct (map po_key outs)"
proof -
  have "po_key (outs ! i) \<noteq> po_key (outs ! j)" if ij: "i < length outs" "j < length outs" "i \<noteq> j" for i j
  proof
    assume same: "po_key (outs ! i) = po_key (outs ! j)"
    let ?keys = "t_partition_keys table"
    from outs ij have len: "i < length groups" "j < length groups"
      and oi: "group_output ops mp table (groups ! i) = Inr (outs ! i)"
      and oj: "group_output ops mp table (groups ! j) = Inr (outs ! j)"
      by (auto simp: list_all2_conv_all_nth)
    from group_output_key [OF oi] group_output_key [OF oj] obtain vs ws where
      vs: "key_values ops ?keys (groups ! i) vs" "po_key (outs ! i) = hive_key mp table vs" and
      ws: "key_values ops ?keys (groups ! j) ws" "po_key (outs ! j) = hive_key mp table ws" by blast
    from hive_path_inj [of vs ?keys ws "m_id mp @ ''.parquet''"] same vs ws
      key_values_no_slash [OF laws(2) vs(1)] key_values_no_slash [OF laws(2) ws(1)]
    have "vs = ws" by (simp add: hive_key_def)
    from laws(1) groups len ij(3) obtain k where
      k: "k \<in> set ?keys" "first_cell ops (groups ! i) k \<noteq> first_cell ops (groups ! j) k" and
      tags: "\<forall>k c u v. df_column ops df k = Inr c \<longrightarrow> col_null_count ops c = 0 \<longrightarrow>
        first_cell ops (groups ! i) k = Inr u \<longrightarrow> first_cell ops (groups ! j) k = Inr v
        \<longrightarrow> av_tag u = av_tag v"
      unfolding group_laws_def by blast
    from nulls k(1) have "\<exists>c. df_column ops df k = Inr c \<and> col_null_count ops c = 0"
      by (simp add: check_null_keys_Inr)
    with tags have "\<forall>u v. first_cell ops (groups ! i) k = Inr u \<longrightarrow>
        first_cell ops (groups ! j) k = Inr v \<longrightarrow> av_tag u = av_tag v" by blast
    from key_values_eq [OF laws(2) vs(1) ws(1) [folded \<open>vs = ws\<close>] this k(1)] k(2) show False
      by contradiction
  qed
  then show ?thesis by (simp add: distinct_conv_nth)
qed

section \<open>Upload\<close>

text \<open>A run of uploads that all succeed.\<close>

inductive puts_ok :: "'u Uploader \<Rightarrow> 'u \<Rightarrow> PartitionOutput list \<Rightarrow> 'u \<Rightarrow> bool" for put where
  puts_none: "puts_ok put u [] u"
| puts_more: "put u (po_key p) (po_bytes p) = (Inr x, u1) \<Longrightarrow> puts_ok put u1 ps u2 \<Longrightarrow>
    puts_ok put u (p # ps) u2"

inductive_simps puts_ok_Nil: "puts_ok put u [] u'"
inductive_simps puts_ok_Cons: "puts_ok put u (p # ps) u'"

lemma upload_from_ok:
  "upload_from put u ps done = (Inr keys, u') \<Longrightarrow>
     keys = done @ map po_key ps \<and> puts_ok put u ps u'"
  by (induction put u ps "done" rule: upload_from.induct)
     (auto simp: puts_ok_Nil puts_ok_Cons split: prod.splits sum.splits)

lemma upload_from_failed:
  "upload_from put u ps done = (Inl e, u') \<Longrightarrow>
     \<exists>sent p rest u1 m. ps = sent @ p # rest \<and> puts_ok put u sent u1
       \<and> put u1 (po_key p) (po_bytes p) = (Inl m, u') \<and> e = PartitionUploadFailed (po_key p) m"
proof (induction put u ps "done" rule: upload_from.induct)
  case (2 put u p ps "done")
  obtain r u1 where put: "put u (po_key p) (po_bytes p) = (r, u1)" by fastforce
  show ?case
  proof (cases r)
    case (Inl m)
    with "2.prems" put have "ps = ps \<and> puts_ok put u [] u
       \<and> put u (po_key p) (po_bytes p) = (Inl m, u') \<and> e = PartitionUploadFailed (po_key p) m"
      by (simp add: puts_none)
    then show ?thesis by (metis append_Nil)
  next
    case (Inr x)
    with "2.prems" put have "upload_from put u1 ps (done @ [po_key p]) = (Inl e, u')" by simp
    from "2.IH" [OF put [symmetric] Inr this] obtain sent q rest u2 m where
      "ps = sent @ q # rest" "puts_ok put u1 sent u2"
      "put u2 (po_key q) (po_bytes q) = (Inl m, u')" "e = PartitionUploadFailed (po_key q) m" by blast
    with put Inr have "p # ps = (p # sent) @ q # rest" "puts_ok put u (p # sent) u2"
      by (auto simp: puts_ok_Cons)
    then show ?thesis
      using \<open>put u2 (po_key q) (po_bytes q) = (Inl m, u')\<close> \<open>e = PartitionUploadFailed (po_key q) m\<close>
      by blast
  qed
qed simp

section \<open>Properties\<close>

text \<open>Ingesting many files never panics, is the union of exactly the files that ingest, in
  order, and fails as a whole only when no file does.\<close>

theorem ingest_many_union:
  "ingest_many lower ops jops files cfg mp reg = Inr
     (if ingested lower ops jops cfg mp reg files = [] then Inl NoFilesSucceeded
      else map_err (Polars ''<multi>'')
             (lf_concat ops (map (df_lazy ops) (ingested lower ops jops cfg mp reg files))))"
  by (simp add: ingest_many_def ingest_frames_result)

text \<open>A readable CSV file is rejected for missing columns exactly when a column of its source's
  schema is not in its header.\<close>

theorem ingest_missing_columns:
  assumes "resolve_source_container key cfg = Inr sc" and "sc_format sc = Csv"
    and "csv_read ops bytes = Inr df"
  shows "(\<exists>missing. ingest_file lower ops jops key bytes cfg mp reg
             = Inr (Inl (MissingColumns key missing)))
     \<longleftrightarrow> \<not> cs_name ` set (sc_schema sc) \<subseteq> set (df_column_names ops df)"
proof -
  have "apply_mapping lower ops key mp reg df' \<noteq> Inl (MissingColumns k missing)" for df' k missing
    by (auto simp: apply_mapping_def compile_columns_def Let_def rbind_eq_Inl map_err_eq_Inl
        dest!: collect_results_Inl split: option.splits)
  then show ?thesis
    using assms by (auto simp: ingest_file_def read_projected_def read_csv_projected_def
        read_source_def missing_columns rbind_eq_Inl map_err_def split: sum.splits if_splits)
qed

text \<open>C14: The partitions of one mapping go to different object keys, so no partition overwrites
  another.\<close>

theorem partition_keys_distinct:
  assumes "produce_partitions ops df mp table = Inr outs"
    and "group_laws ops" and "date_laws ops"
  shows "distinct (map po_key outs)"
proof (cases "t_partition_keys table = []")
  case True
  with assms(1) show ?thesis by (auto simp: produce_partitions_def rbind_eq_Inr)
next
  case False
  with assms(1) have "check_null_keys ops df (t_partition_keys table) = Inr ()"
    by (auto simp: produce_partitions_def rbind_eq_Inr)
  with produce_partitions_groups [OF assms(1) False] hive_keys_distinct [OF assms(2,3)]
  show ?thesis by blast
qed

text \<open>Partitioning succeeds only when no partition key column holds a null, and every output
  then goes to the path built from its group's key values and holds that group without its key
  columns.\<close>

theorem partitions_of_groups:
  assumes "produce_partitions ops df mp table = Inr outs" and "t_partition_keys table \<noteq> []"
  shows "(\<forall>k \<in> set (t_partition_keys table). \<exists>c. df_column ops df k = Inr c \<and> col_null_count ops c = 0)
    \<and> (\<exists>groups. df_partition_by_stable ops df (t_partition_keys table) = Inr groups
        \<and> list_all2 (\<lambda>grp out. \<exists>vals. key_values ops (t_partition_keys table) grp vals
             \<and> po_key out = hive_key mp table vals
             \<and> df_parquet ops (df_drop_many ops grp (t_partition_keys table)) = Inr (po_bytes out))
             groups outs)"
proof -
  from assms have "check_null_keys ops df (t_partition_keys table) = Inr ()"
    by (auto simp: produce_partitions_def rbind_eq_Inr)
  moreover from produce_partitions_groups [OF assms] obtain groups where
    "df_partition_by_stable ops df (t_partition_keys table) = Inr groups"
    "list_all2 (\<lambda>g out. group_output ops mp table g = Inr out) groups outs" by blast
  ultimately show ?thesis
    by (auto simp: check_null_keys_Inr intro: list_all2_mono group_output_key)
qed

text \<open>Uploading either puts every partition and returns their keys in order, or stops at the
  first failure, which the error names; what comes after it is not attempted.\<close>

theorem upload_stops_at_failure:
  assumes "upload_partitions put u ps = (r, u')"
  shows "(\<exists>keys. r = Inr keys \<and> keys = map po_key ps \<and> puts_ok put u ps u')
    \<or> (\<exists>sent p rest u1 m. ps = sent @ p # rest \<and> puts_ok put u sent u1
         \<and> put u1 (po_key p) (po_bytes p) = (Inl m, u') \<and> r = Inl (PartitionUploadFailed (po_key p) m))"
  using assms upload_from_ok [of put u ps "[]"] upload_from_failed [of put u ps "[]"]
  by (cases r) (fastforce simp: upload_partitions_def)+

text \<open>Deduplication counts the rows it drops: what is left and what is dropped add up to the
  rows of the frame.\<close>

theorem dedup_counts:
  assumes "dedup_rows ops df table = Inr (df', dropped)" and "unique_laws ops"
  shows "df_height ops df' + dropped = df_height ops df"
  using assms by (auto simp: dedup_rows_def rbind_eq_Inr map_err_eq_Inr unique_laws_def usize_sub_def
      split: if_splits)

section \<open>Witnesses\<close>

lemma ingest_missing_columns_witness:
  "\<nexists>missing. ingest_file (\<lambda>s. s) demo_ops (demo_json_with (\<lambda>_ _. Inr [])) ''tx/1.csv'' ''b''
     (demo_config None) (demo_mapping None) Map.empty = Inr (Inl (MissingColumns ''tx/1.csv'' missing))"
proof -
  have src: "resolve_source_container ''tx/1.csv'' (demo_config None) = Inr demo_source"
    by (simp add: resolve_source_container_def demo_config_def) (simp add: demo_source_def)
  have csv: "sc_format demo_source = Csv" by (simp add: demo_source_def)
  have "csv_read demo_ops ''b'' = Inr [(''a'', [Some ''b''])]" by (simp add: demo_ops_def)
  from ingest_missing_columns [OF src csv this] show ?thesis
    by (simp add: demo_ops_def demo_source_def)
qed

lemma demo_partitions:
  "produce_partitions demo_ops [(''x'', [Some ''a'', Some ''b'', Some ''a''])] (demo_mapping None) demo_table
     = Inr [\<lparr>po_key = ''t/x=a/m.parquet'', po_bytes = ''PAR1''\<rparr>,
            \<lparr>po_key = ''t/x=b/m.parquet'', po_bytes = ''PAR1''\<rparr>]"
  by code_simp

lemma partition_keys_distinct_witness:
  "distinct [''t/x=a/m.parquet'', ''t/x=b/m.parquet'']"
  using partition_keys_distinct [OF demo_partitions demo_group_laws demo_date_laws] by simp

lemma partitions_of_groups_witness: "\<exists>c. demo_column [(''x'', [Some ''a'', Some ''b'', Some ''a''])] ''x'' = Inr c"
  using partitions_of_groups [OF demo_partitions] by (auto simp: demo_table_def demo_ops_def)

definition demo_put :: "nat Uploader" where
  "demo_put n key bytes = (if n = 0 then (Inl ''full'', 0) else (Inr (), n - 1))"

lemma upload_stops_at_failure_witness:
  "\<exists>sent. [\<lparr>po_key = ''a'', po_bytes = []\<rparr>, \<lparr>po_key = ''b'', po_bytes = []\<rparr>] = sent
     @ [\<lparr>po_key = ''b'', po_bytes = []\<rparr>] \<and> puts_ok demo_put 1 sent 0"
proof -
  have "upload_partitions demo_put 1 [\<lparr>po_key = ''a'', po_bytes = []\<rparr>, \<lparr>po_key = ''b'', po_bytes = []\<rparr>]
      = (Inl (PartitionUploadFailed ''b'' ''full''), 0)"
    by (simp add: upload_partitions_def demo_put_def)
  from upload_stops_at_failure [OF this] have "puts_ok demo_put 1 [\<lparr>po_key = ''a'', po_bytes = []\<rparr>] 0"
    by (auto simp: Cons_eq_append_conv demo_put_def puts_ok_Cons puts_ok_Nil)
  then show ?thesis by (metis append_Cons append_Nil)
qed

lemma dedup_counts_witness:
  "demo_height (demo_unique [(''x'', [Some ''a'', Some ''a''])] [''x'']) + 1 = 2"
proof -
  have "dedup_rows demo_ops [(''x'', [Some ''a'', Some ''a''])] demo_table
      = Inr (demo_unique [(''x'', [Some ''a'', Some ''a''])] [''x''], 1)"
    by code_simp
  from dedup_counts [OF this demo_unique_laws] show ?thesis
    by (simp add: demo_ops_def demo_height_def)
qed

end
