(* ===== verification/Job_Proofs.thy ===== *)
theory Job_Proofs
  imports Job Manifest_Proofs Pipeline_Proofs
begin

text \<open>
  Facts about a run: it returns, it writes only under its prefix in the warehouse bucket, a run
  that fails publishes nothing, a mapping that fails keeps its files, and what is uploaded is what
  the manifest lists.
\<close>

section \<open>Tasks\<close>

text \<open>
  \<open>R\<close> relates the world before and after. \<open>settles P m\<close>: the task returns, moves the world along
  \<open>R\<close>, and a value it returns meets \<open>P\<close>. \<open>fails_within m\<close>: when it returns an error, the world moved
  along \<open>R\<close>.
\<close>

locale effect =
  fixes R :: "'w \<Rightarrow> 'w \<Rightarrow> bool"
  assumes R_refl: "R w w"
    and R_trans: "R u v \<Longrightarrow> R v w \<Longrightarrow> R u w"
begin

definition settles :: "('a \<Rightarrow> bool) \<Rightarrow> ('w, 'e, 'a) task \<Rightarrow> bool" where
  "settles P m \<longleftrightarrow> (\<forall>w. \<exists>r w'. m w = Some (r, w') \<and> R w w' \<and> (\<forall>a. r = Inr a \<longrightarrow> P a))"

definition fails_within :: "('w, 'e, 'a) task \<Rightarrow> bool" where
  "fails_within m \<longleftrightarrow> (\<forall>w e w'. m w = Some (Inl e, w') \<longrightarrow> R w w')"

lemma settlesI:
  "(\<And>w. \<exists>r w'. m w = Some (r, w') \<and> R w w' \<and> (\<forall>a. r = Inr a \<longrightarrow> P a)) \<Longrightarrow> settles P m"
  by (simp add: settles_def)

lemma settlesD:
  "settles P m \<Longrightarrow> \<exists>r w'. m w = Some (r, w') \<and> R w w' \<and> (\<forall>a. r = Inr a \<longrightarrow> P a)"
  by (simp add: settles_def)

lemma settles_weaken: "settles P m \<Longrightarrow> (\<And>a. P a \<Longrightarrow> Q a) \<Longrightarrow> settles Q m"
  by (fastforce simp: settles_def)

lemma settles_and_then:
  assumes "settles P m" and "\<And>a. P a \<Longrightarrow> settles Q (f a)"
  shows "settles Q (and_then m f)"
proof (rule settlesI)
  fix w
  from settlesD [OF assms(1), of w] obtain r v where m: "m w = Some (r, v)" "R w v"
    "\<And>a. r = Inr a \<Longrightarrow> P a" by blast
  show "\<exists>r w'. and_then m f w = Some (r, w') \<and> R w w' \<and> (\<forall>a. r = Inr a \<longrightarrow> Q a)"
  proof (cases r)
    case (Inl e)
    with m show ?thesis by (simp add: and_then_def)
  next
    case (Inr a)
    with settlesD [OF assms(2), of a v] m show ?thesis
      by (auto simp: and_then_def intro: R_trans)
  qed
qed

lemma settles_result: "(\<And>a. r = Inr a \<Longrightarrow> P a) \<Longrightarrow> settles P (task_result r)"
  by (simp add: settles_def task_result_def R_refl)

lemma settles_call:
  assumes "\<And>w r w'. call w = (r, w') \<Longrightarrow> R w w'"
  shows "settles (\<lambda>_. True) (task_call f call)"
  by (rule settlesI) (auto simp: task_call_def split: prod.splits dest: assms)

lemma settles_try:
  assumes "\<And>w. \<exists>r w'. call w = Some (r, w') \<and> R w w'"
  shows "settles (\<lambda>_. True) (task_try call)"
proof (rule settlesI)
  fix w
  from assms [of w] show "\<exists>r w'. task_try call w = Some (r, w') \<and> R w w' \<and> (\<forall>a. r = Inr a \<longrightarrow> True)"
    by (auto simp: task_try_def)
qed

lemma settles_run:
  assumes "\<And>w r w'. act w = (r, w') \<Longrightarrow> R w w' \<and> P r"
  shows "settles P (task_run act)"
  by (rule settlesI) (auto simp: task_run_def split: prod.splits dest: assms)

lemma settles_mod: "(\<And>w. R w (f w)) \<Longrightarrow> settles (\<lambda>_. True) (task_mod f)"
  by (simp add: settles_def task_mod_def)

lemma settles_fails_within: "settles P m \<Longrightarrow> fails_within m"
  unfolding settles_def fails_within_def by (metis Pair_inject option.inject)

lemma fails_within_and_then:
  assumes "settles P m" and "\<And>a. P a \<Longrightarrow> fails_within (f a)"
  shows "fails_within (and_then m f)"
  unfolding fails_within_def
proof (intro allI impI)
  fix w e w'
  assume run: "and_then m f w = Some (Inl e, w')"
  from settlesD [OF assms(1), of w] obtain r v where m: "m w = Some (r, v)" "R w v"
    "\<And>a. r = Inr a \<Longrightarrow> P a" by blast
  show "R w w'"
  proof (cases r)
    case (Inl x)
    with m run show ?thesis by (simp add: and_then_def)
  next
    case (Inr a)
    with m run have "f a v = Some (Inl e, w')" by (simp add: and_then_def)
    with assms(2) [of a] m(2,3) Inr show ?thesis by (auto simp: fails_within_def intro: R_trans)
  qed
qed

end

text \<open>Only objects of one bucket whose key satisfies \<open>K\<close> change.\<close>

definition confined :: "('w \<Rightarrow> Object \<rightharpoonup> string) \<Rightarrow> string \<Rightarrow> (string \<Rightarrow> bool) \<Rightarrow> 'w \<Rightarrow> 'w \<Rightarrow> bool" where
  "confined obj bucket K w w' \<longleftrightarrow>
     (\<forall>b k. obj w' (b, k) \<noteq> obj w (b, k) \<longrightarrow> b = bucket \<and> K k)"

interpretation confined: effect "confined obj bucket K" for obj bucket K
proof
  show "confined obj bucket K w w" for w by (simp add: confined_def)
  show "confined obj bucket K u w" if "confined obj bucket K u v" "confined obj bucket K v w" for u v w
    using that unfolding confined_def by metis
qed

lemma confined_same: "obj w' = obj w \<Longrightarrow> confined obj bucket K w w'"
  by (simp add: confined_def)

lemma confined_mono: "confined obj bucket K w w' \<Longrightarrow> (\<And>k. K k \<Longrightarrow> L k) \<Longrightarrow> confined obj bucket L w w'"
  unfolding confined_def by blast

lemma confined_trans:
  "confined obj bucket K u v \<Longrightarrow> confined obj bucket K v w \<Longrightarrow> confined obj bucket K u w"
  by (rule confined.R_trans)

section \<open>The world of a run\<close>

text \<open>The documented behaviour a run relies on: the store's laws, and that reading the database,
  loading the flag and reporting progress leave the objects alone. A hash map's iteration visits
  its entries.\<close>

definition job_laws ::
  "('w, 'df, 'lf, 'col, 'n) JobOps \<Rightarrow> ('w \<Rightarrow> Object \<rightharpoonup> string) \<Rightarrow> bool" where
  "job_laws jb obj \<longleftrightarrow>
     s3_laws (jb_s3 jb) obj
     \<and> (\<forall>w q ps r w'. pg_fetch_json (jb_pg jb) w q ps = (r, w') \<longrightarrow> obj w' = obj w)
     \<and> (\<forall>w q ps r w'. pg_fetch_int (jb_pg jb) w q ps = (r, w') \<longrightarrow> obj w' = obj w)
     \<and> (\<forall>w c w'. jb_cancel jb w = (c, w') \<longrightarrow> obj w' = obj w)
     \<and> (\<forall>p w. obj (jb_progress jb p w) = obj w)
     \<and> (\<forall>ps. set (jb_order jb ps) = set ps)"

lemma job_lawsD:
  assumes "job_laws jb obj"
  shows "s3_laws (jb_s3 jb) obj"
    and "pg_fetch_json (jb_pg jb) w q ps = (r, w') \<Longrightarrow> obj w' = obj w"
    and "pg_fetch_int (jb_pg jb) w q ps = (s, w') \<Longrightarrow> obj w' = obj w"
    and "jb_cancel jb w = (c, w') \<Longrightarrow> obj w' = obj w"
    and "obj (jb_progress jb p w) = obj w"
    and "set (jb_order jb es) = set es"
  using assms unfolding job_laws_def by blast+

lemma read_current_same:
  assumes "s3_laws s3 obj" and "read_current s3 js w b p = (r, w')"
  shows "obj w' = obj w"
proof -
  obtain q u where g: "get_bytes s3 w b (p @ CURRENT_KEY) = (q, u)" by fastforce
  have u: "obj u = obj w" using get_bytes_ok(1) [OF assms(1) g] .
  show ?thesis
  proof (cases "\<exists>ptr v. q = Inr ptr \<and> dec_pointer js ptr = Inr v")
    case True
    then obtain ptr v where "q = Inr ptr" "dec_pointer js ptr = Inr v" by blast
    with g assms(2) have "read_version s3 js u b p v = (r, w')" by (simp add: read_current_def)
    with read_version_result [OF assms(1)] u show ?thesis by metis
  next
    case False
    with g assms(2) u show ?thesis by (auto simp: read_current_def split: sum.splits)
  qed
qed

lemma list_keys_same:
  assumes "s3_laws s3 obj"
  shows "\<exists>r w'. list_keys s3 w b p = Some (r, w') \<and> obj w' = obj w"
  using list_keys_ok [OF assms] by blast

text \<open>The reading steps, for any bucket and keys.\<close>

lemma resolve_version_settles:
  assumes "job_laws jb obj"
  shows "confined.settles obj bucket K (\<lambda>_. True) (resolve_version jb pipeline v)"
proof (cases v)
  case None
  show ?thesis unfolding resolve_version_def None option.case
    by (intro confined.settles_and_then [OF confined.settles_call] confined.settles_result)
      (auto simp: current_version_for_def intro: confined_same dest: job_lawsD(3) [OF assms])
qed (simp add: resolve_version_def confined.settles_result)

lemma load_config_settles:
  assumes "job_laws jb obj"
  shows "confined.settles obj bucket K (\<lambda>cfg. validate cfg = Inr ()) (load_config jb v)"
  unfolding load_config_def
  by (intro confined.settles_and_then [OF confined.settles_call] confined.settles_result)
    (auto simp: config_for_version_def result_simps intro: confined_same dest: job_lawsD(2) [OF assms])

lemma check_cancel_settles:
  assumes "job_laws jb obj"
  shows "confined.settles obj bucket K (\<lambda>_. True) (check_cancel jb)"
  unfolding check_cancel_def
  by (intro confined.settles_and_then [where P = "\<lambda>_. True"] confined.settles_run confined.settles_result)
    (auto intro: confined_same dest: job_lawsD(4) [OF assms])

lemma progress_settles:
  assumes "job_laws jb obj"
  shows "confined.settles obj bucket K (\<lambda>_. True) (task_mod (jb_progress jb p))"
  by (intro confined.settles_mod confined_same job_lawsD(5) [OF assms])

lemma list_settles:
  assumes "job_laws jb obj"
  shows "confined.settles obj bucket K (\<lambda>_. True) (task_try (\<lambda>w. list_keys (jb_s3 jb) w b p))"
  using list_keys_same [OF job_lawsD(1) [OF assms]]
  by (intro confined.settles_try) (blast intro: confined_same)

lemma collect_keys_settles:
  assumes "job_laws jb obj"
  shows "confined.settles obj bucket K (\<lambda>_. True) (collect_keys jb ctx scs candidates)"
proof (induction scs arbitrary: candidates)
  case (Cons sc scs)
  show ?case unfolding collect_keys.simps
    by (rule confined.settles_and_then [OF list_settles [OF assms] Cons.IH])
qed (simp add: confined.settles_result)

lemma download_settles:
  assumes "job_laws jb obj"
  shows "confined.settles obj bucket K (\<lambda>_. True) (download jb ctx n so_far keys files)"
proof (induction keys arbitrary: so_far files)
  case (Cons key keys)
  show ?case unfolding download.simps
    by (intro confined.settles_and_then [OF check_cancel_settles [OF assms]]
        confined.settles_and_then [OF confined.settles_run [where P = "\<lambda>_. True"]]
        confined.settles_and_then [OF progress_settles [OF assms]] Cons.IH)
      (auto intro: confined_same dest: get_bytes_ok(1) [OF job_lawsD(1) [OF assms]])
qed (simp add: confined.settles_result)

lemma file_rows_settles:
  assumes "job_laws jb obj"
  shows "confined.settles obj bucket K (\<lambda>_. True) (file_rows jb ctx dim key values prio ks rows)"
proof (induction ks arbitrary: rows)
  case (Cons k ks)
  show ?case unfolding file_rows.simps
    by (intro confined.settles_and_then [OF confined.settles_call]
        confined.settles_and_then [OF confined.settles_result [where P = "\<lambda>_. True"]] Cons.IH)
      (auto intro: confined_same dest: get_bytes_ok(1) [OF job_lawsD(1) [OF assms]])
qed (simp add: confined.settles_result)

lemma load_dimensions_settles:
  assumes "job_laws jb obj"
  shows "confined.settles obj bucket K (\<lambda>_. True) (load_dimensions jb ctx dims matchers)"
proof (induction dims arbitrary: matchers)
  case (Cons dim dims)
  show ?case
  proof (cases "d_rows dim")
    case (Inline vs irs)
    with Cons.IH show ?thesis by simp
  next
    case (File pathp key vals prio)
    show ?thesis unfolding load_dimensions.simps File DimensionRows.simps
      by (intro confined.settles_and_then [OF list_settles [OF assms]]
          confined.settles_and_then [OF confined.settles_result [where P = "\<lambda>_. True"]]
          confined.settles_and_then [OF file_rows_settles [OF assms]] Cons.IH) simp_all
  qed
qed (simp add: confined.settles_result)

lemma build_matchers_settles:
  assumes "job_laws jb obj"
  shows "confined.settles obj bucket K (\<lambda>_. True) (build_matchers jb ctx cfg)"
  unfolding build_matchers_def
  by (intro confined.settles_and_then [OF confined.settles_result [where P = "\<lambda>_. True"]]
      load_dimensions_settles [OF assms]) simp

section \<open>Uploads\<close>

lemma split_once_Some:
  "split_once c s = Some (a, rest) \<longleftrightarrow> s = a @ c # rest \<and> c \<notin> set a"
proof
  assume split: "split_once c s = Some (a, rest)"
  then obtain x where d: "dropWhile (\<lambda>x. x \<noteq> c) s = x # rest" and a: "a = takeWhile (\<lambda>x. x \<noteq> c) s"
    by (auto simp: split_once_def split: list.splits)
  then have "x = c" by (metis (full_types) hd_dropWhile list.distinct(1) list.sel(1))
  with d a show "s = a @ c # rest \<and> c \<notin> set a"
    by (metis (full_types) set_takeWhileD takeWhile_dropWhile_id)
next
  assume "s = a @ c # rest \<and> c \<notin> set a"
  then have "dropWhile (\<lambda>x. x \<noteq> c) s = c # rest" "takeWhile (\<lambda>x. x \<noteq> c) s = a"
    by (auto simp: dropWhile_append takeWhile_append)
  then show "split_once c s = Some (a, rest)" by (simp add: split_once_def)
qed

lemma suffix_after_sep:
  assumes "suffix q (a @ c # rest)" and "c \<notin> set q"
  shows "suffix q rest"
  using assms by (auto simp: suffix_append suffix_Cons)

definition parquet_keys :: "PartitionOutput list \<Rightarrow> bool" where
  "parquet_keys ps \<longleftrightarrow> (\<forall>p \<in> set ps. suffix ''.parquet'' (po_key p))"

lemma produce_partitions_parquet:
  "produce_partitions ops df mapping table = Inr ps \<Longrightarrow> parquet_keys ps"
proof -
  assume ps: "produce_partitions ops df mapping table = Inr ps"
  have one: "suffix ''.parquet'' (po_key p)" if "group_output ops mapping table grp = Inr p" for grp p
    using that by (auto simp: group_output_def result_simps suffix_def)
  show ?thesis
  proof (cases "t_partition_keys table = []")
    case True
    with ps show ?thesis
      by (auto simp: produce_partitions_def parquet_keys_def unpartitioned_key_def result_simps suffix_def)
  next
    case False
    with ps obtain groups where "collect_results (group_output ops mapping table) groups = Inr ps"
      by (auto simp: produce_partitions_def result_simps)
    then have "list_all2 (\<lambda>g p. group_output ops mapping table g = Inr p) groups ps"
      by (simp add: collect_results_Inr)
    then show ?thesis unfolding parquet_keys_def
      by (induction rule: list_all2_induct) (auto dest: one)
  qed
qed

lemma mapping_task_parquet:
  assumes "mapping_task jb cfg matchers mid tid files = Inr (Inr (ps, d))"
  shows "parquet_keys ps"
proof -
  from assms obtain mapping df where "finish_frame jb cfg mapping tid df = Inr (ps, d)"
    by (auto simp: mapping_task_def result_simps split: option.splits)
  then show ?thesis
    by (auto simp: finish_frame_def Let_def result_simps dest: produce_partitions_parquet split: if_splits)
qed

text \<open>The keys a run's data objects may have.\<close>

definition data_key :: "string \<Rightarrow> string \<Rightarrow> bool" where
  "data_key pre k \<longleftrightarrow> starts_with k pre \<and> ends_with k ''.parquet''"

lemma upload_confined:
  assumes "s3_laws s3 obj" and "parquet_keys ps"
    and "upload_partitions_async s3 bucket pre version mid ps written w = (r, w')"
  shows "confined obj bucket (data_key pre) w w'"
  using assms(2,3)
proof (induction ps arbitrary: written w)
  case Nil
  then show ?case by (simp add: confined.R_refl)
next
  case (Cons p ps)
  show ?case
  proof (cases "split_once (CHR ''/'') (po_key p)")
    case None
    with Cons.prems show ?thesis by (simp add: confined.R_refl)
  next
    case (Some s)
    obtain a rest where s: "s = (a, rest)" by (cases s)
    let ?full = "pre @ a @ ''/'' @ version_prefix version @ rest"
    from Some s have "po_key p = a @ CHR ''/'' # rest" by (simp add: split_once_Some)
    moreover from Cons.prems(1) have "suffix ''.parquet'' (po_key p)" by (simp add: parquet_keys_def)
    ultimately have "suffix ''.parquet'' rest" using suffix_after_sep [of "''.parquet''" a "CHR ''/''" rest] by simp
    then have full: "data_key pre ?full" unfolding data_key_def
      by (auto simp: suffix_def)
    obtain q u where q: "put_object s3 w bucket ?full (po_bytes p) = (q, u)" by fastforce
    from s3_put [OF assms(1) q] full have one: "confined obj bucket (data_key pre) w u"
      by (auto simp: confined_def split: if_splits)
    show ?thesis
    proof (cases q)
      case (Inl e)
      with Cons.prems Some s q one show ?thesis by (simp add: Let_def)
    next
      case (Inr x)
      from Cons.prems(1) have "parquet_keys ps" by (simp add: parquet_keys_def)
      with Cons.IH [of _ u] Cons.prems(2) Some s q Inr have "confined obj bucket (data_key pre) u w'"
        by (simp add: Let_def)
      with one show ?thesis by (rule confined_trans)
    qed
  qed
qed

section \<open>Publish state\<close>

definition publishes_under :: "string \<Rightarrow> Publishes \<Rightarrow> bool" where
  "publishes_under pre ps \<longleftrightarrow> (\<forall>x \<in> set ps. starts_with (tp_prefix (snd x)) pre)"

lemma update_all:
  "\<forall>x \<in> set ps. Q x \<Longrightarrow> Q (k, v) \<Longrightarrow> \<forall>x \<in> set (AList.update k v ps). Q x"
  by (induction ps) auto

lemma publishes_under_update:
  "publishes_under pre ps \<Longrightarrow> starts_with (tp_prefix v) pre \<Longrightarrow> publishes_under pre (AList.update k v ps)"
  unfolding publishes_under_def by (rule update_all) auto

lemma init_publishes_settles:
  assumes "job_laws jb obj" and "publishes_under pre ps"
  shows "confined.settles obj bucket K (publishes_under pre) (init_publishes jb ctx pre clean tables ps)"
  using assms(2)
proof (induction tables arbitrary: ps)
  case Nil
  then show ?case by (auto intro: confined.settles_result)
next
  case (Cons table tables)
  have "publishes_under pre (AList.update (t_id table) (table_publish (pre @ t_id table @ ''/'') clean m) ps)" for m
    using Cons.prems by (intro publishes_under_update) (simp_all add: table_publish_def)
  then show ?case unfolding init_publishes.simps Let_def
    by (intro confined.settles_and_then [OF confined.settles_call] Cons.IH)
      (auto intro: confined_same dest: read_current_same [OF job_lawsD(1) [OF assms(1)]])
qed

section \<open>Mappings\<close>

lemma upload_mapping_confined:
  assumes "job_laws jb obj" and "parquet_keys parts" and "publishes_under pre (rs_publishes st)"
    and "upload_mapping jb ctx pre mapping (parts, d) st w = (st', w')"
  shows "confined obj (jc_warehouse_bucket ctx) (data_key pre) w w' \<and> publishes_under pre (rs_publishes st')"
proof (cases "map_of (rs_publishes st) (m_analytic_table_id mapping)")
  case None
  with assms(3,4) show ?thesis
    by (auto simp: upload_mapping_def Let_def push_error_def confined.R_refl)
next
  case (Some entry)
  then have entry: "starts_with (tp_prefix entry) pre"
    using assms(3) by (auto simp: publishes_under_def dest!: map_of_SomeD)
  obtain r u where up: "upload_partitions_async (jb_s3 jb) (jc_warehouse_bucket ctx) pre (tp_version entry)
      (m_id mapping) parts [] w = (r, u)" by fastforce
  note c = upload_confined [OF job_lawsD(1) [OF assms(1)] assms(2) up]
  show ?thesis
  proof (cases r)
    case (Inl e)
    with assms(3,4) Some up c show ?thesis by (auto simp: upload_mapping_def Let_def push_error_def)
  next
    case (Inr written)
    with assms(3,4) Some up c entry show ?thesis
      by (auto simp: upload_mapping_def Let_def record_writes_def intro!: publishes_under_update)
  qed
qed

lemma run_mapping_confined:
  assumes "job_laws jb obj" and "publishes_under pre (rs_publishes st)"
    and "run_mapping jb ctx pre cfg matchers all_files mapping st w = (st', w')"
  shows "confined obj (jc_warehouse_bucket ctx) (data_key pre) w w' \<and> publishes_under pre (rs_publishes st')"
proof -
  have skip: "confined obj (jc_warehouse_bucket ctx) (data_key pre) w w" by (rule confined.R_refl)
  show ?thesis
  proof (cases "\<exists>parts d files. mapping_task jb cfg matchers (m_id mapping) (m_analytic_table_id mapping) files
      = Inr (Inr (parts, d)) \<and> upload_mapping jb ctx pre mapping (parts, d) st w = (st', w')")
    case True
    then show ?thesis using upload_mapping_confined [OF assms(1) _ assms(2)] mapping_task_parquet by blast
  next
    case False
    with assms(3) have "w' = w \<and> rs_publishes st' = rs_publishes st"
      by (auto simp: run_mapping_def Let_def push_error_def split: option.splits sum.splits if_splits prod.splits)
    with assms(2) skip show ?thesis by simp
  qed
qed

text \<open>What every mapping keeps holds after the loop.\<close>

lemma run_mappings_invariant:
  assumes "job_laws jb obj" and "I st"
    and "\<And>m st w st' w'. I st \<Longrightarrow> run_mapping jb ctx pre cfg matchers all_files m st w = (st', w')
      \<Longrightarrow> confined obj bucket K w w' \<and> I st'"
  shows "confined.settles obj bucket K I (run_mappings jb ctx pre cfg matchers all_files idx ms st)"
  using assms(2)
proof (induction ms arbitrary: idx st)
  case Nil
  then show ?case by (auto intro: confined.settles_result)
next
  case (Cons m ms)
  have "confined.settles obj bucket K I (task_run (run_mapping jb ctx pre cfg matchers all_files m st))"
    by (rule confined.settles_run) (rule assms(3) [OF Cons.prems])
  then show ?case unfolding run_mappings.simps
    by (intro confined.settles_and_then [OF check_cancel_settles [OF assms(1)]]
        confined.settles_and_then [OF progress_settles [OF assms(1)]]
        confined.settles_and_then [where P = I] Cons.IH)
qed

lemma run_mappings_settles:
  assumes "job_laws jb obj" and "publishes_under pre (rs_publishes st)"
  shows "confined.settles obj (jc_warehouse_bucket ctx) (data_key pre) (\<lambda>st'. publishes_under pre (rs_publishes st'))
    (run_mappings jb ctx pre cfg matchers all_files idx ms st)"
  by (rule run_mappings_invariant [OF assms(1), where I = "\<lambda>st. publishes_under pre (rs_publishes st)"])
    (rule assms(2), rule run_mapping_confined [OF assms(1)])

section \<open>Publishing\<close>

lemma put_document_confined:
  assumes "s3_laws s3 obj" and "put_document s3 w b k body = (r, w')" and "K k"
  shows "confined obj b K w w'"
  using put_document_result [OF assms(1,2)] assms(3) by (auto simp: confined_def split: if_splits)

lemma publish_confined:
  assumes "s3_laws s3 obj" and "publish s3 js w b p m = (r, w')"
  shows "confined obj b (\<lambda>k. starts_with k p) w w'"
proof (cases "enc_manifest js m")
  case (Inl e)
  with assms(2) show ?thesis by (auto simp: publish_def confined.R_refl)
next
  case (Inr body)
  obtain r1 w1 where p1: "put_document s3 w b (p @ manifest_key (tm_version m)) body = (r1, w1)"
    by fastforce
  have c1: "confined obj b (\<lambda>k. starts_with k p) w w1"
    by (rule put_document_confined [OF assms(1) p1]) simp
  have "confined obj b (\<lambda>k. starts_with k p) w1 w'"
  proof (cases "w' = w1")
    case False
    with assms(2) Inr p1 obtain ptr where "put_document s3 w1 b (p @ CURRENT_KEY) ptr = (r, w')"
      by (auto simp: publish_def split: sum.splits)
    then show ?thesis by (rule put_document_confined [OF assms(1)]) simp
  qed (simp add: confined.R_refl)
  with c1 show ?thesis by (rule confined_trans)
qed

lemma vacuum_confined:
  assumes "s3_laws s3 obj"
  shows "\<exists>r w'. vacuum s3 js w b p current = Some (r, w') \<and> confined obj b (\<lambda>k. starts_with k p) w w'"
proof -
  obtain q w1 where list: "list_keys s3 w b p = Some (q, w1)" "obj w1 = obj w"
    using list_keys_ok [OF assms, of w b p] by blast
  show ?thesis
  proof (cases q)
    case (Inl e)
    with list show ?thesis by (simp add: vacuum_def confined_same)
  next
    case (Inr all)
    let ?rel = "List.map_filter (strip_prefix p) all"
    let ?vs = "List.map_filter manifest_version ?rel"
    let ?doomed = "versions_to_drop ?vs current RETAINED_VERSIONS"
    obtain s w2 where rr: "read_retained s3 js w1 b p
        (filter (\<lambda>u. u \<notin> set ?doomed \<and> u \<le> current) ?vs) [] = (s, w2)" by fastforce
    have w2: "obj w2 = obj w" using read_retained_result [OF assms rr] list(2) by simp
    show ?thesis
    proof (cases s)
      case (Inl e)
      with list Inr rr w2 show ?thesis by (simp add: vacuum_def Let_def confined_same)
    next
      case (Inr ms)
      obtain d w3 where del: "delete_all s3 w2 b p
          (unreferenced_keys ms ?rel @ map manifest_key ?doomed) 0 = (d, w3)" by fastforce
      have "confined obj b (\<lambda>k. starts_with k p) w w3" unfolding confined_def
      proof (intro allI impI)
        fix x k
        assume "obj w3 (x, k) \<noteq> obj w (x, k)"
        with delete_all_result [OF assms del] w2 have "(x, k) \<in> (\<lambda>k. (b, p @ k)) `
          set (unreferenced_keys ms ?rel @ map manifest_key ?doomed)" by metis
        then show "x = b \<and> starts_with k p" by auto
      qed
      with list \<open>q = Inr all\<close> rr Inr del show ?thesis by (simp add: vacuum_def Let_def)
    qed
  qed
qed

lemma publish_tables_settles:
  assumes "job_laws jb obj" and "publishes_under pre ps"
  shows "confined.settles obj (jc_warehouse_bucket ctx) (\<lambda>k. starts_with k pre) (\<lambda>_. True)
    (publish_tables jb ctx ps errors)"
  using assms(2)
proof (induction ps arbitrary: errors)
  case Nil
  then show ?case by (simp add: confined.settles_result)
next
  case (Cons x ps)
  obtain t p where x: "x = (t, p)" by (cases x)
  let ?K = "\<lambda>k. starts_with k pre"
  from Cons.prems x have pre: "starts_with (tp_prefix p) pre" and ps: "publishes_under pre ps"
    by (auto simp: publishes_under_def)
  have sub: "confined obj b ?K u v" if "confined obj b (\<lambda>k. starts_with k (tp_prefix p)) u v" for b u v
    using that pre by (rule confined_mono [OF _ prefix_order.trans]) simp
  note laws = job_lawsD(1) [OF assms(1)]
  have pub: "confined.settles obj (jc_warehouse_bucket ctx) ?K (\<lambda>_. True)
      (task_run (\<lambda>w. publish (jb_s3 jb) (jb_js jb) w (jc_warehouse_bucket ctx) (tp_prefix p) (m w)))" for m
    by (intro confined.settles_run conjI TrueI sub) (rule publish_confined [OF laws])
  have vac: "confined.settles obj (jc_warehouse_bucket ctx) ?K (\<lambda>_. True)
      (task_try (\<lambda>w. vacuum (jb_s3 jb) (jb_js jb) w (jc_warehouse_bucket ctx) (tp_prefix p) (tp_version p)))"
    using vacuum_confined [OF laws] by (intro confined.settles_try) (blast intro: sub)
  have step: "confined.settles obj (jc_warehouse_bucket ctx) ?K (\<lambda>_. True)
     (case r of Inl e \<Rightarrow> publish_tables jb ctx ps (errors @ [''publish '' @ t @ '': '' @ e])
      | Inr _ \<Rightarrow> and_then (task_try (\<lambda>w. vacuum (jb_s3 jb) (jb_js jb) w (jc_warehouse_bucket ctx)
                          (tp_prefix p) (tp_version p))) (\<lambda>_. publish_tables jb ctx ps errors))"
    for r :: "string + unit"
    using Cons.IH [OF ps] confined.settles_and_then [OF vac Cons.IH [OF ps]] by (cases r) simp_all
  show ?case
  proof (cases "tp_touched p")
    case True
    show ?thesis unfolding x publish_tables.simps using True
      by (simp only: not_True_eq_False if_False) (rule confined.settles_and_then [OF pub step])
  next
    case False
    with Cons.IH [OF ps] show ?thesis by (simp add: x)
  qed
qed

text \<open>Publishing reports its failures as messages, never as an error of the run.\<close>

lemma publish_tables_never_fails: "publish_tables jb ctx ps errors w \<noteq> Some (Inl e, w')"
proof (induction ps arbitrary: errors w)
  case Nil
  then show ?case by (simp add: task_result_def)
next
  case (Cons x ps)
  then show ?case
    by (cases x) (auto simp: and_then_def task_run_def task_try_def split: prod.splits sum.splits option.splits)
qed

section \<open>The run\<close>

text \<open>Everything before publishing, and publishing.\<close>

definition prepare_run ::
  "('w, 'df, 'lf, 'col, 'n) JobOps \<Rightarrow> JobContext \<Rightarrow> string \<Rightarrow> bool \<Rightarrow> PipelineConfig
    \<Rightarrow> ('w, JobError, (string \<times> string) list \<times> RunState) task" where
  "prepare_run jb ctx pre clean_run cfg =
     and_then (init_publishes jb ctx pre clean_run (cfg_analytic_tables cfg) []) (\<lambda>publishes.
     and_then (task_mod (jb_progress jb (Downloading 0 0))) (\<lambda>_.
     and_then (collect_keys jb ctx (cfg_source_containers cfg) []) (\<lambda>candidates.
     and_then (download jb ctx (length candidates) 0 candidates []) (\<lambda>all_files.
     and_then (task_result (if all_files = [] then Inl NoFiles else Inr ())) (\<lambda>_.
     and_then (build_matchers jb ctx cfg) (\<lambda>matchers.
     and_then (run_mappings jb ctx pre cfg matchers all_files 0 (cfg_mappings cfg)
                \<lparr>rs_publishes = publishes, rs_partitions = 0, rs_deduped = 0, rs_errors = []\<rparr>) (\<lambda>st.
     task_result (Inr (all_files, st)))))))))"

definition conclude_run ::
  "('w, 'df, 'lf, 'col, 'n) JobOps \<Rightarrow> JobContext \<Rightarrow> PipelineConfig \<Rightarrow> (string \<times> string) list \<times> RunState
    \<Rightarrow> ('w, JobError, JobOutcome) task" where
  "conclude_run jb ctx cfg = (\<lambda>(all_files, st).
     and_then (publish_tables jb ctx (jb_order jb (rs_publishes st)) (rs_errors st)) (\<lambda>errors.
     and_then (task_mod (jb_progress jb (Ingesting (length (cfg_mappings cfg)) (length (cfg_mappings cfg))
                (rs_partitions st)))) (\<lambda>_.
     task_result (Inr \<lparr>jo_partitions_written = rs_partitions st, jo_files_processed = length all_files,
       jo_rows_deduped = rs_deduped st, jo_errors = errors\<rparr>))))"

lemma and_then_assoc: "and_then (and_then m f) g = and_then m (\<lambda>a. and_then (f a) g)"
  by (rule ext) (auto simp: and_then_def split: option.splits sum.splits prod.splits)

lemma and_then_result: "and_then (task_result (Inr a)) f = f a"
  by (rule ext) (simp add: and_then_def task_result_def)

lemma run_config_split:
  "run_config jb ctx pre clean_run cfg = and_then (prepare_run jb ctx pre clean_run cfg) (conclude_run jb ctx cfg)"
  by (simp add: run_config_def prepare_run_def conclude_run_def and_then_assoc and_then_result)

lemma prepare_run_settles:
  assumes "job_laws jb obj"
  shows "confined.settles obj (jc_warehouse_bucket ctx) (data_key pre)
    (\<lambda>(files, st). publishes_under pre (rs_publishes st)) (prepare_run jb ctx pre clean_run cfg)"
  unfolding prepare_run_def
  by (intro confined.settles_and_then [OF init_publishes_settles [OF assms]]
      confined.settles_and_then [OF progress_settles [OF assms]]
      confined.settles_and_then [OF collect_keys_settles [OF assms]]
      confined.settles_and_then [OF download_settles [OF assms]]
      confined.settles_and_then [OF confined.settles_result [where P = "\<lambda>_. True"]]
      confined.settles_and_then [OF build_matchers_settles [OF assms]]
      confined.settles_and_then [OF run_mappings_settles [OF assms]] confined.settles_result)
    (auto simp: publishes_under_def)

lemma conclude_run_settles:
  assumes "job_laws jb obj" and "publishes_under pre (rs_publishes st)"
  shows "confined.settles obj (jc_warehouse_bucket ctx) (\<lambda>k. starts_with k pre) (\<lambda>_. True)
    (conclude_run jb ctx cfg (files, st))"
proof -
  from assms have "publishes_under pre (jb_order jb (rs_publishes st))"
    by (simp add: publishes_under_def job_lawsD(6))
  then show ?thesis unfolding conclude_run_def prod.case
    by (intro confined.settles_and_then [OF publish_tables_settles [OF assms(1)]]
        confined.settles_and_then [OF progress_settles [OF assms(1)]] confined.settles_result) simp_all
qed

lemma conclude_run_never_fails: "conclude_run jb ctx cfg x w \<noteq> Some (Inl e, w')"
  by (cases x) (auto simp: conclude_run_def and_then_def task_mod_def task_result_def
      publish_tables_never_fails split: option.splits sum.splits)

lemma settles_mono:
  assumes "confined.settles obj b K P m" and "\<And>k. K k \<Longrightarrow> L k"
  shows "confined.settles obj b L P m"
proof (rule confined.settlesI)
  fix w
  from confined.settlesD [OF assms(1), of w] obtain r w' where
    "m w = Some (r, w')" "confined obj b K w w'" "\<forall>a. r = Inr a \<longrightarrow> P a" by blast
  moreover from this(2) assms(2) have "confined obj b L w w'" by (rule confined_mono)
  ultimately show "\<exists>r w'. m w = Some (r, w') \<and> confined obj b L w w' \<and> (\<forall>a. r = Inr a \<longrightarrow> P a)"
    by blast
qed

lemma execute_job_settles:
  assumes "job_laws jb obj"
  shows "confined.settles obj (jc_warehouse_bucket ctx) (\<lambda>k. starts_with k pre) (\<lambda>_. True)
    (execute_job jb ctx pre pipeline v clean_run)"
proof -
  have prep: "confined.settles obj (jc_warehouse_bucket ctx) (\<lambda>k. starts_with k pre)
      (\<lambda>(files, st). publishes_under pre (rs_publishes st)) (prepare_run jb ctx pre clean_run cfg)" for cfg
    by (rule settles_mono [OF prepare_run_settles [OF assms]]) (simp add: data_key_def)
  have run: "confined.settles obj (jc_warehouse_bucket ctx) (\<lambda>k. starts_with k pre) (\<lambda>_. True)
      (run_config jb ctx pre clean_run cfg)" for cfg
    unfolding run_config_split
    by (rule confined.settles_and_then [OF prep]) (auto intro: conclude_run_settles [OF assms])
  show ?thesis unfolding execute_job_def
    by (intro confined.settles_and_then [OF resolve_version_settles [OF assms]]
        confined.settles_and_then [OF load_config_settles [OF assms]] run)
qed

lemma execute_job_fails_within:
  assumes "job_laws jb obj"
  shows "confined.fails_within obj (jc_warehouse_bucket ctx) (data_key pre)
    (execute_job jb ctx pre pipeline v clean_run)"
proof -
  have run: "confined.fails_within obj (jc_warehouse_bucket ctx) (data_key pre)
      (run_config jb ctx pre clean_run cfg)" for cfg
    unfolding run_config_split
    by (rule confined.fails_within_and_then [OF prepare_run_settles [OF assms]])
      (simp add: confined.fails_within_def conclude_run_never_fails)
  show ?thesis unfolding execute_job_def
    by (intro confined.fails_within_and_then [OF resolve_version_settles [OF assms]]
        confined.fails_within_and_then [OF load_config_settles [OF assms]] run)
qed

section \<open>File lists of a run\<close>

definition files_of :: "string \<Rightarrow> ManifestFile list \<Rightarrow> ManifestFile multiset" where
  "files_of mid fs = filter_mset (\<lambda>f. mf_mapping_id f = mid) (mset fs)"

text \<open>How a run changes a table's entry: its prefix and version stay; each mapping's files are what
  they were, or all lie in the directory of the new version.\<close>

definition progressed :: "TablePublish \<Rightarrow> TablePublish \<Rightarrow> bool" where
  "progressed p p' \<longleftrightarrow>
     tp_prefix p' = tp_prefix p \<and> tp_version p' = tp_version p \<and> (tp_touched p \<longrightarrow> tp_touched p')
     \<and> (\<forall>mid. files_of mid (tp_files p') = files_of mid (tp_files p)
          \<or> (\<forall>f \<in># files_of mid (tp_files p'). starts_with (mf_key f) (version_prefix (tp_version p))))
     \<and> (\<not> tp_touched p' \<longrightarrow> p' = p)"

lemma progressed_refl: "progressed p p"
  by (simp add: progressed_def)

lemma progressed_trans: "progressed p q \<Longrightarrow> progressed q r \<Longrightarrow> progressed p r"
  unfolding progressed_def by metis

lemma upload_lists:
  assumes "upload_partitions_async s3 bucket pre version mid ps written w = (Inr out, w')"
    and "\<forall>f \<in> set written. mf_mapping_id f = mid \<and> starts_with (mf_key f) (version_prefix version)"
  shows "\<forall>f \<in> set out. mf_mapping_id f = mid \<and> starts_with (mf_key f) (version_prefix version)"
  using assms
proof (induction ps arbitrary: written w)
  case (Cons p ps)
  show ?case
  proof (cases "split_once (CHR ''/'') (po_key p)")
    case None
    with Cons.prems show ?thesis by simp
  next
    case (Some s)
    obtain a rest where s: "s = (a, rest)" by (cases s)
    obtain q u where q: "put_object s3 w bucket (pre @ a @ ''/'' @ version_prefix version @ rest) (po_bytes p) = (q, u)"
      by fastforce
    with Cons.prems(1) Some s obtain x where x: "q = Inr x" by (cases q) (auto simp: Let_def)
    let ?f = "\<lparr>mf_key = version_prefix version @ rest, mf_mapping_id = mid, mf_bytes = length (po_bytes p)\<rparr>"
    from Cons.prems(1) Some s q x
    have "upload_partitions_async s3 bucket pre version mid ps (written @ [?f]) u = (Inr out, w')"
      by (simp add: Let_def)
    from Cons.IH [OF this] Cons.prems(2) show ?thesis by auto
  qed
qed simp

lemma record_progress:
  assumes "\<forall>f \<in> set written. mf_mapping_id f = mid \<and> starts_with (mf_key f) (version_prefix (tp_version p))"
  shows "progressed p (p\<lparr>tp_files := apply_mapping_writes (tp_files p) mid written, tp_touched := True\<rparr>)"
proof -
  have "files_of other (apply_mapping_writes (tp_files p) mid written)
      = (if other = mid then mset written else files_of other (tp_files p))" for other
  proof -
    from assms have "\<forall>f \<in># mset written. mf_mapping_id f = mid" by simp
    then have new: "filter_mset (\<lambda>f. mf_mapping_id f = other) (mset written)
        = (if other = mid then mset written else {#})"
      by (induction written) auto
    have old: "filter_mset (\<lambda>f. mf_mapping_id f = other) (filter_mset (\<lambda>f. mf_mapping_id f \<noteq> mid) F)
        = (if other = mid then {#} else filter_mset (\<lambda>f. mf_mapping_id f = other) F)" for F
      by (induction F) auto
    show ?thesis unfolding files_of_def apply_mapping_writes_mset by (simp add: new old)
  qed
  with assms show ?thesis by (auto simp: progressed_def)
qed

definition publishes_progressed :: "Publishes \<Rightarrow> Publishes \<Rightarrow> bool" where
  "publishes_progressed ps ps' \<longleftrightarrow> (\<forall>t. rel_option progressed (map_of ps t) (map_of ps' t))"

lemma publishes_progressed_refl: "publishes_progressed ps ps"
  by (simp add: publishes_progressed_def option.rel_refl progressed_refl)

lemma publishes_progressed_trans:
  "publishes_progressed ps qs \<Longrightarrow> publishes_progressed qs rs \<Longrightarrow> publishes_progressed ps rs"
  unfolding publishes_progressed_def
  by (metis (no_types, lifting) option.rel_sel progressed_trans)

lemma upload_mapping_progressed:
  assumes "upload_mapping jb ctx pre mapping result st w = (st', w')"
  shows "publishes_progressed (rs_publishes st) (rs_publishes st')"
proof -
  obtain parts d where out: "result = (parts, d)" by (cases result)
  show ?thesis
  proof (cases "\<exists>entry written u. map_of (rs_publishes st) (m_analytic_table_id mapping) = Some entry
      \<and> upload_partitions_async (jb_s3 jb) (jc_warehouse_bucket ctx) pre (tp_version entry)
          (m_id mapping) parts [] w = (Inr written, u)")
    case False
    with assms out have "rs_publishes st' = rs_publishes st"
      by (auto simp: upload_mapping_def Let_def push_error_def split: option.splits sum.splits prod.splits)
    then show ?thesis by (simp add: publishes_progressed_refl)
  next
    case True
    then obtain entry written u where e: "map_of (rs_publishes st) (m_analytic_table_id mapping) = Some entry"
      and up: "upload_partitions_async (jb_s3 jb) (jc_warehouse_bucket ctx) pre (tp_version entry)
          (m_id mapping) parts [] w = (Inr written, u)" by blast
    from record_progress [OF upload_lists [OF up]] assms out e up show ?thesis
      by (auto simp: upload_mapping_def Let_def record_writes_def publishes_progressed_def update_conv'
          option.rel_refl progressed_refl)
  qed
qed

lemma run_mapping_progressed:
  assumes "run_mapping jb ctx pre cfg matchers all_files mapping st w = (st', w')"
  shows "publishes_progressed (rs_publishes st) (rs_publishes st')"
  using assms
  by (auto simp: run_mapping_def Let_def push_error_def publishes_progressed_refl
      split: option.splits sum.splits if_splits prod.splits dest: upload_mapping_progressed)

lemma run_mappings_progressed:
  assumes "run_mappings jb ctx pre cfg matchers all_files idx ms st w = Some (Inr st', w')"
  shows "publishes_progressed (rs_publishes st) (rs_publishes st')"
  using assms
proof (induction ms arbitrary: idx st w)
  case Nil
  then show ?case by (simp add: task_result_def publishes_progressed_refl)
next
  case (Cons m ms)
  from Cons.prems obtain u v st1 where
    one: "run_mapping jb ctx pre cfg matchers all_files m st u = (st1, v)"
    and more: "run_mappings jb ctx pre cfg matchers all_files (idx + 1) ms st1 v = Some (Inr st', w')"
    by (auto simp: and_then_def task_mod_def task_run_def split: option.splits prod.splits sum.splits)
  show ?case
    by (rule publishes_progressed_trans [OF run_mapping_progressed [OF one] Cons.IH [OF more]])
qed

section \<open>Uploaded objects\<close>

text \<open>The entry of a partition whose key starts with the table's id.\<close>

definition uploaded_file :: "string \<Rightarrow> nat \<Rightarrow> string \<Rightarrow> PartitionOutput \<Rightarrow> ManifestFile" where
  "uploaded_file table_id version mid p =
     \<lparr>mf_key = version_prefix version @ drop (length table_id + 1) (po_key p), mf_mapping_id = mid,
      mf_bytes = length (po_bytes p)\<rparr>"

definition keys_of_table :: "string \<Rightarrow> PartitionOutput list \<Rightarrow> bool" where
  "keys_of_table table_id ps \<longleftrightarrow> (\<forall>p \<in> set ps. starts_with (po_key p) (table_id @ ''/''))"

lemma split_table_key:
  assumes "CHR ''/'' \<notin> set table_id" and "starts_with k (table_id @ ''/'')"
  shows "split_once (CHR ''/'') k = Some (table_id, drop (length table_id + 1) k)"
  using assms by (auto simp: split_once_Some prefix_def)

lemma upload_stores:
  assumes "s3_laws s3 obj" and "CHR ''/'' \<notin> set tid" and "keys_of_table tid ps" and "distinct (map po_key ps)"
    and "upload_partitions_async s3 bucket pre version mid ps written w = (Inr out, w')"
  shows "out = written @ map (uploaded_file tid version mid) ps
    \<and> (\<forall>p \<in> set ps. obj w' (bucket, pre @ tid @ ''/'' @ mf_key (uploaded_file tid version mid p)) = Some (po_bytes p))
    \<and> (\<forall>x. x \<notin> (\<lambda>p. (bucket, pre @ tid @ ''/'' @ mf_key (uploaded_file tid version mid p))) ` set ps
          \<longrightarrow> obj w' x = obj w x)"
  using assms(3-5)
proof (induction ps arbitrary: written w)
  case (Cons p ps)
  let ?f = "uploaded_file tid version mid"
  let ?full = "\<lambda>p. pre @ tid @ ''/'' @ mf_key (?f p)"
  from Cons.prems(1) have p: "starts_with (po_key p) (tid @ ''/'')" and ps: "keys_of_table tid ps"
    by (auto simp: keys_of_table_def)
  note split = split_table_key [OF assms(2) p]
  obtain q u where q: "put_object s3 w bucket (?full p) (po_bytes p) = (q, u)" by fastforce
  then have q': "put_object s3 w bucket
      (pre @ tid @ ''/'' @ version_prefix version @ drop (length tid + 1) (po_key p)) (po_bytes p) = (q, u)"
    by (simp add: uploaded_file_def)
  with Cons.prems(3) split obtain x where x: "q = Inr x" by (cases q) (auto simp: Let_def)
  from Cons.prems(3) split q' x
  have "upload_partitions_async s3 bucket pre version mid ps (written @ [?f p]) u = (Inr out, w')"
    by (simp add: Let_def uploaded_file_def)
  from Cons.IH [OF ps _ this] Cons.prems(2)
  have out: "out = (written @ [?f p]) @ map ?f ps"
    and stored: "\<And>r. r \<in> set ps \<Longrightarrow> obj w' (bucket, ?full r) = Some (po_bytes r)"
    and rest: "\<And>x. x \<notin> (\<lambda>p. (bucket, ?full p)) ` set ps \<Longrightarrow> obj w' x = obj u x" by auto
  from s3_put [OF assms(1) q] x have u: "obj u = (obj w)((bucket, ?full p) \<mapsto> po_bytes p)" by auto
  have "?full p \<noteq> ?full r" if "r \<in> set ps" for r
  proof
    assume "?full p = ?full r"
    then have "drop (length tid + 1) (po_key p) = drop (length tid + 1) (po_key r)"
      by (simp add: uploaded_file_def)
    moreover from ps that have "starts_with (po_key r) (tid @ ''/'')" by (simp add: keys_of_table_def)
    ultimately have "po_key p = po_key r" using p by (auto simp: prefix_def)
    with that Cons.prems(2) show False by force
  qed
  with rest [of "(bucket, ?full p)"] u have "obj w' (bucket, ?full p) = Some (po_bytes p)" by force
  with out stored rest u show ?case by auto
qed simp

text \<open>A key whose table id contains a slash is split inside the id.\<close>

lemma split_slashed_key:
  "CHR ''/'' \<notin> set a \<Longrightarrow> split_once (CHR ''/'') (a @ ''/'' @ b @ ''/'' @ rest) = Some (a, b @ ''/'' @ rest)"
  by (simp add: split_once_Some)

lemma slashed_upload:
  assumes "s3_laws s3 obj" and "CHR ''/'' \<notin> set a"
    and "upload_partitions_async s3 bucket pre version mid
           [\<lparr>po_key = a @ ''/'' @ b @ ''/'' @ rest, po_bytes = bytes\<rparr>] [] w = (Inr out, w')"
  shows "out = [\<lparr>mf_key = version_prefix version @ b @ ''/'' @ rest, mf_mapping_id = mid, mf_bytes = length bytes\<rparr>]
    \<and> obj w' = (obj w)((bucket, pre @ a @ ''/'' @ version_prefix version @ b @ ''/'' @ rest) \<mapsto> bytes)"
proof -
  let ?full = "pre @ a @ ''/'' @ version_prefix version @ b @ ''/'' @ rest"
  obtain q u where q: "put_object s3 w bucket ?full bytes = (q, u)" by fastforce
  with assms(3) split_slashed_key [OF assms(2), of b rest] obtain x where "q = Inr x"
    by (cases q) (auto simp: Let_def)
  with assms(3) split_slashed_key [OF assms(2), of b rest] q s3_put [OF assms(1) q] show ?thesis
    by (auto simp: Let_def)
qed

end
