(* ===== verification/Job_Properties.thy ===== *)
theory Job_Properties
  imports Job_Proofs Json_Source_Proofs
begin

text \<open>
  What a run guarantees, with a sample world that meets the laws: the in-memory store, a database
  that holds one configuration, the in-memory frames.
\<close>

section \<open>Properties\<close>

text \<open>C23: A run always returns, whatever fails in it, given a store whose listings end; the only
  loops that could go on are the listings.\<close>

theorem execute_job_returns:
  assumes "job_laws jb obj"
  shows "\<exists>r w'. execute_job jb ctx pre pipeline v clean_run w = Some (r, w')"
  using confined.settlesD [OF execute_job_settles [OF assms]] by blast

text \<open>C10: A run writes and deletes only objects of the warehouse bucket whose key starts with the
  run's prefix, on every path; it never touches another pipeline's tables or the lake.\<close>

theorem execute_job_isolated:
  assumes "job_laws jb obj" and "execute_job jb ctx pre pipeline v clean_run w = Some (r, w')"
    and "b \<noteq> jc_warehouse_bucket ctx \<or> \<not> starts_with k pre"
  shows "obj w' (b, k) = obj w (b, k)"
proof -
  from confined.settlesD [OF execute_job_settles [OF assms(1), of ctx pre pipeline v clean_run], of w] assms(2)
  have "confined obj (jc_warehouse_bucket ctx) (\<lambda>k. starts_with k pre) w w'" by auto
  with assms(3) show ?thesis by (auto simp: confined_def)
qed

text \<open>C11: A run that ends in an error, or is cancelled, publishes nothing: every pointer and every
  manifest is as it was. Only data objects, which end in \<open>.parquet\<close>, may have been added.\<close>

theorem failed_run_publishes_nothing:
  assumes "job_laws jb obj" and "execute_job jb ctx pre pipeline v clean_run w = Some (Inl e, w')"
  shows "obj w' (pointer_object b p) = obj w (pointer_object b p)
    \<and> obj w' (manifest_object b p n) = obj w (manifest_object b p n)"
proof -
  have c: "confined obj (jc_warehouse_bucket ctx) (data_key pre) w w'"
    using execute_job_fails_within [OF assms(1)] assms(2) by (auto simp: confined.fails_within_def)
  have "\<not> data_key pre (p @ CURRENT_KEY)" "\<not> data_key pre (p @ manifest_key n)"
    by (auto simp: data_key_def CURRENT_KEY_def manifest_key_def suffix_def append_eq_append_conv2
        Cons_eq_append_conv append_eq_Cons_conv)
  with c show ?thesis by (auto simp: confined_def pointer_object_def manifest_object_def)
qed

text \<open>A configuration that is stored and parses but fails validation rejects the run with every
  message joined, before the store is read or written.\<close>

theorem invalid_config_rejected:
  assumes "job_laws jb obj"
    and "\<And>w. \<exists>w'. config_for_version (jb_pg jb) w v = (Inr (Some json), w')"
    and "jb_parse_config jb json = Inr cfg" and "validate cfg = Inl errs"
  shows "\<exists>w'. execute_job jb ctx pre pipeline (Some v) clean_run w
      = Some (Inl (ConfigInvalid (join ''; '' (map config_error_display errs))), w') \<and> obj w' = obj w"
proof -
  from assms(2) [of w] obtain w' where q: "config_for_version (jb_pg jb) w v = (Inr (Some json), w')" by blast
  then have "obj w' = obj w" unfolding config_for_version_def by (rule job_lawsD(2) [OF assms(1)])
  moreover have "execute_job jb ctx pre pipeline (Some v) clean_run w
      = Some (Inl (ConfigInvalid (join ''; '' (map config_error_display errs))), w')"
    using assms(3,4) q
    by (simp add: execute_job_def resolve_version_def and_then_result load_config_def and_then_def
        task_call_def task_result_def)
  ultimately show ?thesis by blast
qed

text \<open>A failing mapping is contained. Over all mappings of a run, each table keeps its prefix and
  its next version, and the files it lists for any mapping are exactly those listed before, or all
  lie in the directory of the new version; a table no mapping wrote is not touched at all.\<close>

theorem mappings_contained:
  assumes "run_mappings jb ctx pre cfg matchers all_files idx ms st w = Some (Inr st', w')"
  shows "rel_option progressed (map_of (rs_publishes st) t) (map_of (rs_publishes st') t)"
  using run_mappings_progressed [OF assms] by (simp add: publishes_progressed_def)

text \<open>The partitions of a table whose id has no slash are uploaded to exactly the objects their
  manifest entries name under the table's prefix, with the size recorded, and no other object
  changes.\<close>

theorem uploads_match_manifest:
  assumes "s3_laws s3 obj" and "CHR ''/'' \<notin> set tid" and "keys_of_table tid ps"
    and "distinct (map po_key ps)"
    and "upload_partitions_async s3 bucket pre version mid ps [] w = (Inr out, w')"
  shows "out = map (uploaded_file tid version mid) ps
    \<and> (\<forall>p \<in> set ps. obj w' (bucket, pre @ tid @ ''/'' @ mf_key (uploaded_file tid version mid p)) = Some (po_bytes p))
    \<and> (\<forall>x. x \<notin> (\<lambda>p. (bucket, pre @ tid @ ''/'' @ mf_key (uploaded_file tid version mid p))) ` set ps
          \<longrightarrow> obj w' x = obj w x)"
  using upload_stores [OF assms] by simp

text \<open>A table id with a slash breaks this. A partition of table \<open>a/b\<close> is stored inside the
  directory of \<open>a\<close>, while the manifest of \<open>a/b\<close> lists a key under the prefix of \<open>a/b\<close>, where the
  upload has stored nothing.\<close>

theorem slashed_table_misplaced:
  assumes "s3_laws s3 obj" and "CHR ''/'' \<notin> set a"
    and "upload_partitions_async s3 bucket pre version mid
           [\<lparr>po_key = (a @ ''/'' @ b) @ ''/'' @ rest, po_bytes = bytes\<rparr>] [] w = (Inr [f], w')"
  shows "obj w' (bucket, pre @ (a @ ''/'' @ b) @ ''/'' @ mf_key f)
    = obj w (bucket, pre @ (a @ ''/'' @ b) @ ''/'' @ mf_key f)"
proof -
  from slashed_upload [OF assms(1,2), of bucket pre version mid b rest bytes w "[f]" w'] assms(3)
  have f: "mf_key f = version_prefix version @ b @ ''/'' @ rest"
    and w': "obj w' = (obj w)((bucket, pre @ a @ ''/'' @ version_prefix version @ b @ ''/'' @ rest) \<mapsto> bytes)"
    by auto
  let ?listed = "pre @ (a @ ''/'' @ b) @ ''/'' @ mf_key f"
  let ?stored = "pre @ a @ ''/'' @ version_prefix version @ b @ ''/'' @ rest"
  have "length ?listed \<noteq> length ?stored" by (simp add: f)
  then have "?listed \<noteq> ?stored" by (rule contrapos_nn) (rule arg_cong)
  then show ?thesis unfolding w' by (simp only: fun_upd_def prod.inject simp_thms if_False)
qed

section \<open>A sample world\<close>

definition demo_pg :: "string \<Rightarrow> MemStore PgOps" where
  "demo_pg config = \<lparr>pg_fetch_json = (\<lambda>w q ps. (Inr (Some config), w)),
     pg_fetch_int = (\<lambda>w q ps. (Inr None, w)), pg_execute = (\<lambda>w q ps. (Inr (), w))\<rparr>"

text \<open>The stored text \<open>good\<close> parses to a valid configuration, any other to one with a bad prefix.\<close>

definition bad_config :: PipelineConfig where
  "bad_config = (demo_config None)\<lparr>cfg_source_containers := [demo_source\<lparr>sc_path_prefix := ''tx''\<rparr>]\<rparr>"

definition demo_jb :: "string \<Rightarrow> (MemStore, DemoFrame, DemoFrame, DemoCol, nat) JobOps" where
  "demo_jb config = \<lparr>jb_s3 = mem_s3, jb_js = demo_serde, jb_pg = demo_pg config, jb_frames = demo_ops,
     jb_json = demo_json_with (\<lambda>_ _. Inr []), jb_lower = (\<lambda>s. s), jb_debug_list = join '', '',
     jb_parse_config = (\<lambda>s. Inr (if s = ''good'' then demo_config None else bad_config)),
     jb_cancel = (\<lambda>w. (False, w)), jb_progress = (\<lambda>p w. w), jb_now = (\<lambda>w. ''now''),
     jb_join_error = ''panic'', jb_order = (\<lambda>ps. ps)\<rparr>"

definition demo_ctx :: JobContext where
  "demo_ctx = \<lparr>jc_lake_bucket = ''lake'', jc_warehouse_bucket = ''b''\<rparr>"

lemma demo_job_laws: "job_laws (demo_jb config) mem_obj"
  using mem_laws by (simp add: job_laws_def demo_jb_def demo_pg_def)

definition demo_entry :: TablePublish where
  "demo_entry = \<lparr>tp_prefix = ''p/t/'', tp_version = 8, tp_files = [\<lparr>mf_key = ''v7/x=z/m.parquet'',
     mf_mapping_id = ''m'', mf_bytes = 1\<rparr>], tp_touched = False\<rparr>"

definition demo_state :: RunState where
  "demo_state = \<lparr>rs_publishes = [(''t'', demo_entry)], rs_partitions = 0, rs_deduped = 0, rs_errors = []\<rparr>"

text \<open>A mapping that copies a column into a table without keys.\<close>

definition plain_table :: AnalyticTable where
  "plain_table = demo_table\<lparr>t_partition_keys := [], t_dedup_keys := []\<rparr>"

definition plain_mapping :: Mapping where
  "plain_mapping = (demo_mapping None)\<lparr>m_columns := [\<lparr>mc_name = ''x'', mc_expr = Col ''a''\<rparr>]\<rparr>"

definition plain_config :: PipelineConfig where
  "plain_config = (demo_config None)\<lparr>cfg_analytic_tables := [plain_table], cfg_mappings := [plain_mapping]\<rparr>"

definition plain_part :: PartitionOutput where
  "plain_part = \<lparr>po_key = ''t/m.parquet'', po_bytes = ''PAR1''\<rparr>"

lemma demo_jb_sel:
  "jb_s3 (demo_jb c) = mem_s3" "jb_js (demo_jb c) = demo_serde" "jb_pg (demo_jb c) = demo_pg c"
  "jb_frames (demo_jb c) = demo_ops" "jb_json (demo_jb c) = demo_json_with (\<lambda>_ _. Inr [])"
  "jb_lower (demo_jb c) = (\<lambda>s. s)" "jb_cancel (demo_jb c) w = (False, w)"
  "jb_progress (demo_jb c) p w = w"
  by (simp_all add: demo_jb_def)

lemma demo_ops_sel:
  "df_lazy demo_ops df = df" "lf_select demo_ops lf es = lf" "lf_collect demo_ops lf = Inr lf"
  "lf_concat demo_ops lfs = Inr (concat lfs)" "df_parquet demo_ops df = Inr ''PAR1''"
  by (simp_all add: demo_ops_def)

lemma plain_read: "read_csv_projected demo_ops ''tx/1.csv'' ''b'' demo_source = Inr [(''a'', [Some ''b''])]"
  by code_simp

lemma plain_sel:
  "sc_format demo_source = Csv" "sc_id demo_source = ''s''" "sc_path_prefix demo_source = ''tx/''"
  "m_id plain_mapping = ''m''" "m_source_container_id plain_mapping = ''s''"
  "m_analytic_table_id plain_mapping = ''t''" "m_where plain_mapping = None"
  "m_columns plain_mapping = [\<lparr>mc_name = ''x'', mc_expr = Col ''a''\<rparr>]"
  "cfg_mappings plain_config = [plain_mapping]" "cfg_analytic_tables plain_config = [plain_table]"
  "cfg_source_containers plain_config = [demo_source]"
  "t_id plain_table = ''t''" "t_partition_keys plain_table = []" "t_dedup_keys plain_table = []"
  by (simp_all add: demo_source_def plain_mapping_def demo_mapping_def plain_config_def demo_config_def
      plain_table_def demo_table_def)

lemma plain_file:
  "ingest_file (\<lambda>s. s) demo_ops jops ''tx/1.csv'' ''b'' plain_config plain_mapping reg
     = Inr (Inr [(''a'', [Some ''b''])])"
proof -
  have "resolve_source_container ''tx/1.csv'' plain_config = Inr demo_source"
    by (simp add: resolve_source_container_def plain_sel)
  moreover have "apply_mapping (\<lambda>s. s) demo_ops ''tx/1.csv'' plain_mapping reg [(''a'', [Some ''b''])]
      = Inr [(''a'', [Some ''b''])]"
    by (simp add: apply_mapping_def plain_sel compile_columns_def demo_ops_sel Let_def)
  ultimately show ?thesis by (simp add: ingest_file_def read_projected_def plain_sel plain_read)
qed

lemma plain_finish:
  "finish_frame (demo_jb c) plain_config plain_mapping ''t'' [(''a'', [Some ''b''])] = Inr ([plain_part], 0)"
proof -
  have "validate_assertions demo_ops [(''a'', [Some ''b''])] plain_table = []"
    by (simp add: validate_assertions_def plain_table_def demo_table_def column_violations_def)
  then show ?thesis
    by (simp add: finish_frame_def demo_jb_sel plain_sel dedup_rows_def produce_partitions_def
        demo_ops_sel unpartitioned_key_def plain_part_def)
qed

lemma plain_task:
  "mapping_task (demo_jb c) plain_config reg ''m'' ''t'' [(''tx/1.csv'', ''b'')] = Inr (Inr ([plain_part], 0))"
  by (simp add: mapping_task_def plain_sel demo_jb_sel ingest_many_def plain_file demo_ops_sel plain_finish)

lemma plain_upload:
  "upload_partitions_async mem_s3 ''b'' ''p/'' 8 ''m'' [plain_part] [] \<lparr>ms_objects = [], ms_faults = []\<rparr>
     = (Inr [uploaded_file ''t'' 8 ''m'' plain_part],
        \<lparr>ms_objects = [((''b'', ''p/t/v8/m.parquet''), ''PAR1'')], ms_faults = []\<rparr>)"
proof -
  have "digit_char 8 = CHR ''8''" by code_simp
  then have "version_prefix 8 = ''v8/''" by (simp add: version_prefix_def show_nat.simps)
  moreover have "split_once (CHR ''/'') ''t/m.parquet'' = Some (''t'', ''m.parquet'')"
    by (simp add: split_once_def)
  ultimately show ?thesis
    by (simp add: plain_part_def mem_s3_def mem_fault_def uploaded_file_def Let_def)
qed

lemma plain_run:
  "\<exists>st' w'. run_mappings (demo_jb c) demo_ctx ''p/'' plain_config Map.empty [(''tx/1.csv'', ''b'')] 0
      [plain_mapping] demo_state \<lparr>ms_objects = [], ms_faults = []\<rparr> = Some (Inr st', w')
    \<and> rs_partitions st' = 1"
  by (simp add: and_then_def check_cancel_def task_run_def task_mod_def task_result_def demo_jb_sel
      run_mapping_def plain_sel plain_task upload_mapping_def demo_state_def demo_entry_def demo_ctx_def
      plain_upload record_writes_def del: upload_partitions_async.simps)

section \<open>Witnesses\<close>

lemma execute_job_returns_witness:
  "\<exists>r w'. execute_job (demo_jb ''good'') demo_ctx ''p/'' ''p'' (Some 1) False
     \<lparr>ms_objects = [], ms_faults = [True]\<rparr> = Some (r, w')"
  by (rule execute_job_returns [OF demo_job_laws])

lemma demo_unpublished:
  "execute_job (demo_jb ''good'') demo_ctx ''p/'' ''p'' None False w
     = Some (Inl (ConfigRead ''pipeline p has no published config''), w)"
  by (simp add: execute_job_def resolve_version_def and_then_def task_call_def task_result_def
      current_version_for_def demo_jb_sel demo_pg_def)

lemma execute_job_isolated_witness:
  "\<exists>r w'. execute_job (demo_jb ''good'') demo_ctx ''p/'' ''p'' (Some 1) True
      \<lparr>ms_objects = [((''b'', ''q/t/_current.json''), ''1'')], ms_faults = []\<rparr> = Some (r, w')
    \<and> mem_obj w' (''b'', ''q/t/_current.json'') = Some ''1''"
proof -
  let ?w = "\<lparr>ms_objects = [((''b'', ''q/t/_current.json''), ''1'')], ms_faults = []\<rparr>"
  from confined.settlesD [OF execute_job_settles [OF demo_job_laws], of "''good''" demo_ctx "''p/''" "''p''" "Some 1" True ?w]
  obtain r w' where run: "execute_job (demo_jb ''good'') demo_ctx ''p/'' ''p'' (Some 1) True ?w = Some (r, w')"
    by blast
  have "mem_obj w' (''b'', ''q/t/_current.json'') = mem_obj ?w (''b'', ''q/t/_current.json'')"
    by (rule execute_job_isolated [OF demo_job_laws run]) (simp add: demo_ctx_def)
  with run show ?thesis by (simp add: mem_obj_def)
qed

lemma failed_run_publishes_nothing_witness:
  "\<exists>w'. execute_job (demo_jb ''good'') demo_ctx ''p/'' ''p'' None False
      \<lparr>ms_objects = [((''b'', ''p/t/_current.json''), ''7'')], ms_faults = []\<rparr>
        = Some (Inl (ConfigRead ''pipeline p has no published config''), w')
    \<and> mem_obj w' (pointer_object ''b'' ''p/t/'') = Some ''7''"
  using failed_run_publishes_nothing [OF demo_job_laws demo_unpublished, of
      "\<lparr>ms_objects = [((''b'', ''p/t/_current.json''), ''7'')], ms_faults = []\<rparr>" "''b''" "''p/t/''" 7]
  by (simp add: demo_unpublished mem_obj_def pointer_object_def CURRENT_KEY_def)

lemma invalid_config_rejected_witness:
  "\<exists>errs w'. execute_job (demo_jb ''bad'') demo_ctx ''p/'' ''p'' (Some 1) False \<lparr>ms_objects = [], ms_faults = []\<rparr>
     = Some (Inl (ConfigInvalid errs), w') \<and> mem_obj w' = Map.empty"
proof -
  have "\<not> valid_config bad_config"
    by (simp add: valid_config_def bad_config_def prefixes_ok_def malformed_prefix_def)
      (simp add: demo_source_def suffix_def)
  then obtain errs where errs: "validate bad_config = Inl errs"
    by (cases "validate bad_config") (auto simp: validate_ok [symmetric])
  have "\<exists>w'. config_for_version (jb_pg (demo_jb ''bad'')) w 1 = (Inr (Some ''bad''), w')" for w
    by (simp add: demo_jb_sel config_for_version_def demo_pg_def)
  from invalid_config_rejected [OF demo_job_laws this _ errs, of demo_ctx "''p/''" "''p''" False
      "\<lparr>ms_objects = [], ms_faults = []\<rparr>"]
  show ?thesis by (auto simp: demo_jb_def mem_obj_def)
qed

lemma mappings_contained_witness:
  "\<exists>st' w' p'. run_mappings (demo_jb []) demo_ctx ''p/'' plain_config Map.empty [(''tx/1.csv'', ''b'')] 0
      [plain_mapping] demo_state \<lparr>ms_objects = [], ms_faults = []\<rparr> = Some (Inr st', w')
    \<and> map_of (rs_publishes st') ''t'' = Some p' \<and> tp_version p' = 8"
proof -
  from plain_run [of "[]"] obtain st' w' where run: "run_mappings (demo_jb []) demo_ctx ''p/'' plain_config Map.empty
      [(''tx/1.csv'', ''b'')] 0 [plain_mapping] demo_state \<lparr>ms_objects = [], ms_faults = []\<rparr> = Some (Inr st', w')"
    by blast
  from mappings_contained [OF run, of "''t''"] obtain p' where
    "map_of (rs_publishes st') ''t'' = Some p'" "progressed demo_entry p'"
    by (auto simp: demo_state_def option_rel_Some1)
  with run show ?thesis by (auto simp: progressed_def demo_entry_def)
qed

lemma uploads_match_manifest_witness:
  "mem_obj \<lparr>ms_objects = [((''b'', ''p/t/v8/m.parquet''), ''PAR1'')], ms_faults = []\<rparr>
     (''b'', ''p/'' @ ''t'' @ ''/'' @ mf_key (uploaded_file ''t'' 8 ''m'' plain_part)) = Some ''PAR1''"
  using uploads_match_manifest [OF mem_laws _ _ _ plain_upload, of "''t''"]
  by (simp add: keys_of_table_def plain_part_def)

lemma slashed_table_misplaced_witness:
  "mem_obj \<lparr>ms_objects = [((''b'', ''p/a/v8/b/m.parquet''), ''PAR1'')], ms_faults = []\<rparr>
     (''b'', ''p/a/b/v8/b/m.parquet'') = None"
proof -
  have "digit_char 8 = CHR ''8''" by code_simp
  then have v: "version_prefix 8 = ''v8/''" by (simp add: version_prefix_def show_nat.simps)
  have "upload_partitions_async mem_s3 ''b'' ''p/'' 8 ''m''
      [\<lparr>po_key = (''a'' @ ''/'' @ ''b'') @ ''/'' @ ''m.parquet'', po_bytes = ''PAR1''\<rparr>] []
      \<lparr>ms_objects = [], ms_faults = []\<rparr>
    = (Inr [\<lparr>mf_key = ''v8/b/m.parquet'', mf_mapping_id = ''m'', mf_bytes = 4\<rparr>],
       \<lparr>ms_objects = [((''b'', ''p/a/v8/b/m.parquet''), ''PAR1'')], ms_faults = []\<rparr>)"
    by (simp add: split_once_def v mem_s3_def mem_fault_def Let_def)
  from slashed_table_misplaced [OF mem_laws _ this] show ?thesis by (simp add: mem_obj_def)
qed

end
