(* ===== verification/Job_Whole.thy ===== *)
theory Job_Whole
  imports Job_Properties
begin

text \<open>
  Published tables stay whole: the manifest a reader reaches through a table's pointer lists only
  objects that exist, at every end of a run. The invariant on the objects comes first, then what the
  steps of a run do to it, as Hoare triples over tasks.
\<close>

section \<open>Whole tables\<close>

definition files_there :: "(Object \<rightharpoonup> string) \<Rightarrow> string \<Rightarrow> string \<Rightarrow> ManifestFile list \<Rightarrow> bool" where
  "files_there objects b p fs \<longleftrightarrow>
     (\<forall>f \<in> set fs. objects (b, p @ mf_key f) \<noteq> None \<and> \<not> starts_with (mf_key f) MANIFEST_PREFIX)"

text \<open>A table that has a pointer has the manifest of the pointer's version: it can be read, and the
  files it lists exist.\<close>

definition table_whole :: "ManifestJson \<Rightarrow> (Object \<rightharpoonup> string) \<Rightarrow> string \<Rightarrow> string \<Rightarrow> bool" where
  "table_whole js objects b p \<longleftrightarrow> canonical_manifests objects b p
     \<and> (objects (pointer_object b p) \<noteq> None
          \<longrightarrow> (\<exists>m. on_version js objects b p m \<and> files_there objects b p (tm_files m)))"

lemma table_wholeD:
  "table_whole js objects b p \<Longrightarrow> objects (pointer_object b p) = Some ptr
    \<Longrightarrow> (\<exists>m. on_version js objects b p m \<and> files_there objects b p (tm_files m))"
  by (simp add: table_whole_def)

lemma on_version_unique: "on_version js objects b p m \<Longrightarrow> on_version js objects b p n \<Longrightarrow> m = n"
  by (auto simp: on_version_def)

definition slash_free :: "string \<Rightarrow> bool" where
  "slash_free t \<longleftrightarrow> CHR ''/'' \<notin> set t"

definition tables_whole :: "ManifestJson \<Rightarrow> (Object \<rightharpoonup> string) \<Rightarrow> string \<Rightarrow> string \<Rightarrow> bool" where
  "tables_whole js objects b pre \<longleftrightarrow> (\<forall>t. slash_free t \<longrightarrow> table_whole js objects b (pre @ t @ ''/''))"

text \<open>An entry of the publish state lists files that exist.\<close>

definition entry_whole :: "(Object \<rightharpoonup> string) \<Rightarrow> string \<Rightarrow> string \<Rightarrow> string \<times> TablePublish \<Rightarrow> bool" where
  "entry_whole objects b pre x \<longleftrightarrow>
     slash_free (fst x) \<and> tp_prefix (snd x) = pre @ fst x @ ''/'' \<and> tp_version (snd x) \<le> u64_max
     \<and> files_there objects b (tp_prefix (snd x)) (tp_files (snd x))"

definition run_whole ::
  "ManifestJson \<Rightarrow> (Object \<rightharpoonup> string) \<Rightarrow> string \<Rightarrow> string \<Rightarrow> Publishes \<Rightarrow> bool" where
  "run_whole js objects b pre ps \<longleftrightarrow>
     tables_whole js objects b pre \<and> distinct (map fst ps) \<and> (\<forall>x \<in> set ps. entry_whole objects b pre x)"

subsection \<open>Data objects\<close>

text \<open>Data objects are written; nothing else changes.\<close>

definition data_written :: "(Object \<rightharpoonup> string) \<Rightarrow> (Object \<rightharpoonup> string) \<Rightarrow> bool" where
  "data_written objects objects' \<longleftrightarrow>
     (\<forall>x. objects' x \<noteq> objects x \<longrightarrow> objects' x \<noteq> None \<and> ends_with (snd x) ''.parquet'')"

lemma data_written_refl [simp]: "data_written objects objects" by (simp add: data_written_def)

lemma data_written_trans: "data_written u v \<Longrightarrow> data_written v w \<Longrightarrow> data_written u w"
  unfolding data_written_def by metis

lemma data_written_keeps: "data_written objects objects' \<Longrightarrow> objects x \<noteq> None \<Longrightarrow> objects' x \<noteq> None"
  unfolding data_written_def by metis

lemma data_written_same:
  "data_written objects objects' \<Longrightarrow> \<not> ends_with (snd x) ''.parquet'' \<Longrightarrow> objects' x = objects x"
  unfolding data_written_def by metis

lemma suffix_last: "suffix xs ys \<Longrightarrow> xs \<noteq> [] \<Longrightarrow> last ys = last xs"
  by (auto simp: suffix_def)

lemma not_parquet [simp]:
  "\<not> ends_with (p @ CURRENT_KEY) ''.parquet''" "\<not> ends_with (p @ manifest_key v) ''.parquet''"
  by (auto simp: CURRENT_KEY_def manifest_key_def dest: suffix_last)

lemma manifest_not_parquet: "manifest_version k = Some v \<Longrightarrow> \<not> ends_with (p @ k) ''.parquet''"
  by (auto simp: manifest_version_def bind_eq_Some_conv strip_prefix_Some strip_suffix_Some dest!: suffix_last)

lemma files_there_written: "files_there objects b p fs \<Longrightarrow> data_written objects objects' \<Longrightarrow> files_there objects' b p fs"
  unfolding files_there_def by (metis data_written_keeps)

lemma table_whole_written:
  assumes "table_whole js objects b p" and d: "data_written objects objects'"
  shows "table_whole js objects' b p"
proof -
  have same: "objects' (pointer_object b p) = objects (pointer_object b p)"
    "objects' (manifest_object b p v) = objects (manifest_object b p v)" for v
    using data_written_same [OF d] by (simp_all add: pointer_object_def manifest_object_def)
  have "canonical_manifests objects' b p" unfolding canonical_manifests_def
  proof (intro allI impI)
    fix k v
    assume k: "objects' (b, p @ k) \<noteq> None" "manifest_version k = Some v"
    have "objects (b, p @ k) \<noteq> None"
      using k(1) data_written_same [OF d, of "(b, p @ k)"] manifest_not_parquet [OF k(2), of p] by simp
    with k(2) assms(1) show "k = manifest_key v" by (simp add: table_whole_def canonical_manifests_def)
  qed
  with assms(1) files_there_written [OF _ d] show ?thesis unfolding table_whole_def on_version_def same by blast
qed

lemma entry_whole_written:
  "entry_whole objects b pre x \<Longrightarrow> data_written objects objects' \<Longrightarrow> entry_whole objects' b pre x"
  unfolding entry_whole_def by (metis files_there_written)

lemma run_whole_written:
  "run_whole js objects b pre ps \<Longrightarrow> data_written objects objects' \<Longrightarrow> run_whole js objects' b pre ps"
  by (auto simp: run_whole_def tables_whole_def intro: table_whole_written entry_whole_written)

subsection \<open>Publishing\<close>

text \<open>What publishing may leave under a table's prefix.\<close>

definition published :: "ManifestJson \<Rightarrow> string \<Rightarrow> string \<Rightarrow> TableManifest \<Rightarrow> (Object \<rightharpoonup> string) \<Rightarrow> (Object \<rightharpoonup> string) \<Rightarrow> bool" where
  "published js b p m objects objects' \<longleftrightarrow>
     (objects' (manifest_object b p (tm_version m)) = objects (manifest_object b p (tm_version m))
       \<or> (\<exists>body. objects' (manifest_object b p (tm_version m)) = Some body \<and> dec_manifest js body = Inr m))
     \<and> (objects' (pointer_object b p) = objects (pointer_object b p)
       \<or> (\<exists>ptr body. objects' (pointer_object b p) = Some ptr \<and> dec_pointer js ptr = Inr (tm_version m)
            \<and> objects' (manifest_object b p (tm_version m)) = Some body \<and> dec_manifest js body = Inr m))
     \<and> (\<forall>x. x \<noteq> pointer_object b p \<longrightarrow> x \<noteq> manifest_object b p (tm_version m) \<longrightarrow> objects' x = objects x)"

lemma publish_published:
  assumes "s3_laws s3 obj" and "json_laws js" and "publish s3 js w b p m = (r, w')"
  shows "published js b p m (obj w) (obj w')"
proof (cases "enc_manifest js m")
  case (Inl e)
  with assms(3) show ?thesis by (auto simp: publish_def published_def)
next
  case (Inr body)
  let ?m = "manifest_object b p (tm_version m)" and ?p = "pointer_object b p"
  have body: "dec_manifest js body = Inr m" using assms(2) Inr by (simp add: json_laws_def)
  have ne: "?p \<noteq> ?m" "?m \<noteq> ?p" by (simp_all add: pointer_object_def manifest_object_def)
  obtain r1 w1 where p1: "put_document s3 w b (p @ manifest_key (tm_version m)) body = (r1, w1)"
    by fastforce
  have o1: "obj w1 = (obj w)(?m \<mapsto> body) \<or> r1 \<noteq> Inr () \<and> obj w1 = obj w"
    using put_document_result [OF assms(1) p1] by (simp add: manifest_object_def)
  show ?thesis
  proof (cases "r1 = Inr () \<and> (\<exists>ptr. enc_pointer js (tm_version m) = Inr ptr)")
    case False
    with assms(3) Inr p1 have "w' = w1" by (auto simp: publish_def split: sum.splits)
    with o1 body ne show ?thesis by (auto simp: published_def)
  next
    case True
    then obtain ptr where ptr: "enc_pointer js (tm_version m) = Inr ptr" and r1: "r1 = Inr ()" by blast
    with assms(3) Inr p1 have "put_document s3 w1 b (p @ CURRENT_KEY) ptr = (r, w')"
      by (simp add: publish_def)
    from put_document_result [OF assms(1) this]
    have o2: "obj w' = (obj w1)(?p \<mapsto> ptr) \<or> obj w' = obj w1" by (auto simp: pointer_object_def)
    have "dec_pointer js ptr = Inr (tm_version m)" using assms(2) ptr by (simp add: json_laws_def)
    with o1 o2 r1 body ne show ?thesis by (auto simp: published_def)
  qed
qed

lemma published_other:
  "published js b p m objects objects' \<Longrightarrow> x \<noteq> pointer_object b p \<Longrightarrow> x \<noteq> manifest_object b p (tm_version m)
    \<Longrightarrow> objects' x = objects x"
  unfolding published_def by blast

lemma published_grows: "published js b p m objects objects' \<Longrightarrow> objects x \<noteq> None \<Longrightarrow> objects' x \<noteq> None"
  unfolding published_def by (metis option.distinct(1))

lemma files_there_published:
  "files_there objects b q fs \<Longrightarrow> published js b p m objects objects' \<Longrightarrow> files_there objects' b q fs"
  unfolding files_there_def by (metis published_grows)

lemma manifest_version_current [simp]: "manifest_version CURRENT_KEY = None"
  by (simp add: manifest_version_def CURRENT_KEY_def MANIFEST_PREFIX_def strip_prefix_def)

lemma table_whole_published:
  assumes w: "table_whole js objects b p" and d: "published js b p m objects objects'"
    and m: "tm_version m \<le> u64_max" "files_there objects b p (tm_files m)"
  shows "table_whole js objects' b p"
proof -
  note there = files_there_published [OF _ d]
  have "canonical_manifests objects' b p" unfolding canonical_manifests_def
  proof (intro allI impI)
    fix k v
    assume k: "objects' (b, p @ k) \<noteq> None" "manifest_version k = Some v"
    show "k = manifest_key v"
    proof (cases "(b, p @ k) = manifest_object b p (tm_version m)")
      case True
      with k(2) m(1) show ?thesis by (simp add: manifest_object_def manifest_version_key)
    next
      case False
      from k(2) have "(b, p @ k) \<noteq> pointer_object b p" by (auto simp: pointer_object_def)
      with False k published_other [OF d] have "objects (b, p @ k) \<noteq> None" by simp
      with k(2) w show ?thesis by (simp add: table_whole_def canonical_manifests_def)
    qed
  qed
  moreover have "\<exists>m'. on_version js objects' b p m' \<and> files_there objects' b p (tm_files m')"
    if ptr: "objects' (pointer_object b p) \<noteq> None"
  proof (cases "on_version js objects' b p m")
    case True
    with there [OF m(2)] show ?thesis by blast
  next
    case False
    with d have same: "objects' (pointer_object b p) = objects (pointer_object b p)"
      by (auto simp: published_def on_version_def)
    with ptr w obtain m0 where m0: "on_version js objects b p m0" "files_there objects b p (tm_files m0)"
      by (auto simp: table_whole_def)
    have "objects' (manifest_object b p (tm_version m0)) = objects (manifest_object b p (tm_version m0))"
    proof (cases "tm_version m0 = tm_version m")
      case True
      with False m0(1) d same show ?thesis by (auto simp: published_def on_version_def)
    next
      case ne: False
      have "manifest_object b p (tm_version m0) \<noteq> pointer_object b p"
        by (simp add: manifest_object_def pointer_object_def)
      moreover have "manifest_object b p (tm_version m0) \<noteq> manifest_object b p (tm_version m)"
        using ne by (simp add: manifest_object_def)
      ultimately show ?thesis by (rule published_other [OF d])
    qed
    with m0(1) same have "on_version js objects' b p m0" by (simp add: on_version_def)
    with there [OF m0(2)] show ?thesis by blast
  qed
  ultimately show ?thesis unfolding table_whole_def by blast
qed

subsection \<open>One table at a time\<close>

lemma slash_free_inj:
  assumes "slash_free t" "slash_free u" "t @ ''/'' @ k = u @ ''/'' @ l"
  shows "t = u"
proof -
  have "takeWhile (\<lambda>c. c \<noteq> CHR ''/'') (s @ ''/'' @ x) = s" if "slash_free s" for s x
    using that by (induction s) (auto simp: slash_free_def)
  from this [OF assms(1), of k] this [OF assms(2), of l] assms(3) show ?thesis by simp
qed

text \<open>Only objects under one prefix change.\<close>

definition changed_under :: "string \<Rightarrow> string \<Rightarrow> (Object \<rightharpoonup> string) \<Rightarrow> (Object \<rightharpoonup> string) \<Rightarrow> bool" where
  "changed_under b p objects objects' \<longleftrightarrow> (\<forall>x. objects' x \<noteq> objects x \<longrightarrow> (\<exists>k. x = (b, p @ k)))"

lemma table_whole_elsewhere:
  assumes "\<And>k. objects' (b, p @ k) = objects (b, p @ k)"
  shows "table_whole js objects' b p = table_whole js objects b p"
    and "files_there objects' b p fs = files_there objects b p fs"
  using assms
  by (simp_all add: table_whole_def on_version_def canonical_manifests_def files_there_def pointer_object_def
      manifest_object_def)

lemma changed_elsewhere:
  assumes "changed_under b (pre @ t @ ''/'') objects objects'" "slash_free t" "slash_free u" "t \<noteq> u"
  shows "objects' (b, (pre @ u @ ''/'') @ k) = objects (b, (pre @ u @ ''/'') @ k)"
proof (rule ccontr)
  assume "\<not> ?thesis"
  with assms(1) obtain l where "(pre @ u @ ''/'') @ k = (pre @ t @ ''/'') @ l" unfolding changed_under_def by blast
  then have "u @ ''/'' @ k = t @ ''/'' @ l" by simp
  with slash_free_inj [OF assms(3,2)] assms(4) show False by blast
qed

lemma run_whole_step:
  assumes run: "run_whole js objects b pre ps" and e: "(t, e) \<in> set ps"
    and c: "changed_under b (tp_prefix e) objects objects'"
    and w: "table_whole js objects' b (tp_prefix e)" "files_there objects' b (tp_prefix e) (tp_files e)"
  shows "run_whole js objects' b pre ps"
proof -
  from run e have ent: "slash_free t" "tp_prefix e = pre @ t @ ''/''" "tp_version e \<le> u64_max"
    by (auto simp: run_whole_def entry_whole_def)
  have other: "table_whole js objects' b (pre @ u @ ''/'') = table_whole js objects b (pre @ u @ ''/'')"
    "files_there objects' b (pre @ u @ ''/'') fs = files_there objects b (pre @ u @ ''/'') fs"
    if "slash_free u" "t \<noteq> u" for u fs
    by (rule table_whole_elsewhere, rule changed_elsewhere [OF c [unfolded ent(2)] ent(1) that])+
  have "tables_whole js objects' b pre" unfolding tables_whole_def
  proof (intro allI impI)
    fix u assume u: "slash_free u"
    show "table_whole js objects' b (pre @ u @ ''/'')"
    proof (cases "t = u")
      case True
      with w(1) ent(2) show ?thesis by simp
    next
      case False
      from other(1) [OF u this] u run show ?thesis by (simp add: run_whole_def tables_whole_def)
    qed
  qed
  moreover have "entry_whole objects' b pre x" if x: "x \<in> set ps" for x
  proof -
    obtain u f where uf: "x = (u, f)" by (cases x)
    from run x uf have old: "entry_whole objects b pre (u, f)" by (auto simp: run_whole_def)
    show ?thesis
    proof (cases "t = u")
      case True
      with run e x uf have "f = e" by (auto simp: run_whole_def eq_key_imp_eq_value)
      with True w(2) ent uf show ?thesis by (simp add: entry_whole_def)
    next
      case False
      have "slash_free u" "tp_prefix f = pre @ u @ ''/''" using old by (simp_all add: entry_whole_def)
      with old other(2) [OF _ False] show ?thesis by (simp add: entry_whole_def uf)
    qed
  qed
  ultimately show ?thesis using run by (simp add: run_whole_def)
qed

subsection \<open>Vacuum\<close>

lemma vacuum_removes:
  assumes laws: "s3_laws s3 obj" and run: "vacuum s3 js w b p current = Some (r, w')"
  shows "obj w' x = obj w x \<or> obj w' x = None"
proof -
  from list_keys_ok [OF laws, of w b p] obtain q w1 where list: "list_keys s3 w b p = Some (q, w1)"
    "obj w1 = obj w" by blast
  show ?thesis
  proof (cases q)
    case (Inl e)
    with run list show ?thesis by (simp add: vacuum_def)
  next
    case (Inr all)
    let ?rel = "List.map_filter (strip_prefix p) all"
    let ?vs = "List.map_filter manifest_version ?rel"
    let ?doomed = "versions_to_drop ?vs current RETAINED_VERSIONS"
    obtain s w2 where rr: "read_retained s3 js w1 b p
        (filter (\<lambda>u. u \<notin> set ?doomed \<and> u \<le> current) ?vs) [] = (s, w2)" by fastforce
    have w2: "obj w2 = obj w" using read_retained_result [OF laws rr] list(2) by simp
    show ?thesis
    proof (cases s)
      case (Inl e)
      with run list Inr rr w2 show ?thesis by (simp add: vacuum_def Let_def)
    next
      case (Inr ms)
      obtain d w3 where del: "delete_all s3 w2 b p
          (unreferenced_keys ms ?rel @ map manifest_key ?doomed) 0 = (d, w3)" by fastforce
      with run list \<open>q = Inr all\<close> rr Inr have "w' = w3" by (simp add: vacuum_def Let_def)
      with delete_all_removes [OF laws del] w2 show ?thesis by metis
    qed
  qed
qed

text \<open>After publishing version \<open>tm_version m\<close>, vacuum with that version as the current one.\<close>

lemma table_whole_vacuumed:
  assumes laws: "s3_laws s3 obj" and w: "table_whole js (obj w) b p" and on: "on_version js (obj w) b p m"
    and v: "tm_version m \<le> u64_max" and run: "vacuum s3 js w b p (tm_version m) = Some (r, w')"
  shows "table_whole js (obj w') b p \<and> files_there (obj w') b p (tm_files m)"
proof -
  from on obtain ptr body where o: "obj w (pointer_object b p) = Some ptr" "dec_pointer js ptr = Inr (tm_version m)"
    "obj w (manifest_object b p (tm_version m)) = Some body" "dec_manifest js body = Inr m"
    by (auto simp: on_version_def)
  have "newer_versions S n n = {}" for S n by (auto simp: newer_versions_def)
  then have ret: "retained_version (obj w) b p (tm_version m) (tm_version m)"
    using o v by (simp add: retained_version_def stored_versions_def RETAINED_VERSIONS_def)
  from w have canon: "canonical_manifests (obj w) b p" by (simp add: table_whole_def)
  from table_wholeD [OF w o(1)] on_version_unique [OF on] have old: "files_there (obj w) b p (tm_files m)"
    by blast
  from vacuum_keeps [OF laws canon run ret o(3,4)] old o(1,3)
  have kept: "obj w' (pointer_object b p) = Some ptr" "obj w' (manifest_object b p (tm_version m)) = Some body"
    "files_there (obj w') b p (tm_files m)"
    by (auto simp: files_there_def)
  moreover have "canonical_manifests (obj w') b p"
    using canon vacuum_removes [OF laws run] unfolding canonical_manifests_def by metis
  moreover have "on_version js (obj w') b p m" using kept(1,2) o(2,4) by (simp add: on_version_def)
  ultimately show ?thesis by (auto simp: table_whole_def)
qed

section \<open>Uploads\<close>

lemma version_prefix_data [simp]: "\<not> starts_with (version_prefix v @ k) MANIFEST_PREFIX"
  by (simp add: version_prefix_def MANIFEST_PREFIX_def)

lemma upload_written:
  assumes laws: "s3_laws s3 obj" and tid: "slash_free tid"
    and "keys_of_table tid ps" "parquet_keys ps" "files_there (obj w) b (pre @ tid @ ''/'') written"
    and "upload_partitions_async s3 b pre version mid ps written w = (r, w')"
  shows "data_written (obj w) (obj w')
    \<and> (\<forall>out. r = Inr out \<longrightarrow> files_there (obj w') b (pre @ tid @ ''/'') out)"
  using assms(3-6)
proof (induction ps arbitrary: written w)
  case Nil
  then show ?case by auto
next
  case (Cons p ps)
  from Cons.prems(1) have p: "starts_with (po_key p) (tid @ ''/'')" by (simp add: keys_of_table_def)
  note split = split_table_key [OF tid [unfolded slash_free_def] p]
  let ?rel = "version_prefix version @ drop (length tid + 1) (po_key p)"
  let ?f = "\<lparr>mf_key = ?rel, mf_mapping_id = mid, mf_bytes = length (po_bytes p)\<rparr>"
  obtain q u where q: "put_object s3 w b (pre @ tid @ ''/'' @ ?rel) (po_bytes p) = (q, u)" by fastforce
  from p obtain k where k: "po_key p = tid @ ''/'' @ k" by (auto simp: prefix_def)
  from Cons.prems(2) have "suffix ''.parquet'' (po_key p)" by (simp add: parquet_keys_def)
  then have "suffix ''.parquet'' k" using k tid suffix_after_sep [of "''.parquet''" tid "CHR ''/''" k] by simp
  then have "ends_with (pre @ tid @ ''/'' @ ?rel) ''.parquet''" using k by (auto simp: suffix_def)
  with s3_put [OF laws q] have d: "data_written (obj w) (obj u)"
    by (auto simp: data_written_def split: if_splits)
  show ?case
  proof (cases q)
    case (Inl e)
    with Cons.prems(4) split q d show ?thesis by (auto simp: Let_def)
  next
    case (Inr x)
    from s3_put [OF laws q] Inr have "obj u (b, pre @ tid @ ''/'' @ ?rel) \<noteq> None" by auto
    with files_there_written [OF Cons.prems(3) d]
    have "files_there (obj u) b (pre @ tid @ ''/'') (written @ [?f])" by (auto simp: files_there_def)
    from Cons.IH [OF _ _ this] Cons.prems(1,2,4) split q Inr
    have "data_written (obj u) (obj w') \<and> (\<forall>out. r = Inr out \<longrightarrow> files_there (obj w') b (pre @ tid @ ''/'') out)"
      by (simp add: keys_of_table_def parquet_keys_def Let_def)
    with data_written_trans [OF d] show ?thesis by blast
  qed
qed

lemma produce_partitions_table:
  assumes "produce_partitions ops df mp table = Inr ps"
  shows "keys_of_table (t_id table) ps"
proof (cases "t_partition_keys table = []")
  case True
  with assms show ?thesis
    by (auto simp: produce_partitions_def keys_of_table_def unpartitioned_key_def result_simps)
next
  case False
  with assms obtain groups where "collect_results (group_output ops mp table) groups = Inr ps"
    by (auto simp: produce_partitions_def result_simps)
  then have "list_all2 (\<lambda>g p. group_output ops mp table g = Inr p) groups ps"
    by (simp add: collect_results_Inr)
  then show ?thesis unfolding keys_of_table_def
    by (induction rule: list_all2_induct) (auto simp: group_output_def result_simps)
qed

lemma mapping_task_keys:
  assumes "mapping_task jb cfg matchers mid tid files = Inr (Inr (ps, d))"
  shows "keys_of_table tid ps \<and> tid \<in> t_id ` set (cfg_analytic_tables cfg)"
proof -
  from assms obtain mapping df where "finish_frame jb cfg mapping tid df = Inr (ps, d)"
    by (auto simp: mapping_task_def result_simps split: option.splits)
  then obtain table df' where t: "List.find (\<lambda>t. t_id t = tid) (cfg_analytic_tables cfg) = Some table"
    and ps: "produce_partitions (jb_frames jb) df' mapping table = Inr ps"
    by (auto simp: finish_frame_def Let_def result_simps split: if_splits)
  from t have "table \<in> set (cfg_analytic_tables cfg)" "t_id table = tid"
    by (auto simp: find_Some_iff)
  with produce_partitions_table [OF ps] show ?thesis by blast
qed

lemma files_there_writes:
  "files_there objects b p fs \<Longrightarrow> files_there objects b p ws \<Longrightarrow> files_there objects b p (apply_mapping_writes fs mid ws)"
  by (auto simp: files_there_def apply_mapping_writes_def)

lemma upload_mapping_whole:
  assumes laws: "s3_laws (jb_s3 jb) obj" and run: "run_whole js (obj w) (jc_warehouse_bucket ctx) pre (rs_publishes st)"
    and parts: "keys_of_table (m_analytic_table_id mapping) parts" "parquet_keys parts"
    and up: "upload_mapping jb ctx pre mapping (parts, d) st w = (st', w')"
  shows "run_whole js (obj w') (jc_warehouse_bucket ctx) pre (rs_publishes st')"
proof (cases "map_of (rs_publishes st) (m_analytic_table_id mapping)")
  case None
  with run up show ?thesis by (auto simp: upload_mapping_def Let_def push_error_def)
next
  case (Some entry)
  let ?tid = "m_analytic_table_id mapping" and ?b = "jc_warehouse_bucket ctx"
  from Some have "(?tid, entry) \<in> set (rs_publishes st)" by (rule map_of_SomeD)
  with run have e: "slash_free ?tid" "tp_prefix entry = pre @ ?tid @ ''/''" "tp_version entry \<le> u64_max"
    "files_there (obj w) ?b (pre @ ?tid @ ''/'') (tp_files entry)"
    by (auto simp: run_whole_def entry_whole_def)
  obtain r u where q: "upload_partitions_async (jb_s3 jb) ?b pre (tp_version entry) (m_id mapping) parts [] w = (r, u)"
    by fastforce
  have "files_there (obj w) ?b (pre @ ?tid @ ''/'') []" by (simp add: files_there_def)
  note ups = upload_written [OF laws e(1) parts this q]
  have u: "run_whole js (obj u) ?b pre (rs_publishes st)" using run_whole_written [OF run] ups by blast
  show ?thesis
  proof (cases r)
    case (Inl x)
    with up Some q u show ?thesis by (auto simp: upload_mapping_def Let_def push_error_def)
  next
    case (Inr written)
    let ?e = "entry\<lparr>tp_files := apply_mapping_writes (tp_files entry) (m_id mapping) written, tp_touched := True\<rparr>"
    have "files_there (obj u) ?b (pre @ ?tid @ ''/'') (tp_files ?e)"
      using files_there_writes [OF files_there_written [OF e(4)]] ups Inr by simp
    with e have "entry_whole (obj u) ?b pre (?tid, ?e)" by (simp add: entry_whole_def)
    with u have "\<forall>x \<in> set (AList.update ?tid ?e (rs_publishes st)). entry_whole (obj u) ?b pre x"
      by (intro update_all) (auto simp: run_whole_def)
    moreover have "w' = u" "rs_publishes st' = AList.update ?tid ?e (rs_publishes st)"
      using up Some q Inr by (auto simp: upload_mapping_def Let_def record_writes_def)
    ultimately show ?thesis using u by (simp add: run_whole_def distinct_update)
  qed
qed

lemma run_mapping_whole:
  assumes laws: "s3_laws (jb_s3 jb) obj" and run: "run_whole js (obj w) (jc_warehouse_bucket ctx) pre (rs_publishes st)"
    and step: "run_mapping jb ctx pre cfg matchers all_files mapping st w = (st', w')"
  shows "run_whole js (obj w') (jc_warehouse_bucket ctx) pre (rs_publishes st')"
proof (cases "\<exists>parts d files. mapping_task jb cfg matchers (m_id mapping) (m_analytic_table_id mapping) files
    = Inr (Inr (parts, d)) \<and> upload_mapping jb ctx pre mapping (parts, d) st w = (st', w')")
  case True
  then obtain parts d files where
    t: "mapping_task jb cfg matchers (m_id mapping) (m_analytic_table_id mapping) files = Inr (Inr (parts, d))"
    and u: "upload_mapping jb ctx pre mapping (parts, d) st w = (st', w')" by blast
  from upload_mapping_whole [OF laws run _ mapping_task_parquet [OF t] u] mapping_task_keys [OF t]
  show ?thesis by blast
next
  case False
  with step have "w' = w \<and> rs_publishes st' = rs_publishes st"
    by (auto simp: run_mapping_def Let_def push_error_def split: option.splits sum.splits if_splits prod.splits)
  with run show ?thesis by simp
qed

section \<open>Triples\<close>

text \<open>\<open>triple P m Q E\<close>: from a world in \<open>P\<close>, a value the task returns and the world after it meet
  \<open>Q\<close>, and after an error the world meets \<open>E\<close>.\<close>

definition triple ::
  "('w \<Rightarrow> bool) \<Rightarrow> ('w, 'e, 'a) task \<Rightarrow> ('a \<Rightarrow> 'w \<Rightarrow> bool) \<Rightarrow> ('w \<Rightarrow> bool) \<Rightarrow> bool" where
  "triple P m Q E \<longleftrightarrow>
     (\<forall>w r w'. P w \<longrightarrow> m w = Some (r, w') \<longrightarrow> (case r of Inl e \<Rightarrow> E w' | Inr a \<Rightarrow> Q a w'))"

lemma tripleD:
  assumes "triple P m Q E" and "P w" and "m w = Some (r, w')"
  shows "(\<forall>e. r = Inl e \<longrightarrow> E w') \<and> (\<forall>a. r = Inr a \<longrightarrow> Q a w')"
  using assms unfolding triple_def by (cases r) fastforce+

lemma triple_and_then:
  assumes "triple P m Q E" and "\<And>a. triple (Q a) (f a) R E"
  shows "triple P (and_then m f) R E"
  unfolding triple_def
proof (intro allI impI)
  fix w r w'
  assume P: "P w" and run: "and_then m f w = Some (r, w')"
  show "case r of Inl e \<Rightarrow> E w' | Inr a \<Rightarrow> R a w'"
  proof (cases "m w")
    case None
    with run show ?thesis by (simp add: and_then_def)
  next
    case (Some x)
    obtain s u where x: "x = (s, u)" by (cases x)
    from tripleD [OF assms(1) P] Some x have s: "\<And>e. s = Inl e \<Longrightarrow> E u" "\<And>a. s = Inr a \<Longrightarrow> Q a u" by auto
    show ?thesis
    proof (cases s)
      case (Inl e)
      with run Some x s(1) show ?thesis by (auto simp: and_then_def)
    next
      case (Inr a)
      with run Some x have "f a u = Some (r, w')" by (simp add: and_then_def)
      from tripleD [OF assms(2) s(2) [OF Inr] this] show ?thesis by (simp split: sum.splits)
    qed
  qed
qed

lemma triple_result:
  "(\<And>a w. r = Inr a \<Longrightarrow> P w \<Longrightarrow> Q a w) \<Longrightarrow> (\<And>e w. r = Inl e \<Longrightarrow> P w \<Longrightarrow> E w) \<Longrightarrow> triple P (task_result r) Q E"
  by (auto simp: triple_def task_result_def split: sum.splits)

lemma triple_run: "(\<And>w a w'. P w \<Longrightarrow> act w = (a, w') \<Longrightarrow> Q a w') \<Longrightarrow> triple P (task_run act) Q E"
  by (auto simp: triple_def task_run_def split: prod.splits)

lemma triple_try: "(\<And>w a w'. P w \<Longrightarrow> call w = Some (a, w') \<Longrightarrow> Q a w') \<Longrightarrow> triple P (task_try call) Q E"
  by (auto simp: triple_def task_try_def)

text \<open>A step that leaves the objects alone.\<close>

lemma triple_reads:
  assumes "confined.settles obj b (\<lambda>_. False) G m" and "\<And>w. I (obj w) \<Longrightarrow> E w"
  shows "triple (\<lambda>w. I (obj w)) m (\<lambda>a w. G a \<and> I (obj w)) E"
  unfolding triple_def
proof (intro allI impI)
  fix w r w'
  assume I: "I (obj w)" and run: "m w = Some (r, w')"
  from confined.settlesD [OF assms(1), of w] run
  have "confined obj b (\<lambda>_. False) w w'" and G: "\<And>a. r = Inr a \<Longrightarrow> G a" by auto
  then have "obj w' = obj w" by (auto simp: confined_def)
  with I G assms(2) show "case r of Inl e \<Rightarrow> E w' | Inr a \<Rightarrow> G a \<and> I (obj w')" by (simp split: sum.splits)
qed

section \<open>Steps of the run\<close>

lemma read_current_whole:
  assumes laws: "s3_laws s3 obj" and w: "table_whole js (obj w) b p" and run: "read_current s3 js w b p = (Inr m, w')"
  shows "files_there (obj w') b p (tm_files m)"
proof -
  note r = read_current_result [OF laws run]
  show ?thesis
  proof (cases "m = empty_manifest")
    case True
    then show ?thesis by (simp add: empty_manifest_def files_there_def)
  next
    case False
    with r obtain ptr v body where p: "obj w (pointer_object b p) = Some ptr" "dec_pointer js ptr = Inr v"
      "obj w (manifest_object b p v) = Some body" "dec_manifest js body = Inr m" by blast
    from table_wholeD [OF w p(1)] p have "files_there (obj w) b p (tm_files m)" by (auto simp: on_version_def)
    with r show ?thesis by simp
  qed
qed

lemma init_publishes_whole:
  assumes laws: "job_laws jb obj" and "\<forall>table \<in> set tables. slash_free (t_id table)"
  shows "triple (\<lambda>w. run_whole (jb_js jb) (obj w) (jc_warehouse_bucket ctx) pre ps)
    (init_publishes jb ctx pre clean tables ps)
    (\<lambda>ps' w. run_whole (jb_js jb) (obj w) (jc_warehouse_bucket ctx) pre ps')
    (\<lambda>w. tables_whole (jb_js jb) (obj w) (jc_warehouse_bucket ctx) pre)"
  using assms(2)
proof (induction tables arbitrary: ps)
  case Nil
  then show ?case by (auto intro!: triple_result)
next
  case (Cons table tables)
  let ?b = "jc_warehouse_bucket ctx" and ?p = "pre @ t_id table @ ''/''"
  note s3 = job_lawsD(1) [OF laws]
  let ?next = "\<lambda>m. AList.update (t_id table) (table_publish ?p clean m) ps"
  have step: "triple (\<lambda>w. run_whole (jb_js jb) (obj w) ?b pre ps)
      (task_call ConfigRead (\<lambda>w. read_current (jb_s3 jb) (jb_js jb) w ?b ?p))
      (\<lambda>m w. run_whole (jb_js jb) (obj w) ?b pre (?next m)) (\<lambda>w. tables_whole (jb_js jb) (obj w) ?b pre)"
    unfolding triple_def
  proof (intro allI impI)
    fix w r w'
    assume I: "run_whole (jb_js jb) (obj w) ?b pre ps"
      and "task_call ConfigRead (\<lambda>w. read_current (jb_s3 jb) (jb_js jb) w ?b ?p) w = Some (r, w')"
    then obtain q where q: "read_current (jb_s3 jb) (jb_js jb) w ?b ?p = (q, w')" "r = map_err ConfigRead q"
      by (auto simp: task_call_def split: prod.splits)
    note same = read_current_same [OF s3 q(1)]
    show "case r of Inl e \<Rightarrow> tables_whole (jb_js jb) (obj w') ?b pre
      | Inr m \<Rightarrow> run_whole (jb_js jb) (obj w') ?b pre (?next m)"
    proof (cases q)
      case (Inl e)
      with q(2) I same show ?thesis by (simp add: run_whole_def)
    next
      case (Inr m)
      from I Cons.prems have "table_whole (jb_js jb) (obj w) ?b ?p" by (simp add: run_whole_def tables_whole_def)
      from read_current_whole [OF s3 this] q(1) Inr have "files_there (obj w') ?b ?p (tm_files m)" by simp
      moreover have "(tm_version m + 1) mod 2 ^ 64 \<le> u64_max"
        using mod_less_divisor [of "2 ^ 64" "tm_version m + 1"] by (simp add: u64_max_def)
      ultimately have "entry_whole (obj w') ?b pre (t_id table, table_publish ?p clean m)"
        using Cons.prems by (simp add: entry_whole_def table_publish_def files_there_def)
      moreover have "\<forall>x \<in> set ps. entry_whole (obj w') ?b pre x" using I same by (simp add: run_whole_def)
      ultimately have "\<forall>x \<in> set (?next m). entry_whole (obj w') ?b pre x" by (intro update_all)
      with I same q(2) Inr show ?thesis by (simp add: run_whole_def distinct_update)
    qed
  qed
  show ?case unfolding init_publishes.simps Let_def
    by (rule triple_and_then [OF step Cons.IH]) (use Cons.prems in simp)
qed

lemma run_mappings_whole:
  assumes laws: "job_laws jb obj"
  shows "triple (\<lambda>w. run_whole (jb_js jb) (obj w) (jc_warehouse_bucket ctx) pre (rs_publishes st))
    (run_mappings jb ctx pre cfg matchers all_files idx ms st)
    (\<lambda>st' w. run_whole (jb_js jb) (obj w) (jc_warehouse_bucket ctx) pre (rs_publishes st'))
    (\<lambda>w. tables_whole (jb_js jb) (obj w) (jc_warehouse_bucket ctx) pre)"
proof (induction ms arbitrary: idx st)
  case Nil
  then show ?case by (auto intro!: triple_result)
next
  case (Cons m ms)
  let ?I = "\<lambda>ps objects. run_whole (jb_js jb) objects (jc_warehouse_bucket ctx) pre ps"
  note reads = triple_reads [where I = "?I (rs_publishes st)"]
  have step: "triple (\<lambda>w. ?I (rs_publishes st) (obj w)) (task_run (run_mapping jb ctx pre cfg matchers all_files m st))
      (\<lambda>st' w. ?I (rs_publishes st') (obj w)) (\<lambda>w. tables_whole (jb_js jb) (obj w) (jc_warehouse_bucket ctx) pre)"
    by (rule triple_run) (rule run_mapping_whole [OF job_lawsD(1) [OF laws]])
  show ?case unfolding run_mappings.simps
  proof (rule triple_and_then [OF reads [OF check_cancel_settles [OF laws]]], simp add: run_whole_def)
    fix a :: unit
    let ?f = "\<lambda>_. and_then (task_run (run_mapping jb ctx pre cfg matchers all_files m st))
      (run_mappings jb ctx pre cfg matchers all_files (idx + 1) ms)"
    have "triple (\<lambda>w. ?I (rs_publishes st) (obj w))
      (and_then (task_mod (jb_progress jb (Ingesting idx (length (cfg_mappings cfg)) (rs_partitions st)))) ?f)
      (\<lambda>st' w. ?I (rs_publishes st') (obj w)) (\<lambda>w. tables_whole (jb_js jb) (obj w) (jc_warehouse_bucket ctx) pre)"
      by (rule triple_and_then [OF reads [OF progress_settles [OF laws]]])
        (simp_all add: run_whole_def triple_and_then [OF step [unfolded run_whole_def] Cons.IH [unfolded run_whole_def]])
    then show "triple (\<lambda>w. True \<and> ?I (rs_publishes st) (obj w))
      (and_then (task_mod (jb_progress jb (Ingesting idx (length (cfg_mappings cfg)) (rs_partitions st)))) ?f)
      (\<lambda>st' w. ?I (rs_publishes st') (obj w)) (\<lambda>w. tables_whole (jb_js jb) (obj w) (jc_warehouse_bucket ctx) pre)"
      by simp
  qed
qed

text \<open>Publishing and vacuuming one table keeps every table whole.\<close>

lemma publish_step_whole:
  assumes laws: "job_laws jb obj" and js: "json_laws (jb_js jb)"
    and run: "run_whole (jb_js jb) (obj w) b pre ps" and e: "(t, e) \<in> set ps"
    and m: "m = \<lparr>tm_version = tp_version e, tm_created_at = now, tm_job_id = None, tm_files = tp_files e\<rparr>"
    and pub: "publish (jb_s3 jb) (jb_js jb) w b (tp_prefix e) m = (r, u)"
  shows "run_whole (jb_js jb) (obj u) b pre ps \<and> (r = Inr () \<longrightarrow> on_version (jb_js jb) (obj u) b (tp_prefix e) m)"
proof -
  note s3 = job_lawsD(1) [OF laws]
  from run e have "entry_whole (obj w) b pre (t, e)" by (auto simp: run_whole_def)
  then have ent: "slash_free t" "tp_prefix e = pre @ t @ ''/''" "tp_version e \<le> u64_max"
    "files_there (obj w) b (tp_prefix e) (tp_files e)"
    unfolding entry_whole_def fst_conv snd_conv by blast+
  from run ent have w: "table_whole (jb_js jb) (obj w) b (tp_prefix e)" by (simp add: run_whole_def tables_whole_def)
  have d: "published (jb_js jb) b (tp_prefix e) m (obj w) (obj u)" by (rule publish_published [OF s3 js pub])
  have "changed_under b (tp_prefix e) (obj w) (obj u)"
    using publish_confined [OF s3 pub] by (auto simp: changed_under_def confined_def prefix_def)
  moreover have "table_whole (jb_js jb) (obj u) b (tp_prefix e)"
    using ent by (intro table_whole_published [OF w d]) (simp_all add: m)
  moreover have "files_there (obj u) b (tp_prefix e) (tp_files e)"
    using ent by (intro files_there_published [OF _ d])
  ultimately show ?thesis using run_whole_step [OF run e] publish_result [OF s3 js pub] by simp
qed

lemma vacuum_step_whole:
  assumes laws: "job_laws jb obj"
    and run: "run_whole (jb_js jb) (obj w) b pre ps" and e: "(t, e) \<in> set ps"
    and on: "on_version (jb_js jb) (obj w) b (tp_prefix e) m" "tm_version m = tp_version e" "tm_files m = tp_files e"
    and vac: "vacuum (jb_s3 jb) (jb_js jb) w b (tp_prefix e) (tp_version e) = Some (r, u)"
  shows "run_whole (jb_js jb) (obj u) b pre ps"
proof -
  note s3 = job_lawsD(1) [OF laws]
  from run e have "entry_whole (obj w) b pre (t, e)" by (auto simp: run_whole_def)
  then have ent: "slash_free t" "tp_prefix e = pre @ t @ ''/''" "tp_version e \<le> u64_max"
    by (simp_all add: entry_whole_def)
  from run ent have w: "table_whole (jb_js jb) (obj w) b (tp_prefix e)" by (simp add: run_whole_def tables_whole_def)
  have "changed_under b (tp_prefix e) (obj w) (obj u)"
    using vacuum_confined [OF s3, of "jb_js jb" w b "tp_prefix e" "tp_version e"] vac
    by (auto simp: changed_under_def confined_def prefix_def)
  moreover have "table_whole (jb_js jb) (obj u) b (tp_prefix e) \<and> files_there (obj u) b (tp_prefix e) (tm_files m)"
    using ent(3) vac on(2) by (intro table_whole_vacuumed [OF s3 w on(1)]) simp_all
  ultimately show ?thesis using run_whole_step [OF run e] on(3) by simp
qed

lemma publish_tables_whole:
  assumes laws: "job_laws jb obj" and js: "json_laws (jb_js jb)" and "set qs \<subseteq> set ps"
  shows "triple (\<lambda>w. run_whole (jb_js jb) (obj w) (jc_warehouse_bucket ctx) pre ps)
    (publish_tables jb ctx qs errors)
    (\<lambda>_ w. run_whole (jb_js jb) (obj w) (jc_warehouse_bucket ctx) pre ps)
    (\<lambda>w. tables_whole (jb_js jb) (obj w) (jc_warehouse_bucket ctx) pre)"
  using assms(3)
proof (induction qs arbitrary: errors)
  case Nil
  then show ?case by (auto intro!: triple_result)
next
  case (Cons x qs)
  obtain t e where x: "x = (t, e)" by (cases x)
  with Cons.prems have e: "(t, e) \<in> set ps" and qs: "set qs \<subseteq> set ps" by auto
  let ?b = "jc_warehouse_bucket ctx"
  let ?I = "\<lambda>w. run_whole (jb_js jb) (obj w) ?b pre ps"
  let ?T = "\<lambda>w. tables_whole (jb_js jb) (obj w) ?b pre"
  let ?on = "\<lambda>w. \<exists>m. on_version (jb_js jb) (obj w) ?b (tp_prefix e) m
    \<and> tm_version m = tp_version e \<and> tm_files m = tp_files e"
  let ?m = "\<lambda>w. \<lparr>tm_version = tp_version e, tm_created_at = jb_now jb w, tm_job_id = None, tm_files = tp_files e\<rparr>"
  have pub: "triple ?I (task_run (\<lambda>w. publish (jb_s3 jb) (jb_js jb) w ?b (tp_prefix e) (?m w)))
      (\<lambda>r w. ?I w \<and> (r = Inr () \<longrightarrow> ?on w)) ?T"
  proof (rule triple_run)
    fix w r u
    assume "?I w" "publish (jb_s3 jb) (jb_js jb) w ?b (tp_prefix e) (?m w) = (r, u)"
    from publish_step_whole [OF laws js this(1) e refl this(2)] show "?I u \<and> (r = Inr () \<longrightarrow> ?on u)" by auto
  qed
  have vac: "triple (\<lambda>w. ?I w \<and> ?on w)
      (task_try (\<lambda>w. vacuum (jb_s3 jb) (jb_js jb) w ?b (tp_prefix e) (tp_version e))) (\<lambda>_. ?I) ?T"
    by (rule triple_try) (auto intro: vacuum_step_whole [OF laws _ e])
  have rest: "triple (\<lambda>w. ?I w \<and> (r = Inr () \<longrightarrow> ?on w))
      (case r of Inl d \<Rightarrow> publish_tables jb ctx qs (errors @ [''publish '' @ t @ '': '' @ d])
       | Inr _ \<Rightarrow> and_then (task_try (\<lambda>w. vacuum (jb_s3 jb) (jb_js jb) w ?b (tp_prefix e) (tp_version e)))
           (\<lambda>_. publish_tables jb ctx qs errors)) (\<lambda>_. ?I) ?T" for r :: "string + unit"
    using Cons.IH [OF qs] triple_and_then [OF vac Cons.IH [OF qs]] by (cases r) simp_all
  show ?case
  proof (cases "tp_touched e")
    case True
    show ?thesis unfolding x publish_tables.simps using True
      by (simp only: not_True_eq_False if_False) (rule triple_and_then [OF pub rest])
  next
    case False
    with Cons.IH [OF qs] show ?thesis by (simp add: x)
  qed
qed

section \<open>The run\<close>

lemma triple_weaken:
  assumes "triple P m Q E" and "\<And>w. P' w \<Longrightarrow> P w" and "\<And>a w. Q a w \<Longrightarrow> Q' a w" and "\<And>w. E w \<Longrightarrow> E' w"
  shows "triple P' m Q' E'"
  using assms unfolding triple_def by (fastforce split: sum.splits)

text \<open>A reading step before a task that keeps the tables whole.\<close>

lemma whole_reads:
  fixes jb :: "('w, 'df, 'lf, 'col, 'n) JobOps" and m :: "('w, JobError, 'a) task"
  defines "I ps b pre \<equiv> \<lambda>objects. run_whole (jb_js jb) objects b pre ps"
  assumes "confined.settles obj c (\<lambda>_. False) G m"
    and "\<And>a. G a \<Longrightarrow> triple (\<lambda>w. run_whole (jb_js jb) (obj w) b pre ps) (f a)
      (\<lambda>_ w. tables_whole (jb_js jb) (obj w) b pre) (\<lambda>w. tables_whole (jb_js jb) (obj w) b pre)"
  shows "triple (\<lambda>w. run_whole (jb_js jb) (obj w) b pre ps) (and_then m f)
    (\<lambda>_ w. tables_whole (jb_js jb) (obj w) b pre) (\<lambda>w. tables_whole (jb_js jb) (obj w) b pre)"
proof (rule triple_and_then [where Q = "\<lambda>a w. G a \<and> run_whole (jb_js jb) (obj w) b pre ps"])
  show "triple (\<lambda>w. run_whole (jb_js jb) (obj w) b pre ps) m
      (\<lambda>a w. G a \<and> run_whole (jb_js jb) (obj w) b pre ps) (\<lambda>w. tables_whole (jb_js jb) (obj w) b pre)"
    by (rule triple_reads [OF assms(2), where I = "\<lambda>objects. run_whole (jb_js jb) objects b pre ps"])
      (simp add: run_whole_def)
  show "triple (\<lambda>w. G a \<and> run_whole (jb_js jb) (obj w) b pre ps) (f a)
      (\<lambda>_ w. tables_whole (jb_js jb) (obj w) b pre) (\<lambda>w. tables_whole (jb_js jb) (obj w) b pre)" for a
    using assms(3) [of a] by (auto simp: triple_def)
qed

lemma conclude_run_whole:
  assumes laws: "job_laws jb obj" and js: "json_laws (jb_js jb)"
  shows "triple (\<lambda>w. run_whole (jb_js jb) (obj w) (jc_warehouse_bucket ctx) pre (rs_publishes st))
    (conclude_run jb ctx cfg (files, st))
    (\<lambda>_ w. tables_whole (jb_js jb) (obj w) (jc_warehouse_bucket ctx) pre)
    (\<lambda>w. tables_whole (jb_js jb) (obj w) (jc_warehouse_bucket ctx) pre)"
  unfolding conclude_run_def prod.case
  by (intro triple_and_then [OF publish_tables_whole [OF laws js]] whole_reads [OF progress_settles [OF laws]]
      triple_result) (simp_all add: job_lawsD(6) [OF laws] run_whole_def)

text \<open>A run over a configuration whose table ids have no slash.\<close>

lemma run_config_whole:
  assumes laws: "job_laws jb obj" and js: "json_laws (jb_js jb)"
    and ids: "\<forall>table \<in> set (cfg_analytic_tables cfg). slash_free (t_id table)"
  shows "triple (\<lambda>w. tables_whole (jb_js jb) (obj w) (jc_warehouse_bucket ctx) pre)
    (run_config jb ctx pre clean_run cfg)
    (\<lambda>_ w. tables_whole (jb_js jb) (obj w) (jc_warehouse_bucket ctx) pre)
    (\<lambda>w. tables_whole (jb_js jb) (obj w) (jc_warehouse_bucket ctx) pre)"
proof -
  have init: "triple (\<lambda>w. tables_whole (jb_js jb) (obj w) (jc_warehouse_bucket ctx) pre)
      (init_publishes jb ctx pre clean_run (cfg_analytic_tables cfg) [])
      (\<lambda>ps w. run_whole (jb_js jb) (obj w) (jc_warehouse_bucket ctx) pre ps)
      (\<lambda>w. tables_whole (jb_js jb) (obj w) (jc_warehouse_bucket ctx) pre)"
    by (rule triple_weaken [OF init_publishes_whole [OF laws ids]]) (simp_all add: run_whole_def)
  note maps = run_mappings_whole [OF laws, of ctx pre
    "\<lparr>rs_publishes = ps, rs_partitions = 0, rs_deduped = 0, rs_errors = []\<rparr>" for ps, simplified]
  show ?thesis unfolding run_config_split prepare_run_def and_then_assoc and_then_result
    by (intro triple_and_then [OF init] whole_reads [OF progress_settles [OF laws]]
        whole_reads [OF collect_keys_settles [OF laws]] whole_reads [OF download_settles [OF laws]]
        whole_reads [OF confined.settles_result [where P = "\<lambda>_. True"]]
        whole_reads [OF build_matchers_settles [OF laws]]
        triple_and_then [OF maps] conclude_run_whole [OF laws js]) simp
qed

text \<open>A configuration a run loads is one the parser gave.\<close>

lemma load_config_parsed:
  assumes "job_laws jb obj"
  shows "confined.settles obj bucket K (\<lambda>cfg. \<exists>json. jb_parse_config jb json = Inr cfg) (load_config jb v)"
  unfolding load_config_def
  by (intro confined.settles_and_then [OF confined.settles_call] confined.settles_result)
    (auto simp: config_for_version_def result_simps intro: confined_same dest: job_lawsD(2) [OF assms])

section \<open>Property\<close>

text \<open>C9: Published tables stay whole. If every table of the pipeline that has a pointer has the
  manifest of the pointer's version, and that manifest lists only objects that exist, then so it is at
  the end of a run that ends in any way: it succeeds, fails half-way or is cancelled, and any upload,
  publish or vacuum deletion may fail. So a reader that follows a pointer finds a manifest it can read,
  and every file the manifest lists. Table ids of the configuration the run loads must have no
  slash.\<close>

theorem tables_stay_whole:
  assumes "job_laws jb obj" and "json_laws (jb_js jb)"
    and "\<And>n w1 cfg w2. resolve_version jb pipeline v w = Some (Inr n, w1) \<Longrightarrow> load_config jb n w1 = Some (Inr cfg, w2)
      \<Longrightarrow> \<forall>table \<in> set (cfg_analytic_tables cfg). slash_free (t_id table)"
    and "tables_whole (jb_js jb) (obj w) (jc_warehouse_bucket ctx) pre"
    and "execute_job jb ctx pre pipeline v clean_run w = Some (r, w')"
  shows "tables_whole (jb_js jb) (obj w') (jc_warehouse_bucket ctx) pre"
proof -
  let ?T = "\<lambda>w. tables_whole (jb_js jb) (obj w) (jc_warehouse_bucket ctx) pre"
  note reads = triple_reads [where I = "\<lambda>objects. tables_whole (jb_js jb) objects (jc_warehouse_bucket ctx) pre"]
  have "triple (\<lambda>u. u = w \<and> ?T u) (execute_job jb ctx pre pipeline v clean_run) (\<lambda>_. ?T) ?T"
    unfolding execute_job_def
  proof (rule triple_and_then)
    show "triple (\<lambda>u. u = w \<and> ?T u) (resolve_version jb pipeline v)
        (\<lambda>n u. resolve_version jb pipeline v w = Some (Inr n, u) \<and> ?T u) ?T"
      using reads [OF resolve_version_settles [OF assms(1)], where E = ?T]
      by (fastforce simp: triple_def split: sum.splits)
    fix n
    let ?at = "\<lambda>u. resolve_version jb pipeline v w = Some (Inr n, u)"
    show "triple (\<lambda>u. ?at u \<and> ?T u) (and_then (load_config jb n) (run_config jb ctx pre clean_run)) (\<lambda>_. ?T) ?T"
    proof (rule triple_and_then)
      show "triple (\<lambda>u. ?at u \<and> ?T u) (load_config jb n)
          (\<lambda>cfg u. (\<forall>table \<in> set (cfg_analytic_tables cfg). slash_free (t_id table)) \<and> ?T u) ?T"
        using reads [OF load_config_parsed [OF assms(1)], where E = ?T] assms(3)
        by (fastforce simp: triple_def split: sum.splits)
      show "triple (\<lambda>u. (\<forall>table \<in> set (cfg_analytic_tables cfg). slash_free (t_id table)) \<and> ?T u)
          (run_config jb ctx pre clean_run cfg) (\<lambda>_. ?T) ?T" for cfg
        using run_config_whole [OF assms(1,2), of cfg ctx pre clean_run] by (auto simp: triple_def)
    qed
  qed
  from tripleD [OF this _ assms(5)] assms(4) show ?thesis by (cases r) auto
qed

section \<open>A sample run\<close>

text \<open>Manifests of the sample hold one file and are written as their version.\<close>

definition pub_manifest :: "nat \<Rightarrow> TableManifest" where
  "pub_manifest v = \<lparr>tm_version = v, tm_created_at = ''now'', tm_job_id = None,
     tm_files = [uploaded_file ''t'' v ''m'' plain_part]\<rparr>"

definition pub_serde :: ManifestJson where
  "pub_serde = demo_serde\<lparr>enc_manifest := (\<lambda>m. if m = pub_manifest (tm_version m) then Inr (show_nat (tm_version m))
       else Inl ''not a sample''),
     dec_manifest := (\<lambda>s. case parse_nat s of None \<Rightarrow> Inl ''expected number'' | Some v \<Rightarrow> Inr (pub_manifest v))\<rparr>"

definition pub_jb :: "(MemStore, DemoFrame, DemoFrame, DemoCol, nat) JobOps" where
  "pub_jb = (demo_jb ''good'')\<lparr>jb_js := pub_serde, jb_parse_config := \<lambda>s. Inr plain_config\<rparr>"

lemma pub_jb_sel:
  "jb_s3 pub_jb = mem_s3" "jb_js pub_jb = pub_serde" "jb_pg pub_jb = demo_pg ''good''"
  "jb_cancel pub_jb w = (False, w)" "jb_progress pub_jb p w = w" "jb_now pub_jb w = ''now''" "jb_lower pub_jb = (\<lambda>s. s)" "jb_json pub_jb = demo_json_with (\<lambda>_ _. Inr [])"
  "jb_order pub_jb ps = ps"
  "jb_parse_config pub_jb s = Inr plain_config" "jb_frames pub_jb = demo_ops"
  by (simp_all add: pub_jb_def demo_jb_def)

lemma pub_serde_laws: "json_laws pub_serde"
  by (auto simp: json_laws_def pub_serde_def demo_serde_def split: if_splits)

text \<open>The pipeline of prefix \<open>p/\<close> with its table published at version 7, and a file to ingest.\<close>

definition demo_lake :: "bool list \<Rightarrow> MemStore" where
  "demo_lake faults = \<lparr>ms_objects =
     [((''b'', ''p/t/_current.json''), ''7''), ((''b'', ''p/t/_manifests/7.json''), ''7''),
      ((''b'', ''p/t/v7/m.parquet''), ''PAR1''), ((''lake'', ''tx/1.csv''), ''b'')], ms_faults = faults\<rparr>"

lemma pub_jb_laws: "job_laws pub_jb mem_obj"
  using demo_job_laws [of "''good''"] by (simp add: job_laws_def pub_jb_def demo_jb_def)

lemma sample_digits: "digit_char 8 = CHR ''8''" "digit_char 7 = CHR ''7''" by code_simp+

lemma sample_versions: "version_prefix 8 = ''v8/''" "version_prefix 7 = ''v7/''" "show_nat 8 = ''8''"
  by (simp_all add: version_prefix_def show_nat.simps sample_digits)

lemma demo_lake_keys:
  "mem_obj (demo_lake f) (''b'', ''p/'' @ t @ ''/'' @ k) \<noteq> None \<Longrightarrow> slash_free t
    \<Longrightarrow> t = ''t'' \<and> k \<in> {''_current.json'', ''_manifests/7.json'', ''v7/m.parquet''}"
proof -
  assume "mem_obj (demo_lake f) (''b'', ''p/'' @ t @ ''/'' @ k) \<noteq> None" and t: "slash_free t"
  then obtain l where l: "t @ ''/'' @ k = ''t'' @ ''/'' @ l"
    "l \<in> {''_current.json'', ''_manifests/7.json'', ''v7/m.parquet''}"
    by (auto simp: mem_obj_def demo_lake_def split: if_splits)
  moreover have "slash_free ''t''" by (simp add: slash_free_def)
  ultimately show ?thesis using slash_free_inj [OF t _ l(1)] by auto
qed

lemma demo_lake_whole: "tables_whole pub_serde (mem_obj (demo_lake f)) ''b'' ''p/''"
  unfolding tables_whole_def
proof (intro allI impI)
  fix t assume t: "slash_free t"
  let ?o = "mem_obj (demo_lake f)" and ?p = "''p/'' @ t @ ''/''"
  have keys: "t = ''t'' \<and> k \<in> {''_current.json'', ''_manifests/7.json'', ''v7/m.parquet''}"
    if "?o (''b'', ?p @ k) \<noteq> None" for k
    using demo_lake_keys [OF _ t, of f k] that by simp
  have "canonical_manifests ?o ''b'' ?p" unfolding canonical_manifests_def
  proof (intro allI impI)
    fix k v assume k: "?o (''b'', ?p @ k) \<noteq> None" "manifest_version k = Some v"
    have "manifest_version ''_current.json'' = None" "manifest_version ''v7/m.parquet'' = None"
      by (simp_all add: manifest_version_def strip_prefix_def MANIFEST_PREFIX_def)
    with keys [OF k(1)] k(2) have "k = manifest_key 7" by (auto simp: demo_keys)
    moreover from this k(2) have "v = 7" by (simp add: manifest_version_key u64_max_def)
    ultimately show "k = manifest_key v" by simp
  qed
  moreover have "\<exists>m. on_version pub_serde ?o ''b'' ?p m \<and> files_there ?o ''b'' ?p (tm_files m)"
    if "?o (pointer_object ''b'' ?p) \<noteq> None"
  proof -
    from keys [of CURRENT_KEY] that have t: "t = ''t''" by (simp add: pointer_object_def)
    have "on_version pub_serde ?o ''b'' ''p/t/'' (pub_manifest 7)"
      by (simp add: on_version_def pub_serde_def pub_manifest_def demo_simps demo_lake_def pointer_object_def
          manifest_object_def)
    moreover have "files_there ?o ''b'' ''p/t/'' (tm_files (pub_manifest 7))"
      by (simp add: files_there_def pub_manifest_def uploaded_file_def plain_part_def demo_digits demo_lake_def
          mem_obj_def MANIFEST_PREFIX_def sample_versions)
    ultimately show ?thesis using t by auto
  qed
  ultimately show "table_whole pub_serde ?o ''b'' ?p" by (simp add: table_whole_def)
qed

subsection \<open>Its steps\<close>

lemma plain_config_valid: "valid_config plain_config"
proof -
  have "prefixes_ok [demo_source]"
    by (simp add: prefixes_ok_def demo_source_def malformed_prefix_def suffix_def)
  moreover have "valid_table plain_table"
    by (simp add: valid_table_def plain_table_def demo_table_def schema_types_def)
  moreover have "valid_mapping plain_config plain_mapping"
    by (auto simp: valid_mapping_def demo_defs plain_config_def plain_table_def plain_mapping_def dim_refs_def col_refs_def
          demo_config_nodes)
  ultimately show ?thesis
    by (simp add: valid_config_def plain_config_def plain_mapping_def plain_table_def demo_config_def ids_ok_def demo_source_def demo_countries_def
        demo_mapping_def demo_table_def)
qed

lemma pub_load: "load_config pub_jb 1 w = Some (Inr plain_config, w)"
proof -
  have "validate plain_config = Inr ()" using plain_config_valid by (simp add: validate_ok)
  then show ?thesis
    by (simp add: load_config_def and_then_def task_call_def task_result_def config_for_version_def pub_jb_sel
        demo_pg_def)
qed

lemma pub_task:
  "mapping_task pub_jb plain_config reg ''m'' ''t'' [(''tx/1.csv'', ''b'')] = Inr (Inr ([plain_part], 0))"
proof -
  have "finish_frame pub_jb plain_config plain_mapping ''t'' [(''a'', [Some ''b''])] = Inr ([plain_part], 0)"
  proof -
    have "validate_assertions demo_ops [(''a'', [Some ''b''])] plain_table = []"
      by (simp add: validate_assertions_def plain_table_def demo_table_def column_violations_def)
    then show ?thesis
      by (simp add: finish_frame_def pub_jb_sel plain_sel dedup_rows_def produce_partitions_def
          demo_ops_sel unpartitioned_key_def plain_part_def)
  qed
  then show ?thesis
    by (simp add: mapping_task_def plain_sel pub_jb_sel ingest_many_def plain_file demo_ops_sel)
qed

lemma plain_dims: "cfg_dimensions plain_config = [demo_countries]"
  by (simp add: plain_config_def demo_config_def)

definition pub_entry where "pub_entry = \<lparr>tp_prefix = ''p/t/'', tp_version = 8, tp_files = [uploaded_file ''t'' 7 ''m'' plain_part], tp_touched = False\<rparr>"

lemma pub_init: "init_publishes pub_jb demo_ctx ''p/'' False [plain_table] [] (demo_lake []) = 
   Some (Inr [(''t'', pub_entry)], demo_lake [])"
  by (simp add: and_then_def task_call_def task_result_def pub_jb_sel plain_sel read_current_def read_version_def demo_ctx_def demo_simps demo_lake_def pub_serde_def Let_def
     pub_manifest_def pub_entry_def table_publish_def)

lemma pub_keys: "collect_keys pub_jb demo_ctx [demo_source] [] (demo_lake []) = Some (Inr [''tx/1.csv''], demo_lake [])"
  by (simp add: and_then_def task_try_def task_result_def pub_jb_sel plain_sel mem_list_keys demo_lake_def mem_fault_def demo_ctx_def demo_source_def
   mem_keys_def mem_obj_def extensions_def suffix_def) 

lemma pub_download: "download pub_jb demo_ctx n m [''tx/1.csv''] [] (demo_lake []) = Some (Inr [(''tx/1.csv'', ''b'')], demo_lake [])"
  by (simp add: and_then_def task_run_def task_mod_def check_cancel_def task_result_def pub_jb_sel demo_ctx_def demo_simps demo_lake_def)

lemma pub_matchers: "build_matchers pub_jb demo_ctx plain_config w = Some (Inr demo_registry, w)"
proof -
  have "build_inline_registry (jb_lower pub_jb) [demo_countries] = Inr demo_registry"
    using demo_registry_built [of None] unfolding demo_dims by (simp add: pub_jb_sel)
  then show ?thesis
    by (simp add: build_matchers_def and_then_def task_result_def plain_dims) (simp add: demo_countries_def task_result_def)
qed

definition pub_written where "pub_written = [uploaded_file ''t'' 8 ''m'' plain_part]"

lemma pub_split: "split_once (CHR ''/'') ''t/m.parquet'' = Some (''t'', ''m.parquet'')"
    by (simp add: split_once_def)
definition lake8 where "lake8 = \<lparr>ms_objects =
     [((''b'', ''p/t/_current.json''), ''7''), ((''b'', ''p/t/_manifests/7.json''), ''7''),
      ((''b'', ''p/t/v7/m.parquet''), ''PAR1''), ((''lake'', ''tx/1.csv''), ''b''), ((''b'', ''p/t/v8/m.parquet''), ''PAR1'')], ms_faults = []\<rparr>"
lemma pub_upload:
  "upload_partitions_async mem_s3 ''b'' ''p/'' 8 ''m'' [plain_part] [] (demo_lake [])
     = (Inr [uploaded_file ''t'' 8 ''m'' plain_part], lake8)"
    by (simp add: plain_part_def mem_s3_def mem_fault_def uploaded_file_def Let_def demo_lake_def sample_versions lake8_def pub_split)

lemma pub_mappings:
  "run_mappings pub_jb demo_ctx ''p/'' plain_config reg [(''tx/1.csv'', ''b'')] 0
      [plain_mapping] \<lparr>rs_publishes = [(''t'', pub_entry)], rs_partitions = 0, rs_deduped = 0, rs_errors = []\<rparr> (demo_lake [])
   = Some (Inr \<lparr>rs_publishes = [(''t'', \<lparr>tp_prefix = ''p/t/'', tp_version = 8, tp_files = pub_written, tp_touched = True\<rparr>)], rs_partitions = 1, rs_deduped = 0, rs_errors = []\<rparr>, lake8)"
proof -
  have "apply_mapping_writes [uploaded_file ''t'' 7 ''m'' plain_part] ''m'' [uploaded_file ''t'' 8 ''m'' plain_part] = pub_written"
    by (simp add: apply_mapping_writes_def pub_written_def uploaded_file_def)
  then show ?thesis
  by (simp add: and_then_def check_cancel_def task_run_def task_mod_def task_result_def pub_jb_sel
      run_mapping_def plain_sel pub_task upload_mapping_def pub_entry_def demo_ctx_def
      pub_upload record_writes_def del: upload_partitions_async.simps)
qed

lemma pub_publish: "\<exists>w. publish mem_s3 pub_serde lake8 ''b'' ''p/t/'' \<lparr>tm_version = 8, tm_created_at = ''now'', tm_job_id = None,
                  tm_files = pub_written\<rparr> = (Inr (), w) \<and> mem_obj w (''b'', ''p/t/_current.json'') = Some ''8''"
  by (simp add: publish_def put_document_def demo_simps lake8_def pub_serde_def pub_manifest_def pub_written_def sample_versions)

lemma pub_run:
  "\<exists>w'. execute_job pub_jb demo_ctx ''p/'' ''p'' (Some 1) False (demo_lake [])
     = Some (Inr \<lparr>jo_partitions_written = 1, jo_files_processed = 1, jo_rows_deduped = 0, jo_errors = []\<rparr>, w')"
proof -
  have res: "resolve_version pub_jb ''p'' (Some 1) w = Some (Inr 1, w)" for w by (simp add: resolve_version_def task_result_def)
  obtain w8 where w8: "publish mem_s3 pub_serde lake8 ''b'' ''p/t/'' \<lparr>tm_version = 8, tm_created_at = ''now'', tm_job_id = None,
                  tm_files = pub_written\<rparr> = (Inr (), w8)" "mem_obj w8 (''b'', ''p/t/_current.json'') = Some ''8''" using pub_publish by blast
  from vacuum_total [OF mem_laws] obtain r w9 where w9: "vacuum mem_s3 pub_serde w8 ''b'' ''p/t/'' 8 = Some (r, w9)" by blast
  show ?thesis 
    using w8 w9
    by (simp add: execute_job_def run_config_def and_then_def res pub_load plain_sel pub_init pub_keys pub_download pub_matchers pub_mappings
      task_mod_def task_result_def pub_jb_sel  del: init_publishes.simps collect_keys.simps download.simps run_mappings.simps publish_tables.simps)
      (simp add: and_then_def task_run_def task_try_def task_mod_def demo_ctx_def pub_jb_sel task_result_def)
qed
lemma tables_stay_whole_witness:
  "\<exists>w'. execute_job pub_jb demo_ctx ''p/'' ''p'' (Some 1) False (demo_lake [])
     = Some (Inr \<lparr>jo_partitions_written = 1, jo_files_processed = 1, jo_rows_deduped = 0, jo_errors = []\<rparr>, w')
    \<and> tables_whole pub_serde (mem_obj w') ''b'' ''p/''"
proof -
  from pub_run obtain w' where run: "execute_job pub_jb demo_ctx ''p/'' ''p'' (Some 1) False (demo_lake [])
      = Some (Inr \<lparr>jo_partitions_written = 1, jo_files_processed = 1, jo_rows_deduped = 0, jo_errors = []\<rparr>, w')"
    by blast
  have ids: "\<forall>table \<in> set (cfg_analytic_tables cfg). slash_free (t_id table)"
    if "load_config pub_jb n w1 = Some (Inr cfg, w2)" and "resolve_version pub_jb ''p'' (Some 1) w = Some (Inr n, w1)"
    for n w w1 w2 cfg
    using that by (auto simp: resolve_version_def task_result_def pub_load plain_sel slash_free_def)
  from tables_stay_whole [OF pub_jb_laws _ _ _ run] pub_serde_laws demo_lake_whole run ids
  show ?thesis by (auto simp: pub_jb_sel demo_ctx_def)
qed

end
