(* ===== verification/Job_Compile.thy ===== *)
theory Job_Compile
  imports Job_Properties Evaluator_Proofs
begin

text \<open>
  What a run compiles: the configuration it loads is valid and the matchers it builds, from inline rows
  and from files, cover its dimensions, so that every mapping column compiles.
\<close>

section \<open>Values of tasks\<close>

lemma and_then_Inr:
  "and_then m f w = Some (Inr b, w') \<longleftrightarrow> (\<exists>a u. m w = Some (Inr a, u) \<and> f a u = Some (Inr b, w'))"
  by (auto simp: and_then_def split: option.splits sum.splits prod.splits)

lemma task_result_Inr: "task_result r w = Some (Inr a, w') \<longleftrightarrow> r = Inr a \<and> w' = w"
  by (auto simp: task_result_def)

lemma load_config_valid:
  "load_config jb v w = Some (Inr cfg, w') \<Longrightarrow> validate cfg = Inr ()"
  by (auto simp: load_config_def and_then_Inr task_result_Inr rbind_eq_Inr map_err_eq_Inr)

section \<open>Matchers\<close>

lemma registers_update:
  "registers lower dims reg \<Longrightarrow> dim \<in> set dims \<Longrightarrow> new_matcher lower dim rows = Inr m
    \<Longrightarrow> registers lower dims (reg(d_id dim \<mapsto> m))"
  by (auto simp: registers_def)

text \<open>Loading adds a matcher for every dimension read from files.\<close>

lemma load_dimensions_covers:
  assumes "load_dimensions jb ctx dims reg w = Some (Inr reg', w')"
    and "registers (jb_lower jb) known reg" and "set dims \<subseteq> set known"
  shows "registers (jb_lower jb) known reg'
    \<and> dom reg \<union> d_id ` {d \<in> set dims. \<not> is_inline d} \<subseteq> dom reg'"
  using assms
proof (induction dims arbitrary: reg w)
  case Nil
  then show ?case by (simp add: task_result_Inr)
next
  case (Cons dim dims)
  show ?case
  proof (cases "d_rows dim")
    case (Inline vs rows)
    then have "{d \<in> set (dim # dims). \<not> is_inline d} = {d \<in> set dims. \<not> is_inline d}"
      by (auto simp: is_inline_def)
    with Cons Inline show ?thesis by simp
  next
    case (File pathp key vals prio)
    with Cons.prems(1) obtain rows m u where m: "new_matcher (jb_lower jb) dim rows = Inr m"
      and rest: "load_dimensions jb ctx dims (reg(d_id dim \<mapsto> m)) u = Some (Inr reg', w')"
      by (auto simp: and_then_Inr task_result_Inr map_err_eq_Inr)
    from Cons.prems(2,3) m have "registers (jb_lower jb) known (reg(d_id dim \<mapsto> m))"
      by (auto intro: registers_update)
    from Cons.IH [OF rest this] Cons.prems(3)
    have "registers (jb_lower jb) known reg'" "d_id ` {d \<in> set dims. \<not> is_inline d} \<subseteq> dom reg'"
      "insert (d_id dim) (dom reg) \<subseteq> dom reg'" unfolding dom_fun_upd by simp_all
    then show ?thesis by auto
  qed
qed

lemma build_matchers_covers:
  assumes "build_matchers jb ctx cfg w = Some (Inr reg, w')"
  shows "covers (jb_lower jb) (cfg_dimensions cfg) reg"
proof -
  from assms obtain base u where base: "build_inline_registry (jb_lower jb) (cfg_dimensions cfg) = Inr base"
    and load: "load_dimensions jb ctx (cfg_dimensions cfg) base u = Some (Inr reg, w')"
    by (auto simp: build_matchers_def and_then_Inr task_result_Inr map_err_eq_Inr)
  note b = build_inline_Inr [OF base]
  from load_dimensions_covers [OF load, of "cfg_dimensions cfg"] b
  have "registers (jb_lower jb) (cfg_dimensions cfg) reg"
    "d_id ` {d \<in> set (cfg_dimensions cfg). is_inline d} \<union> d_id ` {d \<in> set (cfg_dimensions cfg). \<not> is_inline d} \<subseteq> dom reg"
    by simp_all
  then show ?thesis unfolding covers_def by blast
qed

section \<open>Property\<close>

text \<open>C15: A run's mapping columns are well formed. Once a run has loaded its configuration and built
  its matchers, from inline rows and reference files alike, every column expression of every mapping
  compiles against them, and no lookup in any of the matchers panics.\<close>

theorem run_columns_compile:
  assumes "load_config jb v w = Some (Inr cfg, u)"
    and "build_matchers jb ctx cfg w1 = Some (Inr reg, w2)"
    and "mp \<in> set (cfg_mappings cfg)" and "c \<in> set (m_columns mp)"
  shows "is_ok (compile (jb_lower jb) reg (mc_expr c))
    \<and> (\<forall>k m s i. reg k = Some m \<longrightarrow> lookup (jb_lower jb) m s i \<noteq> Inl Panic)"
proof -
  note covers = build_matchers_covers [OF assms(2)]
  have "valid_config cfg" using load_config_valid [OF assms(1)] by (simp add: validate_ok)
  from valid_columns_compile [OF this covers assms(3,4)]
  have "is_ok (compile (jb_lower jb) reg (mc_expr c))" .
  moreover have "lookup (jb_lower jb) m s i \<noteq> Inl Panic" if "reg k = Some m" for k m s i
  proof -
    have "built (jb_lower jb) m" using covers that unfolding covers_def by (blast intro: registers_built)
    from lookup_total [OF this, of s i] show ?thesis by auto
  qed
  ultimately show ?thesis by blast
qed

lemma run_columns_compile_witness:
  "\<exists>reg w. build_matchers (demo_jb ''good'') demo_ctx (demo_config None) \<lparr>ms_objects = [], ms_faults = []\<rparr> = Some (Inr reg, w)
    \<and> is_ok (compile (\<lambda>s. s) reg (DimRef ''c'' (Some ''n'') (Col ''a'')))"
proof -
  let ?w = "\<lparr>ms_objects = [], ms_faults = []\<rparr>"
  have load: "load_config (demo_jb ''good'') 1 ?w = Some (Inr (demo_config None), ?w)"
    by (simp add: load_config_def and_then_def task_call_def task_result_def config_for_version_def demo_jb_def
        demo_pg_def demo_config_ok)
  have build: "build_matchers (demo_jb ''good'') demo_ctx (demo_config None) ?w = Some (Inr demo_registry, ?w)"
    using demo_registry_built
    by (simp add: build_matchers_def and_then_def task_result_def demo_jb_sel demo_dims)
      (simp add: demo_countries_def task_result_def)
  from run_columns_compile [OF load build, of "demo_mapping None"
      "\<lparr>mc_name = ''x'', mc_expr = DimRef ''c'' (Some ''n'') (Col ''a'')\<rparr>"] build
  show ?thesis by (simp add: demo_config_def) (simp add: demo_mapping_def demo_jb_sel)
qed

end
