(* ===== verification/Redis.thy ===== *)
theory Redis
  imports Prelude Rust_Text "HOL-Library.State_Monad"
begin

text \<open>
  The Redis client. Redis is a service: its commands are the fields of \<open>RedisOps\<close>, functions of the
  state \<open>'w\<close> of the outside world, and what the source sends is a program over them. A command, a
  pipeline and a Lua script each take one round trip: \<open>rd_trip\<close> says what else happens before it
  (time, expiry, other clients) and whether it arrives. A trip that fails was not executed, or was
  executed and its reply lost. What a script does is a sequence of commands on one state, since the
  server runs it atomically; a pipeline that is not a transaction is treated the same way.
\<close>

section \<open>Commands\<close>

datatype Trip = Delivered | Refused string | ReplyLost string

text \<open>Entries of the stream: their id and \<open>payload\<close> field, if it is a string.\<close>

type_synonym Entry = "string \<times> string option"

text \<open>\<open>rd_set_nx\<close> is \<open>SET NX PX\<close> and answers the value the key had: with \<open>GET\<close> that is the reply,
  without it the reply only tells whether there was none.
  \<open>rd_zdue\<close> is \<open>ZRANGEBYSCORE -inf max LIMIT 0 n\<close>. \<open>rd_xadd\<close> takes the approximate maximal length,
  \<open>rd_xautoclaim\<close> the idle time in milliseconds; both group reads return at most one entry, as the
  source asks. \<open>rd_scan\<close> takes a cursor and answers the next one. \<open>uuid_hex\<close> is a fresh version 4
  UUID in simple form.\<close>

record 'w RedisOps =
  rd_connect :: "'w \<Rightarrow> (string + unit) \<times> 'w"
  rd_trip :: "'w \<Rightarrow> Trip \<times> 'w"
  rd_get :: "'w \<Rightarrow> string \<Rightarrow> string option"
  rd_set_nx :: "'w \<Rightarrow> string \<Rightarrow> string \<Rightarrow> nat \<Rightarrow> string option \<times> 'w"
  rd_del :: "'w \<Rightarrow> string \<Rightarrow> int \<times> 'w"
  rd_pexpire :: "'w \<Rightarrow> string \<Rightarrow> nat \<Rightarrow> int \<times> 'w"
  rd_expire :: "'w \<Rightarrow> string \<Rightarrow> nat \<Rightarrow> 'w"
  rd_hget :: "'w \<Rightarrow> string \<Rightarrow> string \<Rightarrow> string option"
  rd_hset :: "'w \<Rightarrow> string \<Rightarrow> string \<Rightarrow> string \<Rightarrow> 'w"
  rd_hincr :: "'w \<Rightarrow> string \<Rightarrow> string \<Rightarrow> int \<Rightarrow> int \<times> 'w"
  rd_zadd :: "'w \<Rightarrow> string \<Rightarrow> string \<Rightarrow> int \<Rightarrow> 'w"
  rd_zrem :: "'w \<Rightarrow> string \<Rightarrow> string \<Rightarrow> 'w"
  rd_zdue :: "'w \<Rightarrow> string \<Rightarrow> int \<Rightarrow> nat \<Rightarrow> string list"
  rd_xadd :: "'w \<Rightarrow> string \<Rightarrow> nat \<Rightarrow> string \<Rightarrow> 'w"
  rd_xack :: "'w \<Rightarrow> string \<Rightarrow> string \<Rightarrow> string \<Rightarrow> 'w"
  rd_xclaim :: "'w \<Rightarrow> string \<Rightarrow> string \<Rightarrow> string \<Rightarrow> string \<Rightarrow> 'w"
  rd_xreadgroup :: "'w \<Rightarrow> string \<Rightarrow> string \<Rightarrow> string \<Rightarrow> Entry list \<times> 'w"
  rd_xautoclaim :: "'w \<Rightarrow> string \<Rightarrow> string \<Rightarrow> string \<Rightarrow> nat \<Rightarrow> Entry list \<times> 'w"
  rd_xgroup_create :: "'w \<Rightarrow> string \<Rightarrow> string \<Rightarrow> (string + unit) \<times> 'w"
  rd_xrange :: "'w \<Rightarrow> string \<Rightarrow> Entry list"
  rd_scan :: "'w \<Rightarrow> nat \<Rightarrow> string \<Rightarrow> nat \<times> string list"
  rd_publish :: "'w \<Rightarrow> string \<Rightarrow> string \<Rightarrow> 'w"
  clock_ms :: "'w \<Rightarrow> int"
  clock_iso :: "'w \<Rightarrow> string"
  uuid_hex :: "'w \<Rightarrow> string \<times> 'w"

section \<open>Round trips\<close>

type_synonym ('w, 'a) prog = "('w, 'a) state"

definition send :: "'w RedisOps \<Rightarrow> ('w \<Rightarrow> 'a \<times> 'w) \<Rightarrow> ('w, string + 'a) prog" where
  "send r command = State (\<lambda>w.
     case rd_trip r w of
       (Delivered, w') \<Rightarrow> (case command w' of (a, w'') \<Rightarrow> (Inr a, w''))
     | (Refused e, w') \<Rightarrow> (Inl e, w')
     | (ReplyLost e, w') \<Rightarrow> (Inl e, snd (command w')))"

text \<open>A trip that only reads, and one whose reply is not used.\<close>

definition ask :: "'w RedisOps \<Rightarrow> ('w \<Rightarrow> 'a) \<Rightarrow> ('w, string + 'a) prog" where
  "ask r f = send r (\<lambda>w. (f w, w))"

definition tell :: "'w RedisOps \<Rightarrow> ('w \<Rightarrow> 'w) \<Rightarrow> ('w, string + unit) prog" where
  "tell r f = send r (\<lambda>w. ((), f w))"

definition read_clock :: "('w \<Rightarrow> 'a) \<Rightarrow> ('w, 'a) prog" where
  "read_clock f = State (\<lambda>w. (f w, w))"

text \<open>\<open>HSET\<close> of several fields in a row.\<close>

definition hset_all :: "'w RedisOps \<Rightarrow> string \<Rightarrow> (string \<times> string) list \<Rightarrow> 'w \<Rightarrow> 'w" where
  "hset_all r key fvs w = fold (\<lambda>(f, v) w. rd_hset r w key f v) fvs w"

definition map_ok :: "('a \<Rightarrow> 'b) \<Rightarrow> 'e + 'a \<Rightarrow> 'e + 'b" where
  "map_ok f x = (case x of Inl e \<Rightarrow> Inl e | Inr a \<Rightarrow> Inr (f a))"

lemma map_ok_simps [simp]: "map_ok f (Inl e) = Inl e" "map_ok f (Inr a) = Inr (f a)"
  by (simp_all add: map_ok_def)

end
