(* ===== verification/Queue.thy ===== *)
theory Queue
  imports Redis Job Http
begin

text \<open>
  Models \<open>src/queue.rs\<close>: the keys, job ids and backoff, enqueueing, the run lock, the handling of
  one claimed entry, and the passes of the background loops. Every function is a program over the
  Redis commands; the database, the clock and the executor are reached through the same state.
  Log lines are not modelled.
\<close>

section \<open>Keys and settings\<close>

definition STREAM_KEY :: string where "STREAM_KEY = ''karet:jobs:stream''"
definition GROUP :: string where "GROUP = ''workers''"
definition DELAYED_KEY :: string where "DELAYED_KEY = ''karet:jobs:delayed''"
definition DEBOUNCE_KEY :: string where "DEBOUNCE_KEY = ''karet:debounce''"
definition STREAM_MAXLEN :: nat where "STREAM_MAXLEN = 4096"
definition QUIET_MS :: int where "QUIET_MS = 5000"
definition MAX_WAIT_MS :: int where "MAX_WAIT_MS = 30000"

definition live_key :: "string \<Rightarrow> string" where "live_key job_id = ''karet:jobs:live:'' @ job_id"
definition index_key :: "string \<Rightarrow> string" where "index_key pipeline = ''karet:jobs:index:'' @ pipeline"
definition lock_key :: "string \<Rightarrow> string" where "lock_key pipeline = ''karet:lock:pipeline:'' @ pipeline"
definition debounce_first_key :: "string \<Rightarrow> string" where
  "debounce_first_key slug = ''karet:debounce:first:'' @ slug"
definition events_channel :: "string \<Rightarrow> string" where
  "events_channel pipeline = ''karet:jobs:events:'' @ pipeline"

record QueueSettings =
  qs_max_attempts :: nat
  qs_lock_ttl_ms :: nat
  qs_heartbeat_ms :: nat
  qs_reclaim_idle_ms :: nat
  qs_live_terminal_ttl_s :: nat

definition default_settings :: QueueSettings where
  "default_settings = \<lparr>qs_max_attempts = 3, qs_lock_ttl_ms = 90000, qs_heartbeat_ms = 30000,
     qs_reclaim_idle_ms = 120000, qs_live_terminal_ttl_s = 24 * 60 * 60\<rparr>"

record JobMessage =
  jm_job_id :: string
  jm_pipeline :: string
  jm_prefix :: string
  jm_config_version_id :: "int option"
  jm_clean_run :: bool
  jm_trigger :: string
  jm_enqueued_at :: int

text \<open>The \<open>serde_json\<close> conversions of a message.\<close>

record MessageJson =
  enc_message :: "JobMessage \<Rightarrow> string"
  dec_message :: "string \<Rightarrow> string + JobMessage"

text \<open>The shared context of the loops.\<close>

record 'w QueueCtx =
  qc_redis :: "'w RedisOps"
  qc_pg :: "'w PgOps"
  qc_json :: MessageJson
  qc_consumer_name :: string
  qc_settings :: QueueSettings

section \<open>Job ids and backoff\<close>

definition base36_digit :: "nat \<Rightarrow> char" where
  "base36_digit d = ''0123456789abcdefghijklmnopqrstuvwxyz'' ! d"

text \<open>The loop pushes the digits from the least significant one; they are reversed at the end.\<close>

function base36_digits :: "int \<Rightarrow> string" where
  "base36_digits n = (if 0 < n then base36_digit (nat (n mod 36)) # base36_digits (n div 36) else [])"
  by pat_completeness auto
termination by (relation "measure nat") (auto simp: nat_less_iff int_one_le_iff_zero_less)

declare base36_digits.simps [simp del]

definition to_base36 :: "int \<Rightarrow> string" where
  "to_base36 n = (if n \<le> 0 then ''0'' else rev (base36_digits n))"

definition new_job_id :: "'w RedisOps \<Rightarrow> ('w, string) prog" where
  "new_job_id r = do {
     suffix \<leftarrow> State (uuid_hex r);
     now \<leftarrow> read_clock (clock_ms r);
     State_Monad.return (''job-'' @ to_base36 now @ ''-'' @ take 6 suffix) }"

text \<open>\<open>saturating_mul\<close> on \<open>i64\<close>; \<open>saturating_sub\<close> is subtraction of naturals.\<close>

definition saturating_mul :: "int \<Rightarrow> int \<Rightarrow> int" where
  "saturating_mul a b = max i64_min (min i64_max (a * b))"

definition backoff_ms :: "nat \<Rightarrow> int" where
  "backoff_ms attempts =
     (let base = 30000; capped = saturating_mul base (2 ^ min (attempts - 1) 6)
      in min capped 600000)"

section \<open>Enqueueing\<close>

text \<open>Best effort: the outcome is dropped.\<close>

definition publish_job_event :: "'w QueueCtx \<Rightarrow> string \<Rightarrow> string \<Rightarrow> ('w, unit) prog" where
  "publish_job_event q pipeline job_id = do {
     _ \<leftarrow> tell (qc_redis q) (\<lambda>w. rd_publish (qc_redis q) w (events_channel pipeline) job_id);
     State_Monad.return () }"

definition enqueue_commands :: "'w RedisOps \<Rightarrow> string \<Rightarrow> JobMessage \<Rightarrow> 'w \<Rightarrow> 'w" where
  "enqueue_commands r payload msg w =
     (let live = live_key (jm_job_id msg);
          w1 = rd_xadd r w STREAM_KEY STREAM_MAXLEN payload;
          w2 = hset_all r live [(''status'', ''queued''), (''pipeline'', jm_pipeline msg),
                 (''trigger'', jm_trigger msg), (''enqueued_at'', show_int (jm_enqueued_at msg)),
                 (''clean_run'', show_bool (jm_clean_run msg))] w1;
          w3 = rd_zadd r w2 (index_key (jm_pipeline msg)) (jm_job_id msg) (jm_enqueued_at msg)
      in rd_expire r w3 live (7 * 24 * 60 * 60))"

definition enqueue :: "'w QueueCtx \<Rightarrow> JobMessage \<Rightarrow> ('w, string + unit) prog" where
  "enqueue q msg = do {
     sent \<leftarrow> tell (qc_redis q) (enqueue_commands (qc_redis q) (enc_message (qc_json q) msg) msg);
     case sent of
       Inl e \<Rightarrow> State_Monad.return (Inl e)
     | Inr _ \<Rightarrow> do {
         publish_job_event q (jm_pipeline msg) (jm_job_id msg);
         State_Monad.return (Inr ()) } }"

definition ensure_group :: "'w RedisOps \<Rightarrow> ('w, string + unit) prog" where
  "ensure_group r = do {
     created \<leftarrow> send r (\<lambda>w. rd_xgroup_create r w STREAM_KEY GROUP);
     State_Monad.return (case created of
         Inr (Inr _) \<Rightarrow> Inr ()
       | Inr (Inl e) \<Rightarrow> if str_contains e ''BUSYGROUP'' then Inr () else Inl e
       | Inl e \<Rightarrow> if str_contains e ''BUSYGROUP'' then Inr () else Inl e) }"

section \<open>The run lock\<close>

definition release_lock_script :: "'w RedisOps \<Rightarrow> string \<Rightarrow> string \<Rightarrow> 'w \<Rightarrow> int \<times> 'w" where
  "release_lock_script r key arg w = (if rd_get r w key = Some arg then rd_del r w key else (0, w))"

definition renew_lock_script :: "'w RedisOps \<Rightarrow> string \<Rightarrow> string \<Rightarrow> nat \<Rightarrow> 'w \<Rightarrow> int \<times> 'w" where
  "renew_lock_script r key arg ttl w =
     (if rd_get r w key = Some arg then rd_pexpire r w key ttl else (0, w))"

definition fence :: "string \<Rightarrow> nat \<Rightarrow> string" where
  "fence job_id attempt = job_id @ '':'' @ show_nat attempt"

definition try_lock :: "'w RedisOps \<Rightarrow> string \<Rightarrow> string \<Rightarrow> nat \<Rightarrow> ('w, string + bool) prog" where
  "try_lock r pipeline token ttl_ms = do {
     old \<leftarrow> send r (\<lambda>w. rd_set_nx r w (lock_key pipeline) token ttl_ms);
     State_Monad.return (map_ok (\<lambda>v. v = None) old) }"

definition release_lock :: "'w RedisOps \<Rightarrow> string \<Rightarrow> string \<Rightarrow> ('w, string + unit) prog" where
  "release_lock r pipeline token = do {
     res \<leftarrow> send r (release_lock_script r (lock_key pipeline) token);
     State_Monad.return (map_ok (\<lambda>_. ()) res) }"

definition renew_lock :: "'w RedisOps \<Rightarrow> string \<Rightarrow> string \<Rightarrow> nat \<Rightarrow> ('w, string + bool) prog" where
  "renew_lock r pipeline token ttl_ms = do {
     renewed \<leftarrow> send r (renew_lock_script r (lock_key pipeline) token ttl_ms);
     State_Monad.return (map_ok (\<lambda>n. n = 1) renewed) }"

section \<open>Terminal state\<close>

record Terminal =
  te_status :: string
  te_error :: "string option"
  te_errors :: "string list"
  te_partitions_written :: "nat option"
  te_files_processed :: "nat option"
  te_rows_deduped :: "nat option"

text \<open>A failure without counters, the shape of every early failure.\<close>

definition failed_terminal :: "string \<Rightarrow> Terminal" where
  "failed_terminal e = \<lparr>te_status = ''failed'', te_error = Some e, te_errors = [],
     te_partitions_written = None, te_files_processed = None, te_rows_deduped = None\<rparr>"

text \<open>How a further message is put behind an error.\<close>

definition append_message :: "string option \<Rightarrow> string \<Rightarrow> string option" where
  "append_message error extra =
     Some (case error of Some prior \<Rightarrow> prior @ '' ('' @ extra @ '')'' | None \<Rightarrow> extra)"

definition joined_error :: "Terminal \<Rightarrow> string option" where
  "joined_error t = (if te_errors t = [] then te_error t
                     else append_message (te_error t) (join ''; '' (te_errors t)))"

text \<open>The counters are cast to \<open>i32\<close>.\<close>

definition outcome_row :: "Terminal \<Rightarrow> JobOutcomeRow" where
  "outcome_row t = \<lparr>jr_status = te_status t, jr_error = joined_error t,
     jr_files_processed = map_option of_nat (te_files_processed t),
     jr_partitions_written = map_option of_nat (te_partitions_written t),
     jr_rows_deduped =
       (case te_rows_deduped t of
          None \<Rightarrow> None | Some n \<Rightarrow> if 0 < n then Some (of_nat n) else None)\<rparr>"

definition terminal_commands ::
  "'w QueueCtx \<Rightarrow> string \<Rightarrow> Terminal \<Rightarrow> string \<Rightarrow> string option \<Rightarrow> 'w \<Rightarrow> 'w" where
  "terminal_commands q job_id t completed_at error w =
     (let r = qc_redis q; live = live_key job_id;
          w1 = hset_all r live [(''status'', te_status t), (''finished_at'', completed_at)] w;
          w2 = rd_expire r w1 live (qs_live_terminal_ttl_s (qc_settings q));
          w3 = (case error of None \<Rightarrow> w2 | Some e \<Rightarrow> rd_hset r w2 live ''error'' e)
      in case te_partitions_written t of
           None \<Rightarrow> w3 | Some n \<Rightarrow> rd_hset r w3 live ''partitions_written'' (show_nat n))"

definition ack :: "'w QueueCtx \<Rightarrow> string \<Rightarrow> ('w, string + unit) prog" where
  "ack q stream_id = tell (qc_redis q) (\<lambda>w. rd_xack (qc_redis q) w STREAM_KEY GROUP stream_id)"

text \<open>After the fence check: the row, the live hash, the lock, the entry, in that order. The row's
  failure becomes part of the error; the acknowledgement's is dropped.\<close>

definition finish_writes ::
  "'w QueueCtx \<Rightarrow> JobMessage \<Rightarrow> string \<Rightarrow> nat \<Rightarrow> Terminal \<Rightarrow> ('w, string + unit) prog" where
  "finish_writes q msg stream_id attempts t = do {
     completed_at \<leftarrow> read_clock (clock_iso (qc_redis q));
     row \<leftarrow> State (\<lambda>w. mark_finished (qc_pg q) w (jm_job_id msg) (outcome_row t));
     let error = (case row of
         Inl e \<Rightarrow> append_message (joined_error t)
                    (''terminal row write failed for '' @ jm_job_id msg @ '': '' @ e)
       | Inr _ \<Rightarrow> joined_error t);
     live \<leftarrow> tell (qc_redis q) (terminal_commands q (jm_job_id msg) t completed_at error);
     case live of
       Inl e \<Rightarrow> State_Monad.return (Inl (''live terminal update failed: '' @ e))
     | Inr _ \<Rightarrow> do {
         publish_job_event q (jm_pipeline msg) (jm_job_id msg);
         released \<leftarrow> release_lock (qc_redis q) (jm_pipeline msg) (fence (jm_job_id msg) attempts);
         case released of
           Inl e \<Rightarrow> State_Monad.return (Inl (''lock release failed: '' @ e))
         | Inr _ \<Rightarrow> do {
             ack q stream_id;
             State_Monad.return (Inr ()) } } }"

text \<open>A holder with another token makes the call a no-op that succeeds.\<close>

definition finish_job ::
  "'w QueueCtx \<Rightarrow> JobMessage \<Rightarrow> string \<Rightarrow> nat \<Rightarrow> Terminal \<Rightarrow> ('w, string + unit) prog" where
  "finish_job q msg stream_id attempts t = do {
     holder \<leftarrow> ask (qc_redis q) (\<lambda>w. rd_get (qc_redis q) w (lock_key (jm_pipeline msg)));
     case holder of
       Inl e \<Rightarrow> State_Monad.return (Inl (''fence check failed: '' @ e))
     | Inr (Some v) \<Rightarrow>
         if v \<noteq> fence (jm_job_id msg) attempts then State_Monad.return (Inr ())
         else finish_writes q msg stream_id attempts t
     | Inr None \<Rightarrow> finish_writes q msg stream_id attempts t }"

definition defer_commands :: "'w QueueCtx \<Rightarrow> string \<Rightarrow> string \<Rightarrow> int \<Rightarrow> 'w \<Rightarrow> 'w" where
  "defer_commands q payload stream_id fire_at_ms w =
     rd_xack (qc_redis q) (rd_zadd (qc_redis q) w DELAYED_KEY payload fire_at_ms) STREAM_KEY GROUP stream_id"

definition defer_message :: "'w QueueCtx \<Rightarrow> JobMessage \<Rightarrow> string \<Rightarrow> int \<Rightarrow> ('w, string + unit) prog" where
  "defer_message q msg stream_id fire_at_ms =
     tell (qc_redis q) (defer_commands q (enc_message (qc_json q) msg) stream_id fire_at_ms)"

section \<open>Claiming\<close>

text \<open>The reply of \<open>HINCRBY\<close> read as a \<open>u32\<close>; a failure counts as the first attempt.\<close>

definition attempts_of :: "string + int \<Rightarrow> nat" where
  "attempts_of reply = (case reply of
     Inr n \<Rightarrow> if 0 \<le> n \<and> n < 2 ^ 32 then nat n else 1 | Inl _ \<Rightarrow> 1)"

definition bump_attempts :: "'w QueueCtx \<Rightarrow> string \<Rightarrow> int \<Rightarrow> ('w, string + int) prog" where
  "bump_attempts q job_id n =
     send (qc_redis q) (\<lambda>w. rd_hincr (qc_redis q) w (live_key job_id) ''attempts'' n)"

text \<open>The lock attempt, once the attempt is counted: busy puts the message off for 30 seconds and
  gives the attempt back; an error leaves the entry to the reclaimer.\<close>

definition acquire ::
  "'w QueueCtx \<Rightarrow> JobMessage \<Rightarrow> string \<Rightarrow> nat \<Rightarrow> ('w, nat option) prog" where
  "acquire q msg stream_id attempts = do {
     locked \<leftarrow> try_lock (qc_redis q) (jm_pipeline msg) (fence (jm_job_id msg) attempts)
                 (qs_lock_ttl_ms (qc_settings q));
     case locked of
       Inr True \<Rightarrow> State_Monad.return (Some attempts)
     | Inr False \<Rightarrow> do {
         bump_attempts q (jm_job_id msg) (- 1);
         now \<leftarrow> read_clock (clock_ms (qc_redis q));
         defer_message q msg stream_id (now + 30000);
         State_Monad.return None }
     | Inl _ \<Rightarrow> State_Monad.return None }"

definition gave_up :: "nat \<Rightarrow> Terminal" where
  "gave_up attempts = failed_terminal (''gave up after '' @ show_nat (attempts - 1)
     @ '' attempts (worker crashes or repeated transient failures)'')"

definition claim_attempt :: "'w QueueCtx \<Rightarrow> JobMessage \<Rightarrow> string \<Rightarrow> ('w, nat option) prog" where
  "claim_attempt q msg stream_id = do {
     reply \<leftarrow> bump_attempts q (jm_job_id msg) 1;
     let attempts = attempts_of reply;
     if qs_max_attempts (qc_settings q) < attempts
     then do {
       finish_job q msg stream_id attempts (gave_up attempts);
       State_Monad.return None }
     else acquire q msg stream_id attempts }"

definition is_terminal :: "string option \<Rightarrow> bool" where
  "is_terminal status \<longleftrightarrow> status \<in> {Some ''completed'', Some ''failed'', Some ''abandoned''}"

text \<open>The gate on the prefix, the guard against redelivery, then the attempt. The result is the
  attempt to run, if there is one.\<close>

definition claim_message :: "'w QueueCtx \<Rightarrow> JobMessage \<Rightarrow> string \<Rightarrow> ('w, nat option) prog" where
  "claim_message q msg stream_id =
     (case validate_pipeline_prefix (jm_prefix msg) of
        Inl reason \<Rightarrow> do {
          finish_job q msg stream_id 1 (failed_terminal (''invalid pipeline_prefix: '' @ reason));
          State_Monad.return None }
      | Inr _ \<Rightarrow> do {
          status \<leftarrow> ask (qc_redis q) (\<lambda>w. rd_hget (qc_redis q) w (live_key (jm_job_id msg)) ''status'');
          if is_terminal (case status of Inr s \<Rightarrow> s | Inl _ \<Rightarrow> None)
          then do { ack q stream_id; State_Monad.return None }
          else claim_attempt q msg stream_id })"

definition claim ::
  "'w QueueCtx \<Rightarrow> string \<Rightarrow> string \<Rightarrow> ('w, (JobMessage \<times> nat) option) prog" where
  "claim q stream_id payload = do {
     conn \<leftarrow> State (rd_connect (qc_redis q));
     case conn of
       Inl _ \<Rightarrow> State_Monad.return None
     | Inr _ \<Rightarrow>
         (case dec_message (qc_json q) payload of
            Inl _ \<Rightarrow> do { ack q stream_id; State_Monad.return None }
          | Inr msg \<Rightarrow> do {
              attempt \<leftarrow> claim_message q msg stream_id;
              State_Monad.return (map_option (Pair msg) attempt) }) }"

section \<open>Running\<close>

definition begin_run :: "'w QueueCtx \<Rightarrow> JobMessage \<Rightarrow> ('w, unit) prog" where
  "begin_run q msg = do {
     started_at \<leftarrow> read_clock (clock_iso (qc_redis q));
     tell (qc_redis q) (hset_all (qc_redis q) (live_key (jm_job_id msg))
       [(''status'', ''running''), (''worker'', qc_consumer_name q), (''started_at'', started_at)]);
     publish_job_event q (jm_pipeline msg) (jm_job_id msg);
     State (\<lambda>w. mark_running (qc_pg q) w (jm_job_id msg) (qc_consumer_name q));
     State_Monad.return () }"

text \<open>One update of the progress writer.\<close>

definition write_progress :: "'w QueueCtx \<Rightarrow> JobMessage \<Rightarrow> Progress \<Rightarrow> ('w, unit) prog" where
  "write_progress q msg p = do {
     let fvs = (case p of
         Downloading n_done n_total \<Rightarrow>
           [(''stage'', ''downloading''), (''files_done'', show_nat n_done), (''files_total'', show_nat n_total)]
       | Ingesting n_done n_total written \<Rightarrow>
           [(''stage'', ''ingesting''), (''mappings_done'', show_nat n_done),
            (''mappings_total'', show_nat n_total), (''partitions_written'', show_nat written)]);
     sent \<leftarrow> tell (qc_redis q) (hset_all (qc_redis q) (live_key (jm_job_id msg)) fvs);
     case sent of
       Inl _ \<Rightarrow> State_Monad.return ()
     | Inr _ \<Rightarrow> publish_job_event q (jm_pipeline msg) (jm_job_id msg) }"

text \<open>One beat of the heartbeat, with or without a connection: it ends when the lock is lost, after
  setting the cancel flag, else goes on with or without a connection.\<close>

datatype Beat = BeatLost | BeatGoesOn bool

definition heartbeat :: "'w QueueCtx \<Rightarrow> JobMessage \<Rightarrow> nat \<Rightarrow> string \<Rightarrow> bool \<Rightarrow> ('w, Beat) prog" where
  "heartbeat q msg attempts stream_id connected = do {
     conn \<leftarrow> (if connected then State_Monad.return (Inr ()) else State (rd_connect (qc_redis q)));
     case conn of
       Inl _ \<Rightarrow> State_Monad.return (BeatGoesOn False)
     | Inr _ \<Rightarrow> do {
         renewed \<leftarrow> renew_lock (qc_redis q) (jm_pipeline msg) (fence (jm_job_id msg) attempts)
                      (qs_lock_ttl_ms (qc_settings q));
         case renewed of
           Inr True \<Rightarrow> do {
             claimed \<leftarrow> tell (qc_redis q) (\<lambda>w. rd_xclaim (qc_redis q) w STREAM_KEY GROUP (qc_consumer_name q) stream_id);
             State_Monad.return (BeatGoesOn (is_ok claimed)) }
         | Inr False \<Rightarrow> State_Monad.return BeatLost
         | Inl _ \<Rightarrow> State_Monad.return (BeatGoesOn False) } }"

text \<open>What a run's outcome is recorded as; "completed" is for runs without an error.\<close>

definition outcome_terminal :: "JobOutcome \<Rightarrow> Terminal" where
  "outcome_terminal out =
     \<lparr>te_status = (if jo_errors out = [] then ''completed'' else ''failed''),
      te_error = (if jo_errors out = [] then None
         else Some (show_nat (jo_partitions_written out) @ '' partitions written, ''
           @ show_nat (length (jo_errors out)) @ '' error(s): '' @ hd (jo_errors out))),
      te_errors = jo_errors out, te_partitions_written = Some (jo_partitions_written out),
      te_files_processed = Some (jo_files_processed out), te_rows_deduped = Some (jo_rows_deduped out)\<rparr>"

definition no_files_terminal :: Terminal where
  "no_files_terminal = \<lparr>te_status = ''completed'', te_error = Some ''no CSV files found to process'',
     te_errors = [], te_partitions_written = Some 0, te_files_processed = Some 0, te_rows_deduped = None\<rparr>"

text \<open>A configuration that could not be read: the lock is released first, then the job is put off, or
  failed on the last attempt, whether or not the release succeeded.\<close>

definition retry_or_fail ::
  "'w QueueCtx \<Rightarrow> JobMessage \<Rightarrow> string \<Rightarrow> nat \<Rightarrow> string \<Rightarrow> ('w, string + unit) prog" where
  "retry_or_fail q msg stream_id attempts e = do {
     released \<leftarrow> release_lock (qc_redis q) (jm_pipeline msg) (fence (jm_job_id msg) attempts);
     rest \<leftarrow> (if qs_max_attempts (qc_settings q) \<le> attempts
        then finish_job q msg stream_id attempts (failed_terminal e)
        else do {
          tell (qc_redis q) (\<lambda>w. rd_hset (qc_redis q) w (live_key (jm_job_id msg)) ''status'' ''queued'');
          now \<leftarrow> read_clock (clock_ms (qc_redis q));
          deferred \<leftarrow> defer_message q msg stream_id (now + backoff_ms attempts);
          State_Monad.return (map_err (\<lambda>e. ''defer failed: '' @ e) deferred) });
     State_Monad.return (rbind (map_err (\<lambda>e. ''lock release failed: '' @ e) released) (\<lambda>_. rest)) }"

definition settle ::
  "'w QueueCtx \<Rightarrow> JobMessage \<Rightarrow> string \<Rightarrow> nat \<Rightarrow> JobError + JobOutcome \<Rightarrow> ('w, string + unit) prog" where
  "settle q msg stream_id attempts outcome =
     (case outcome of
        Inr out \<Rightarrow> finish_job q msg stream_id attempts (outcome_terminal out)
      | Inl NoFiles \<Rightarrow> finish_job q msg stream_id attempts no_files_terminal
      | Inl (ConfigRead e) \<Rightarrow> retry_or_fail q msg stream_id attempts e
      | Inl Cancelled \<Rightarrow> State_Monad.return (Inr ())
      | Inl e \<Rightarrow> finish_job q msg stream_id attempts (failed_terminal (job_error_display e)))"

text \<open>The process: its in-flight counter and consumer flag, and the world. \<open>run\<close> is the executor
  with the heartbeat and the progress writer beside it; \<open>None\<close> when it never returns.\<close>

record 'w Worker =
  wk_world :: 'w
  wk_in_flight :: nat
  wk_consumer_ok :: bool

definition step_world :: "('w, 'a) prog \<Rightarrow> 'w Worker \<Rightarrow> 'a \<times> 'w Worker" where
  "step_world p s = (case run_state p (wk_world s) of (a, w') \<Rightarrow> (a, s\<lparr>wk_world := w'\<rparr>))"

type_synonym 'w Executor = "JobMessage \<Rightarrow> nat \<Rightarrow> string \<Rightarrow> 'w \<Rightarrow> ((JobError + JobOutcome) \<times> 'w) option"

definition handle_claimed ::
  "'w QueueCtx \<Rightarrow> 'w Executor \<Rightarrow> string \<Rightarrow> string \<Rightarrow> 'w Worker \<Rightarrow> 'w Worker option" where
  "handle_claimed q run stream_id payload s =
     (case step_world (claim q stream_id payload) s of
        (None, s1) \<Rightarrow> Some s1
      | (Some (msg, attempts), s1) \<Rightarrow>
          (case step_world (begin_run q msg) (s1\<lparr>wk_in_flight := wk_in_flight s1 + 1\<rparr>) of
             (_, s2) \<Rightarrow>
               (case run msg attempts stream_id (wk_world s2) of
                  None \<Rightarrow> None
                | Some (outcome, w3) \<Rightarrow>
                    (case step_world (settle q msg stream_id attempts outcome) (s2\<lparr>wk_world := w3\<rparr>) of
                       (_, s4) \<Rightarrow> Some (s4\<lparr>wk_in_flight := wk_in_flight s4 - 1\<rparr>)))))"

text \<open>The executor of \<open>job.rs\<close> as the queue calls it.\<close>

definition job_executor ::
  "('w, 'df, 'lf, 'col, 'n) JobOps \<Rightarrow> JobContext \<Rightarrow> 'w Executor" where
  "job_executor jb ctx msg attempts stream_id =
     execute_job jb ctx (jm_prefix msg) (jm_pipeline msg) (jm_config_version_id msg) (jm_clean_run msg)"

end
