(* ===== verification/Queue_Loops.thy ===== *)
theory Queue_Loops
  imports Queue
begin

text \<open>
  Models the background loops of \<open>src/queue.rs\<close>, one pass of each: the consumer, the delayed mover,
  the reclaimer with its sweep, the debounce scheduler, and the recording of an upload event. What
  a loop does between its passes is in \<open>Shutdown\<close>. A loop's connection slot is a
  flag; \<open>ensure_conn\<close> fills it.
\<close>

section \<open>Connections\<close>

definition ensure_conn :: "'w RedisOps \<Rightarrow> bool \<Rightarrow> ('w, bool) prog" where
  "ensure_conn r connected =
     (if connected then State_Monad.return True
      else do { conn \<leftarrow> State (rd_connect r); State_Monad.return (is_ok conn) })"

section \<open>Consumer\<close>

text \<open>The payload of an entry, empty when it has none.\<close>

definition entry_payload :: "Entry \<Rightarrow> string" where
  "entry_payload entry = (case snd entry of Some p \<Rightarrow> p | None \<Rightarrow> [])"

fun handle_entries ::
  "'w QueueCtx \<Rightarrow> 'w Executor \<Rightarrow> Entry list \<Rightarrow> 'w Worker \<Rightarrow> 'w Worker option" where
  "handle_entries q run [] s = Some s"
| "handle_entries q run (entry # entries) s =
     (case handle_claimed q run (fst entry) (entry_payload entry) s of
        None \<Rightarrow> None
      | Some s' \<Rightarrow> handle_entries q run entries s')"

text \<open>A new connection creates the group, whatever that gives.\<close>

definition consumer_connect :: "'w QueueCtx \<Rightarrow> bool \<Rightarrow> ('w, bool) prog" where
  "consumer_connect q connected =
     (if connected then State_Monad.return True
      else do {
        conn \<leftarrow> State (rd_connect (qc_redis q));
        case conn of
          Inl _ \<Rightarrow> State_Monad.return False
        | Inr _ \<Rightarrow> do { ensure_group (qc_redis q); State_Monad.return True } })"

definition consumer_pass ::
  "'w QueueCtx \<Rightarrow> 'w Executor \<Rightarrow> bool \<Rightarrow> 'w Worker \<Rightarrow> (bool \<times> 'w Worker) option" where
  "consumer_pass q run connected s =
     (case step_world (consumer_connect q connected) s of
        (False, s1) \<Rightarrow> Some (False, s1\<lparr>wk_consumer_ok := False\<rparr>)
      | (True, s1) \<Rightarrow>
          (case step_world (send (qc_redis q)
                  (\<lambda>w. rd_xreadgroup (qc_redis q) w STREAM_KEY GROUP (qc_consumer_name q))) s1 of
             (Inl _, s2) \<Rightarrow> Some (False, s2\<lparr>wk_consumer_ok := False\<rparr>)
           | (Inr entries, s2) \<Rightarrow>
               map_option (Pair True) (handle_entries q run entries (s2\<lparr>wk_consumer_ok := True\<rparr>))))"

section \<open>Delayed mover\<close>

definition move_due_script :: "'w RedisOps \<Rightarrow> int \<Rightarrow> 'w \<Rightarrow> nat \<times> 'w" where
  "move_due_script r now w =
     (let due = rd_zdue r w DELAYED_KEY now 10
      in (length due,
          fold (\<lambda>payload w. rd_xadd r (rd_zrem r w DELAYED_KEY payload) STREAM_KEY STREAM_MAXLEN payload) due w))"

definition mover_pass :: "'w RedisOps \<Rightarrow> bool \<Rightarrow> ('w, bool) prog" where
  "mover_pass r connected = do {
     ready \<leftarrow> ensure_conn r connected;
     if \<not> ready then State_Monad.return False
     else do {
       now \<leftarrow> read_clock (clock_ms r);
       moved \<leftarrow> send r (move_due_script r now);
       State_Monad.return (is_ok moved) } }"

section \<open>Reclaimer\<close>

text \<open>One entry at a time until none is idle; the result says whether a claim failed.\<close>

partial_function (option) reclaim_idle ::
  "'w QueueCtx \<Rightarrow> 'w Executor \<Rightarrow> 'w Worker \<Rightarrow> (bool \<times> 'w Worker) option" where
  "reclaim_idle q run s =
     (case step_world (send (qc_redis q) (\<lambda>w. rd_xautoclaim (qc_redis q) w STREAM_KEY GROUP
              (qc_consumer_name q) (qs_reclaim_idle_ms (qc_settings q)))) s of
        (Inl _, s1) \<Rightarrow> Some (True, s1)
      | (Inr entries, s1) \<Rightarrow>
          if entries = [] then Some (False, s1)
          else Option.bind (handle_entries q run entries s1) (reclaim_idle q run))"

definition ORPHAN_GRACE_MS :: int where "ORPHAN_GRACE_MS = 10 * 60 * 1000"

text \<open>The job ids on the stream; \<open>None\<close> when an entry cannot be attributed to one.\<close>

fun stream_job_ids :: "MessageJson \<Rightarrow> Entry list \<Rightarrow> string list option" where
  "stream_job_ids js [] = Some []"
| "stream_job_ids js (entry # entries) =
     (case snd entry of
        None \<Rightarrow> None
      | Some payload \<Rightarrow>
          (case dec_message js payload of
             Inl _ \<Rightarrow> None
           | Inr msg \<Rightarrow> map_option (Cons (jm_job_id msg)) (stream_job_ids js entries)))"

text \<open>The scan over the live hashes ends at cursor 0.\<close>

partial_function (option) scan_live ::
  "'w RedisOps \<Rightarrow> nat \<Rightarrow> string list \<Rightarrow> 'w \<Rightarrow> ((string + string list) \<times> 'w) option" where
  "scan_live r cursor keys w =
     (case run_state (ask r (\<lambda>w. rd_scan r w cursor ''karet:jobs:live:*'')) w of
        (Inl e, w') \<Rightarrow> Some (Inl e, w')
      | (Inr (next_cursor, batch), w') \<Rightarrow>
          if next_cursor = 0 then Some (Inr (keys @ batch), w')
          else scan_live r next_cursor (keys @ batch) w')"

text \<open>\<open>trim_start_matches\<close> of the key's prefix, which strips every repetition of it.\<close>

function trim_start_matches :: "string \<Rightarrow> string \<Rightarrow> string" where
  "trim_start_matches p s =
     (if p \<noteq> [] \<and> starts_with s p then trim_start_matches p (drop (length p) s) else s)"
  by pat_completeness auto
termination
  by (relation "measure (\<lambda>(p, s). length s)") (auto simp: prefix_def)

declare trim_start_matches.simps [simp del]

definition abandon_commands :: "'w QueueCtx \<Rightarrow> string \<Rightarrow> string \<Rightarrow> 'w \<Rightarrow> 'w" where
  "abandon_commands q key finished_at w =
     rd_expire (qc_redis q) (hset_all (qc_redis q) key [(''status'', ''abandoned''),
         (''error'', ''queue entry lost (stream trimmed); re-run the job''),
         (''finished_at'', finished_at)] w)
       key (qs_live_terminal_ttl_s (qc_settings q))"

text \<open>A hash is orphaned when its job is not on the stream, it is not terminal, and it was enqueued
  before the cutoff; without a readable time it is left alone.\<close>

definition orphaned :: "int \<Rightarrow> string option \<Rightarrow> string option \<Rightarrow> bool" where
  "orphaned cutoff status enqueued_at \<longleftrightarrow>
     status \<in> {Some ''queued'', Some ''running''}
     \<and> (case Option.bind enqueued_at parse_i64 of None \<Rightarrow> False | Some t \<Rightarrow> t \<le> cutoff)"

definition sweep_key ::
  "'w QueueCtx \<Rightarrow> string list \<Rightarrow> int \<Rightarrow> string \<Rightarrow> ('w, string + unit) prog" where
  "sweep_key q ids cutoff key = (let r = qc_redis q; job_id = trim_start_matches ''karet:jobs:live:'' key
     in if job_id \<in> set ids then State_Monad.return (Inr ())
        else do {
          fvs \<leftarrow> ask r (\<lambda>w. (rd_hget r w key ''status'', rd_hget r w key ''enqueued_at'', rd_hget r w key ''pipeline''));
          case fvs of
            Inl e \<Rightarrow> State_Monad.return (Inl e)
          | Inr (status, enqueued_at, pipeline) \<Rightarrow>
              if enqueued_at \<noteq> None \<and> Option.bind enqueued_at parse_i64 = None
              then State_Monad.return (Inl ''Response was of incompatible type'')
              else if \<not> orphaned cutoff status enqueued_at then State_Monad.return (Inr ())
              else do {
                finished_at \<leftarrow> read_clock (clock_iso r);
                marked \<leftarrow> tell r (abandon_commands q key finished_at);
                case marked of
                  Inl e \<Rightarrow> State_Monad.return (Inl e)
                | Inr _ \<Rightarrow>
                    (case pipeline of
                       None \<Rightarrow> State_Monad.return (Inr ())
                     | Some p \<Rightarrow> do { publish_job_event q p job_id; State_Monad.return (Inr ()) }) } })"

fun sweep_keys ::
  "'w QueueCtx \<Rightarrow> string list \<Rightarrow> int \<Rightarrow> string list \<Rightarrow> ('w, string + unit) prog" where
  "sweep_keys q ids cutoff [] = State_Monad.return (Inr ())"
| "sweep_keys q ids cutoff (key # keys) = do {
     res \<leftarrow> sweep_key q ids cutoff key;
     case res of Inl e \<Rightarrow> State_Monad.return (Inl e) | Inr _ \<Rightarrow> sweep_keys q ids cutoff keys }"

definition sweep_orphaned_live_hashes ::
  "'w QueueCtx \<Rightarrow> 'w \<Rightarrow> ((string + unit) \<times> 'w) option" where
  "sweep_orphaned_live_hashes q w =
     (case run_state (ask (qc_redis q) (\<lambda>w. rd_xrange (qc_redis q) w STREAM_KEY)) w of
        (Inl e, w1) \<Rightarrow> Some (Inl e, w1)
      | (Inr entries, w1) \<Rightarrow>
          (case stream_job_ids (qc_json q) entries of
             None \<Rightarrow> Some (Inr (), w1)
           | Some ids \<Rightarrow>
               (case scan_live (qc_redis q) 0 [] w1 of
                  None \<Rightarrow> None
                | Some (Inl e, w2) \<Rightarrow> Some (Inl e, w2)
                | Some (Inr keys, w2) \<Rightarrow>
                    Some (run_state (sweep_keys q ids (clock_ms (qc_redis q) w2 - ORPHAN_GRACE_MS) keys) w2))))"

text \<open>One pass, the \<open>tick\<close>-th: every tenth one sweeps.\<close>

definition reclaimer_pass ::
  "'w QueueCtx \<Rightarrow> 'w Executor \<Rightarrow> nat \<Rightarrow> bool \<Rightarrow> 'w Worker \<Rightarrow> (bool \<times> 'w Worker) option" where
  "reclaimer_pass q run tick connected s =
     (case step_world (ensure_conn (qc_redis q) connected) s of
        (False, s1) \<Rightarrow> Some (False, s1)
      | (True, s1) \<Rightarrow>
          (case reclaim_idle q run s1 of
             None \<Rightarrow> None
           | Some (failed, s2) \<Rightarrow>
               if \<not> failed \<and> tick mod 10 = 1
               then (case sweep_orphaned_live_hashes q (wk_world s2) of
                       None \<Rightarrow> None
                     | Some (r, w) \<Rightarrow> Some (is_ok r, s2\<lparr>wk_world := w\<rparr>))
               else Some (\<not> failed, s2)))"

section \<open>Debounce\<close>

text \<open>The batch's start is what the key held, if that parses, else now.\<close>

definition debounce_event :: "'w RedisOps \<Rightarrow> string \<Rightarrow> ('w, string + int) prog" where
  "debounce_event r slug = do {
     now \<leftarrow> read_clock (clock_ms r);
     first \<leftarrow> send r (\<lambda>w. rd_set_nx r w (debounce_first_key slug) (show_int now) (nat (MAX_WAIT_MS * 4)));
     case first of
       Inl e \<Rightarrow> State_Monad.return (Inl e)
     | Inr old \<Rightarrow> do {
         let batch_start = (case Option.bind old parse_i64 of Some t \<Rightarrow> t | None \<Rightarrow> now);
         let fire_at = min (now + QUIET_MS) (batch_start + MAX_WAIT_MS);
         added \<leftarrow> tell r (\<lambda>w. rd_zadd r w DEBOUNCE_KEY slug fire_at);
         State_Monad.return (map_ok (\<lambda>_. fire_at - now) added) } }"

definition pop_due_script :: "'w RedisOps \<Rightarrow> int \<Rightarrow> 'w \<Rightarrow> string list \<times> 'w" where
  "pop_due_script r now w =
     (let due = rd_zdue r w DEBOUNCE_KEY now 10
      in (due, fold (\<lambda>slug w. snd (rd_del r (rd_zrem r w DEBOUNCE_KEY slug) (debounce_first_key slug))) due w))"

definition webhook_job :: "'w RedisOps \<Rightarrow> string \<Rightarrow> ('w, JobMessage) prog" where
  "webhook_job r slug = do {
     job_id \<leftarrow> new_job_id r;
     now \<leftarrow> read_clock (clock_ms r);
     State_Monad.return \<lparr>jm_job_id = job_id, jm_pipeline = slug, jm_prefix = ''pipelines/'' @ slug @ ''/'',
       jm_config_version_id = None, jm_clean_run = False, jm_trigger = ''webhook'', jm_enqueued_at = now\<rparr> }"

text \<open>An enqueue that fails is only logged.\<close>

fun fire_slugs :: "'w QueueCtx \<Rightarrow> string list \<Rightarrow> ('w, unit) prog" where
  "fire_slugs q [] = State_Monad.return ()"
| "fire_slugs q (slug # slugs) = do {
     msg \<leftarrow> webhook_job (qc_redis q) slug;
     enqueue q msg;
     fire_slugs q slugs }"

definition scheduler_pass :: "'w QueueCtx \<Rightarrow> bool \<Rightarrow> ('w, bool) prog" where
  "scheduler_pass q connected = do {
     ready \<leftarrow> ensure_conn (qc_redis q) connected;
     if \<not> ready then State_Monad.return False
     else do {
       now \<leftarrow> read_clock (clock_ms (qc_redis q));
       due \<leftarrow> send (qc_redis q) (pop_due_script (qc_redis q) now);
       case due of
         Inl _ \<Rightarrow> State_Monad.return False
       | Inr slugs \<Rightarrow> do { fire_slugs q slugs; State_Monad.return True } } }"

end
