(* ===== verification/Redis_Laws.thy ===== *)
theory Redis_Laws
  imports Redis
begin

text \<open>
  What is assumed of Redis, and how programs over it are reasoned about. \<open>Store\<close> is the part of its
  data the worker uses, as its clients see it: keys that have expired are gone, the stream is the
  list of payloads appended and not trimmed, \<open>st_pending\<close> the entries delivered and not acknowledged. The locale
  \<open>redis_store\<close> states the documented effect of each command on it, and \<open>quiet_redis\<close> adds that no one
  else acts and nothing expires in between; round trips may still fail.
\<close>

section \<open>Weakest preconditions\<close>

definition wp :: "('w, 'a) prog \<Rightarrow> ('a \<Rightarrow> 'w \<Rightarrow> bool) \<Rightarrow> 'w \<Rightarrow> bool" where
  "wp p Q w = (case run_state p w of (a, w') \<Rightarrow> Q a w')"

named_theorems wp_rules \<open>weakest preconditions of the constructs\<close>

lemma wp_return [simp, wp_rules]: "wp (State_Monad.return a) Q = Q a"
  by (simp add: wp_def fun_eq_iff)

lemma wp_bind [simp, wp_rules]: "wp (State_Monad.bind m f) Q = wp m (\<lambda>a. wp (f a) Q)"
  by (simp add: wp_def fun_eq_iff split: prod.splits)

lemma wp_State: "wp (State f) Q w = (case f w of (a, w') \<Rightarrow> Q a w')"
  by (simp add: wp_def)

lemma wp_read_clock [simp, wp_rules]: "wp (read_clock f) Q = (\<lambda>w. Q (f w) w)"
  by (simp add: wp_def read_clock_def fun_eq_iff)

lemma wp_mono: "wp p Q w \<Longrightarrow> (\<And>a w'. Q a w' \<Longrightarrow> Q' a w') \<Longrightarrow> wp p Q' w"
  by (auto simp: wp_def split: prod.splits)

lemma wp_conj: "wp p Q w \<Longrightarrow> wp p Q' w \<Longrightarrow> wp p (\<lambda>a w'. Q a w' \<and> Q' a w') w"
  by (auto simp: wp_def split: prod.splits)

lemma wpD: "wp p Q w \<Longrightarrow> run_state p w = (a, w') \<Longrightarrow> Q a w'"
  by (simp add: wp_def)

section \<open>The data\<close>

record Store =
  st_strings :: "string \<rightharpoonup> string"
  st_hash :: "string \<Rightarrow> string \<rightharpoonup> string"
  st_zset :: "string \<Rightarrow> string \<rightharpoonup> int"
  st_stream :: "string \<Rightarrow> string list"
  st_pending :: "string set"

definition set_string :: "string \<Rightarrow> string option \<Rightarrow> Store \<Rightarrow> Store" where
  "set_string k v s = s\<lparr>st_strings := (st_strings s)(k := v)\<rparr>"

definition set_field :: "string \<Rightarrow> string \<Rightarrow> string \<Rightarrow> Store \<Rightarrow> Store" where
  "set_field k f v s = s\<lparr>st_hash := (st_hash s)(k := (st_hash s k)(f \<mapsto> v))\<rparr>"

definition set_score :: "string \<Rightarrow> string \<Rightarrow> int option \<Rightarrow> Store \<Rightarrow> Store" where
  "set_score k m x s = s\<lparr>st_zset := (st_zset s)(k := (st_zset s k)(m := x))\<rparr>"

definition set_stream :: "string \<Rightarrow> string list \<Rightarrow> Store \<Rightarrow> Store" where
  "set_stream k ps s = s\<lparr>st_stream := (st_stream s)(k := ps)\<rparr>"

definition acknowledge :: "string \<Rightarrow> Store \<Rightarrow> Store" where
  "acknowledge i s = s\<lparr>st_pending := st_pending s - {i}\<rparr>"

lemmas store_defs = set_string_def set_field_def set_score_def set_stream_def acknowledge_def

lemma store_sel [simp]:
  "st_strings (set_string k v s) = (st_strings s)(k := v)" "st_hash (set_string k v s) = st_hash s"
  "st_zset (set_string k v s) = st_zset s" "st_stream (set_string k v s) = st_stream s"
  "st_pending (set_string k v s) = st_pending s"
  "st_strings (set_field k f v' s) = st_strings s"
  "st_hash (set_field k f v' s) = (st_hash s)(k := (st_hash s k)(f \<mapsto> v'))"
  "st_zset (set_field k f v' s) = st_zset s" "st_stream (set_field k f v' s) = st_stream s"
  "st_pending (set_field k f v' s) = st_pending s"
  "st_strings (set_score k f x s) = st_strings s" "st_hash (set_score k f x s) = st_hash s"
  "st_zset (set_score k f x s) = (st_zset s)(k := (st_zset s k)(f := x))"
  "st_stream (set_score k f x s) = st_stream s" "st_pending (set_score k f x s) = st_pending s"
  "st_strings (set_stream k ps s) = st_strings s" "st_hash (set_stream k ps s) = st_hash s"
  "st_zset (set_stream k ps s) = st_zset s" "st_stream (set_stream k ps s) = (st_stream s)(k := ps)"
  "st_pending (set_stream k ps s) = st_pending s"
  "st_strings (acknowledge i s) = st_strings s" "st_hash (acknowledge i s) = st_hash s"
  "st_zset (acknowledge i s) = st_zset s" "st_stream (acknowledge i s) = st_stream s"
  "st_pending (acknowledge i s) = st_pending s - {i}"
  by (simp_all add: store_defs)

text \<open>The counter in a hash field; an absent field counts as zero.\<close>

definition counter :: "string option \<Rightarrow> int option" where
  "counter v = (case v of None \<Rightarrow> Some 0 | Some s \<Rightarrow> parse_i64 s)"

section \<open>Trimming\<close>

text \<open>Entries \<open>ps\<close> appended to a stream by \<open>XADD MAXLEN ~ n\<close>: older ones may go, the oldest first, but only as
  long as \<open>n\<close> entries remain.\<close>

definition pushed :: "nat \<Rightarrow> string list \<Rightarrow> string list \<Rightarrow> string list \<Rightarrow> bool" where
  "pushed n xs ps ys \<longleftrightarrow> (\<exists>d. ys = drop d xs @ ps \<and> (d = 0 \<or> n \<le> length ys))"

lemma pushed_same [simp]: "pushed n xs [] xs"
  unfolding pushed_def by (rule exI [of _ 0]) simp

lemma pushed_member: "pushed n xs ps ys \<Longrightarrow> p \<in> set ps \<Longrightarrow> p \<in> set ys"
  by (auto simp: pushed_def)

text \<open>One append after another, as long as they are not more than the length that is kept.\<close>

lemma pushed_trans:
  assumes "pushed n xs ps ys" and "pushed n ys qs zs" and "length ps + length qs \<le> n"
  shows "pushed n xs (ps @ qs) zs"
proof -
  from assms(1) obtain d where d: "ys = drop d xs @ ps" "d = 0 \<or> n \<le> length ys" by (auto simp: pushed_def)
  from assms(2) obtain e where e: "zs = drop e ys @ qs" "e = 0 \<or> n \<le> length zs" by (auto simp: pushed_def)
  show ?thesis
  proof (cases "e \<le> length (drop d xs)")
    case True
    then have "zs = drop (e + d) xs @ ps @ qs" using e(1) d(1) by simp
    moreover have "e + d = 0 \<or> n \<le> length zs" using d e True by auto
    ultimately show ?thesis unfolding pushed_def by (intro exI [of _ "e + d"]) simp
  next
    case False
    with e d(1) assms(3) have "ps = []" "n \<le> length zs" by (cases "length ps"; auto)+
    with e(1) d(1) False show ?thesis unfolding pushed_def by (intro exI [of _ "length xs"]) simp
  qed
qed

section \<open>The commands\<close>

locale redis_store =
  fixes r :: "'w RedisOps" and view :: "'w \<Rightarrow> Store"
  assumes get: "rd_get r w k = st_strings (view w) k"
    and set_nx: "rd_set_nx r w k v ttl = (old, w') \<Longrightarrow> old = st_strings (view w) k
      \<and> view w' = (if old = None then set_string k (Some v) (view w) else view w)"
    and del: "rd_del r w k = (n, w') \<Longrightarrow> view w' = set_string k None (view w)"
    and pexpire: "rd_pexpire r w k ttl = (n, w') \<Longrightarrow> view w' = view w
      \<and> n = (if st_strings (view w) k = None then 0 else 1)"
    and expire: "view (rd_expire r w k secs) = view w"
    and hget: "rd_hget r w k f = st_hash (view w) k f"
    and hset: "view (rd_hset r w k f v) = set_field k f v (view w)"
    and hincr: "rd_hincr r w k f i = (n, w') \<Longrightarrow> counter (st_hash (view w) k f) = Some c
      \<Longrightarrow> i64_min \<le> c + i \<Longrightarrow> c + i \<le> i64_max \<Longrightarrow> n = c + i \<and> view w' = set_field k f (show_int (c + i)) (view w)"
    and hincr_frame: "rd_hincr r w k f i = (n, w') \<Longrightarrow> \<exists>v. view w' = set_field k f v (view w) \<or> view w' = view w"
    and zadd: "view (rd_zadd r w k m x) = set_score k m (Some x) (view w)"
    and zrem: "view (rd_zrem r w k m) = set_score k m None (view w)"
    and zdue: "distinct (rd_zdue r w k x lim)" "length (rd_zdue r w k x lim) \<le> lim"
      "m \<in> set (rd_zdue r w k x lim) \<Longrightarrow> \<exists>y. st_zset (view w) k m = Some y \<and> y \<le> x"
      "length (rd_zdue r w k x lim) < lim \<Longrightarrow> st_zset (view w) k m = Some y \<Longrightarrow> y \<le> x
        \<Longrightarrow> m \<in> set (rd_zdue r w k x lim)"
    and xadd: "0 < len \<Longrightarrow> \<exists>ps. view (rd_xadd r w k len p) = set_stream k ps (view w)
      \<and> pushed len (st_stream (view w) k) [p] ps"
    and xrange_view: "view w1 = view w \<Longrightarrow> rd_xrange r w1 k = rd_xrange r w k"
    and xack: "view (rd_xack r w k g eid) = acknowledge eid (view w)"
    and xclaim: "view (rd_xclaim r w k g who eid) = view w"
    and publish_same: "view (rd_publish r w k v) = view w"
begin

lemma hset_all: "view (hset_all r k fvs w) = fold (\<lambda>(f, v). set_field k f v) fvs (view w)"
  unfolding hset_all_def by (induction fvs arbitrary: w) (auto simp: hset)

end

text \<open>Undisturbed: between two commands nobody else changes the data and no key expires.\<close>

locale quiet_redis = redis_store +
  assumes trip_same: "rd_trip r w = (t, w') \<Longrightarrow> view w' = view w"
    and connect_same: "rd_connect r w = (c, w') \<Longrightarrow> view w' = view w"
    and uuid_same: "uuid_hex r w = (u, w') \<Longrightarrow> view w' = view w"
begin

text \<open>The three ways a round trip can end.\<close>

lemma wp_send:
  assumes "\<And>w1 a w2. view w1 = view w \<Longrightarrow> command w1 = (a, w2) \<Longrightarrow> Q (Inr a) w2 \<and> (\<forall>e. Q (Inl e) w2)"
    and "\<And>w1 e. view w1 = view w \<Longrightarrow> Q (Inl e) w1"
  shows "wp (send r command) Q w"
proof -
  obtain t w1 where t: "rd_trip r w = (t, w1)" by fastforce
  then have v: "view w1 = view w" by (rule trip_same)
  obtain a w2 where c: "command w1 = (a, w2)" by fastforce
  show ?thesis
    using assms(1) [OF v c] assms(2) [OF v] t c
    by (cases t) (simp_all add: send_def wp_def)
qed

lemma wp_ask:
  assumes "\<And>w1. view w1 = view w \<Longrightarrow> Q (Inr (f w1)) w1" and "\<And>w1 e. view w1 = view w \<Longrightarrow> Q (Inl e) w1"
  shows "wp (ask r f) Q w"
  unfolding ask_def using assms by (intro wp_send) auto

lemma wp_tell:
  assumes "\<And>w1 w2. view w1 = view w \<Longrightarrow> w2 = f w1 \<Longrightarrow> Q (Inr ()) w2 \<and> (\<forall>e. Q (Inl e) w2)"
    and "\<And>w1 e. view w1 = view w \<Longrightarrow> Q (Inl e) w1"
  shows "wp (tell r f) Q w"
  unfolding tell_def using assms by (intro wp_send) auto

end

end
