(* ===== verification/Queue_Proofs.thy ===== *)
theory Queue_Proofs
  imports Queue_Loops Redis_Laws Http_Proofs
begin

text \<open>
  The handling of one entry over the laws of Redis: what each program may do to the data, whichever
  of its round trips fail.
\<close>

section \<open>What is written\<close>

text \<open>Releasing: the lock is gone exactly if the token was its value; a failed trip did that or
  nothing.\<close>

definition released :: "string \<Rightarrow> string \<Rightarrow> Store \<Rightarrow> Store" where
  "released pipeline token s =
     (if st_strings s (lock_key pipeline) = Some token then set_string (lock_key pipeline) None s else s)"

text \<open>What the terminal transaction leaves.\<close>

definition with_terminal :: "string \<Rightarrow> Terminal \<Rightarrow> string \<Rightarrow> string option \<Rightarrow> Store \<Rightarrow> Store" where
  "with_terminal job_id t completed_at error s =
     (let live = live_key job_id;
          s1 = set_field live ''finished_at'' completed_at (set_field live ''status'' (te_status t) s);
          s2 = (case error of None \<Rightarrow> s1 | Some e \<Rightarrow> set_field live ''error'' e s1)
      in case te_partitions_written t of
           None \<Rightarrow> s2 | Some n \<Rightarrow> set_field live ''partitions_written'' (show_nat n) s2)"

lemma with_terminal_sel [simp]:
  "st_strings (with_terminal j t c err s) = st_strings s" "st_zset (with_terminal j t c err s) = st_zset s"
  "st_stream (with_terminal j t c err s) = st_stream s" "st_pending (with_terminal j t c err s) = st_pending s"
  "st_hash (with_terminal j t c err s) (live_key j) ''status'' = Some (te_status t)"
  "k \<noteq> live_key j \<Longrightarrow> st_hash (with_terminal j t c err s) k = st_hash s k"
  "st_hash (with_terminal j t c err s) k ''attempts'' = st_hash s k ''attempts''"
  by (auto simp: with_terminal_def Let_def split: option.splits)

lemma released_sel [simp]:
  "st_hash (released p token s) = st_hash s" "st_zset (released p token s) = st_zset s"
  "st_stream (released p token s) = st_stream s" "st_pending (released p token s) = st_pending s"
  by (auto simp: released_def)

section \<open>The queue's context\<close>

text \<open>The database does not change what Redis holds, and a message reads back as it was written.\<close>

locale queue_store = quiet_redis "qc_redis q" view for q :: "'w QueueCtx" and view +
  assumes pg_same: "pg_execute (qc_pg q) w sql ps = (x, w') \<Longrightarrow> view w' = view w"
    and message_back: "dec_message (qc_json q) (enc_message (qc_json q) m) = Inr m"
begin

lemma wp_publish:
  assumes "\<And>w1. view w1 = view w \<Longrightarrow> Q () w1"
  shows "wp (publish_job_event q p j) Q w"
  unfolding publish_job_event_def wp_bind wp_return
  by (rule wp_tell) (auto intro: assms simp: publish_same)

lemma wp_mark_finished:
  assumes "\<And>x w1. view w1 = view w \<Longrightarrow> Q x w1"
  shows "wp (State (\<lambda>w. mark_finished (qc_pg q) w j row)) Q w"
  unfolding wp_State mark_finished_def by (auto split: prod.splits intro: assms dest: pg_same)

lemma wp_mark_running:
  assumes "\<And>x w1. view w1 = view w \<Longrightarrow> Q x w1"
  shows "wp (State (\<lambda>w. mark_running (qc_pg q) w j worker)) Q w"
  unfolding wp_State mark_running_def by (auto split: prod.splits intro: assms dest: pg_same)

lemma release_script_view:
  "release_lock_script (qc_redis q) (lock_key p) token w = (n, w') \<Longrightarrow> view w' = released p token (view w)"
  by (auto simp: release_lock_script_def released_def get split: if_splits dest: del)

lemma wp_release:
  assumes "\<And>x w1. view w1 = released p token (view w) \<Longrightarrow> Q x w1"
    and "\<And>e w1. view w1 = view w \<Longrightarrow> Q (Inl e) w1"
  shows "wp (release_lock (qc_redis q) p token) Q w"
  unfolding release_lock_def wp_bind wp_return
proof (rule wp_send)
  fix w1 a w2
  assume w1: "view w1 = view w" and c: "release_lock_script (qc_redis q) (lock_key p) token w1 = (a, w2)"
  from release_script_view [OF c] w1 have "view w2 = released p token (view w)" by simp
  then show "Q (map_ok (\<lambda>_. ()) (Inr a)) w2 \<and> (\<forall>e. Q (map_ok (\<lambda>_. ()) (Inl e :: string + int)) w2)"
    by (simp add: assms(1))
qed (simp add: assms(2))

lemma wp_ack:
  assumes "\<And>x w1. view w1 = acknowledge i (view w) \<Longrightarrow> Q x w1"
    and "\<And>e w1. view w1 = view w \<Longrightarrow> Q (Inl e) w1"
  shows "wp (ack q i) Q w"
  unfolding ack_def by (rule wp_tell) (auto intro: assms simp: xack)

lemma wp_defer:
  assumes "\<And>x w1. view w1 = acknowledge i (set_score DELAYED_KEY (enc_message (qc_json q) msg) (Some t) (view w)) \<Longrightarrow> Q x w1"
    and "\<And>e w1. view w1 = view w \<Longrightarrow> Q (Inl e) w1"
  shows "wp (defer_message q msg i t) Q w"
  unfolding defer_message_def defer_commands_def by (rule wp_tell) (auto intro: assms simp: xack zadd)

lemma wp_bump:
  assumes "\<And>x w1 v. view w1 = set_field (live_key j) ''attempts'' v (view w) \<Longrightarrow> Q x w1"
    and "\<And>x w1. view w1 = view w \<Longrightarrow> Q x w1"
  shows "wp (bump_attempts q j n) Q w"
  unfolding bump_attempts_def
proof (rule wp_send)
  fix w1 a w2
  assume w1: "view w1 = view w" and c: "rd_hincr (qc_redis q) w1 (live_key j) ''attempts'' n = (a, w2)"
  from hincr_frame [OF c] w1 obtain v where
    "view w2 = set_field (live_key j) ''attempts'' v (view w) \<or> view w2 = view w" by auto
  then show "Q (Inr a) w2 \<and> (\<forall>e. Q (Inl e) w2)" using assms by blast
qed (rule assms(2))

lemma terminal_view:
  "view (terminal_commands q j t c err w) = with_terminal j t c err (view w)"
  by (simp add: terminal_commands_def with_terminal_def Let_def hset expire hset_all split: option.splits)

text \<open>Where \<open>finish_writes\<close> can stop: before the transaction, after it, after the release, and at the
  end, where it reports success.\<close>

lemma wp_finish_writes:
  assumes "\<And>e w1. view w1 = view w \<Longrightarrow> Q (Inl e) w1"
    and "\<And>e w1 c err. view w1 = with_terminal (jm_job_id msg) t c err (view w) \<Longrightarrow> Q (Inl e) w1"
    and "\<And>e w1 c err. view w1 = released (jm_pipeline msg) (fence (jm_job_id msg) n)
          (with_terminal (jm_job_id msg) t c err (view w)) \<Longrightarrow> Q (Inl e) w1"
    and "\<And>w1 c err s. s = released (jm_pipeline msg) (fence (jm_job_id msg) n)
          (with_terminal (jm_job_id msg) t c err (view w)) \<Longrightarrow> view w1 = s \<or> view w1 = acknowledge i s
          \<Longrightarrow> Q (Inr ()) w1"
  shows "wp (finish_writes q msg i n t) Q w"
  unfolding finish_writes_def wp_bind wp_read_clock Let_def
proof (rule wp_mark_finished)
  fix row w1
  assume w1: "view w1 = view w"
  let ?c = "clock_iso (qc_redis q) w"
  let ?err = "case row of Inl e \<Rightarrow> append_message (joined_error t)
      (''terminal row write failed for '' @ jm_job_id msg @ '': '' @ e) | Inr _ \<Rightarrow> joined_error t"
  let ?s = "with_terminal (jm_job_id msg) t ?c ?err (view w)"
  let ?rel = "released (jm_pipeline msg) (fence (jm_job_id msg) n) ?s"
  have done_: "wp (case x of Inl e \<Rightarrow> State_Monad.return (Inl (''lock release failed: '' @ e))
        | Inr _ \<Rightarrow> do { ack q i; State_Monad.return (Inr ()) }) Q w4"
    if "view w4 = ?rel \<or> view w4 = ?s \<and> (\<exists>e. x = Inl e)" for x :: "string + unit" and w4
  proof (cases x)
    case (Inl e)
    with that assms(2,3) show ?thesis by auto
  next
    case (Inr u)
    with that have w4: "view w4 = ?rel" by simp
    show ?thesis unfolding Inr sum.case wp_bind wp_return
      by (rule wp_ack) (use assms(4) [OF refl] w4 in auto)
  qed
  have after: "wp (case live of Inl e \<Rightarrow> State_Monad.return (Inl (''live terminal update failed: '' @ e))
        | Inr _ \<Rightarrow> do {
            publish_job_event q (jm_pipeline msg) (jm_job_id msg);
            x \<leftarrow> release_lock (qc_redis q) (jm_pipeline msg) (fence (jm_job_id msg) n);
            case x of Inl e \<Rightarrow> State_Monad.return (Inl (''lock release failed: '' @ e))
            | Inr _ \<Rightarrow> do { ack q i; State_Monad.return (Inr ()) } }) Q w2"
    if "view w2 = ?s \<or> view w2 = view w \<and> (\<exists>e. live = Inl e)" for live :: "string + unit" and w2
  proof (cases live)
    case (Inl e)
    with that assms(1,2) show ?thesis by auto
  next
    case (Inr u)
    with that have w2: "view w2 = ?s" by simp
    show ?thesis unfolding Inr sum.case wp_bind
      by (rule wp_publish, rule wp_release; rule done_) (auto simp: w2)
  qed
  show "wp (tell (qc_redis q) (terminal_commands q (jm_job_id msg) t ?c ?err))
     (\<lambda>live. wp (case live of Inl e \<Rightarrow> State_Monad.return (Inl (''live terminal update failed: '' @ e))
        | Inr _ \<Rightarrow> do {
            publish_job_event q (jm_pipeline msg) (jm_job_id msg);
            x \<leftarrow> release_lock (qc_redis q) (jm_pipeline msg) (fence (jm_job_id msg) n);
            case x of Inl e \<Rightarrow> State_Monad.return (Inl (''lock release failed: '' @ e))
            | Inr _ \<Rightarrow> do { ack q i; State_Monad.return (Inr ()) } }) Q) w1"
    by (rule wp_tell; (intro conjI allI)?; rule after) (auto simp: terminal_view w1)
qed

end

end
