(* ===== verification/Queue_Claims.thy ===== *)
theory Queue_Claims
  imports Queue_Proofs
begin

text \<open>
  What one entry's handling guarantees whichever of its round trips fail: the entry is not lost, an
  attempt that runs holds the lock, and an attempt that lost the lock changes nothing.
\<close>

section \<open>Being accounted for\<close>

text \<open>A delivered entry is accounted for while it is pending; once it is not, its job has to be
  recorded as terminal or to wait among the delayed messages.\<close>

definition accounted :: "MessageJson \<Rightarrow> JobMessage \<Rightarrow> string \<Rightarrow> Store \<Rightarrow> bool" where
  "accounted js msg i s \<longleftrightarrow>
     i \<in> st_pending s
     \<or> is_terminal (st_hash s (live_key (jm_job_id msg)) ''status'')
     \<or> st_zset s DELAYED_KEY (enc_message js msg) \<noteq> None"

definition payload_accounted :: "MessageJson \<Rightarrow> string \<Rightarrow> string \<Rightarrow> Store \<Rightarrow> bool" where
  "payload_accounted js payload i s =
     (case dec_message js payload of Inl _ \<Rightarrow> True | Inr msg \<Rightarrow> accounted js msg i s)"

lemma accounted_pending [intro]: "i \<in> st_pending s \<Longrightarrow> accounted js msg i s"
  by (simp add: accounted_def)

text \<open>What a claim leaves: an attempt to run, with the entry pending and the lock taken, or an entry
  that is accounted for.\<close>

definition claimed :: "MessageJson \<Rightarrow> nat \<Rightarrow> JobMessage \<Rightarrow> string \<Rightarrow> nat option \<Rightarrow> Store \<Rightarrow> bool" where
  "claimed js limit msg i x s =
     (case x of
        None \<Rightarrow> accounted js msg i s
      | Some n \<Rightarrow> i \<in> st_pending s \<and> n \<le> limit
          \<and> st_strings s (lock_key (jm_pipeline msg)) = Some (fence (jm_job_id msg) n))"

lemma claimed_simps [simp]:
  "claimed js limit msg i None s = accounted js msg i s"
  "claimed js limit msg i (Some n) s \<longleftrightarrow> i \<in> st_pending s \<and> n \<le> limit
     \<and> st_strings s (lock_key (jm_pipeline msg)) = Some (fence (jm_job_id msg) n)"
  by (simp_all add: claimed_def)

text \<open>The lock is held by another attempt.\<close>

definition held_by_other :: "JobMessage \<Rightarrow> nat \<Rightarrow> Store \<Rightarrow> bool" where
  "held_by_other msg n s \<longleftrightarrow>
     st_strings s (lock_key (jm_pipeline msg)) \<notin> {None, Some (fence (jm_job_id msg) n)}"

text \<open>The stores a terminal write can stop at.\<close>

definition wrote_terminal :: "JobMessage \<Rightarrow> string \<Rightarrow> nat \<Rightarrow> Terminal \<Rightarrow> Store \<Rightarrow> Store \<Rightarrow> bool" where
  "wrote_terminal msg i n t s s' \<longleftrightarrow> (\<exists>c err.
     let a = with_terminal (jm_job_id msg) t c err s;
         b = released (jm_pipeline msg) (fence (jm_job_id msg) n) a
     in s' \<in> {a, b, acknowledge i b})"

lemma wrote_terminalI:
  "wrote_terminal msg i n t s (with_terminal (jm_job_id msg) t c err s)"
  "wrote_terminal msg i n t s (released (jm_pipeline msg) (fence (jm_job_id msg) n)
     (with_terminal (jm_job_id msg) t c err s))"
  "wrote_terminal msg i n t s (acknowledge i (released (jm_pipeline msg) (fence (jm_job_id msg) n)
     (with_terminal (jm_job_id msg) t c err s)))"
  unfolding wrote_terminal_def Let_def by blast+

context queue_store
begin

lemma wp_finish_job:
  assumes "\<And>x w1. view w1 = view w \<or> wrote_terminal msg i n t (view w) (view w1) \<and> \<not> held_by_other msg n (view w)
     \<Longrightarrow> Q x w1"
  shows "wp (finish_job q msg i n t) Q w"
proof -
  have writes: "wp (finish_writes q msg i n t) Q w1"
    if "view w1 = view w" "\<not> held_by_other msg n (view w)" for w1
    by (rule wp_finish_writes; rule assms) (use that in \<open>auto intro: wrote_terminalI\<close>)
  show ?thesis
    unfolding finish_job_def wp_bind
    by (rule wp_ask)
       (auto simp: get held_by_other_def split: option.splits intro: assms intro!: writes)
qed

lemma wp_finish_fenced:
  assumes "held_by_other msg n (view w)" "\<And>x w1. view w1 = view w \<Longrightarrow> Q x w1"
  shows "wp (finish_job q msg i n t) Q w"
  by (rule wp_finish_job) (use assms in auto)

lemma wrote_terminal_accounted:
  assumes "wrote_terminal msg i n t s s'" "is_terminal (Some (te_status t))"
  shows "accounted js msg i s'"
  using assms by (auto simp: wrote_terminal_def accounted_def Let_def)

lemma finish_accounted:
  assumes "i \<in> st_pending (view w)" "is_terminal (Some (te_status t))"
  shows "wp (finish_job q msg i n t) (\<lambda>_ w'. accounted js msg i (view w')) w"
  by (rule wp_finish_job) (use assms in \<open>auto dest: wrote_terminal_accounted\<close>)

lemma defer_accounted:
  assumes "i \<in> st_pending (view w)"
  shows "wp (defer_message q msg i t) (\<lambda>_ w'. accounted (qc_json q) msg i (view w')) w"
  by (rule wp_defer) (use assms in \<open>auto simp: accounted_def\<close>)

lemma acquire_claimed:
  assumes "i \<in> st_pending (view w)" "n \<le> limit"
  shows "wp (acquire q msg i n) (\<lambda>x w'. claimed (qc_json q) limit msg i x (view w')) w"
  unfolding acquire_def try_lock_def wp_bind wp_return
proof (rule wp_send, goal_cases)
  case (1 w1 a w2)
  from set_nx [OF 1(2)] 1(1)
  have a: "a = st_strings (view w) (lock_key (jm_pipeline msg))"
    and w2: "view w2 = (if a = None then set_string (lock_key (jm_pipeline msg)) (Some (fence (jm_job_id msg) n)) (view w)
      else view w)" by auto
  have p: "i \<in> st_pending (view w2)" using w2 assms(1) by simp
  have busy: "wp (bump_attempts q (jm_job_id msg) (- 1))
      (\<lambda>_ w3. wp (defer_message q msg i (clock_ms (qc_redis q) w3 + 30000))
         (\<lambda>_ w4. claimed (qc_json q) limit msg i None (view w4)) w3) w2"
    by (rule wp_bump; simp; rule defer_accounted) (use p in auto)
  show ?case using w2 p assms(2) busy by auto
next
  case (2 w1 e)
  then show ?case using assms by auto
qed

lemma claim_attempt_claimed:
  assumes "i \<in> st_pending (view w)"
  shows "wp (claim_attempt q msg i)
    (\<lambda>x w'. claimed (qc_json q) (qs_max_attempts (qc_settings q)) msg i x (view w')) w"
proof -
  have rest: "wp (if qs_max_attempts (qc_settings q) < n
       then do { finish_job q msg i n (gave_up n); State_Monad.return None } else acquire q msg i n)
     (\<lambda>x w'. claimed (qc_json q) (qs_max_attempts (qc_settings q)) msg i x (view w')) w1"
    if "i \<in> st_pending (view w1)" for n w1
    using that by (auto intro: acquire_claimed finish_accounted
        simp: gave_up_def failed_terminal_def is_terminal_def)
  show ?thesis unfolding claim_attempt_def wp_bind Let_def
    by (rule wp_bump; rule rest) (use assms in auto)
qed

lemma ack_accounted:
  assumes "i \<in> st_pending (view w)" "is_terminal (st_hash (view w) (live_key (jm_job_id msg)) ''status'')"
  shows "wp (ack q i) (\<lambda>_ w'. accounted js msg i (view w')) w"
  by (rule wp_ack) (use assms in \<open>auto simp: accounted_def\<close>)

lemma claim_message_claimed:
  assumes "i \<in> st_pending (view w)"
  shows "wp (claim_message q msg i)
    (\<lambda>x w'. claimed (qc_json q) (qs_max_attempts (qc_settings q)) msg i x (view w')) w"
proof (cases "validate_pipeline_prefix (jm_prefix msg)")
  case (Inl e)
  then show ?thesis using assms
    by (auto simp: claim_message_def failed_terminal_def is_terminal_def intro: finish_accounted)
next
  case (Inr u)
  show ?thesis unfolding claim_message_def sum.case wp_bind Inr
    by (rule wp_ask)
       (use assms in \<open>auto simp: hget is_terminal_def intro: claim_attempt_claimed ack_accounted\<close>)
qed

lemma release_pending:
  assumes "i \<in> st_pending (view w)" "\<And>x w'. i \<in> st_pending (view w') \<Longrightarrow> Q x w'"
  shows "wp (release_lock (qc_redis q) p token) Q w"
  by (rule wp_release) (use assms in auto)

lemma retry_accounted:
  assumes "i \<in> st_pending (view w)"
  shows "wp (retry_or_fail q msg i n e) (\<lambda>_ w'. accounted (qc_json q) msg i (view w')) w"
proof -
  have put_off: "wp (tell (qc_redis q) (\<lambda>w. rd_hset (qc_redis q) w (live_key (jm_job_id msg)) ''status'' ''queued''))
      (\<lambda>_ w2. wp (defer_message q msg i (clock_ms (qc_redis q) w2 + backoff_ms n))
         (\<lambda>_ w'. accounted (qc_json q) msg i (view w')) w2) w1"
    if "i \<in> st_pending (view w1)" for w1
    by (rule wp_tell) (use that in \<open>auto simp: hset intro!: defer_accounted\<close>)
  have fail: "wp (finish_job q msg i n (failed_terminal e)) (\<lambda>_ w'. accounted (qc_json q) msg i (view w')) w1"
    if "i \<in> st_pending (view w1)" for w1
    using that by (auto intro!: finish_accounted simp: failed_terminal_def is_terminal_def)
  show ?thesis unfolding retry_or_fail_def wp_bind
    by (rule release_pending [OF assms]) (auto intro: put_off fail)
qed

lemma settle_accounted:
  assumes "i \<in> st_pending (view w)"
  shows "wp (settle q msg i n out) (\<lambda>_ w'. accounted (qc_json q) msg i (view w')) w"
  using assms
  by (cases out; (cases "projl out")?)
     (auto simp: settle_def outcome_terminal_def no_files_terminal_def failed_terminal_def is_terminal_def
       intro!: finish_accounted retry_accounted)

text \<open>An attempt whose lock another one holds reads the lock and stops: no other call is made.\<close>

lemma finish_fenced:
  assumes "held_by_other msg n (view w)"
  shows "wp (finish_job q msg i n t) (\<lambda>_ w'. w' = snd (rd_trip (qc_redis q) w)) w"
proof -
  obtain answer w1 where t: "rd_trip (qc_redis q) w = (answer, w1)" by fastforce
  from trip_same [OF t] assms
  have "rd_get (qc_redis q) w1 (lock_key (jm_pipeline msg)) \<notin> {None, Some (fence (jm_job_id msg) n)}"
    by (simp add: get held_by_other_def)
  then show ?thesis
    by (cases answer) (auto simp: finish_job_def ask_def send_def wp_def t)
qed

lemma settle_fenced:
  assumes "held_by_other msg n (view w)" "\<And>e. out \<noteq> Inl (ConfigRead e)"
  shows "wp (settle q msg i n out) (\<lambda>_ w'. w' = w \<or> w' = snd (rd_trip (qc_redis q) w)) w"
  using assms by (cases out; (cases "projl out")?) (auto simp: settle_def intro: wp_mono [OF finish_fenced])

lemma trip_view: "view (snd (rd_trip (qc_redis q) w)) = view w"
  by (cases "rd_trip (qc_redis q) w") (auto dest: trip_same)

lemma begin_run_pending:
  assumes "i \<in> st_pending (view w)"
  shows "wp (begin_run q msg) (\<lambda>_ w'. i \<in> st_pending (view w')) w"
proof -
  have rest: "wp (publish_job_event q (jm_pipeline msg) (jm_job_id msg))
      (\<lambda>_ w2. wp (State (\<lambda>w. mark_running (qc_pg q) w (jm_job_id msg) (qc_consumer_name q)))
         (\<lambda>_ w3. i \<in> st_pending (view w3)) w2) w1"
    if "i \<in> st_pending (view w1)" for w1
    by (rule wp_publish, rule wp_mark_running) (use that in simp)
  show ?thesis unfolding begin_run_def wp_bind wp_read_clock wp_return
    by (rule wp_tell) (use assms in \<open>auto intro!: rest simp: hset_all\<close>)
qed

text \<open>The whole handling, for an executor that leaves the entry pending.\<close>

lemma claim_payload:
  assumes "i \<in> st_pending (view w)"
  shows "wp (claim q i payload) (\<lambda>x w'. case x of
      None \<Rightarrow> payload_accounted (qc_json q) payload i (view w')
    | Some (msg, n) \<Rightarrow> dec_message (qc_json q) payload = Inr msg
        \<and> claimed (qc_json q) (qs_max_attempts (qc_settings q)) msg i (Some n) (view w')) w"
proof -
  obtain c w1 where c: "rd_connect (qc_redis q) w = (c, w1)" by fastforce
  then have w1: "view w1 = view w" by (rule connect_same)
  have ack: "wp (ack q i) (\<lambda>_ w'. dec_message (qc_json q) payload = Inl e
      \<longrightarrow> payload_accounted (qc_json q) payload i (view w')) w1" for e
    by (rule wp_ack) (auto simp: payload_accounted_def)
  have take: "wp (claim_message q msg i) (\<lambda>x w'. case x of
      None \<Rightarrow> payload_accounted (qc_json q) payload i (view w')
    | Some n \<Rightarrow> claimed (qc_json q) (qs_max_attempts (qc_settings q)) msg i (Some n) (view w')) w1"
    if "dec_message (qc_json q) payload = Inr msg" for msg
    by (rule wp_mono [OF claim_message_claimed])
       (use assms that w1 in \<open>auto simp: payload_accounted_def split: option.splits\<close>)
  show ?thesis
  proof (cases c)
    case (Inl e)
    then show ?thesis using assms c w1
      by (auto simp: claim_def wp_State payload_accounted_def split: sum.splits)
  next
    case (Inr u)
    show ?thesis
    proof (cases "dec_message (qc_json q) payload")
      case dec: (Inl e)
      show ?thesis unfolding claim_def wp_bind wp_State c prod.case Inr sum.case dec wp_return
        by (rule wp_mono [OF ack [of e]]) (simp add: dec)
    next
      case dec: (Inr msg)
      show ?thesis unfolding claim_def wp_bind wp_State c prod.case Inr sum.case dec wp_return
        by (rule wp_mono [OF take [OF dec]]) (simp add: dec split: option.splits)
    qed
  qed
qed

lemma wp_step_world:
  "wp p Q (wk_world s) \<Longrightarrow> step_world p s = (a, s') \<Longrightarrow> Q a (wk_world s')"
  by (auto simp: wp_def step_world_def split: prod.splits)

lemma handle_claimed_accounted:
  assumes "i \<in> st_pending (view (wk_world s))"
    and keeps: "\<And>msg n w out w'. run msg n i w = Some (out, w') \<Longrightarrow> i \<in> st_pending (view w)
      \<Longrightarrow> i \<in> st_pending (view w')"
    and ran: "handle_claimed q run i payload s = Some s'"
  shows "payload_accounted (qc_json q) payload i (view (wk_world s'))"
proof -
  obtain x s1 where c: "step_world (claim q i payload) s = (x, s1)" by fastforce
  note post = wp_step_world [OF claim_payload [OF assms(1)] c]
  show ?thesis
  proof (cases x)
    case None
    then show ?thesis using ran c post by (simp add: handle_claimed_def)
  next
    case (Some mn)
    obtain msg n where x: "x = Some (msg, n)" using Some by (cases mn) auto
    let ?s1 = "s1\<lparr>wk_in_flight := wk_in_flight s1 + 1\<rparr>"
    obtain u s2 where b: "step_world (begin_run q msg) ?s1 = (u, s2)"
      by (cases "step_world (begin_run q msg) ?s1")
    have "i \<in> st_pending (view (wk_world ?s1))" using post x by simp
    from wp_step_world [OF begin_run_pending [OF this] b]
    have p2: "i \<in> st_pending (view (wk_world s2))" .
    from ran c x b obtain out w3 where r: "run msg n i (wk_world s2) = Some (out, w3)"
      by (auto simp: handle_claimed_def split: option.splits)
    have p3: "i \<in> st_pending (view (wk_world (s2\<lparr>wk_world := w3\<rparr>)))" using keeps [OF r p2] by simp
    obtain v s4 where f: "step_world (settle q msg i n out) (s2\<lparr>wk_world := w3\<rparr>) = (v, s4)"
      by (cases "step_world (settle q msg i n out) (s2\<lparr>wk_world := w3\<rparr>)")
    show ?thesis using wp_step_world [OF settle_accounted [OF p3] f] ran c x b r f post
      by (auto simp: handle_claimed_def payload_accounted_def)
  qed
qed

end

end
