(* ===== verification/Queue_Steady.thy ===== *)
theory Queue_Steady
  imports Queue_Claims
begin

text \<open>
  The queue over services that answer: no connection and no round trip to Redis fails. Then
  the handling of an entry refines a small specification, which sees of all the data in Redis only
  what concerns one message: the \<open>Ticket\<close>.
\<close>

section \<open>The specification\<close>

record Ticket =
  tk_pending :: bool
  tk_delayed :: bool
  tk_terminal :: bool
  tk_attempts :: nat
  tk_holder :: "string option"

text \<open>What a ticket is in terms of the data.\<close>

definition ticket :: "MessageJson \<Rightarrow> JobMessage \<Rightarrow> string \<Rightarrow> Store \<Rightarrow> Ticket" where
  "ticket js msg i s = \<lparr>
     tk_pending = (i \<in> st_pending s),
     tk_delayed = (st_zset s DELAYED_KEY (enc_message js msg) \<noteq> None),
     tk_terminal = is_terminal (st_hash s (live_key (jm_job_id msg)) ''status''),
     tk_attempts = nat (the (counter (st_hash s (live_key (jm_job_id msg)) ''attempts''))),
     tk_holder = st_strings s (lock_key (jm_pipeline msg))\<rparr>"

lemma ticket_sel [simp]:
  "tk_pending (ticket js msg i s) \<longleftrightarrow> i \<in> st_pending s"
  "tk_delayed (ticket js msg i s) \<longleftrightarrow> st_zset s DELAYED_KEY (enc_message js msg) \<noteq> None"
  "tk_terminal (ticket js msg i s) = is_terminal (st_hash s (live_key (jm_job_id msg)) ''status'')"
  "tk_attempts (ticket js msg i s) = nat (the (counter (st_hash s (live_key (jm_job_id msg)) ''attempts'')))"
  "tk_holder (ticket js msg i s) = st_strings s (lock_key (jm_pipeline msg))"
  by (simp_all add: ticket_def)

text \<open>An attempt is over: unless another one holds the lock, the job is terminal, the lock is free
  and the entry acknowledged.\<close>

definition spec_finish :: "string \<Rightarrow> Ticket \<Rightarrow> Ticket" where
  "spec_finish token tk =
     (if tk_holder tk \<in> {None, Some token}
      then tk\<lparr>tk_terminal := True, tk_holder := None, tk_pending := False\<rparr> else tk)"

definition spec_claim :: "nat \<Rightarrow> (nat \<Rightarrow> string) \<Rightarrow> Ticket \<Rightarrow> nat option \<times> Ticket" where
  "spec_claim limit token tk =
     (let n = Suc (tk_attempts tk); counted = tk\<lparr>tk_attempts := n\<rparr> in
      if tk_terminal tk then (None, tk\<lparr>tk_pending := False\<rparr>)
      else if limit < n then (None, spec_finish (token n) counted)
      else if tk_holder tk = None then (Some n, counted\<lparr>tk_holder := Some (token n)\<rparr>)
      else (None, tk\<lparr>tk_pending := False, tk_delayed := True\<rparr>))"

text \<open>A configuration that could not be read puts the job off, whoever holds the lock by now.\<close>

definition spec_settle ::
  "nat \<Rightarrow> nat \<Rightarrow> string \<Rightarrow> JobError + JobOutcome \<Rightarrow> Ticket \<Rightarrow> Ticket" where
  "spec_settle limit n token outcome tk =
     (case outcome of
        Inl Cancelled \<Rightarrow> tk
      | Inl (ConfigRead e) \<Rightarrow>
          (let rel = (if tk_holder tk = Some token then tk\<lparr>tk_holder := None\<rparr> else tk)
           in if limit \<le> n then spec_finish token rel
              else rel\<lparr>tk_terminal := False, tk_delayed := True, tk_pending := False\<rparr>)
      | _ \<Rightarrow> spec_finish token tk)"

text \<open>The count of attempts is readable and not at the end of its type.\<close>

definition counted :: "string \<Rightarrow> nat \<Rightarrow> Store \<Rightarrow> bool" where
  "counted j c s \<longleftrightarrow> counter (st_hash s (live_key j) ''attempts'') = Some (int c) \<and> Suc c < 2 ^ 32"

lemma counted_i64: "counted j c s \<Longrightarrow> i64_min \<le> int c + 1 \<and> int c + 1 \<le> i64_max"
  by (auto simp: counted_def i64_min_def i64_max_def)

lemma counter_show_int: "i64_min \<le> n \<Longrightarrow> n \<le> i64_max \<Longrightarrow> counter (Some (show_int n)) = Some n"
  by (simp add: counter_def)

section \<open>Services that answer\<close>

locale steady_queue = queue_store +
  assumes delivered: "rd_trip (qc_redis q) w = (t, w') \<Longrightarrow> t = Delivered"
    and connected: "is_ok (fst (rd_connect (qc_redis q) w))"
begin

lemma wp_sent:
  assumes "\<And>w1 a w2. view w1 = view w \<Longrightarrow> command w1 = (a, w2) \<Longrightarrow> Q (Inr a) w2"
  shows "wp (send (qc_redis q) command) Q w"
proof -
  obtain t w1 where t: "rd_trip (qc_redis q) w = (t, w1)" by fastforce
  obtain a w2 where c: "command w1 = (a, w2)" by fastforce
  show ?thesis
    using assms [OF trip_same [OF t] c] delivered [OF t] t c by (simp add: send_def wp_def)
qed

lemma wp_asked:
  assumes "\<And>w1. view w1 = view w \<Longrightarrow> Q (Inr (f w1)) w1"
  shows "wp (ask (qc_redis q) f) Q w"
  unfolding ask_def using assms by (intro wp_sent) auto

lemma wp_told:
  assumes "\<And>w1. view w1 = view w \<Longrightarrow> Q (Inr ()) (f w1)"
  shows "wp (tell (qc_redis q) f) Q w"
  unfolding tell_def using assms by (intro wp_sent) auto

lemma wp_acked:
  assumes "\<And>w1. view w1 = acknowledge i (view w) \<Longrightarrow> Q (Inr ()) w1"
  shows "wp (ack q i) Q w"
  unfolding ack_def by (rule wp_told) (simp add: assms xack)

lemma wp_deferred:
  assumes "\<And>w1. view w1 = acknowledge i (set_score DELAYED_KEY (enc_message (qc_json q) msg) (Some t) (view w))
    \<Longrightarrow> Q (Inr ()) w1"
  shows "wp (defer_message q msg i t) Q w"
  unfolding defer_message_def defer_commands_def by (rule wp_told) (simp add: assms xack zadd)

lemma wp_released:
  assumes "\<And>w1. view w1 = released p token (view w) \<Longrightarrow> Q (Inr ()) w1"
  shows "wp (release_lock (qc_redis q) p token) Q w"
  unfolding release_lock_def wp_bind wp_return
  by (rule wp_sent) (auto intro!: assms dest!: release_script_view)

lemma wp_bumped:
  assumes "counter (st_hash (view w) (live_key j) ''attempts'') = Some c" "i64_min \<le> c + n" "c + n \<le> i64_max"
    and "\<And>w1. view w1 = set_field (live_key j) ''attempts'' (show_int (c + n)) (view w) \<Longrightarrow> Q (Inr (c + n)) w1"
  shows "wp (bump_attempts q j n) Q w"
  unfolding bump_attempts_def
proof (rule wp_sent)
  fix w1 a w2
  assume v: "view w1 = view w" and c: "rd_hincr (qc_redis q) w1 (live_key j) ''attempts'' n = (a, w2)"
  from hincr [OF c] assms(1-3) v
  show "Q (Inr a) w2" by (auto intro: assms(4))
qed

lemma wp_finished:
  assumes "held_by_other msg n (view w) \<Longrightarrow> (\<And>w1. view w1 = view w \<Longrightarrow> Q (Inr ()) w1)"
    and "\<not> held_by_other msg n (view w) \<Longrightarrow> (\<And>w1 c err. view w1 =
      acknowledge i (released (jm_pipeline msg) (fence (jm_job_id msg) n) (with_terminal (jm_job_id msg) t c err (view w)))
      \<Longrightarrow> Q (Inr ()) w1)"
  shows "wp (finish_job q msg i n t) Q w"
proof -
  have writes: "wp (finish_writes q msg i n t) Q w1"
    if "view w1 = view w" "\<not> held_by_other msg n (view w)" for w1
    unfolding finish_writes_def wp_bind wp_read_clock Let_def
    by (rule wp_mark_finished, rule wp_told, simp, rule wp_publish, rule wp_released, simp, rule wp_acked)
       (use assms(2) that in \<open>simp add: terminal_view\<close>)
  show ?thesis
    unfolding finish_job_def wp_bind
    by (rule wp_asked)
       (use assms(1) in \<open>auto simp: get held_by_other_def split: option.splits intro!: writes\<close>)
qed

lemma finish_refines:
  assumes "is_terminal (Some (te_status t))"
  shows "wp (finish_job q msg i n t) (\<lambda>x w'. x = Inr ()
    \<and> ticket js msg i (view w') = spec_finish (fence (jm_job_id msg) n) (ticket js msg i (view w))) w"
  by (rule wp_finished)
     (use assms in \<open>auto simp: ticket_def spec_finish_def held_by_other_def released_def\<close>)

lemma wp_tried:
  assumes "st_strings (view w) (lock_key p) = None \<Longrightarrow>
      (\<And>w1. view w1 = set_string (lock_key p) (Some token) (view w) \<Longrightarrow> Q (Inr True) w1)"
    and "st_strings (view w) (lock_key p) \<noteq> None \<Longrightarrow> (\<And>w1. view w1 = view w \<Longrightarrow> Q (Inr False) w1)"
  shows "wp (try_lock (qc_redis q) p token ttl) Q w"
  unfolding try_lock_def wp_bind wp_return
  by (rule wp_sent) (drule set_nx, use assms in \<open>auto split: if_splits\<close>)

lemma acquire_stores:
  assumes c: "counted (jm_job_id msg) c s"
    and w: "view w = set_field (live_key (jm_job_id msg)) ''attempts'' (show_int (int c + 1)) s"
    and free: "\<And>w'. st_strings s (lock_key (jm_pipeline msg)) = None
      \<Longrightarrow> view w' = set_string (lock_key (jm_pipeline msg)) (Some (fence (jm_job_id msg) n)) (view w)
      \<Longrightarrow> Q (Some n) w'"
    and busy: "\<And>w' t. st_strings s (lock_key (jm_pipeline msg)) \<noteq> None
      \<Longrightarrow> view w' = acknowledge i (set_score DELAYED_KEY (enc_message (qc_json q) msg) (Some t)
            (set_field (live_key (jm_job_id msg)) ''attempts'' (show_int (int c)) s)) \<Longrightarrow> Q None w'"
  shows "wp (acquire q msg i n) Q w"
proof -
  have undo: "wp (bump_attempts q (jm_job_id msg) (- 1))
      (\<lambda>_ w3. wp (defer_message q msg i (clock_ms (qc_redis q) w3 + 30000)) (\<lambda>_. Q None) w3) w2"
    if l: "st_strings s (lock_key (jm_pipeline msg)) \<noteq> None" and w2: "view w2 = view w" for w2
  proof (rule wp_bumped [where c = "int c + 1"])
    show "counter (st_hash (view w2) (live_key (jm_job_id msg)) ''attempts'') = Some (int c + 1)"
      using counted_i64 [OF c] by (simp add: w2 w counter_show_int)
    show "i64_min \<le> int c + 1 + - 1" "int c + 1 + - 1 \<le> i64_max"
      using counted_i64 [OF c] by (auto simp: i64_min_def)
    fix w3
    assume "view w3 = set_field (live_key (jm_job_id msg)) ''attempts'' (show_int (int c + 1 + - 1)) (view w2)"
    then have "view w3 = set_field (live_key (jm_job_id msg)) ''attempts'' (show_int (int c)) s"
      by (simp add: w2 w set_field_def)
    then show "wp (defer_message q msg i (clock_ms (qc_redis q) w3 + 30000)) (\<lambda>_. Q None) w3"
      by (intro wp_deferred) (auto intro!: busy [OF l])
  qed
  show ?thesis unfolding acquire_def wp_bind
    by (rule wp_tried) (use w free undo in auto)
qed

lemma claim_attempt_refines:
  assumes c: "counted (jm_job_id msg) c (view w)"
    and live: "\<not> is_terminal (st_hash (view w) (live_key (jm_job_id msg)) ''status'')"
  shows "wp (claim_attempt q msg i) (\<lambda>x w'. (x, ticket (qc_json q) msg i (view w'))
    = spec_claim (qs_max_attempts (qc_settings q)) (fence (jm_job_id msg)) (ticket (qc_json q) msg i (view w))) w"
  unfolding claim_attempt_def wp_bind Let_def
proof (rule wp_bumped)
  show "counter (st_hash (view w) (live_key (jm_job_id msg)) ''attempts'') = Some (int c)"
    using c by (simp add: counted_def)
  show "i64_min \<le> int c + 1" "int c + 1 \<le> i64_max" using counted_i64 [OF c] by auto
  fix w1
  assume w1: "view w1 = set_field (live_key (jm_job_id msg)) ''attempts'' (show_int (int c + 1)) (view w)"
  let ?tk = "ticket (qc_json q) msg i (view w)"
  let ?spec = "spec_claim (qs_max_attempts (qc_settings q)) (fence (jm_job_id msg)) ?tk"
  have n: "attempts_of (Inr (int c + 1)) = Suc c" using c by (simp add: attempts_of_def counted_def)
  have tk: "tk_attempts ?tk = c" "\<not> tk_terminal ?tk" using c live by (simp_all add: counted_def)
  have tk1: "ticket (qc_json q) msg i (view w1) = ?tk\<lparr>tk_attempts := Suc c\<rparr>"
    using counted_i64 [OF c] by (simp add: w1 ticket_def counter_show_int nat_add_distrib)
  have over: "wp (finish_job q msg i (Suc c) (gave_up (Suc c)))
      (\<lambda>_ w'. (None, ticket (qc_json q) msg i (view w')) = ?spec) w1"
    if "qs_max_attempts (qc_settings q) < Suc c"
    by (rule wp_mono [OF finish_refines [where js = "qc_json q"]])
       (use that tk in \<open>simp_all add: gave_up_def failed_terminal_def is_terminal_def tk1 spec_claim_def Let_def\<close>)
  have go: "wp (acquire q msg i (Suc c))
      (\<lambda>x w'. (x, ticket (qc_json q) msg i (view w')) = ?spec) w1"
    if "\<not> qs_max_attempts (qc_settings q) < Suc c"
  proof (rule acquire_stores [OF c w1])
    have le: "int c \<le> i64_max" "i64_min \<le> int c" using counted_i64 [OF c] by (auto simp: i64_min_def)
    fix w' t
    assume "st_strings (view w) (lock_key (jm_pipeline msg)) \<noteq> None"
      "view w' = acknowledge i (set_score DELAYED_KEY (enc_message (qc_json q) msg) (Some t)
            (set_field (live_key (jm_job_id msg)) ''attempts'' (show_int (int c)) (view w)))"
    then show "(None, ticket (qc_json q) msg i (view w')) = ?spec"
      using that tk le c by (auto simp: spec_claim_def Let_def ticket_def counter_show_int counted_def)
  next
    fix w'
    assume "st_strings (view w) (lock_key (jm_pipeline msg)) = None"
      "view w' = set_string (lock_key (jm_pipeline msg)) (Some (fence (jm_job_id msg) (Suc c))) (view w1)"
    then show "(Some (Suc c), ticket (qc_json q) msg i (view w')) = ?spec"
      using that tk tk1 by (auto simp: spec_claim_def Let_def ticket_def)
  qed
  show "wp (if qs_max_attempts (qc_settings q) < attempts_of (Inr (int c + 1))
      then do { finish_job q msg i (attempts_of (Inr (int c + 1))) (gave_up (attempts_of (Inr (int c + 1))));
        State_Monad.return None }
      else acquire q msg i (attempts_of (Inr (int c + 1))))
     (\<lambda>x w'. (x, ticket (qc_json q) msg i (view w')) = ?spec) w1"
    using over go by (simp add: n)
qed

lemma claim_message_refines:
  assumes c: "counted (jm_job_id msg) c (view w)" and p: "validate_pipeline_prefix (jm_prefix msg) = Inr u"
  shows "wp (claim_message q msg i) (\<lambda>x w'. (x, ticket (qc_json q) msg i (view w'))
    = spec_claim (qs_max_attempts (qc_settings q)) (fence (jm_job_id msg)) (ticket (qc_json q) msg i (view w))) w"
proof -
  let ?Q = "\<lambda>x w'. (x, ticket (qc_json q) msg i (view w'))
    = spec_claim (qs_max_attempts (qc_settings q)) (fence (jm_job_id msg)) (ticket (qc_json q) msg i (view w))"
  let ?final = "is_terminal (st_hash (view w) (live_key (jm_job_id msg)) ''status'')"
  have again: "wp (ack q i) (\<lambda>_. ?Q None) w1" if "view w1 = view w" ?final for w1
    by (rule wp_acked) (use that in \<open>simp add: spec_claim_def ticket_def\<close>)
  have go: "wp (claim_attempt q msg i) ?Q w1" if "view w1 = view w" "\<not> ?final" for w1
    using claim_attempt_refines [of msg c w1] c that by simp
  show ?thesis unfolding claim_message_def p sum.case wp_bind
    by (rule wp_asked) (auto simp: hget intro: again go)
qed

lemma claim_refines:
  assumes d: "dec_message (qc_json q) payload = Inr msg" and c: "counted (jm_job_id msg) c (view w)"
    and p: "validate_pipeline_prefix (jm_prefix msg) = Inr u"
  shows "wp (claim q i payload) (\<lambda>x w'.
      (map_option snd x, ticket (qc_json q) msg i (view w'))
        = spec_claim (qs_max_attempts (qc_settings q)) (fence (jm_job_id msg)) (ticket (qc_json q) msg i (view w))
      \<and> (\<forall>m n. x = Some (m, n) \<longrightarrow> m = msg)) w"
proof -
  obtain w1 where conn: "rd_connect (qc_redis q) w = (Inr (), w1)" and w1: "view w1 = view w"
    using connected [of w] connect_same [of w]
    by (cases "rd_connect (qc_redis q) w") (auto simp: is_ok_def split: sum.splits)
  have c1: "counted (jm_job_id msg) c (view w1)" using c w1 by simp
  show ?thesis
    unfolding claim_def wp_bind wp_State conn prod.case sum.case d wp_return
    by (rule wp_mono [OF claim_message_refines [OF c1 p]]) (auto simp: w1 option.map_comp o_def option.map_ident)
qed

lemma retry_refines:
  shows "wp (retry_or_fail q msg i n e) (\<lambda>x w'. x = Inr () \<and> ticket (qc_json q) msg i (view w')
    = spec_settle (qs_max_attempts (qc_settings q)) n (fence (jm_job_id msg) n) (Inl (ConfigRead e))
        (ticket (qc_json q) msg i (view w))) w"
proof -
  let ?tok = "fence (jm_job_id msg) n"
  let ?tk = "ticket (qc_json q) msg i (view w)"
  let ?rel = "if tk_holder ?tk = Some ?tok then ?tk\<lparr>tk_holder := None\<rparr> else ?tk"
  have rel: "ticket (qc_json q) msg i (released (jm_pipeline msg) ?tok (view w)) = ?rel"
    by (simp add: ticket_def released_def)
  have over: "wp (finish_job q msg i n (failed_terminal e)) (\<lambda>x w'. x = Inr ()
      \<and> ticket (qc_json q) msg i (view w') = spec_finish ?tok ?rel) w1"
    if "view w1 = released (jm_pipeline msg) ?tok (view w)" for w1
    using finish_refines [of "failed_terminal e" msg i n "qc_json q" w1]
    by (simp add: that rel failed_terminal_def is_terminal_def)
  have put_off: "wp (tell (qc_redis q) (\<lambda>w. rd_hset (qc_redis q) w (live_key (jm_job_id msg)) ''status'' ''queued''))
      (\<lambda>_ w2. wp (defer_message q msg i (clock_ms (qc_redis q) w2 + backoff_ms n))
         (\<lambda>x w'. x = Inr () \<and> ticket (qc_json q) msg i (view w')
           = ?rel\<lparr>tk_terminal := False, tk_delayed := True, tk_pending := False\<rparr>) w2) w1"
    if "view w1 = released (jm_pipeline msg) ?tok (view w)" for w1
    by (rule wp_told, rule wp_deferred)
       (simp add: hset that ticket_def released_def is_terminal_def)
  show ?thesis unfolding retry_or_fail_def wp_bind wp_read_clock wp_return
    by (rule wp_released)
       (auto simp: spec_settle_def Let_def map_err_eq_Inr simp del: ticket_sel
         intro!: wp_mono [OF over] wp_mono [OF put_off])
qed

lemma settle_refines:
  "wp (settle q msg i n out) (\<lambda>x w'. x = Inr () \<and> ticket (qc_json q) msg i (view w')
    = spec_settle (qs_max_attempts (qc_settings q)) n (fence (jm_job_id msg) n) out
        (ticket (qc_json q) msg i (view w))) w"
  using finish_refines [where js = "qc_json q" and msg = msg and i = i and n = n and w = w]
    retry_refines
  by (cases out; (cases "projl out")?)
     (auto simp: settle_def spec_settle_def outcome_terminal_def no_files_terminal_def
       failed_terminal_def is_terminal_def simp del: ticket_sel)

end

end
