(* ===== verification/Queue_Machine.thy ===== *)
theory Queue_Machine
  imports Queue_Steady
begin

text \<open>
  Several workers on one Redis as a step relation. A claim takes its round trips one by one: it counts
  the attempt, tries the lock and, when that is busy, gives the attempt back; other workers, crashes and the
  expiry of locks come in between. Of all attempts running for a pipeline at most one holds its lock,
  as long as claims of one job do not overlap; two that overlap can give one fence to two attempts.
\<close>

section \<open>Fences\<close>

lemma fence_split: "takeWhile (\<lambda>c. c \<noteq> CHR '':'') (rev (fence j n)) = rev (show_nat n)"
proof -
  have "CHR '':'' \<notin> set (show_nat n)" by (rule show_nat_no_char) (simp add: is_digit_def)
  then have "\<forall>c \<in> set (rev (show_nat n)). c \<noteq> CHR '':''" by auto
  then show ?thesis unfolding fence_def by (simp, subst takeWhile_append2) auto
qed

lemma fence_inj [simp]: "fence j n = fence j' n' \<longleftrightarrow> j = j' \<and> n = n'"
proof
  assume e: "fence j n = fence j' n'"
  then have "rev (show_nat n) = rev (show_nat n')" by (metis fence_split)
  then have "n = n'" by simp
  with e show "j = j' \<and> n = n'" by (simp add: fence_def)
qed simp

lemma live_key_inj [simp]: "live_key j = live_key j' \<longleftrightarrow> j = j'"
  by (simp add: live_key_def)

section \<open>Steps\<close>

text \<open>The attempts of the workers: the entry's message, the number of the attempt and the entry. An attempt
  is counted, then finds the lock busy or runs.\<close>

type_synonym Attempt = "JobMessage \<times> nat \<times> string"

datatype Stage = Counting | Busy | Running

definition attempt_id :: "Attempt \<Rightarrow> string \<times> nat" where
  "attempt_id x = (case x of (msg, n, _) \<Rightarrow> (jm_job_id msg, n))"

lemma attempt_id_simp [simp]: "attempt_id (msg, n, i) = (jm_job_id msg, n)"
  by (simp add: attempt_id_def)

text \<open>A claim of the job is between its count and its end.\<close>

definition claiming :: "string \<Rightarrow> (Stage \<times> Attempt) list \<Rightarrow> bool" where
  "claiming j R \<longleftrightarrow> (\<exists>(st, x) \<in> set R. st \<noteq> Running \<and> fst (attempt_id x) = j)"

text \<open>No count of attempts changes.\<close>

definition counts_kept :: "Store \<Rightarrow> Store \<Rightarrow> bool" where
  "counts_kept s s' \<longleftrightarrow> (\<forall>j. st_hash s' (live_key j) ''attempts'' = st_hash s (live_key j) ''attempts'')"

lemma counts_keptI [intro]:
  "(\<And>j. st_hash s' (live_key j) ''attempts'' = st_hash s (live_key j) ''attempts'') \<Longrightarrow> counts_kept s s'"
  by (simp add: counts_kept_def)

lemma counts_kept_refl [simp]: "counts_kept s s" by (simp add: counts_kept_def)

lemma counts_kept_trans: "counts_kept s s' \<Longrightarrow> counts_kept s' s'' \<Longrightarrow> counts_kept s s''"
  by (simp add: counts_kept_def)

text \<open>The steps. A claim counts its attempt (\<open>claim_attempt\<close>), the reply giving its number; when \<open>serial\<close>, only if no
  other claim of the job is under way. Within the limit it tries the lock (\<open>acquire\<close>). An attempt leaves its stage
  by an error, a crash or its end. Everything else that leaves the counts alone may happen at any time, and the
  record of a job without attempts may expire.\<close>

inductive qstep ::
  "bool \<Rightarrow> 'w QueueCtx \<Rightarrow> ('w \<Rightarrow> Store) \<Rightarrow> 'w \<times> (Stage \<times> Attempt) list \<Rightarrow> 'w \<times> (Stage \<times> Attempt) list \<Rightarrow> bool"
  for serial q view where
  count: "counted (jm_job_id msg) c (view w) \<Longrightarrow> serial \<longrightarrow> \<not> claiming (jm_job_id msg) R
    \<Longrightarrow> run_state (bump_attempts q (jm_job_id msg) 1) w = (Inr k, w')
    \<Longrightarrow> qstep serial q view (w, R) (w', (Counting, msg, attempts_of (Inr k), i) # R)"
| lock: "(Counting, msg, n, i) \<in> set R \<Longrightarrow> n \<le> qs_max_attempts (qc_settings q)
    \<Longrightarrow> run_state (try_lock (qc_redis q) (jm_pipeline msg) (fence (jm_job_id msg) n) (qs_lock_ttl_ms (qc_settings q))) w
      = (Inr True, w')
    \<Longrightarrow> qstep serial q view (w, R) (w', (Running, msg, n, i) # remove1 (Counting, msg, n, i) R)"
| busy: "(Counting, msg, n, i) \<in> set R \<Longrightarrow> n \<le> qs_max_attempts (qc_settings q)
    \<Longrightarrow> run_state (try_lock (qc_redis q) (jm_pipeline msg) (fence (jm_job_id msg) n) (qs_lock_ttl_ms (qc_settings q))) w
      = (Inr False, w')
    \<Longrightarrow> qstep serial q view (w, R) (w', (Busy, msg, n, i) # remove1 (Counting, msg, n, i) R)"
| give_back: "(Busy, msg, n, i) \<in> set R \<Longrightarrow> run_state (bump_attempts q (jm_job_id msg) (- 1)) w = (reply, w')
    \<Longrightarrow> qstep serial q view (w, R) (w', remove1 (Busy, msg, n, i) R)"
| leave: "qstep serial q view (w, R) (w, remove1 a R)"
| other: "counts_kept (view w) (view w') \<Longrightarrow> qstep serial q view (w, R) (w', R)"
| forget: "\<forall>(st, x) \<in> set R. fst (attempt_id x) \<noteq> j
    \<Longrightarrow> \<forall>j'. j' \<noteq> j \<longrightarrow> st_hash (view w') (live_key j') ''attempts'' = st_hash (view w) (live_key j') ''attempts''
    \<Longrightarrow> qstep serial q view (w, R) (w', R)"

inductive_cases qstepE: "qstep serial q view (w, R) (w', R')"

text \<open>An attempt holds the lock of its pipeline.\<close>

definition holds :: "Store \<Rightarrow> Attempt \<Rightarrow> bool" where
  "holds s x = (case x of (msg, n, _) \<Rightarrow>
     st_strings s (lock_key (jm_pipeline msg)) = Some (fence (jm_job_id msg) n))"

section \<open>The invariant\<close>

text \<open>Attempts have distinct numbers, none ahead of its job's count, and a claim under way has the last one.\<close>

definition attempt_counted :: "Store \<Rightarrow> Stage \<times> Attempt \<Rightarrow> bool" where
  "attempt_counted s a = (case a of (st, msg, n, _) \<Rightarrow>
     \<exists>c. counter (st_hash s (live_key (jm_job_id msg)) ''attempts'') = Some (int c) \<and> c < 2 ^ 32
       \<and> n \<le> c \<and> (st \<noteq> Running \<longrightarrow> n = c))"

definition attempts_inv :: "Store \<Rightarrow> (Stage \<times> Attempt) list \<Rightarrow> bool" where
  "attempts_inv s R \<longleftrightarrow> distinct (map (attempt_id \<circ> snd) R) \<and> list_all (attempt_counted s) R"

lemma attempt_counted_cong:
  "st_hash s' (live_key (fst (attempt_id x))) ''attempts'' = st_hash s (live_key (fst (attempt_id x))) ''attempts''
    \<Longrightarrow> attempt_counted s' (st, x) = attempt_counted s (st, x)"
  by (cases x) (simp add: attempt_counted_def)

lemma inv_kept: "attempts_inv s R \<Longrightarrow> counts_kept s s' \<Longrightarrow> attempts_inv s' R"
  by (simp add: attempts_inv_def counts_kept_def list_all_iff attempt_counted_def split_beta)

lemma inv_removed: "attempts_inv s R \<Longrightarrow> attempts_inv s (remove1 a R)"
  using set_remove1_subset [of a R]
  by (auto simp: attempts_inv_def distinct_map distinct_remove1 list_all_iff intro: inj_on_subset)

text \<open>An attempt that moves to another stage.\<close>

lemma inv_moved:
  assumes "attempts_inv s R" and "(st, x) \<in> set R" and "attempt_counted s (st', x)"
  shows "attempts_inv s ((st', x) # remove1 (st, x) R)"
proof -
  let ?f = "attempt_id \<circ> snd"
  from assms(1) have d: "distinct R" "inj_on ?f (set R)" by (auto simp: attempts_inv_def distinct_map)
  have "?f (st, x) \<notin> ?f ` set (remove1 (st, x) R)"
  proof
    assume "?f (st, x) \<in> ?f ` set (remove1 (st, x) R)"
    then obtain a where "?f (st, x) = ?f a" "a \<in> set (remove1 (st, x) R)" by (rule imageE)
    with d(1) have "a \<in> set R" "a \<noteq> (st, x)" "?f a = ?f (st, x)" by simp_all
    with inj_onD [OF d(2), of a "(st, x)"] assms(2) show False by simp
  qed
  with inv_removed [OF assms(1), of "(st, x)"] assms(3) show ?thesis by (simp add: attempts_inv_def)
qed

context queue_store
begin

text \<open>The counter's commands, with what the answered ones reply.\<close>

lemma wp_bump_counter:
  assumes "counter (st_hash (view w) (live_key j) ''attempts'') = Some c" and "i64_min \<le> c + n" "c + n \<le> i64_max"
    and "\<And>x w1. view w1 = set_field (live_key j) ''attempts'' (show_int (c + n)) (view w)
      \<Longrightarrow> \<forall>k. x = Inr k \<longrightarrow> k = c + n \<Longrightarrow> Q x w1"
    and "\<And>e w1. view w1 = view w \<Longrightarrow> Q (Inl e) w1"
  shows "wp (bump_attempts q j n) Q w"
  unfolding bump_attempts_def
proof (rule wp_send)
  fix w1 a w2
  assume v: "view w1 = view w" and c: "rd_hincr (qc_redis q) w1 (live_key j) ''attempts'' n = (a, w2)"
  from hincr [OF c] assms(1-3) v have "a = c + n"
    "view w2 = set_field (live_key j) ''attempts'' (show_int (c + n)) (view w)" by auto
  then show "Q (Inr a) w2 \<and> (\<forall>e. Q (Inl e) w2)" by (simp add: assms(4))
qed (rule assms(5))

lemma count_inv:
  assumes inv: "attempts_inv (view w) R" and c: "counted (jm_job_id msg) c (view w)"
    and alone: "\<not> claiming (jm_job_id msg) R"
    and r: "run_state (bump_attempts q (jm_job_id msg) 1) w = (Inr k, w')"
  shows "attempts_inv (view w') ((Counting, msg, attempts_of (Inr k), i) # R)"
proof -
  let ?j = "jm_job_id msg"
  note i64 = counted_i64 [OF c]
  have "wp (bump_attempts q ?j 1) (\<lambda>x w1. \<forall>k. x = Inr k \<longrightarrow> k = int c + 1
      \<and> view w1 = set_field (live_key ?j) ''attempts'' (show_int (int c + 1)) (view w)) w"
    by (rule wp_bump_counter) (use c i64 in \<open>auto simp: counted_def\<close>)
  from wpD [OF this r] have k: "k = int c + 1"
    and w': "view w' = set_field (live_key ?j) ''attempts'' (show_int (int c + 1)) (view w)" by auto
  have n: "attempts_of (Inr k) = Suc c" using c by (simp add: k attempts_of_def counted_def)
  have cnt: "counter (st_hash (view w') (live_key ?j) ''attempts'') = Some (int (Suc c))"
    using i64 by (simp add: w' counter_show_int add.commute)
  have old: "attempt_counted (view w') a \<and> attempt_id (snd a) \<noteq> (?j, Suc c)" if a: "a \<in> set R" for a
  proof -
    obtain st m n' i' where a': "a = (st, m, n', i')" by (cases a) auto
    from inv a have ca: "attempt_counted (view w) a" by (simp add: attempts_inv_def list_all_iff)
    show ?thesis
    proof (cases "jm_job_id m = ?j")
      case True
      with alone a a' have "st = Running" by (force simp: claiming_def)
      with ca a' True c have "n' \<le> c" by (auto simp: attempt_counted_def counted_def)
      with \<open>st = Running\<close> True cnt c a' show ?thesis
        unfolding a' attempt_counted_def prod.case counted_def
        by (intro conjI exI [of _ "Suc c"]) auto
    next
      case False
      then have "st_hash (view w') (live_key (jm_job_id m)) = st_hash (view w) (live_key (jm_job_id m))" by (simp add: w')
      with False ca a' show ?thesis by (simp add: attempt_counted_def)
    qed
  qed
  from cnt have new: "attempt_counted (view w') (Counting, msg, Suc c, i)"
    using c unfolding attempt_counted_def prod.case counted_def by (intro exI [of _ "Suc c"]) simp
  have "(?j, Suc c) \<notin> (attempt_id \<circ> snd) ` set R" using old by fastforce
  with inv old new show ?thesis by (simp add: attempts_inv_def list_all_iff n)
qed

lemma give_back_inv:
  assumes inv: "attempts_inv (view w) R" and b: "(Busy, msg, n, i) \<in> set R"
    and r: "run_state (bump_attempts q (jm_job_id msg) (- 1)) w = (reply, w')"
  shows "attempts_inv (view w') (remove1 (Busy, msg, n, i) R)"
proof -
  let ?j = "jm_job_id msg"
  let ?R = "remove1 (Busy, msg, n, i) R"
  from inv b have cb: "attempt_counted (view w) (Busy, msg, n, i)" by (auto simp: attempts_inv_def list_all_iff)
  then have cnt: "counter (st_hash (view w) (live_key ?j) ''attempts'') = Some (int n)" "n < 2 ^ 32"
    by (auto simp: attempt_counted_def)
  have "wp (bump_attempts q ?j (- 1)) (\<lambda>_ w1. view w1 = view w
      \<or> view w1 = set_field (live_key ?j) ''attempts'' (show_int (int n - 1)) (view w)) w"
    by (rule wp_bump_counter [OF cnt(1)]) (use cnt(2) in \<open>auto simp: i64_min_def i64_max_def\<close>)
  from wpD [OF this r] consider "view w' = view w"
    | "view w' = set_field (live_key ?j) ''attempts'' (show_int (int n - 1)) (view w)" by auto
  then show ?thesis
  proof cases
    case 1
    with inv_removed [OF inv] show ?thesis by simp
  next
    case w': 2
    have "attempt_counted (view w') a" if a: "a \<in> set ?R" for a
    proof -
      obtain st m n' i' where a': "a = (st, m, n', i')" by (cases a) auto
      from a have "a \<in> set R" using set_remove1_subset by fast
      with inv have ca: "attempt_counted (view w) a" by (simp add: attempts_inv_def list_all_iff)
      show ?thesis
      proof (cases "jm_job_id m = ?j")
        case True
        have "distinct (map (attempt_id \<circ> snd) ((Busy, msg, n, i) # ?R))"
          using inv_moved [OF inv b cb] by (simp add: attempts_inv_def)
        with a have "attempt_id (m, n', i') \<noteq> attempt_id (msg, n, i)" unfolding a' by force
        with True ca cnt a' have less: "n' < n" "st = Running" by (auto simp: attempt_counted_def)
        then obtain c where c: "n = Suc c" by (cases n) auto
        have "counter (st_hash (view w') (live_key ?j) ''attempts'') = Some (int c)"
          using cnt(2) by (simp add: w' c counter_show_int i64_min_def i64_max_def)
        with less True cnt(2) c show ?thesis unfolding a' attempt_counted_def prod.case
          by (intro exI [of _ c]) simp
      next
        case False
        then have "st_hash (view w') (live_key (jm_job_id m)) = st_hash (view w) (live_key (jm_job_id m))" by (simp add: w')
        with ca a' show ?thesis by (simp add: attempt_counted_def)
      qed
    qed
    with inv_removed [OF inv] show ?thesis by (simp add: attempts_inv_def list_all_iff)
  qed
qed

text \<open>Trying the lock touches no count.\<close>

lemma try_lock_counts: "wp (try_lock (qc_redis q) p token ttl) (\<lambda>_ w'. counts_kept (view w) (view w')) w"
  unfolding try_lock_def wp_bind wp_return
  by (rule wp_send) (auto dest!: set_nx)

lemma lock_inv:
  assumes inv: "attempts_inv (view w) R" and a: "(Counting, x) \<in> set R"
    and r: "run_state (try_lock (qc_redis q) p token ttl) w = (y, w')"
  shows "attempts_inv (view w') ((st, x) # remove1 (Counting, x) R)"
proof -
  from wpD [OF try_lock_counts r] inv_kept [OF inv] have inv': "attempts_inv (view w') R" by blast
  moreover have "attempt_counted (view w') (st, x)"
    using inv' a by (cases x) (auto simp: attempts_inv_def list_all_iff attempt_counted_def)
  ultimately show ?thesis by (intro inv_moved [OF _ a])
qed

text \<open>Every step of serial claims keeps the invariant.\<close>

lemma qstep_inv:
  assumes "qstep True q view x y" "attempts_inv (view (fst x)) (snd x)"
  shows "attempts_inv (view (fst y)) (snd y)"
  using assms
proof (induction rule: qstep.induct)
  case (count msg c w R k w' i)
  then show ?case using count_inv [of w R msg c k w' i] by simp
next
  case (lock msg n i R w w')
  then show ?case using lock_inv [of w R "(msg, n, i)"] by fastforce
next
  case (busy msg n i R w w')
  then show ?case using lock_inv [of w R "(msg, n, i)"] by fastforce
next
  case (give_back msg n i R w reply w')
  then show ?case using give_back_inv by fastforce
next
  case (leave w R a)
  then show ?case by (simp add: inv_removed)
next
  case (other w w' R)
  then show ?case by (auto intro: inv_kept)
next
  case (forget R j w' w)
  then have "attempt_counted (view w') a = attempt_counted (view w) a" if "a \<in> set R" for a
    using that attempt_counted_cong [of "view w'" "snd a" "view w" "fst a"] by auto
  with forget(3) show ?case by (simp add: attempts_inv_def list_all_iff)
qed

lemma reachable_inv:
  assumes "(qstep True q view)\<^sup>*\<^sup>* (w0, []) (w, R)"
  shows "attempts_inv (view w) R"
proof -
  have "attempts_inv (view (fst x)) (snd x) \<Longrightarrow> attempts_inv (view (fst y)) (snd y)"
    if "(qstep True q view)\<^sup>*\<^sup>* x y" for x y
    using that by (induction rule: rtranclp_induct) (auto intro: qstep_inv)
  from this [OF assms] show ?thesis by (simp add: attempts_inv_def)
qed

end

text \<open>Distinct attempts have distinct fences, so that one lock has one holder.\<close>

lemma distinct_map_same:
  assumes "distinct (map f xs)" "\<And>x y. x \<in> set xs \<Longrightarrow> y \<in> set xs \<Longrightarrow> f x = f y"
  shows "length xs \<le> 1"
proof -
  have "card (f ` set xs) \<le> 1"
  proof (cases xs)
    case (Cons x ys)
    then have x: "x \<in> set xs" by simp
    have "f y = f x" if "y \<in> set xs" for y by (rule assms(2) [OF that x])
    then have "f ` set xs \<subseteq> {f x}" by blast
    from card_mono [OF _ this] show ?thesis by simp
  qed simp
  moreover have "card (f ` set xs) = length xs"
    using distinct_card [OF assms(1)] by simp
  ultimately show ?thesis by simp
qed

lemma single_holder_inv:
  assumes "attempts_inv s R"
  shows "length (filter (\<lambda>(st, x). st = Running \<and> holds s x \<and> jm_pipeline (fst x) = p) R) \<le> 1"
proof -
  let ?H = "filter (\<lambda>(st, x). st = Running \<and> holds s x \<and> jm_pipeline (fst x) = p) R"
  have "distinct (map (attempt_id \<circ> snd) ?H)"
    using assms by (auto simp: attempts_inv_def intro: distinct_map_filter)
  moreover have "(attempt_id \<circ> snd) x = (attempt_id \<circ> snd) y" if "x \<in> set ?H" "y \<in> set ?H" for x y
    using that by (auto simp: holds_def)
  ultimately show ?thesis by (rule distinct_map_same)
qed

end
