(* ===== verification/Mem_Redis.thy ===== *)
theory Mem_Redis
  imports Queue_Machine "HOL-Library.AList"
begin

text \<open>
  A Redis, a database and a message format in memory: instances of the laws, on which the queue runs.
  Round trips answer as a script says, or always; \<open>mm_live\<close> are the keys a scan finds.
\<close>

section \<open>The data in memory\<close>

record Mem =
  mm_strings :: "string \<rightharpoonup> string"
  mm_hash :: "string \<Rightarrow> string \<rightharpoonup> string"
  mm_zset :: "string \<Rightarrow> (string \<times> int) list"
  mm_stream :: "string \<Rightarrow> string list"
  mm_pending :: "string set"
  mm_live :: "string list"
  mm_trips :: "Trip list"
  mm_clock :: int

definition mem_view :: "Mem \<Rightarrow> Store" where
  "mem_view m = \<lparr>st_strings = mm_strings m, st_hash = mm_hash m, st_zset = (\<lambda>k. map_of (mm_zset m k)),
     st_stream = mm_stream m, st_pending = mm_pending m\<rparr>"

definition mem_zset :: "string \<Rightarrow> ((string \<times> int) list \<Rightarrow> (string \<times> int) list) \<Rightarrow> Mem \<Rightarrow> Mem" where
  "mem_zset k f m = m\<lparr>mm_zset := (mm_zset m)(k := f (mm_zset m k))\<rparr>"

definition mem_field :: "string \<Rightarrow> string \<Rightarrow> string \<Rightarrow> Mem \<Rightarrow> Mem" where
  "mem_field k f v m = m\<lparr>mm_hash := (mm_hash m)(k := (mm_hash m k)(f \<mapsto> v))\<rparr>"

definition mem_incr :: "Mem \<Rightarrow> string \<Rightarrow> string \<Rightarrow> int \<Rightarrow> int \<times> Mem" where
  "mem_incr m k f n = (case counter (mm_hash m k f) of
     None \<Rightarrow> (0, m) | Some c \<Rightarrow> (c + n, mem_field k f (show_int (c + n)) m))"

definition mem_due :: "Mem \<Rightarrow> string \<Rightarrow> int \<Rightarrow> nat \<Rightarrow> string list" where
  "mem_due m k x lim = take lim (map fst (filter (\<lambda>(_, y). y \<le> x) (AList.clearjunk (mm_zset m k))))"

definition mem_trip :: "Mem \<Rightarrow> Trip \<times> Mem" where
  "mem_trip m = (case mm_trips m of [] \<Rightarrow> (Delivered, m) | t # ts \<Rightarrow> (t, m\<lparr>mm_trips := ts\<rparr>))"

text \<open>A stream that is cut to its maximal length at once.\<close>

definition trim :: "nat \<Rightarrow> 'a list \<Rightarrow> 'a list" where
  "trim n xs = drop (length xs - n) xs"

lemma trim_short [simp]: "length xs \<le> n \<Longrightarrow> trim n xs = xs"
  by (simp add: trim_def)

lemma trim_pushed: "0 < n \<Longrightarrow> pushed n xs [p] (trim n (xs @ [p]))"
  unfolding pushed_def trim_def by (rule exI [of _ "Suc (length xs) - n"]) auto

definition mem_redis :: "Mem RedisOps" where
  "mem_redis = \<lparr>
     rd_connect = (\<lambda>m. (Inr (), m)),
     rd_trip = mem_trip,
     rd_get = (\<lambda>m k. mm_strings m k),
     rd_set_nx = (\<lambda>m k v _. (mm_strings m k,
        if mm_strings m k = None then m\<lparr>mm_strings := (mm_strings m)(k \<mapsto> v)\<rparr> else m)),
     rd_del = (\<lambda>m k. (if mm_strings m k = None then 0 else 1, m\<lparr>mm_strings := (mm_strings m)(k := None)\<rparr>)),
     rd_pexpire = (\<lambda>m k _. (if mm_strings m k = None then 0 else 1, m)),
     rd_expire = (\<lambda>m _ _. m),
     rd_hget = (\<lambda>m k f. mm_hash m k f),
     rd_hset = (\<lambda>m k f v. mem_field k f v m),
     rd_hincr = mem_incr,
     rd_zadd = (\<lambda>m k p x. mem_zset k (AList.update p x) m),
     rd_zrem = (\<lambda>m k p. mem_zset k (AList.delete p) m),
     rd_zdue = mem_due,
     rd_xadd = (\<lambda>m k len p. m\<lparr>mm_stream := (mm_stream m)(k := trim len (mm_stream m k @ [p]))\<rparr>),
     rd_xack = (\<lambda>m _ _ i. m\<lparr>mm_pending := mm_pending m - {i}\<rparr>),
     rd_xclaim = (\<lambda>m _ _ _ _. m),
     rd_xreadgroup = (\<lambda>m _ _ _. ([], m)),
     rd_xautoclaim = (\<lambda>m _ _ _ _. ([], m)),
     rd_xgroup_create = (\<lambda>m _ _. (Inr (), m)),
     rd_xrange = (\<lambda>m k. map (\<lambda>p. (p, Some p)) (mm_stream m k)),
     rd_scan = (\<lambda>m _ _. (0, mm_live m)),
     rd_publish = (\<lambda>m _ _. m),
     clock_ms = mm_clock,
     clock_iso = (\<lambda>m. show_int (mm_clock m)),
     uuid_hex = (\<lambda>m. (''0123456789abcdef'', m))\<rparr>"

definition steady_redis :: "Mem RedisOps" where
  "steady_redis = mem_redis\<lparr>rd_trip := (\<lambda>m. (Delivered, m))\<rparr>"

lemma mem_due_laws:
  "distinct (mem_due m k x lim)" "length (mem_due m k x lim) \<le> lim"
  "p \<in> set (mem_due m k x lim) \<Longrightarrow> \<exists>y. map_of (mm_zset m k) p = Some y \<and> y \<le> x"
  "length (mem_due m k x lim) < lim \<Longrightarrow> map_of (mm_zset m k) p = Some y \<Longrightarrow> y \<le> x
    \<Longrightarrow> p \<in> set (mem_due m k x lim)"
proof -
  let ?z = "AList.clearjunk (mm_zset m k)"
  have d: "distinct (map fst (filter (\<lambda>(_, y). y \<le> x) ?z))"
    by (rule distinct_map_filter) (rule distinct_clearjunk)
  then show "distinct (mem_due m k x lim)" unfolding mem_due_def by (rule distinct_take)
  show "length (mem_due m k x lim) \<le> lim" by (simp add: mem_due_def)
  show "\<exists>y. map_of (mm_zset m k) p = Some y \<and> y \<le> x" if "p \<in> set (mem_due m k x lim)"
  proof -
    from that obtain y where "(p, y) \<in> set ?z" "y \<le> x"
      by (auto simp: mem_due_def dest!: in_set_takeD)
    then have "map_of ?z p = Some y" by (simp add: map_of_eq_Some_iff)
    with \<open>y \<le> x\<close> show ?thesis by (simp add: map_of_clearjunk)
  qed
  show "p \<in> set (mem_due m k x lim)"
    if "length (mem_due m k x lim) < lim" "map_of (mm_zset m k) p = Some y" "y \<le> x"
  proof -
    from that(1) have all: "mem_due m k x lim = map fst (filter (\<lambda>(_, y). y \<le> x) ?z)"
      by (simp add: mem_due_def min_def split: if_splits)
    have "(p, y) \<in> set ?z" using that(2) map_of_SomeD [of ?z p y] by (simp add: map_of_clearjunk)
    with that(3) show ?thesis unfolding all by force
  qed
qed

lemma mem_view_sel [simp]:
  "st_strings (mem_view m) = mm_strings m" "st_hash (mem_view m) = mm_hash m"
  "st_zset (mem_view m) k = map_of (mm_zset m k)" "st_stream (mem_view m) = mm_stream m"
  "st_pending (mem_view m) = mm_pending m"
  by (simp_all add: mem_view_def)

lemma mem_views [simp]:
  "mem_view (m\<lparr>mm_strings := (mm_strings m)(k := v)\<rparr>) = set_string k v (mem_view m)"
  "mem_view (mem_field k f x m) = set_field k f x (mem_view m)"
  "mem_view (mem_zset k (AList.update p y) m) = set_score k p (Some y) (mem_view m)"
  "mem_view (mem_zset k (AList.delete p) m) = set_score k p None (mem_view m)"
  "mem_view (m\<lparr>mm_stream := (mm_stream m)(k := ps)\<rparr>) = set_stream k ps (mem_view m)"
  "mem_view (m\<lparr>mm_pending := mm_pending m - {i}\<rparr>) = acknowledge i (mem_view m)"
  "mem_view (m\<lparr>mm_trips := ts\<rparr>) = mem_view m"
  by (simp_all add: mem_view_def mem_field_def mem_zset_def store_defs fun_eq_iff update_conv' delete_conv')

lemma mem_view_stream: "mem_view w1 = mem_view w \<Longrightarrow> mm_stream w1 = mm_stream w"
  by (simp add: mem_view_def)

text \<open>The laws do not depend on how round trips end.\<close>

lemma mem_store: "redis_store (mem_redis\<lparr>rd_trip := f\<rparr>) mem_view"
  by unfold_locales
     (auto simp: mem_redis_def mem_incr_def mem_due_laws split: option.splits if_splits
       intro!: trim_pushed dest: mem_view_stream)

lemma mem_redis_trip: "mem_redis = mem_redis\<lparr>rd_trip := mem_trip\<rparr>"
  by (simp add: mem_redis_def)

lemma mem_trip_view: "mem_trip m = (t, m') \<Longrightarrow> mem_view m' = mem_view m"
  by (auto simp: mem_trip_def split: list.splits)

lemma mem_redis_sel [simp]:
  "rd_trip steady_redis = (\<lambda>m. (Delivered, m))" "rd_trip mem_redis = mem_trip"
  "rd_connect mem_redis = (\<lambda>m. (Inr (), m))"
  "rd_connect steady_redis = (\<lambda>m. (Inr (), m))"
  "rd_get mem_redis = (\<lambda>m k. mm_strings m k)"
  "rd_get steady_redis = (\<lambda>m k. mm_strings m k)"
  "rd_set_nx mem_redis = (\<lambda>m k v _. (mm_strings m k, if mm_strings m k = None then m\<lparr>mm_strings := (mm_strings m)(k \<mapsto> v)\<rparr> else m))"
  "rd_set_nx steady_redis = (\<lambda>m k v _. (mm_strings m k, if mm_strings m k = None then m\<lparr>mm_strings := (mm_strings m)(k \<mapsto> v)\<rparr> else m))"
  "rd_del mem_redis = (\<lambda>m k. (if mm_strings m k = None then 0 else 1, m\<lparr>mm_strings := (mm_strings m)(k := None)\<rparr>))"
  "rd_del steady_redis = (\<lambda>m k. (if mm_strings m k = None then 0 else 1, m\<lparr>mm_strings := (mm_strings m)(k := None)\<rparr>))"
  "rd_pexpire mem_redis = (\<lambda>m k _. (if mm_strings m k = None then 0 else 1, m))"
  "rd_pexpire steady_redis = (\<lambda>m k _. (if mm_strings m k = None then 0 else 1, m))"
  "rd_expire mem_redis = (\<lambda>m _ _. m)"
  "rd_expire steady_redis = (\<lambda>m _ _. m)"
  "rd_hget mem_redis = (\<lambda>m k f. mm_hash m k f)"
  "rd_hget steady_redis = (\<lambda>m k f. mm_hash m k f)"
  "rd_hset mem_redis = (\<lambda>m k f v. mem_field k f v m)"
  "rd_hset steady_redis = (\<lambda>m k f v. mem_field k f v m)"
  "rd_hincr mem_redis = mem_incr"
  "rd_hincr steady_redis = mem_incr"
  "rd_zadd mem_redis = (\<lambda>m k p x. mem_zset k (AList.update p x) m)"
  "rd_zadd steady_redis = (\<lambda>m k p x. mem_zset k (AList.update p x) m)"
  "rd_zrem mem_redis = (\<lambda>m k p. mem_zset k (AList.delete p) m)"
  "rd_zrem steady_redis = (\<lambda>m k p. mem_zset k (AList.delete p) m)"
  "rd_zdue mem_redis = mem_due"
  "rd_zdue steady_redis = mem_due"
  "rd_xadd mem_redis = (\<lambda>m k len p. m\<lparr>mm_stream := (mm_stream m)(k := trim len (mm_stream m k @ [p]))\<rparr>)"
  "rd_xadd steady_redis = (\<lambda>m k len p. m\<lparr>mm_stream := (mm_stream m)(k := trim len (mm_stream m k @ [p]))\<rparr>)"
  "rd_xack mem_redis = (\<lambda>m _ _ i. m\<lparr>mm_pending := mm_pending m - {i}\<rparr>)"
  "rd_xack steady_redis = (\<lambda>m _ _ i. m\<lparr>mm_pending := mm_pending m - {i}\<rparr>)"
  "rd_xrange mem_redis = (\<lambda>m k. map (\<lambda>p. (p, Some p)) (mm_stream m k))"
  "rd_xrange steady_redis = (\<lambda>m k. map (\<lambda>p. (p, Some p)) (mm_stream m k))"
  "rd_scan mem_redis = (\<lambda>m _ _. (0, mm_live m))"
  "rd_scan steady_redis = (\<lambda>m _ _. (0, mm_live m))"
  "rd_publish mem_redis = (\<lambda>m _ _. m)"
  "rd_publish steady_redis = (\<lambda>m _ _. m)"
  "clock_ms mem_redis = mm_clock"
  "clock_ms steady_redis = mm_clock"
  "clock_iso mem_redis = (\<lambda>m. show_int (mm_clock m))"
  "clock_iso steady_redis = (\<lambda>m. show_int (mm_clock m))"
  "uuid_hex mem_redis = (\<lambda>m. (''0123456789abcdef'', m))"
  "uuid_hex steady_redis = (\<lambda>m. (''0123456789abcdef'', m))"
  by (simp_all add: steady_redis_def mem_redis_def)

text \<open>The commands and the answers of round trips, for running programs.\<close>

lemma mem_run_simps:
  "run_state (send mem_redis f) m = (case mem_trip m of
     (Delivered, m1) \<Rightarrow> (case f m1 of (a, m2) \<Rightarrow> (Inr a, m2))
   | (Refused e, m1) \<Rightarrow> (Inl e, m1) | (ReplyLost e, m1) \<Rightarrow> (Inl e, snd (f m1)))"
  "run_state (send steady_redis f) m = (case f m of (a, m2) \<Rightarrow> (Inr a, m2))"
  "run_state (read_clock g) w = (g w, w)"
  by (simp_all add: send_def read_clock_def)

interpretation steady_mem: quiet_redis steady_redis mem_view
proof (intro quiet_redis.intro quiet_redis_axioms.intro)
  show "redis_store steady_redis mem_view" unfolding steady_redis_def by (rule mem_store)
qed auto

interpretation scripted_mem: quiet_redis mem_redis mem_view
proof (intro quiet_redis.intro quiet_redis_axioms.intro)
  show "redis_store mem_redis mem_view" by (subst mem_redis_trip) (rule mem_store)
qed (auto dest: mem_trip_view)

section \<open>A message format\<close>

text \<open>Each character is marked, and a mark ends the field.\<close>

definition enc_text :: "string \<Rightarrow> string" where
  "enc_text s = concat (map (\<lambda>c. [CHR ''.'', c]) s) @ '';''"

fun dec_text :: "string \<Rightarrow> string \<times> string" where
  "dec_text (d # c # rest) =
     (if d = CHR ''.'' then (case dec_text rest of (s, r) \<Rightarrow> (c # s, r)) else ([], c # rest))"
| "dec_text _ = ([], [])"

lemma dec_enc_text [simp]: "dec_text (enc_text s @ r) = (s, r)"
proof (induction s)
  case Nil
  then show ?case by (cases r) (simp_all add: enc_text_def)
qed (simp add: enc_text_def)

definition enc_int :: "int \<Rightarrow> string" where
  "enc_int i = (if i < 0 then ''n'' else ''p'') @ replicate (nat \<bar>i\<bar>) CHR ''1''"

definition dec_int :: "string \<Rightarrow> int" where
  "dec_int s = (if take 1 s = ''n'' then - int (length s - 1) else int (length s - 1))"

lemma dec_enc_int [simp]: "dec_int (enc_int i) = i"
  by (simp add: dec_int_def enc_int_def)

definition enc_opt :: "int option \<Rightarrow> string" where
  "enc_opt x = (case x of None \<Rightarrow> [] | Some i \<Rightarrow> enc_int i)"

definition dec_opt :: "string \<Rightarrow> int option" where
  "dec_opt s = (if s = [] then None else Some (dec_int s))"

lemma dec_enc_opt [simp]: "dec_opt (enc_opt x) = x"
proof -
  have "enc_int i \<noteq> []" for i by (simp add: enc_int_def)
  then show ?thesis by (simp add: dec_opt_def enc_opt_def split: option.splits)
qed

definition mem_encode :: "JobMessage \<Rightarrow> string" where
  "mem_encode m = enc_text (jm_job_id m) @ enc_text (jm_pipeline m) @ enc_text (jm_prefix m)
     @ enc_text (enc_opt (jm_config_version_id m)) @ enc_text (if jm_clean_run m then ''t'' else ''f'')
     @ enc_text (jm_trigger m) @ enc_text (enc_int (jm_enqueued_at m))"

text \<open>A payload that does not start with a field is none.\<close>

definition mem_decode :: "string \<Rightarrow> string + JobMessage" where
  "mem_decode s = (if s = [] then Inl ''EOF while parsing'' else
     (case dec_text s of (a, s1) \<Rightarrow> case dec_text s1 of (b, s2) \<Rightarrow> case dec_text s2 of (c, s3) \<Rightarrow>
      case dec_text s3 of (d, s4) \<Rightarrow> case dec_text s4 of (e, s5) \<Rightarrow> case dec_text s5 of (f, s6) \<Rightarrow>
      case dec_text s6 of (g, _) \<Rightarrow>
      Inr \<lparr>jm_job_id = a, jm_pipeline = b, jm_prefix = c, jm_config_version_id = dec_opt d,
        jm_clean_run = (e = ''t''), jm_trigger = f, jm_enqueued_at = dec_int g\<rparr>))"

lemma mem_decode_encode: "mem_decode (mem_encode m) = Inr m"
proof -
  have "enc_text s \<noteq> []" for s by (simp add: enc_text_def)
  moreover have "dec_text (enc_text s) = (s, [])" for s using dec_enc_text [of s "[]"] by simp
  ultimately show ?thesis by (simp add: mem_decode_def mem_encode_def)
qed

section \<open>The queue in memory\<close>

definition mem_pg :: "Mem PgOps" where
  "mem_pg = \<lparr>pg_fetch_json = (\<lambda>m _ _. (Inr None, m)), pg_fetch_int = (\<lambda>m _ _. (Inr None, m)),
     pg_execute = (\<lambda>m _ _. (Inr (), m))\<rparr>"

definition mem_queue :: "Mem RedisOps \<Rightarrow> Mem QueueCtx" where
  "mem_queue r = \<lparr>qc_redis = r, qc_pg = mem_pg,
     qc_json = \<lparr>enc_message = mem_encode, dec_message = mem_decode\<rparr>,
     qc_consumer_name = ''worker-1'', qc_settings = default_settings\<rparr>"

lemma mem_queue_sel [simp]:
  "qc_redis (mem_queue r) = r" "qc_pg (mem_queue r) = mem_pg" "qc_settings (mem_queue r) = default_settings"
  "enc_message (qc_json (mem_queue r)) = mem_encode" "dec_message (qc_json (mem_queue r)) = mem_decode"
  "qc_consumer_name (mem_queue r) = ''worker-1''"
  by (simp_all add: mem_queue_def)

interpretation scripted: queue_store "mem_queue mem_redis" mem_view
  by (intro queue_store.intro queue_store_axioms.intro)
     (use scripted_mem.quiet_redis_axioms in \<open>auto simp: mem_pg_def mem_decode_encode\<close>)

interpretation steady: steady_queue "mem_queue steady_redis" mem_view
  by (intro steady_queue.intro queue_store.intro queue_store_axioms.intro steady_queue_axioms.intro)
     (use steady_mem.quiet_redis_axioms in \<open>auto simp: mem_pg_def mem_decode_encode\<close>)

end
