(* ===== verification/Queue_Loop_Proofs.thy ===== *)
theory Queue_Loop_Proofs
  imports Queue_Steady
begin

text \<open>
  The passes of the background loops over the laws of Redis: what the mover, the debounce scheduler,
  an upload event and the sweep do to the data.
\<close>

section \<open>Moving and popping\<close>

text \<open>The effect of popping members of a sorted set one after the other.\<close>

definition without :: "string \<Rightarrow> string list \<Rightarrow> Store \<Rightarrow> Store" where
  "without k ms s = fold (\<lambda>m. set_score k m None) ms s"

lemma without_sel [simp]:
  "st_strings (without k ms s) = st_strings s" "st_hash (without k ms s) = st_hash s"
  "st_stream (without k ms s) = st_stream s" "st_pending (without k ms s) = st_pending s"
  "st_zset (without k ms s) k' m = (if k' = k \<and> m \<in> set ms then None else st_zset s k' m)"
  unfolding without_def by (induction ms arbitrary: s) auto

context redis_store
begin

lemma stream_add:
  obtains ps where "view (rd_xadd r w k STREAM_MAXLEN p) = set_stream k ps (view w)"
    and "pushed 4096 (st_stream (view w) k) [p] ps"
  using xadd [of STREAM_MAXLEN w k p] by (auto simp: STREAM_MAXLEN_def)

lemma move_due_effect:
  fixes due w
  defines "w' \<equiv> fold (\<lambda>payload w. rd_xadd r (rd_zrem r w DELAYED_KEY payload) STREAM_KEY STREAM_MAXLEN payload) due w"
  assumes "length due \<le> 4096"
  shows "st_zset (view w') k m = (if k = DELAYED_KEY \<and> m \<in> set due then None else st_zset (view w) k m)"
    and "pushed 4096 (st_stream (view w) STREAM_KEY) due (st_stream (view w') STREAM_KEY)"
proof -
  have "(\<forall>k m. st_zset (view (f w)) k m = (if k = DELAYED_KEY \<and> m \<in> set due then None else st_zset (view w) k m))
      \<and> pushed 4096 (st_stream (view w) STREAM_KEY) due (st_stream (view (f w)) STREAM_KEY)"
    if "f = fold (\<lambda>payload w. rd_xadd r (rd_zrem r w DELAYED_KEY payload) STREAM_KEY STREAM_MAXLEN payload) due" for f
    using assms(2) unfolding that
  proof (induction due arbitrary: w)
    case (Cons p due)
    let ?w1 = "rd_xadd r (rd_zrem r w DELAYED_KEY p) STREAM_KEY STREAM_MAXLEN p"
    obtain ps where ps: "view ?w1 = set_stream STREAM_KEY ps (set_score DELAYED_KEY p None (view w))"
      "pushed 4096 (st_stream (view w) STREAM_KEY) [p] ps"
      by (rule stream_add [of "rd_zrem r w DELAYED_KEY p" STREAM_KEY p]) (auto simp: zrem)
    have len: "length due \<le> 4096" "length [p] + length due \<le> 4096" using Cons.prems by simp_all
    note rest = Cons.IH [OF len(1), of ?w1]
    from rest ps(1) have "pushed 4096 ps due (st_stream (view (fold (\<lambda>payload w.
        rd_xadd r (rd_zrem r w DELAYED_KEY payload) STREAM_KEY STREAM_MAXLEN payload) due ?w1)) STREAM_KEY)" by simp
    from pushed_trans [OF ps(2) this len(2)] rest ps(1) show ?case by simp
  qed simp
  then show "st_zset (view w') k m = (if k = DELAYED_KEY \<and> m \<in> set due then None else st_zset (view w) k m)"
    "pushed 4096 (st_stream (view w) STREAM_KEY) due (st_stream (view w') STREAM_KEY)"
    unfolding w'_def by blast+
qed

lemma pop_due_effect:
  fixes due w
  defines "w' \<equiv> fold (\<lambda>slug w. snd (rd_del r (rd_zrem r w DEBOUNCE_KEY slug) (debounce_first_key slug))) due w"
  shows "st_zset (view w') k m = (if k = DEBOUNCE_KEY \<and> m \<in> set due then None else st_zset (view w) k m)"
    and "st_strings (view w') k = (if k \<in> debounce_first_key ` set due then None else st_strings (view w) k)"
    and "st_stream (view w') = st_stream (view w)" "st_hash (view w') = st_hash (view w)"
    and "st_pending (view w') = st_pending (view w)"
proof -
  have "view (snd (rd_del r w k)) = set_string k None (view w)" for w k
    by (cases "rd_del r w k") (auto dest: del)
  then show "st_zset (view w') k m = (if k = DEBOUNCE_KEY \<and> m \<in> set due then None else st_zset (view w) k m)"
    "st_strings (view w') k = (if k \<in> debounce_first_key ` set due then None else st_strings (view w) k)"
    "st_stream (view w') = st_stream (view w)" "st_hash (view w') = st_hash (view w)"
    "st_pending (view w') = st_pending (view w)"
    unfolding w'_def by (induction due arbitrary: w) (auto simp: zrem)
qed

end

text \<open>The time a pass works with: it reads the clock once its connection is there.\<close>

definition pass_time :: "'w RedisOps \<Rightarrow> bool \<Rightarrow> 'w \<Rightarrow> int" where
  "pass_time r c w = clock_ms r (if c then w else snd (rd_connect r w))"

text \<open>A payload is delayed or on the stream.\<close>

definition queued :: "string \<Rightarrow> Store \<Rightarrow> bool" where
  "queued payload s \<longleftrightarrow>
     st_zset s DELAYED_KEY payload \<noteq> None \<or> payload \<in> set (st_stream s STREAM_KEY)"

text \<open>What one pass of the mover may do: move at most ten payloads, all due at \<open>now\<close>.\<close>

definition moved_due :: "int \<Rightarrow> Store \<Rightarrow> Store \<Rightarrow> bool" where
  "moved_due now s s' \<longleftrightarrow> (\<exists>due. distinct due \<and> length due \<le> 10
     \<and> (\<forall>p \<in> set due. \<exists>t. st_zset s DELAYED_KEY p = Some t \<and> t \<le> now)
     \<and> (length due < 10 \<longrightarrow> (\<forall>p t. st_zset s DELAYED_KEY p = Some t \<and> t \<le> now \<longrightarrow> p \<in> set due))
     \<and> pushed 4096 (st_stream s STREAM_KEY) due (st_stream s' STREAM_KEY)
     \<and> (\<forall>p. st_zset s' DELAYED_KEY p = (if p \<in> set due then None else st_zset s DELAYED_KEY p)))"

text \<open>What such a pass can lose: entries at the start of a stream that is full.\<close>

lemma moved_due_queued:
  assumes "moved_due now s s'"
  obtains d where "{p. queued p s} \<subseteq> {p. queued p s'} \<union> set (take d (st_stream s STREAM_KEY))"
    and "d = 0 \<or> 4096 \<le> length (st_stream s' STREAM_KEY)"
proof -
  from assms obtain due where p: "pushed 4096 (st_stream s STREAM_KEY) due (st_stream s' STREAM_KEY)"
    and z: "\<forall>p. st_zset s' DELAYED_KEY p = (if p \<in> set due then None else st_zset s DELAYED_KEY p)"
    by (auto simp: moved_due_def)
  from p obtain d where d: "st_stream s' STREAM_KEY = drop d (st_stream s STREAM_KEY) @ due"
    "d = 0 \<or> 4096 \<le> length (st_stream s' STREAM_KEY)" by (auto simp: pushed_def)
  have "set (st_stream s STREAM_KEY) = set (take d (st_stream s STREAM_KEY)) \<union> set (drop d (st_stream s STREAM_KEY))"
    by (metis append_take_drop_id set_append)
  with z d(1) have "{p. queued p s} \<subseteq> {p. queued p s'} \<union> set (take d (st_stream s STREAM_KEY))"
    by (auto simp: queued_def)
  with d(2) that show thesis by blast
qed

context quiet_redis
begin

lemma mover_moves:
  "wp (mover_pass r c) (\<lambda>x w'. view w' = view w \<or> moved_due (pass_time r c w) (view w) (view w')) w"
proof -
  have script: "moved_due now (view w) (view w2)"
    if "view w1 = view w" "move_due_script r now w1 = (n, w2)" for w1 w2 n now
  proof -
    let ?due = "rd_zdue r w1 DELAYED_KEY now 10"
    from that(2) have w2: "w2 = fold (\<lambda>payload w. rd_xadd r (rd_zrem r w DELAYED_KEY payload)
        STREAM_KEY STREAM_MAXLEN payload) ?due w1" by (simp add: move_due_script_def Let_def)
    have "length ?due \<le> 4096" using zdue(2) [of w1 DELAYED_KEY now 10] by simp
    then show ?thesis unfolding moved_due_def w2
      using zdue [where w = w1 and k = DELAYED_KEY and x = now and lim = 10] that(1)
        move_due_effect(2) [of ?due w1]
      by (intro exI [of _ ?due]) (auto simp: move_due_effect(1))
  qed
  have send: "wp (send r (move_due_script r now))
      (\<lambda>_ w'. view w' = view w \<or> moved_due now (view w) (view w')) w1" if "view w1 = view w" for w1 now
    by (rule wp_send) (use that script in auto)
  obtain conn w1 where conn: "rd_connect r w = (conn, w1)" by fastforce
  then have "view w1 = view w" by (rule connect_same)
  then show ?thesis using conn send [of w] send [of w1]
    by (auto simp: mover_pass_def ensure_conn_def wp_State pass_time_def)
qed

end

section \<open>Debouncing\<close>

definition batch_start :: "int \<Rightarrow> string option \<Rightarrow> int" where
  "batch_start now old = (case Option.bind old parse_i64 of Some t \<Rightarrow> t | None \<Rightarrow> now)"

context quiet_redis
begin

lemma debounce_scores:
  "wp (debounce_event r slug) (\<lambda>x w'. \<forall>d. x = Inr d \<longrightarrow>
     (let old = st_strings (view w) (debounce_first_key slug);
          now = clock_ms r w;
          fire_at = min (now + 5000) (batch_start now old + 30000)
      in d = fire_at - now
         \<and> view w' = set_score DEBOUNCE_KEY slug (Some fire_at)
             (if old = None then set_string (debounce_first_key slug) (Some (show_int now)) (view w) else view w))) w"
proof -
  let ?old = "st_strings (view w) (debounce_first_key slug)"
  let ?now = "clock_ms r w"
  let ?fire = "min (?now + 5000) (batch_start ?now ?old + 30000)"
  let ?s = "if ?old = None then set_string (debounce_first_key slug) (Some (show_int ?now)) (view w) else view w"
  have add: "wp (tell r (\<lambda>w. rd_zadd r w DEBOUNCE_KEY slug ?fire))
      (\<lambda>x w'. \<forall>d. map_ok (\<lambda>_. ?fire - ?now) x = Inr d \<longrightarrow> d = ?fire - ?now
        \<and> view w' = set_score DEBOUNCE_KEY slug (Some ?fire) ?s) w2" if "view w2 = ?s" for w2
    by (rule wp_tell) (simp_all add: that zadd)
  show ?thesis unfolding debounce_event_def wp_bind wp_read_clock
  proof (rule wp_send, goal_cases)
    case (1 w1 a w2)
    from set_nx [OF 1(2)] 1(1) have "a = ?old" "view w2 = ?s" by auto
    with add [of w2] show ?case
      by (simp add: Let_def batch_start_def QUIET_MS_def MAX_WAIT_MS_def)
  qed (simp add: Let_def)
qed

end

section \<open>Jobs from the webhook\<close>

text \<open>The data after a message was enqueued, with what the stream then holds.\<close>

definition recorded :: "JobMessage \<Rightarrow> string list \<Rightarrow> Store \<Rightarrow> Store" where
  "recorded msg ps s =
     (let live = live_key (jm_job_id msg);
          s1 = set_stream STREAM_KEY ps s;
          s2 = fold (\<lambda>(f, v). set_field live f v)
                 [(''status'', ''queued''), (''pipeline'', jm_pipeline msg), (''trigger'', jm_trigger msg),
                  (''enqueued_at'', show_int (jm_enqueued_at msg)), (''clean_run'', show_bool (jm_clean_run msg))] s1
      in set_score (index_key (jm_pipeline msg)) (jm_job_id msg) (Some (jm_enqueued_at msg)) s2)"

lemma recorded_sel [simp]:
  "st_stream (recorded msg ps s) = (st_stream s)(STREAM_KEY := ps)"
  "st_strings (recorded msg ps s) = st_strings s" "st_pending (recorded msg ps s) = st_pending s"
  "st_zset (recorded msg ps s) k = (if k = index_key (jm_pipeline msg)
     then (st_zset s k)(jm_job_id msg \<mapsto> jm_enqueued_at msg) else st_zset s k)"
  "st_hash (recorded msg ps s) (live_key (jm_job_id msg)) ''status'' = Some ''queued''"
  "st_hash (recorded msg ps s) k ''attempts'' = st_hash s k ''attempts''"
  by (simp_all add: recorded_def Let_def)

definition enqueued :: "MessageJson \<Rightarrow> JobMessage \<Rightarrow> Store \<Rightarrow> Store \<Rightarrow> bool" where
  "enqueued js msg s s' \<longleftrightarrow>
     (\<exists>ps. s' = recorded msg ps s \<and> pushed 4096 (st_stream s STREAM_KEY) [enc_message js msg] ps)"

text \<open>Several messages, one after the other.\<close>

primrec all_enqueued :: "MessageJson \<Rightarrow> JobMessage list \<Rightarrow> Store \<Rightarrow> Store \<Rightarrow> bool" where
  "all_enqueued js [] s s' \<longleftrightarrow> s' = s"
| "all_enqueued js (msg # msgs) s s' \<longleftrightarrow> (\<exists>s1. enqueued js msg s s1 \<and> all_enqueued js msgs s1 s')"

lemma index_key_neq [simp]: "DEBOUNCE_KEY \<noteq> index_key p" "DELAYED_KEY \<noteq> index_key p"
  by (simp_all add: DEBOUNCE_KEY_def DELAYED_KEY_def index_key_def)

text \<open>The job of an upload: the whole pipeline, on its current configuration.\<close>

definition upload_job :: "JobMessage \<Rightarrow> bool" where
  "upload_job msg \<longleftrightarrow> jm_prefix msg = ''pipelines/'' @ jm_pipeline msg @ ''/''
     \<and> jm_config_version_id msg = None \<and> \<not> jm_clean_run msg \<and> jm_trigger msg = ''webhook''"

context queue_store
begin

lemma enqueue_commands_view:
  "enqueued (qc_json q) msg (view w) (view (enqueue_commands (qc_redis q) (enc_message (qc_json q) msg) msg w))"
proof -
  obtain ps where "view (rd_xadd (qc_redis q) w STREAM_KEY STREAM_MAXLEN (enc_message (qc_json q) msg))
      = set_stream STREAM_KEY ps (view w)"
    "pushed 4096 (st_stream (view w) STREAM_KEY) [enc_message (qc_json q) msg] ps" by (rule stream_add)
  then show ?thesis
    unfolding enqueued_def
    by (intro exI [of _ ps]) (simp add: enqueue_commands_def recorded_def Let_def expire zadd hset_all)
qed

lemma wp_enqueue:
  assumes "\<And>x w1. enqueued (qc_json q) msg (view w) (view w1) \<Longrightarrow> Q x w1"
    and "\<And>e w1. view w1 = view w \<Longrightarrow> Q (Inl e) w1"
  shows "wp (enqueue q msg) Q w"
proof -
  have rest: "wp (publish_job_event q (jm_pipeline msg) (jm_job_id msg)) (\<lambda>_. Q (Inr ())) w1"
    if "enqueued (qc_json q) msg (view w) (view w1)" for w1
    by (rule wp_publish) (simp add: assms(1) that)
  have e: "enqueued (qc_json q) msg (view w)
      (view (enqueue_commands (qc_redis q) (enc_message (qc_json q) msg) msg w1))" if "view w1 = view w" for w1
    using enqueue_commands_view [of msg w1] that by simp
  show ?thesis unfolding enqueue_def wp_bind
    by (rule wp_tell) (simp_all add: e assms rest)
qed

lemma wp_webhook_job:
  assumes "\<And>msg w1. view w1 = view w \<Longrightarrow> upload_job msg \<Longrightarrow> jm_pipeline msg = slug \<Longrightarrow> Q msg w1"
  shows "wp (webhook_job (qc_redis q) slug) Q w"
  unfolding webhook_job_def new_job_id_def wp_bind wp_read_clock wp_return wp_State
  by (auto split: prod.splits intro!: assms dest: uuid_same simp: upload_job_def)

end

context steady_queue
begin

lemma wp_enqueued:
  assumes "\<And>w1. enqueued (qc_json q) msg (view w) (view w1) \<Longrightarrow> Q (Inr ()) w1"
  shows "wp (enqueue q msg) Q w"
proof -
  have rest: "wp (publish_job_event q (jm_pipeline msg) (jm_job_id msg)) (\<lambda>_. Q (Inr ())) w1"
    if "enqueued (qc_json q) msg (view w) (view w1)" for w1
    by (rule wp_publish) (simp add: assms that)
  have e: "enqueued (qc_json q) msg (view w)
      (view (enqueue_commands (qc_redis q) (enc_message (qc_json q) msg) msg w1))" if "view w1 = view w" for w1
    using enqueue_commands_view [of msg w1] that by simp
  show ?thesis unfolding enqueue_def wp_bind
    by (rule wp_told) (simp add: e rest)
qed

lemma fire_slugs_jobs:
  "wp (fire_slugs q slugs) (\<lambda>_ w'. \<exists>msgs. map jm_pipeline msgs = slugs \<and> list_all upload_job msgs
     \<and> all_enqueued (qc_json q) msgs (view w) (view w')) w"
proof (induction slugs arbitrary: w)
  case Nil
  then show ?case by simp
next
  case (Cons slug slugs)
  have rest: "wp (enqueue q msg) (\<lambda>_. wp (fire_slugs q slugs) (\<lambda>_ w'. \<exists>msgs. map jm_pipeline msgs = slug # slugs
      \<and> list_all upload_job msgs \<and> all_enqueued (qc_json q) msgs (view w) (view w'))) w1"
    if m: "view w1 = view w" "upload_job msg" "jm_pipeline msg = slug" for msg w1
  proof (rule wp_enqueued)
    fix w2
    assume w2: "enqueued (qc_json q) msg (view w1) (view w2)"
    show "wp (fire_slugs q slugs) (\<lambda>_ w'. \<exists>msgs. map jm_pipeline msgs = slug # slugs
      \<and> list_all upload_job msgs \<and> all_enqueued (qc_json q) msgs (view w) (view w')) w2"
    proof (rule wp_mono [OF Cons.IH])
      fix x w'
      assume "\<exists>msgs. map jm_pipeline msgs = slugs \<and> list_all upload_job msgs
        \<and> all_enqueued (qc_json q) msgs (view w2) (view w')"
      then obtain msgs where "map jm_pipeline msgs = slugs" "list_all upload_job msgs"
        "all_enqueued (qc_json q) msgs (view w2) (view w')" by auto
      with m w2 show "\<exists>msgs. map jm_pipeline msgs = slug # slugs \<and> list_all upload_job msgs
        \<and> all_enqueued (qc_json q) msgs (view w) (view w')"
        by (intro exI [of _ "msg # msgs"]) auto
    qed
  qed
  show ?case unfolding fire_slugs.simps wp_bind
    by (rule wp_webhook_job) (rule rest)
qed

end

text \<open>The stream after several messages.\<close>

lemma all_enqueued_sel:
  assumes "all_enqueued js msgs s s'"
  shows "st_strings s' = st_strings s" and "st_zset s' DEBOUNCE_KEY = st_zset s DEBOUNCE_KEY"
  using assms by (induction msgs arbitrary: s) (auto simp: enqueued_def)

lemma all_enqueued_pushed:
  "all_enqueued js msgs s s' \<Longrightarrow> length msgs \<le> 4096
     \<Longrightarrow> pushed 4096 (st_stream s STREAM_KEY) (map (enc_message js) msgs) (st_stream s' STREAM_KEY)"
proof (induction msgs arbitrary: s)
  case (Cons msg msgs)
  then obtain s1 where s1: "enqueued js msg s s1" "all_enqueued js msgs s1 s'" by auto
  from s1(1) have "pushed 4096 (st_stream s STREAM_KEY) [enc_message js msg] (st_stream s1 STREAM_KEY)"
    by (auto simp: enqueued_def)
  from pushed_trans [OF this Cons.IH [OF s1(2)]] Cons.prems(2) show ?case by simp
qed simp

text \<open>One pass of the scheduler: the due slugs, at most ten, each leave the batch and become one job.\<close>

definition fired :: "MessageJson \<Rightarrow> int \<Rightarrow> Store \<Rightarrow> Store \<Rightarrow> bool" where
  "fired js now s s' \<longleftrightarrow> (\<exists>msgs. let due = map jm_pipeline msgs in
     distinct due \<and> length due \<le> 10 \<and> list_all upload_job msgs
     \<and> (\<forall>slug \<in> set due. \<exists>t. st_zset s DEBOUNCE_KEY slug = Some t \<and> t \<le> now)
     \<and> (length due < 10 \<longrightarrow> (\<forall>slug t. st_zset s DEBOUNCE_KEY slug = Some t \<and> t \<le> now \<longrightarrow> slug \<in> set due))
     \<and> pushed 4096 (st_stream s STREAM_KEY) (map (enc_message js) msgs) (st_stream s' STREAM_KEY)
     \<and> (\<forall>slug. st_zset s' DEBOUNCE_KEY slug = (if slug \<in> set due then None else st_zset s DEBOUNCE_KEY slug))
     \<and> (\<forall>slug \<in> set due. st_strings s' (debounce_first_key slug) = None))"

context steady_queue
begin

lemma scheduler_fires:
  "wp (scheduler_pass q c) (\<lambda>x w'. x \<and> fired (qc_json q) (pass_time (qc_redis q) c w) (view w) (view w')) w"
proof -
  let ?Q = "\<lambda>now x w'. x \<and> fired (qc_json q) now (view w) (view w')"
  have script: "wp (fire_slugs q due) (\<lambda>_. ?Q now True) w2"
    if w1: "view w1 = view w" and s: "pop_due_script (qc_redis q) now w1 = (due, w2)" for w1 w2 due now
  proof (rule wp_mono [OF fire_slugs_jobs])
    fix x w'
    assume "\<exists>msgs. map jm_pipeline msgs = due \<and> list_all upload_job msgs
      \<and> all_enqueued (qc_json q) msgs (view w2) (view w')"
    then obtain msgs where m: "map jm_pipeline msgs = due" "list_all upload_job msgs"
      "all_enqueued (qc_json q) msgs (view w2) (view w')" by auto
    from s have due: "due = rd_zdue (qc_redis q) w1 DEBOUNCE_KEY now 10"
      and w2: "w2 = fold (\<lambda>slug w. snd (rd_del (qc_redis q) (rd_zrem (qc_redis q) w DEBOUNCE_KEY slug)
        (debounce_first_key slug))) due w1" by (auto simp: pop_due_script_def Let_def)
    from zdue(2) [of w1 DEBOUNCE_KEY now 10] have "length due \<le> 10" by (simp add: due)
    then have "length msgs \<le> 4096" using m(1) by auto
    then have p: "pushed 4096 (st_stream (view w) STREAM_KEY) (map (enc_message (qc_json q)) msgs) (st_stream (view w') STREAM_KEY)"
      using all_enqueued_pushed [OF m(3)] w1 by (simp add: w2 pop_due_effect)
    have "fired (qc_json q) now (view w) (view w')"
      unfolding fired_def Let_def using m(1,2) w1 p
        zdue [where w = w1 and k = DEBOUNCE_KEY and x = now and lim = 10, folded due]
      by (intro exI [of _ msgs]) (auto simp: all_enqueued_sel [OF m(3)] w2 pop_due_effect)
    then show "?Q now True w'" by blast
  qed
  have go: "wp (do { now \<leftarrow> read_clock (clock_ms (qc_redis q));
       due \<leftarrow> send (qc_redis q) (pop_due_script (qc_redis q) now);
       case due of
         Inl _ \<Rightarrow> State_Monad.return False
       | Inr slugs \<Rightarrow> do { fire_slugs q slugs; State_Monad.return True } }) (?Q (clock_ms (qc_redis q) w0)) w0"
    if "view w0 = view w" for w0
    unfolding wp_bind wp_read_clock by (rule wp_sent) (use that script in simp)
  obtain w1 where conn: "rd_connect (qc_redis q) w = (Inr (), w1)" and w1: "view w1 = view w"
    using connected [of w] connect_same [of w]
    by (cases "rd_connect (qc_redis q) w") (auto simp: is_ok_def split: sum.splits)
  show ?thesis using go [of w] go [OF w1] conn
    by (cases c) (simp_all add: scheduler_pass_def ensure_conn_def wp_State pass_time_def)
qed

end

end
