(* ===== verification/Queue_Sweep.thy ===== *)
theory Queue_Sweep
  imports Queue_Loop_Proofs
begin

text \<open>
  The sweep of live hashes: it marks a job abandoned only if its entry is not on the stream and it
  looks unfinished, and it changes nothing else.
\<close>

text \<open>What a sweep with the stream's job ids and the cutoff may change.\<close>

definition swept :: "string list \<Rightarrow> int \<Rightarrow> Store \<Rightarrow> Store \<Rightarrow> bool" where
  "swept ids cutoff s s' \<longleftrightarrow>
     st_strings s' = st_strings s \<and> st_zset s' = st_zset s \<and> st_stream s' = st_stream s
     \<and> st_pending s' = st_pending s
     \<and> (\<forall>k. st_hash s' k \<noteq> st_hash s k \<longrightarrow>
          trim_start_matches ''karet:jobs:live:'' k \<notin> set ids
          \<and> orphaned cutoff (st_hash s k ''status'') (st_hash s k ''enqueued_at'')
          \<and> st_hash s' k ''status'' = Some ''abandoned'')"

lemma swept_refl [simp]: "swept ids cutoff s s" by (simp add: swept_def)

text \<open>An abandoned hash is not swept again.\<close>

lemma swept_trans: "swept ids cutoff s1 s2 \<Longrightarrow> swept ids cutoff s2 s3 \<Longrightarrow> swept ids cutoff s1 s3"
  unfolding swept_def orphaned_def by (metis (no_types, lifting))

context queue_store
begin

lemma abandon_view:
  "view (abandon_commands q k at w) = set_field k ''finished_at'' at
     (set_field k ''error'' ''queue entry lost (stream trimmed); re-run the job''
       (set_field k ''status'' ''abandoned'' (view w)))"
  by (simp add: abandon_commands_def expire hset_all)

lemma sweep_key_swept:
  "wp (sweep_key q ids cutoff k) (\<lambda>_ w'. swept ids cutoff (view w) (view w')) w"
proof (cases "trim_start_matches ''karet:jobs:live:'' k \<in> set ids")
  case True
  then show ?thesis by (simp add: sweep_key_def Let_def)
next
  case False
  have event: "wp (case pipeline of None \<Rightarrow> State_Monad.return (Inr ())
     | Some p \<Rightarrow> do { publish_job_event q p j; State_Monad.return (Inr ()) }) 
     (\<lambda>_ w'. swept ids cutoff (view w) (view w')) w2"
    if "swept ids cutoff (view w) (view w2)" for w2 pipeline j
    using that by (cases pipeline) (auto intro!: wp_publish)
  have mark: "wp (tell (qc_redis q) (abandon_commands q k at))
      (\<lambda>marked. wp (case marked of Inl e \<Rightarrow> State_Monad.return (Inl e)
         | Inr _ \<Rightarrow> (case pipeline of None \<Rightarrow> State_Monad.return (Inr ())
              | Some p \<Rightarrow> do { publish_job_event q p j; State_Monad.return (Inr ()) }))
         (\<lambda>_ w'. swept ids cutoff (view w) (view w'))) w1"
    if o: "view w1 = view w" "orphaned cutoff (st_hash (view w) k ''status'') (st_hash (view w) k ''enqueued_at'')"
    for w1 at pipeline j
  proof -
    have "swept ids cutoff (view w) (view (abandon_commands q k at w2))" if "view w2 = view w" for w2
      using that o False by (auto simp: abandon_view swept_def)
    then show ?thesis using o(1) by (intro wp_tell) (auto intro!: event)
  qed
  show ?thesis unfolding sweep_key_def Let_def using False
    by (simp, intro wp_ask) (auto simp: hget intro!: mark)
qed

lemma sweep_keys_swept:
  "wp (sweep_keys q ids cutoff ks) (\<lambda>_ w'. swept ids cutoff (view w) (view w')) w"
proof (induction ks arbitrary: w)
  case (Cons k ks)
  have rest: "wp (sweep_keys q ids cutoff ks) (\<lambda>_ w'. swept ids cutoff (view w) (view w')) w1"
    if "swept ids cutoff (view w) (view w1)" for w1
    by (rule wp_mono [OF Cons.IH]) (rule swept_trans [OF that])
  show ?case unfolding sweep_keys.simps wp_bind
    by (rule wp_mono [OF sweep_key_swept]) (auto split: sum.split intro: rest)
qed simp

lemma ask_same: "run_state (ask (qc_redis q) f) w = (x, w') \<Longrightarrow> view w' = view w"
proof -
  have "wp (ask (qc_redis q) f) (\<lambda>_ w'. view w' = view w) w" by (rule wp_ask)
  then show "run_state (ask (qc_redis q) f) w = (x, w') \<Longrightarrow> view w' = view w" by (rule wpD)
qed

lemma scan_live_same:
  assumes "scan_live (qc_redis q) c ks w = Some y"
  shows "view (snd y) = view w"
proof -
  have "qc_redis q = qc_redis q \<longrightarrow> view (snd y) = view w"
  proof (rule scan_live.raw_induct [where P = "\<lambda>r c ks w y. r = qc_redis q \<longrightarrow> view (snd y) = view w",
        OF _ assms], intro impI)
    fix scan r c ks w y
    assume IH: "\<And>r c ks w y. scan r c ks w = Some y \<Longrightarrow> r = qc_redis q \<longrightarrow> view (snd y) = view w"
      and step: "(case run_state (ask r (\<lambda>w. rd_scan r w c ''karet:jobs:live:*'')) w of
        (Inl e, w') \<Rightarrow> Some (Inl e, w')
      | (Inr (n, b), w') \<Rightarrow> if n = 0 then Some (Inr (ks @ b), w') else scan r n (ks @ b) w') = Some y"
      and r: "r = qc_redis q"
    obtain x w1 where x: "run_state (ask r (\<lambda>w. rd_scan r w c ''karet:jobs:live:*'')) w = (x, w1)"
      by fastforce
    then have w1: "view w1 = view w" using r by (auto dest: ask_same)
    show "view (snd y) = view w"
      using step x w1 r IH by (auto split: sum.splits prod.splits if_splits)
  qed
  then show ?thesis by simp
qed

lemma sweep_orphaned_swept:
  assumes "sweep_orphaned_live_hashes q w = Some (x, w')"
  shows "view w' = view w \<or> (\<exists>ids w2. stream_job_ids (qc_json q) (rd_xrange (qc_redis q) w STREAM_KEY) = Some ids
    \<and> view w2 = view w \<and> swept ids (clock_ms (qc_redis q) w2 - ORPHAN_GRACE_MS) (view w) (view w'))"
proof -
  obtain a w1 where a: "run_state (ask (qc_redis q) (\<lambda>w. rd_xrange (qc_redis q) w STREAM_KEY)) w = (a, w1)"
    by fastforce
  then have w1: "view w1 = view w" by (rule ask_same)
  have range: "a = Inr es \<Longrightarrow> es = rd_xrange (qc_redis q) w STREAM_KEY" for es
  proof -
    have "wp (ask (qc_redis q) (\<lambda>w. rd_xrange (qc_redis q) w STREAM_KEY))
      (\<lambda>x _. \<forall>es. x = Inr es \<longrightarrow> es = rd_xrange (qc_redis q) w STREAM_KEY) w"
      by (rule wp_ask) (auto dest: xrange_view)
    from wpD [OF this a] show "a = Inr es \<Longrightarrow> es = rd_xrange (qc_redis q) w STREAM_KEY" by blast
  qed
  show ?thesis
  proof (cases "view w' = view w")
    case False
    with assms a w1 obtain es ids keys w2 where
      es: "a = Inr es" and ids: "stream_job_ids (qc_json q) es = Some ids"
      and scan: "scan_live (qc_redis q) 0 [] w1 = Some (Inr keys, w2)"
      and run: "run_state (sweep_keys q ids (clock_ms (qc_redis q) w2 - ORPHAN_GRACE_MS) keys) w2 = (x, w')"
      by (auto simp: sweep_orphaned_live_hashes_def split: sum.splits option.splits
          dest!: scan_live_same)
    have w2: "view w2 = view w" using scan_live_same [OF scan] w1 by simp
    from wpD [OF sweep_keys_swept run] w2 ids range [OF es] show ?thesis by auto
  qed simp
qed

end

end
