(* ===== verification/Queue_Attempts.thy ===== *)
theory Queue_Attempts
  imports Queue_Machine Queue_Loop_Proofs
begin

text \<open>
  The programs of the queue as runs of the steps of \<open>Queue_Machine\<close>: only a claim touches the counts of attempts,
  and a whole claim is a run of its round trips. Beside them, the run of two overlapping claims of one
  job after which two attempts run with one fence.
\<close>

section \<open>Programs that leave the counts alone\<close>

context queue_store
begin

lemma finish_counts: "wp (finish_job q msg i n t) (\<lambda>_ w'. counts_kept (view w) (view w')) w"
  by (rule wp_finish_job) (auto simp: wrote_terminal_def Let_def)

lemma defer_counts: "wp (defer_message q msg i t) (\<lambda>_ w'. counts_kept (view w) (view w')) w"
  by (rule wp_defer) auto

lemma retry_counts: "wp (retry_or_fail q msg i n e) (\<lambda>_ w'. counts_kept (view w) (view w')) w"
proof -
  have over: "wp (finish_job q msg i n t) (\<lambda>_ w'. counts_kept (view w) (view w')) w1"
    if "counts_kept (view w) (view w1)" for w1 t
    by (rule wp_mono [OF finish_counts]) (use that counts_kept_trans in blast)
  have put_off: "wp (tell (qc_redis q) (\<lambda>w. rd_hset (qc_redis q) w (live_key (jm_job_id msg)) ''status'' ''queued''))
      (\<lambda>_ w2. wp (defer_message q msg i (clock_ms (qc_redis q) w2 + backoff_ms n))
         (\<lambda>_ w'. counts_kept (view w) (view w')) w2) w1"
    if k: "counts_kept (view w) (view w1)" for w1
  proof -
    have rest: "wp (defer_message q msg i t) (\<lambda>_ w'. counts_kept (view w) (view w')) w2"
      if "counts_kept (view w) (view w2)" for w2 t
      by (rule wp_mono [OF defer_counts]) (use that counts_kept_trans in blast)
    have "counts_kept (view w) (view (rd_hset (qc_redis q) w2 (live_key (jm_job_id msg)) ''status'' ''queued''))"
      if "view w2 = view w1" for w2 using k that by (simp add: hset counts_kept_def)
    with k show ?thesis by (intro wp_tell) (auto intro!: rest)
  qed
  show ?thesis unfolding retry_or_fail_def wp_bind
    by (rule wp_release) (auto intro!: over put_off)
qed

lemma settle_counts: "wp (settle q msg i n out) (\<lambda>_ w'. counts_kept (view w) (view w')) w"
  by (cases out; (cases "projl out")?) (auto simp: settle_def intro: finish_counts retry_counts)

lemma begin_counts: "wp (begin_run q msg) (\<lambda>_ w'. counts_kept (view w) (view w')) w"
proof -
  have rest: "wp (publish_job_event q (jm_pipeline msg) (jm_job_id msg))
      (\<lambda>_ w2. wp (State (\<lambda>w. mark_running (qc_pg q) w (jm_job_id msg) (qc_consumer_name q)))
         (\<lambda>_ w3. counts_kept (view w) (view w3)) w2) w1"
    if "counts_kept (view w) (view w1)" for w1
    by (rule wp_publish, rule wp_mark_running) (use that in simp)
  show ?thesis unfolding begin_run_def wp_bind wp_read_clock wp_return
    by (rule wp_tell) (auto intro!: rest simp: hset_all)
qed

lemma enqueue_counts: "wp (enqueue q msg) (\<lambda>_ w'. counts_kept (view w) (view w')) w"
  by (rule wp_enqueue) (auto simp: enqueued_def)

lemma renew_same: "wp (renew_lock (qc_redis q) p token ttl) (\<lambda>_ w'. view w' = view w) w"
  unfolding renew_lock_def wp_bind wp_return renew_lock_script_def
  by (rule wp_send) (auto split: if_splits dest: pexpire)

lemma beat_same: "wp (heartbeat q msg n i c) (\<lambda>_ w'. view w' = view w) w"
proof -
  have claim: "wp (tell (qc_redis q) (\<lambda>w. rd_xclaim (qc_redis q) w STREAM_KEY GROUP (qc_consumer_name q) i))
      (\<lambda>_ w2. view w2 = view w) w1" if "view w1 = view w" for w1
    by (rule wp_tell) (auto simp: that xclaim)
  have rest: "wp (case conn of Inl _ \<Rightarrow> State_Monad.return (BeatGoesOn False)
     | Inr _ \<Rightarrow> do {
         renewed \<leftarrow> renew_lock (qc_redis q) (jm_pipeline msg) (fence (jm_job_id msg) n)
                      (qs_lock_ttl_ms (qc_settings q));
         case renewed of
           Inr True \<Rightarrow> do {
             claimed \<leftarrow> tell (qc_redis q) (\<lambda>w. rd_xclaim (qc_redis q) w STREAM_KEY GROUP (qc_consumer_name q) i);
             State_Monad.return (BeatGoesOn (is_ok claimed)) }
         | Inr False \<Rightarrow> State_Monad.return BeatLost
         | Inl _ \<Rightarrow> State_Monad.return (BeatGoesOn False) }) (\<lambda>_ w'. view w' = view w) w1"
    if "view w1 = view w" for w1 and conn :: "string + unit"
  proof (cases conn)
    case (Inr u)
    show ?thesis unfolding Inr sum.case wp_bind
      by (rule wp_mono [OF renew_same]) (use that in \<open>auto intro!: claim split: sum.split bool.split\<close>)
  qed (use that in simp)
  show ?thesis
  proof (cases c)
    case True
    then show ?thesis using rest [of w "Inr ()"] by (simp add: heartbeat_def)
  next
    case False
    obtain conn w1 where "rd_connect (qc_redis q) w = (conn, w1)" by fastforce
    with connect_same [OF this] show ?thesis using False rest [of w1 conn]
      by (simp add: heartbeat_def wp_State)
  qed
qed

text \<open>So each of them, however its trips end, is a step of the machine.\<close>

lemma program_step:
  "run_state (finish_job q msg i n t) w = (x, w') \<Longrightarrow> qstep serial q view (w, R) (w', R)"
  "run_state (settle q msg i n out) w = (x, w') \<Longrightarrow> qstep serial q view (w, R) (w', R)"
  "run_state (defer_message q msg i at) w = (x, w') \<Longrightarrow> qstep serial q view (w, R) (w', R)"
  "run_state (begin_run q msg) w = (u, w') \<Longrightarrow> qstep serial q view (w, R) (w', R)"
  "run_state (enqueue q msg) w = (x, w') \<Longrightarrow> qstep serial q view (w, R) (w', R)"
  "run_state (heartbeat q msg n i c) w = (b, w') \<Longrightarrow> qstep serial q view (w, R) (w', R)"
  "run_state (try_lock (qc_redis q) p token ttl) w = (y, w') \<Longrightarrow> qstep serial q view (w, R) (w', R)"
  using wpD [OF finish_counts] wpD [OF settle_counts] wpD [OF defer_counts] wpD [OF begin_counts]
    wpD [OF enqueue_counts] wpD [OF beat_same] wpD [OF try_lock_counts]
  by (auto intro!: qstep.other)

end

section \<open>A whole claim\<close>

definition begun :: "JobMessage \<Rightarrow> string \<Rightarrow> nat option \<Rightarrow> (Stage \<times> Attempt) list \<Rightarrow> (Stage \<times> Attempt) list" where
  "begun msg i x R = (case x of None \<Rightarrow> R | Some n \<Rightarrow> (Running, msg, n, i) # R)"

context queue_store
begin

lemma acquire_walk:
  assumes n: "n \<le> qs_max_attempts (qc_settings q)" and r: "run_state (acquire q msg i n) w = (x, w')"
  shows "(qstep serial q view)\<^sup>*\<^sup>* (w, (Counting, msg, n, i) # R) (w', begun msg i x R)"
proof -
  let ?lock = "try_lock (qc_redis q) (jm_pipeline msg) (fence (jm_job_id msg) n) (qs_lock_ttl_ms (qc_settings q))"
  let ?C = "(Counting, msg, n, i) # R" and ?B = "(Busy, msg, n, i) # R"
  obtain y w1 where l: "run_state ?lock w = (y, w1)" by fastforce
  consider (won) "y = Inr True" | (taken) "y = Inr False" | (failed) e where "y = Inl e" by (cases y) auto
  then show ?thesis
  proof cases
    case won
    with r l have "x = Some n" "w' = w1" by (auto simp: acquire_def)
    with qstep.lock [of msg n i ?C q w w1 serial view] n l won show ?thesis by (simp add: begun_def)
  next
    case taken
    obtain k w2 where g: "run_state (bump_attempts q (jm_job_id msg) (- 1)) w1 = (k, w2)" by fastforce
    obtain z w3 where d: "run_state (defer_message q msg i (clock_ms (qc_redis q) w2 + 30000)) w2 = (z, w3)" by fastforce
    from r l taken g d have x: "x = None" "w' = w3" by (auto simp: acquire_def read_clock_def)
    have "(qstep serial q view)\<^sup>*\<^sup>* (w, ?C) (w, ?C)" by simp
    also have "qstep serial q view (w, ?C) (w1, ?B)"
      using qstep.busy [of msg n i ?C q w w1 serial view] n l taken by simp
    also (rtranclp.rtrancl_into_rtrancl) have "qstep serial q view (w1, ?B) (w2, R)" using qstep.give_back [of msg n i ?B q w1 k w2 serial view] g by simp
    also (rtranclp.rtrancl_into_rtrancl) have "qstep serial q view (w2, R) (w3, R)" by (rule program_step(3) [OF d])
    finally (rtranclp.rtrancl_into_rtrancl) show ?thesis by (simp add: x begun_def)
  next
    case failed
    with r l have x: "x = None" "w' = w1" by (auto simp: acquire_def)
    have "(qstep serial q view)\<^sup>*\<^sup>* (w, ?C) (w, ?C)" by simp
    also have "qstep serial q view (w, ?C) (w1, ?C)" by (rule program_step(7) [OF l])
    also (rtranclp.rtrancl_into_rtrancl) have "qstep serial q view (w1, ?C) (w1, R)" using qstep.leave [of serial q view w1 ?C "(Counting, msg, n, i)"] by simp
    finally (rtranclp.rtrancl_into_rtrancl) show ?thesis by (simp add: x begun_def)
  qed
qed

text \<open>A claim whose count is answered is a run of the machine, whichever of its other trips fail.\<close>

lemma claim_attempt_walk:
  assumes c: "counted (jm_job_id msg) c (view w)" "serial \<longrightarrow> \<not> claiming (jm_job_id msg) R"
    and b: "run_state (bump_attempts q (jm_job_id msg) 1) w = (Inr k, w1)"
    and r: "run_state (claim_attempt q msg i) w = (x, w')"
  shows "(qstep serial q view)\<^sup>*\<^sup>* (w, R) (w', begun msg i x R)"
proof -
  let ?n = "attempts_of (Inr k)"
  let ?C = "(Counting, msg, ?n, i) # R"
  have first: "qstep serial q view (w, R) (w1, ?C)" by (rule qstep.count [of msg c view w]) (use c b in auto)
  show ?thesis
  proof (cases "qs_max_attempts (qc_settings q) < ?n")
    case True
    obtain y w2 where f: "run_state (finish_job q msg i ?n (gave_up ?n)) w1 = (y, w2)" by fastforce
    from r b True f have x: "x = None" "w' = w2" by (auto simp: claim_attempt_def Let_def)
    have "(qstep serial q view)\<^sup>*\<^sup>* (w, R) (w, R)" by simp
    also note first
    also (rtranclp.rtrancl_into_rtrancl) have "qstep serial q view (w1, ?C) (w2, ?C)" by (rule program_step(1) [OF f])
    also (rtranclp.rtrancl_into_rtrancl) have "qstep serial q view (w2, ?C) (w2, R)"
      using qstep.leave [of serial q view w2 ?C "(Counting, msg, ?n, i)"] by simp
    finally (rtranclp.rtrancl_into_rtrancl) show ?thesis by (simp add: x begun_def)
  next
    case False
    then have "?n \<le> qs_max_attempts (qc_settings q)" by simp
    moreover have "run_state (acquire q msg i ?n) w1 = (x, w')" using r b False by (simp add: claim_attempt_def Let_def)
    ultimately show ?thesis
      using converse_rtranclp_into_rtranclp [where r = "qstep serial q view", OF first acquire_walk] by blast
  qed
qed

end

section \<open>Overlapping claims\<close>

context steady_queue
begin

lemma counts_up:
  assumes "counted j c (view w)"
  obtains w1 where "run_state (bump_attempts q j 1) w = (Inr (int c + 1), w1)"
    and "view w1 = set_field (live_key j) ''attempts'' (show_int (int c + 1)) (view w)"
proof -
  have "wp (bump_attempts q j 1) (\<lambda>x w1. x = Inr (int c + 1)
      \<and> view w1 = set_field (live_key j) ''attempts'' (show_int (int c + 1)) (view w)) w"
    by (rule wp_bumped) (use assms counted_i64 [OF assms] in \<open>auto simp: counted_def\<close>)
  with that show thesis by (cases "run_state (bump_attempts q j 1) w") (auto simp: wp_def)
qed

lemma counts_down:
  assumes "counter (st_hash (view w) (live_key j) ''attempts'') = Some (int (Suc c))" "Suc c < 2 ^ 32"
  obtains x w1 where "run_state (bump_attempts q j (- 1)) w = (x, w1)"
    and "view w1 = set_field (live_key j) ''attempts'' (show_int (int c)) (view w)"
proof -
  have "wp (bump_attempts q j (- 1)) (\<lambda>x w1. view w1 = set_field (live_key j) ''attempts'' (show_int (int c)) (view w)) w"
    by (rule wp_bumped [OF assms(1)]) (use assms(2) in \<open>auto simp: i64_min_def i64_max_def\<close>)
  with that show thesis by (cases "run_state (bump_attempts q j (- 1)) w") (auto simp: wp_def)
qed

lemma lock_won:
  assumes "st_strings (view w) (lock_key p) = None"
  obtains w1 where "run_state (try_lock (qc_redis q) p token ttl) w = (Inr True, w1)"
    and "view w1 = set_string (lock_key p) (Some token) (view w)"
proof -
  have "wp (try_lock (qc_redis q) p token ttl) (\<lambda>x w1. x = Inr True
      \<and> view w1 = set_string (lock_key p) (Some token) (view w)) w"
    by (rule wp_tried) (use assms in auto)
  with that show thesis by (cases "run_state (try_lock (qc_redis q) p token ttl) w") (auto simp: wp_def)
qed

lemma lock_busy:
  assumes "st_strings (view w) (lock_key p) \<noteq> None"
  obtains w1 where "run_state (try_lock (qc_redis q) p token ttl) w = (Inr False, w1)" and "view w1 = view w"
proof -
  have "wp (try_lock (qc_redis q) p token ttl) (\<lambda>x w1. x = Inr False \<and> view w1 = view w) w"
    by (rule wp_tried) (use assms in auto)
  with that show thesis by (cases "run_state (try_lock (qc_redis q) p token ttl) w") (auto simp: wp_def)
qed

lemma lock_expires:
  obtains w1 where "view w1 = set_string (lock_key p) None (view w)"
  using del [of w "lock_key p"] that by (cases "rd_del (qc_redis q) w (lock_key p)") auto

text \<open>The claim of a second entry counts between the count and the lock of the first one, and wins the lock; the
  first one gives its attempt back; once the lock has expired a third claim gets the number of the second.\<close>

lemma overlap_walk:
  assumes c: "counted (jm_job_id msg) c (view w)" "c + 2 < 2 ^ 32" "c + 2 \<le> qs_max_attempts (qc_settings q)"
    and free: "st_strings (view w) (lock_key (jm_pipeline msg)) = None"
  obtains w' where "(qstep False q view)\<^sup>*\<^sup>* (w, []) (w', [(Running, msg, c + 2, i3), (Running, msg, c + 2, i2)])"
    and "st_strings (view w') (lock_key (jm_pipeline msg)) = Some (fence (jm_job_id msg) (c + 2))"
proof -
  let ?j = "jm_job_id msg" and ?p = "lock_key (jm_pipeline msg)" and ?step = "qstep False q view"
  have shown: "counter (Some (show_int (int n))) = Some (int n)" if "n \<le> c + 2" for n
    using that c(2) by (intro counter_show_int) (auto simp: i64_min_def i64_max_def)
  have n: "attempts_of (Inr (int m + 1)) = Suc m" if "m \<le> c + 1" for m
    using that c(2) by (simp add: attempts_of_def)
  obtain w1 where 1: "run_state (bump_attempts q ?j 1) w = (Inr (int c + 1), w1)"
    "view w1 = set_field (live_key ?j) ''attempts'' (show_int (int (c + 1))) (view w)"
    using counts_up [OF c(1)] by (auto simp: add.commute)
  have c1: "counted ?j (c + 1) (view w1)" unfolding counted_def using c(2) shown [of "c + 1"] by (simp add: 1(2))
  obtain w2 where 2: "run_state (bump_attempts q ?j 1) w1 = (Inr (int (c + 1) + 1), w2)"
    "view w2 = set_field (live_key ?j) ''attempts'' (show_int (int (c + 1) + 1)) (view w1)"
    by (rule counts_up [OF c1])
  obtain w3 where 3: "run_state (try_lock (qc_redis q) (jm_pipeline msg) (fence ?j (c + 2)) (qs_lock_ttl_ms (qc_settings q))) w2
      = (Inr True, w3)" "view w3 = set_string ?p (Some (fence ?j (c + 2))) (view w2)"
    by (rule lock_won [of w2 "jm_pipeline msg" "fence ?j (c + 2)" "qs_lock_ttl_ms (qc_settings q)"]) (simp_all add: 1(2) 2(2) free)
  obtain w4 where 4: "run_state (try_lock (qc_redis q) (jm_pipeline msg) (fence ?j (c + 1)) (qs_lock_ttl_ms (qc_settings q))) w3
      = (Inr False, w4)" "view w4 = view w3"
    by (rule lock_busy [of w3 "jm_pipeline msg" "fence ?j (c + 1)" "qs_lock_ttl_ms (qc_settings q)"]) (simp_all add: 3(2))
  have "counter (st_hash (view w4) (live_key ?j) ''attempts'') = Some (int (Suc (c + 1)))"
    using shown [of "c + 2"] by (simp add: 4(2) 3(2) 2(2))
  then obtain y w5 where 5: "run_state (bump_attempts q ?j (- 1)) w4 = (y, w5)"
    "view w5 = set_field (live_key ?j) ''attempts'' (show_int (int (c + 1))) (view w4)"
    by (rule counts_down) (use c(2) in simp_all)
  obtain w6 where 6: "view w6 = set_string ?p None (view w5)" by (rule lock_expires)
  have c6: "counted ?j (c + 1) (view w6)" unfolding counted_def using c(2) shown [of "c + 1"] by (simp add: 5(2) 6)
  obtain w7 where 7: "run_state (bump_attempts q ?j 1) w6 = (Inr (int (c + 1) + 1), w7)"
    "view w7 = set_field (live_key ?j) ''attempts'' (show_int (int (c + 1) + 1)) (view w6)"
    by (rule counts_up [OF c6])
  obtain w8 where 8: "run_state (try_lock (qc_redis q) (jm_pipeline msg) (fence ?j (c + 2)) (qs_lock_ttl_ms (qc_settings q))) w7
      = (Inr True, w8)" "view w8 = set_string ?p (Some (fence ?j (c + 2))) (view w7)"
    by (rule lock_won [of w7 "jm_pipeline msg" "fence ?j (c + 2)" "qs_lock_ttl_ms (qc_settings q)"]) (simp_all add: 7(2) 6)
  let ?A1 = "(Counting, msg, c + 1, i2)" and ?A2 = "(Busy, msg, c + 1, i2)"
  let ?B1 = "(Counting, msg, c + 2, i2)" and ?B2 = "(Running, msg, c + 2, i2)"
  let ?C1 = "(Counting, msg, c + 2, i3)" and ?C2 = "(Running, msg, c + 2, i3)"
  have "?step\<^sup>*\<^sup>* (w, []) (w, [])" by simp
  also have "?step (w, []) (w1, [?A1])" using qstep.count [of msg c view w False "[]" q "int c + 1" w1 i2] c(1) 1(1) n [of c] by simp
  also (rtranclp.rtrancl_into_rtrancl) have "?step (w1, [?A1]) (w2, [?B1, ?A1])" using qstep.count [of msg "c + 1" view w1 False "[?A1]" q "int (c + 1) + 1" w2 i2] c1 2(1) n [of "c + 1"] by simp
  also (rtranclp.rtrancl_into_rtrancl) have "?step (w2, [?B1, ?A1]) (w3, [?B2, ?A1])" using qstep.lock [OF _ c(3) 3(1), of i2 "[?B1, ?A1]"] by simp
  also (rtranclp.rtrancl_into_rtrancl) have "?step (w3, [?B2, ?A1]) (w4, [?A2, ?B2])" using qstep.busy [OF _ _ 4(1), of i2 "[?B2, ?A1]"] c(3) by simp
  also (rtranclp.rtrancl_into_rtrancl) have "?step (w4, [?A2, ?B2]) (w5, [?B2])" using qstep.give_back [OF _ 5(1), of "c + 1" i2 "[?A2, ?B2]"] by simp
  also (rtranclp.rtrancl_into_rtrancl) have "?step (w5, [?B2]) (w6, [?B2])" by (rule qstep.other) (auto simp: 6)
  also (rtranclp.rtrancl_into_rtrancl) have "?step (w6, [?B2]) (w7, [?C1, ?B2])" using qstep.count [of msg "c + 1" view w6 False "[?B2]" q "int (c + 1) + 1" w7 i3] c6 7(1) n [of "c + 1"] by simp
  also (rtranclp.rtrancl_into_rtrancl) have "?step (w7, [?C1, ?B2]) (w8, [?C2, ?B2])" using qstep.lock [OF _ c(3) 8(1), of i3 "[?C1, ?B2]"] by simp
  finally (rtranclp.rtrancl_into_rtrancl) show thesis using that [of w8] 8(2) by simp
qed

end

end
