(* ===== verification/Queue_Properties.thy ===== *)
theory Queue_Properties
  imports Mem_Redis Queue_Sweep Queue_Attempts
begin

text \<open>The properties of the queue, over the laws of Redis and for every way round trips can end.\<close>

section \<open>A sample queue\<close>

definition demo_msg :: JobMessage where
  "demo_msg = \<lparr>jm_job_id = ''job-1'', jm_pipeline = ''sales'', jm_prefix = ''pipelines/sales/'',
     jm_config_version_id = None, jm_clean_run = False, jm_trigger = ''manual'', jm_enqueued_at = 0\<rparr>"

text \<open>One entry is pending; the lock is what is given.\<close>

definition demo_mem :: "(string \<rightharpoonup> string) \<Rightarrow> Trip list \<Rightarrow> Mem" where
  "demo_mem strings trips = \<lparr>mm_strings = strings, mm_hash = (\<lambda>_. Map.empty), mm_zset = (\<lambda>_. []),
     mm_stream = (\<lambda>_. []), mm_pending = {''5-0''}, mm_live = [], mm_trips = trips, mm_clock = 1000\<rparr>"

lemma demo_mem_sel [simp]:
  "mm_strings (demo_mem m ts) = m" "mm_hash (demo_mem m ts) k = Map.empty" "mm_zset (demo_mem m ts) k = []"
  "mm_stream (demo_mem m ts) k = []" "mm_pending (demo_mem m ts) = {''5-0''}" "mm_trips (demo_mem m ts) = ts"
  "mm_clock (demo_mem m ts) = 1000"
  by (simp_all add: demo_mem_def)

lemma demo_prefix: "validate_pipeline_prefix (jm_prefix demo_msg) = Inr ()"
  by code_simp

lemma demo_counted: "counted (jm_job_id demo_msg) 0 (mem_view (demo_mem m ts))"
  by (simp add: counted_def counter_def)

lemma demo_claim:
  obtains w where "run_state (claim (mem_queue steady_redis) ''5-0'' (mem_encode demo_msg)) (demo_mem Map.empty []) = (Some (demo_msg, 1), w)"
proof -
  obtain x w where r: "run_state (claim (mem_queue steady_redis) ''5-0'' (mem_encode demo_msg)) (demo_mem Map.empty []) = (x, w)"
    by fastforce
  from wpD [OF steady.claim_refines [OF _ demo_counted demo_prefix] r]
  have "x = Some (demo_msg, 1)"
    by (cases x) (auto simp: mem_decode_encode spec_claim_def is_terminal_def counter_def default_settings_def)
  with r that show ?thesis by blast
qed

section \<open>An entry is not lost\<close>

text \<open>Handling a delivered entry never loses it. Whichever round trips are refused or lose their
  reply, whatever the executor answers, an entry that was pending is afterwards still pending, or its
  payload was unreadable, or its job is terminal, or its message waits among the delayed ones.\<close>

theorem claimed_not_lost:
  assumes "queue_store q view" and "i \<in> st_pending (view (wk_world s))"
    and "\<And>msg n w out w'. run msg n i w = Some (out, w') \<Longrightarrow> i \<in> st_pending (view w)
      \<Longrightarrow> i \<in> st_pending (view w')"
    and "handle_claimed q run i payload s = Some s'"
  shows "payload_accounted (qc_json q) payload i (view (wk_world s'))"
  using assms by (rule queue_store.handle_claimed_accounted)

lemma demo_handled:
  obtains s' where "handle_claimed q (\<lambda>_ _ _ w. Some (out, w)) i payload s = Some s'"
proof -
  have "handle_claimed q (\<lambda>_ _ _ w. Some (out, w)) i payload s \<noteq> None"
    by (auto simp: handle_claimed_def split: prod.splits option.splits)
  with that show ?thesis by blast
qed

lemma claimed_not_lost_witness:
  "\<exists>s'. handle_claimed (mem_queue mem_redis) (\<lambda>_ _ _ w. Some (Inl NoFiles, w)) ''5-0'' (mem_encode demo_msg)
      \<lparr>wk_world = demo_mem Map.empty [Delivered, Delivered, ReplyLost ''reset''], wk_in_flight = 0, wk_consumer_ok = True\<rparr> = Some s'
    \<and> accounted (qc_json (mem_queue mem_redis)) demo_msg ''5-0'' (mem_view (wk_world s'))"
proof -
  let ?s = "\<lparr>wk_world = demo_mem Map.empty [Delivered, Delivered, ReplyLost ''reset''],
    wk_in_flight = 0, wk_consumer_ok = True\<rparr>"
  obtain s' where r: "handle_claimed (mem_queue mem_redis) (\<lambda>_ _ _ w. Some (Inl NoFiles, w)) ''5-0''
      (mem_encode demo_msg) ?s = Some s'" by (rule demo_handled)
  have "payload_accounted (qc_json (mem_queue mem_redis)) (mem_encode demo_msg) ''5-0'' (mem_view (wk_world s'))"
    by (rule claimed_not_lost [OF scripted.queue_store_axioms _ _ r]) auto
  with r show ?thesis by (simp add: payload_accounted_def mem_decode_encode)
qed

section \<open>Attempts and the lock\<close>

text \<open>C17: An attempt that is let run holds the pipeline's lock under its own fence, is within the limit
  of attempts, belongs to the payload's message and still has its entry pending, whichever round
  trips failed on the way.\<close>

theorem run_holds_lock:
  assumes "queue_store q view" and "i \<in> st_pending (view w)"
    and "run_state (claim q i payload) w = (Some (msg, n), w')"
  shows "dec_message (qc_json q) payload = Inr msg \<and> n \<le> qs_max_attempts (qc_settings q)
    \<and> st_strings (view w') (lock_key (jm_pipeline msg)) = Some (fence (jm_job_id msg) n)
    \<and> i \<in> st_pending (view w')"
  using wpD [OF queue_store.claim_payload [OF assms(1,2)] assms(3)] by simp

lemma run_holds_lock_witness:
  "\<exists>w'. run_state (claim (mem_queue steady_redis) ''5-0'' (mem_encode demo_msg)) (demo_mem Map.empty []) = (Some (demo_msg, 1), w')
    \<and> mm_strings w' (lock_key ''sales'') = Some (fence ''job-1'' 1)"
proof -
  obtain w' where r: "run_state (claim (mem_queue steady_redis) ''5-0'' (mem_encode demo_msg)) (demo_mem Map.empty [])
    = (Some (demo_msg, 1), w')" by (rule demo_claim)
  have "''5-0'' \<in> st_pending (mem_view (demo_mem Map.empty []))" by simp
  from run_holds_lock [OF steady.queue_store_axioms this r] r show ?thesis by (simp add: demo_msg_def)
qed

text \<open>C16: An attempt that has lost its lock to another does no harm at its end. Unless it failed to read its
  configuration, settling it makes at most one call, the round trip that reads the lock: neither the data in
  Redis nor anything else changes, so that no terminal record is written to the database either.\<close>

theorem stale_attempt_harmless:
  assumes "queue_store q view" and "held_by_other msg n (view w)"
    and "\<And>e. out \<noteq> Inl (ConfigRead e)"
    and "run_state (settle q msg i n out) w = (x, w')"
  shows "view w' = view w \<and> (w' = w \<or> w' = snd (rd_trip (qc_redis q) w))"
  using wpD [OF queue_store.settle_fenced [OF assms(1-3)] assms(4)] queue_store.trip_view [OF assms(1), of w]
  by auto

text \<open>A queue whose database notes every statement it executes.\<close>

definition noting_pg :: "Mem PgOps" where
  "noting_pg = mem_pg\<lparr>pg_execute := (\<lambda>m sql _. (Inr (), m\<lparr>mm_live := sql # mm_live m\<rparr>))\<rparr>"

definition noting_queue :: "Mem QueueCtx" where
  "noting_queue = (mem_queue mem_redis)\<lparr>qc_pg := noting_pg\<rparr>"

interpretation noting: queue_store noting_queue mem_view
  unfolding noting_queue_def
  by (intro queue_store.intro queue_store_axioms.intro)
     (use scripted_mem.quiet_redis_axioms in \<open>auto simp: noting_pg_def mem_decode_encode mem_view_def\<close>)

lemma stale_attempt_harmless_witness:
  "let w = demo_mem [lock_key ''sales'' \<mapsto> fence ''job-1'' 2] [Delivered] in
     (\<exists>x w'. run_state (settle noting_queue demo_msg ''5-0'' 1 (Inl NoFiles)) w = (x, w')
       \<and> mem_view w' = mem_view w \<and> mm_live w' = [])
     \<and> (\<exists>x w'. run_state (settle noting_queue demo_msg ''5-0'' 2 (Inl NoFiles)) w = (x, w')
       \<and> mm_live w' \<noteq> [])"
proof -
  let ?w = "demo_mem [lock_key ''sales'' \<mapsto> fence ''job-1'' 2] [Delivered]"
  obtain x w' where r: "run_state (settle noting_queue demo_msg ''5-0'' 1 (Inl NoFiles)) ?w = (x, w')"
    by fastforce
  have "held_by_other demo_msg 1 (mem_view ?w)" by (simp add: held_by_other_def demo_msg_def)
  from stale_attempt_harmless [OF noting.queue_store_axioms this _ r]
  have "mem_view w' = mem_view ?w" "mm_live w' = []"
    by (auto simp: noting_queue_def mem_trip_def demo_mem_def)
  moreover obtain y w2 where r2: "run_state (settle noting_queue demo_msg ''5-0'' 2 (Inl NoFiles)) ?w = (y, w2)"
    by fastforce
  then have "mm_live w2 \<noteq> []"
    by (auto simp: settle_def finish_job_def finish_writes_def noting_queue_def ask_def tell_def mem_run_simps
        mem_trip_def mark_finished_def noting_pg_def demo_msg_def terminal_commands_def no_files_terminal_def hset_all_def
        mem_field_def release_lock_def release_lock_script_def publish_job_event_def ack_def Let_def demo_mem_def
        split: option.splits if_splits)
  ultimately show ?thesis using r r2 by (metis (no_types, lifting))
qed

text \<open>While the services answer, claiming an entry refines the specification \<open>spec_claim\<close> on the
  message's ticket: a terminal job is only acknowledged; the attempt over the limit ends the job; a
  free lock is taken under the attempt's fence; a busy one delays the message and gives the attempt
  back.\<close>

theorem claim_refines_spec:
  assumes "steady_queue q view" and "dec_message (qc_json q) payload = Inr msg"
    and "counted (jm_job_id msg) c (view w)" and "validate_pipeline_prefix (jm_prefix msg) = Inr u"
    and "run_state (claim q i payload) w = (x, w')"
  shows "(map_option snd x, ticket (qc_json q) msg i (view w'))
    = spec_claim (qs_max_attempts (qc_settings q)) (fence (jm_job_id msg)) (ticket (qc_json q) msg i (view w))"
  using wpD [OF steady_queue.claim_refines [OF assms(1-4)] assms(5)] by blast

lemma claim_refines_spec_witness:
  "let w = demo_mem [lock_key ''sales'' \<mapsto> fence ''job-0'' 1] []; q = mem_queue steady_redis in
     \<exists>w'. run_state (claim q ''5-0'' (mem_encode demo_msg)) w = (None, w')
       \<and> tk_delayed (ticket (qc_json q) demo_msg ''5-0'' (mem_view w'))
       \<and> \<not> tk_pending (ticket (qc_json q) demo_msg ''5-0'' (mem_view w'))"
proof -
  let ?w = "demo_mem [lock_key ''sales'' \<mapsto> fence ''job-0'' 1] []"
  let ?q = "mem_queue steady_redis"
  let ?tk = "ticket (qc_json ?q) demo_msg ''5-0''"
  obtain x w' where r: "run_state (claim ?q ''5-0'' (mem_encode demo_msg)) ?w = (x, w')" by fastforce
  have d: "dec_message (qc_json ?q) (mem_encode demo_msg) = Inr demo_msg" by (simp add: mem_decode_encode)
  have "(map_option snd x, ?tk (mem_view w')) = (None, (?tk (mem_view ?w))\<lparr>tk_pending := False, tk_delayed := True\<rparr>)"
    unfolding claim_refines_spec [OF steady.steady_queue_axioms d demo_counted demo_prefix r]
    by (simp add: spec_claim_def Let_def is_terminal_def counter_def default_settings_def demo_msg_def)
  then have "x = None" "?tk (mem_view w') = (?tk (mem_view ?w))\<lparr>tk_pending := False, tk_delayed := True\<rparr>" by auto
  with r show ?thesis by (simp del: ticket_sel)
qed

text \<open>C6: While the services answer, settling an attempt refines \<open>spec_settle\<close> and succeeds: unless
  another attempt holds the lock, the job becomes terminal, the lock free and the entry
  acknowledged; a cancelled attempt leaves everything; an unreadable configuration frees the lock
  and delays the message until the attempts run out, even when another attempt holds the lock.\<close>

theorem settle_refines_spec:
  assumes "steady_queue q view" and "run_state (settle q msg i n out) w = (x, w')"
  shows "x = Inr () \<and> ticket (qc_json q) msg i (view w')
    = spec_settle (qs_max_attempts (qc_settings q)) n (fence (jm_job_id msg) n) out
        (ticket (qc_json q) msg i (view w))"
  using wpD [OF steady_queue.settle_refines [OF assms(1)] assms(2)] by simp

lemma settle_refines_spec_witness:
  "let w = demo_mem [lock_key ''sales'' \<mapsto> fence ''job-1'' 1] []; q = mem_queue steady_redis in
     \<exists>w'. run_state (settle q demo_msg ''5-0'' 1 (Inl NoFiles)) w = (Inr (), w')
       \<and> tk_terminal (ticket (qc_json q) demo_msg ''5-0'' (mem_view w'))
       \<and> tk_holder (ticket (qc_json q) demo_msg ''5-0'' (mem_view w')) = None"
proof -
  let ?w = "demo_mem [lock_key ''sales'' \<mapsto> fence ''job-1'' 1] []"
  let ?q = "mem_queue steady_redis"
  obtain x w' where r: "run_state (settle ?q demo_msg ''5-0'' 1 (Inl NoFiles)) ?w = (x, w')" by fastforce
  from settle_refines_spec [OF steady.steady_queue_axioms r]
  have "x = Inr ()" "ticket (qc_json ?q) demo_msg ''5-0'' (mem_view w')
    = spec_finish (fence (jm_job_id demo_msg) 1) (ticket (qc_json ?q) demo_msg ''5-0'' (mem_view ?w))"
    by (auto simp: spec_settle_def simp del: ticket_sel)
  with r show ?thesis by (simp add: spec_finish_def demo_msg_def del: ticket_sel) (simp add: ticket_def)
qed

text \<open>C5: Mutual exclusion. Let any number of workers claim, run, beat, settle and crash on one Redis, one round trip
  at a time and in any order, with calls failing and locks expiring at any time; but let the count of attempts
  answer, and claims of one job not overlap. Of all the attempts that run for a pipeline at most one holds
  its lock: the fences of running attempts differ.\<close>

theorem single_holder:
  assumes "queue_store q view" and "(qstep True q view)\<^sup>*\<^sup>* (w0, []) (w, R)"
  shows "length (filter (\<lambda>(st, x). st = Running \<and> holds (view w) x \<and> jm_pipeline (fst x) = p) R) \<le> 1"
  by (rule single_holder_inv, rule queue_store.reachable_inv [OF assms])

text \<open>The first claim of an entry, its count and its lock answered, in an empty Redis.\<close>

lemma demo_walk:
  obtains w1 w2 where "run_state (bump_attempts (mem_queue mem_redis) (jm_job_id demo_msg) 1) (demo_mem Map.empty []) = (Inr 1, w1)"
    and "run_state (claim_attempt (mem_queue mem_redis) demo_msg ''5-0'') (demo_mem Map.empty []) = (Some 1, w2)"
  by (simp add: claim_attempt_def acquire_def try_lock_def bump_attempts_def mem_run_simps mem_trip_def mem_incr_def
      attempts_of_def counter_def default_settings_def mem_field_def)

lemma single_holder_witness:
  "\<exists>w R. (qstep True (mem_queue mem_redis) mem_view)\<^sup>*\<^sup>* (demo_mem Map.empty [], []) (w, R)
     \<and> R = [(Running, demo_msg, 1, ''5-0'')]
     \<and> length (filter (\<lambda>(st, x). st = Running \<and> holds (mem_view w) x \<and> jm_pipeline (fst x) = ''sales'') R) \<le> 1"
proof -
  obtain w1 w2 where b: "run_state (bump_attempts (mem_queue mem_redis) (jm_job_id demo_msg) 1) (demo_mem Map.empty []) = (Inr 1, w1)"
    and r: "run_state (claim_attempt (mem_queue mem_redis) demo_msg ''5-0'') (demo_mem Map.empty []) = (Some 1, w2)"
    by (rule demo_walk)
  have s: "(qstep True (mem_queue mem_redis) mem_view)\<^sup>*\<^sup>* (demo_mem Map.empty [], []) (w2, [(Running, demo_msg, 1, ''5-0'')])"
    using queue_store.claim_attempt_walk [OF scripted.queue_store_axioms demo_counted _ b r, of True "[]"] by (simp add: begun_def claiming_def)
  from single_holder [OF scripted.queue_store_axioms s, of "''sales''"] s show ?thesis by blast
qed

text \<open>C39: Fences need not be unique when claims of one job overlap, as when the reclaimer takes over an entry
  whose first claim is slow. Two claims that count one after the other before either locks give the first of them a
  busy lock, and it takes the last number back although the second one runs under it; once that one's lock
  expires, the claim after them gets the number again. Then two attempts run under one fence and both
  hold the pipeline's lock, though every call was answered.\<close>

theorem overlapping_claims_share_fence:
  fixes msg :: JobMessage
  assumes "steady_queue q view" and "counted (jm_job_id msg) c (view w)" and "c + 2 < 2 ^ 32"
    and "c + 2 \<le> qs_max_attempts (qc_settings q)" and "st_strings (view w) (lock_key (jm_pipeline msg)) = None"
  shows "\<exists>w' R. (qstep False q view)\<^sup>*\<^sup>* (w, []) (w', R)
    \<and> length (filter (\<lambda>(st, x). st = Running \<and> holds (view w') x \<and> jm_pipeline (fst x) = jm_pipeline msg) R) = 2
    \<and> (\<forall>(st, x) \<in> set R. attempt_id x = (jm_job_id msg, c + 2))"
proof -
  obtain w' where "(qstep False q view)\<^sup>*\<^sup>* (w, []) (w', [(Running, msg, c + 2, ''1''), (Running, msg, c + 2, ''0'')])"
    "st_strings (view w') (lock_key (jm_pipeline msg)) = Some (fence (jm_job_id msg) (c + 2))"
    by (rule steady_queue.overlap_walk [OF assms])
  then show ?thesis
    by (intro exI [of _ w'] exI [of _ "[(Running, msg, c + 2, ''1''), (Running, msg, c + 2, ''0'')]"]) (simp add: holds_def)
qed

lemma overlapping_claims_share_fence_witness:
  "\<exists>w' R. (qstep False (mem_queue steady_redis) mem_view)\<^sup>*\<^sup>* (demo_mem Map.empty [], []) (w', R)
    \<and> length (filter (\<lambda>(st, x). st = Running \<and> holds (mem_view w') x \<and> jm_pipeline (fst x) = jm_pipeline demo_msg) R) = 2"
proof -
  have "st_strings (mem_view (demo_mem Map.empty [])) (lock_key (jm_pipeline demo_msg)) = None" by simp
  from overlapping_claims_share_fence [OF steady.steady_queue_axioms demo_counted _ _ this]
  show ?thesis by (simp add: default_settings_def) blast
qed

end
