(* ===== verification/Queue_Loop_Properties.thy ===== *)
theory Queue_Loop_Properties
  imports Queue_Properties
begin

text \<open>
  The properties of the background loops and of the queue's calculations, and two behaviours of the
  code under failures that its comments do not mention.
\<close>

section \<open>Moving delayed messages\<close>

text \<open>C35: One pass of the delayed mover, whichever round trips fail, either changes nothing or moves
  payloads that are due at the time it reads, at most ten and all of them when there are fewer, from the sorted set to
  the end of the stream. A payload that was delayed or on the stream still is, but for the oldest entries of a
  stream that has grown to its maximal length of 4096: Redis may trim these.\<close>

theorem mover_conserves:
  assumes "quiet_redis r view" and "run_state (mover_pass r c) w = (x, w')"
  shows "(view w' = view w \<or> moved_due (pass_time r c w) (view w) (view w'))
    \<and> (\<exists>d. {p. queued p (view w)} \<subseteq> {p. queued p (view w')} \<union> set (take d (st_stream (view w) STREAM_KEY))
        \<and> (d = 0 \<or> 4096 \<le> length (st_stream (view w') STREAM_KEY)))"
proof -
  from wpD [OF quiet_redis.mover_moves [OF assms(1)] assms(2)]
  have m: "view w' = view w \<or> moved_due (pass_time r c w) (view w) (view w')" .
  have "\<exists>d. {p. queued p (view w)} \<subseteq> {p. queued p (view w')} \<union> set (take d (st_stream (view w) STREAM_KEY))
      \<and> (d = 0 \<or> 4096 \<le> length (st_stream (view w') STREAM_KEY))"
    using m by (auto intro: exI [of _ 0] moved_due_queued)
  with m show ?thesis by blast
qed

text \<open>So nothing is lost while the stream is shorter than that.\<close>


lemma mover_conserves_witness:
  "let w = demo_mem Map.empty [ReplyLost ''reset''] in \<exists>x w'. run_state (mover_pass mem_redis True) w = (x, w')
    \<and> (\<exists>d. {p. queued p (mem_view w)} \<subseteq> {p. queued p (mem_view w')} \<union> set (take d (mm_stream w STREAM_KEY))
        \<and> (d = 0 \<or> 4096 \<le> length (mm_stream w' STREAM_KEY)))"
proof -
  obtain x w' where r: "run_state (mover_pass mem_redis True) (demo_mem Map.empty [ReplyLost ''reset'']) = (x, w')"
    by fastforce
  from mover_conserves [OF scripted_mem.quiet_redis_axioms r] r show ?thesis by simp
qed

section \<open>Debouncing uploads\<close>

text \<open>An upload event that is recorded sets the pipeline's batch to fire five seconds from now, but
  never later than thirty seconds after the batch began: the start that an earlier event noted is
  kept, and only an absent or unreadable one is taken as now.\<close>

theorem debounce_window:
  assumes "quiet_redis r view" and "run_state (debounce_event r slug) w = (Inr d, w')"
  shows "st_zset (view w') DEBOUNCE_KEY slug = Some (clock_ms r w + d)
    \<and> d = min 5000 (batch_start (clock_ms r w) (st_strings (view w) (debounce_first_key slug)) + 30000 - clock_ms r w)
    \<and> st_strings (view w') (debounce_first_key slug)
        = (case st_strings (view w) (debounce_first_key slug) of
             None \<Rightarrow> Some (show_int (clock_ms r w)) | Some old \<Rightarrow> Some old)"
  using wpD [OF quiet_redis.debounce_scores [OF assms(1)] assms(2)]
  by (auto simp: Let_def split: option.splits)

lemma debounce_window_witness:
  "let w = demo_mem [debounce_first_key ''sales'' \<mapsto> show_int (- 27000)] [] in
     \<exists>w'. run_state (debounce_event steady_redis ''sales'') w = (Inr 2000, w')
       \<and> map_of (mm_zset w' DEBOUNCE_KEY) ''sales'' = Some 3000"
proof -
  let ?w = "demo_mem [debounce_first_key ''sales'' \<mapsto> show_int (- 27000)] []"
  obtain x w' where r: "run_state (debounce_event steady_redis ''sales'') ?w = (x, w')" by fastforce
  then obtain d where d: "x = Inr d"
    by (auto simp: debounce_event_def send_def tell_def read_clock_def map_ok_def Let_def split: prod.splits)
  have "clock_ms steady_redis ?w = 1000" by simp
  moreover have "parse_i64 (show_int (- 27000)) = Some (- 27000)"
    by (rule parse_i64_show_int) (simp_all add: i64_min_def i64_max_def)
  ultimately show ?thesis
    using debounce_window [OF steady_mem.quiet_redis_axioms r [unfolded d]] r d
    by (simp add: batch_start_def)
qed

text \<open>C36: While the services answer, one pass of the scheduler turns each pipeline whose batch is due at the time
  it reads, at most ten and all of them when there are fewer, into exactly one job at the end of the stream, for the
  whole pipeline on its current configuration, and closes its batch; the others keep theirs. Of the entries
  before, Redis may trim the oldest, as long as 4096 entries remain.\<close>

theorem scheduler_fires_due:
  assumes "steady_queue q view" and "run_state (scheduler_pass q c) w = (x, w')"
  shows "x \<and> fired (qc_json q) (pass_time (qc_redis q) c w) (view w) (view w')"
  using wpD [OF steady_queue.scheduler_fires [OF assms(1)] assms(2)] .

lemma scheduler_fires_due_witness:
  "let w = (demo_mem Map.empty [])\<lparr>mm_zset := (\<lambda>_. [])(DEBOUNCE_KEY := [(''sales'', 900), (''stock'', 1100)])\<rparr> in
     \<exists>w' msg. run_state (scheduler_pass (mem_queue steady_redis) True) w = (True, w')
       \<and> jm_pipeline msg = ''sales'' \<and> mm_stream w' STREAM_KEY = [mem_encode msg]"
proof -
  let ?w = "(demo_mem Map.empty [])\<lparr>mm_zset := (\<lambda>_. [])(DEBOUNCE_KEY := [(''sales'', 900), (''stock'', 1100)])\<rparr>"
  obtain x w' where r: "run_state (scheduler_pass (mem_queue steady_redis) True) ?w = (x, w')"
    by fastforce
  have now: "pass_time (qc_redis (mem_queue steady_redis)) True ?w = 1000"
    by (simp add: pass_time_def)
  from scheduler_fires_due [OF steady.steady_queue_axioms r, unfolded now]
  obtain msgs where m: "x" "distinct (map jm_pipeline msgs)" "length msgs \<le> 10"
    "\<forall>s \<in> jm_pipeline ` set msgs. \<exists>t. map_of [(''sales'', 900), (''stock'', 1100)] s = Some t \<and> t \<le> (1000 :: int)"
    "length msgs < 10 \<longrightarrow> ''sales'' \<in> jm_pipeline ` set msgs"
    "mm_stream w' STREAM_KEY = map mem_encode msgs"
    by (auto simp: fired_def Let_def pushed_def)
  have "set (map jm_pipeline msgs) \<subseteq> {''sales''}" using m(4) by (auto split: if_splits)
  with m(2) have "length (map jm_pipeline msgs) \<le> 1"
    by (metis card_mono card.empty card.insert distinct_card empty_iff finite.simps One_nat_def)
  with m(5) have "length msgs = 1" by (cases msgs) auto
  then obtain msg where "msgs = [msg]" by (cases msgs) auto
  with m r show ?thesis by auto
qed

section \<open>Sweeping\<close>

text \<open>C37: A sweep marks a live hash abandoned only when no entry on the stream is its job's, its status is
  queued or running and it was enqueued at least ten minutes before a time the sweep read; it
  changes no other hash and nothing else in Redis, whichever round trips fail.\<close>

theorem sweep_marks_orphans:
  assumes "queue_store q view" and "sweep_orphaned_live_hashes q w = Some (x, w')"
    and "st_hash (view w') k \<noteq> st_hash (view w) k"
  shows "\<exists>ids w2 t. stream_job_ids (qc_json q) (rd_xrange (qc_redis q) w STREAM_KEY) = Some ids
    \<and> trim_start_matches ''karet:jobs:live:'' k \<notin> set ids
    \<and> st_hash (view w) k ''status'' \<in> {Some ''queued'', Some ''running''}
    \<and> Option.bind (st_hash (view w) k ''enqueued_at'') parse_i64 = Some t
    \<and> view w2 = view w \<and> t \<le> clock_ms (qc_redis q) w2 - 600000
    \<and> st_hash (view w') k ''status'' = Some ''abandoned''"
  using queue_store.sweep_orphaned_swept [OF assms(1,2)] assms(3)
  by (auto simp: swept_def orphaned_def ORPHAN_GRACE_MS_def split: option.splits) blast+

text \<open>A world with one live hash, of a job that is not on the stream.\<close>

definition lost_job :: Mem where
  "lost_job = (demo_mem Map.empty [])\<lparr>mm_live := [live_key ''job-9''], mm_clock := 1000000,
     mm_hash := (\<lambda>_. Map.empty)(live_key ''job-9'' := [''status'' \<mapsto> ''queued'', ''enqueued_at'' \<mapsto> show_int 0])\<rparr>"

lemma lost_job_swept:
  obtains x w' where "sweep_orphaned_live_hashes (mem_queue steady_redis) lost_job = Some (x, w')"
    "st_hash (mem_view w') (live_key ''job-9'') ''status'' = Some ''abandoned''"
proof -
  have "parse_i64 (show_int 0) = Some 0" by (rule parse_i64_show_int) (simp_all add: i64_min_def i64_max_def)
  then show ?thesis using that
    by (simp add: sweep_orphaned_live_hashes_def ask_def tell_def mem_run_simps lost_job_def sweep_key_def orphaned_def ORPHAN_GRACE_MS_def scan_live.simps abandon_commands_def
        hset_all_def mem_field_def)
qed

lemma sweep_marks_orphans_witness:
  "\<exists>ids. stream_job_ids (qc_json (mem_queue steady_redis)) (rd_xrange steady_redis lost_job STREAM_KEY) = Some ids
    \<and> trim_start_matches ''karet:jobs:live:'' (live_key ''job-9'') \<notin> set ids"
proof -
  obtain x w' where r: "sweep_orphaned_live_hashes (mem_queue steady_redis) lost_job = Some (x, w')"
    and a: "st_hash (mem_view w') (live_key ''job-9'') ''status'' = Some ''abandoned''" by (rule lost_job_swept)
  have "st_hash (mem_view w') (live_key ''job-9'') \<noteq> st_hash (mem_view lost_job) (live_key ''job-9'')"
    using a by (auto simp: lost_job_def)
  from sweep_marks_orphans [OF steady.queue_store_axioms r this] show ?thesis by auto
qed

section \<open>Calculations\<close>

text \<open>C38: The delay before a retry doubles from thirty seconds with each attempt and stops at ten
  minutes; it is monotone and the multiplication never saturates.\<close>

theorem backoff_bounds:
  "30000 \<le> backoff_ms n \<and> backoff_ms n \<le> 600000 \<and> backoff_ms n \<le> backoff_ms (Suc n)
    \<and> backoff_ms (Suc n) = min 600000 (30000 * 2 ^ n)"
proof -
  have sat: "saturating_mul 30000 (2 ^ min m 6) = 30000 * 2 ^ min m 6" for m :: nat
  proof -
    have "saturating_mul 30000 x = 30000 * x" if "0 \<le> x" "x \<le> 2 ^ 6" for x
      using that by (simp add: saturating_mul_def i64_max_def i64_min_def max_def min_def)
    moreover have "(2 :: int) ^ min m 6 \<le> 2 ^ 6" by (rule power_increasing) auto
    ultimately show ?thesis by simp
  qed
  have exact: "min (30000 * 2 ^ min m 6) 600000 = min 600000 (30000 * (2 :: int) ^ m)" for m
  proof (cases "m \<le> 6")
    case False
    have "(2 :: int) ^ 6 \<le> 2 ^ m" using False by (intro power_increasing) auto
    with False show ?thesis by (simp add: min_def)
  qed (simp add: min_def)
  have suc: "backoff_ms (Suc m) = min 600000 (30000 * 2 ^ m)" for m
    by (simp only: backoff_ms_def Let_def sat exact diff_Suc_1)
  have low: "(1 :: int) \<le> 2 ^ m" for m :: nat by simp
  have zero: "backoff_ms 0 = 30000" by (simp add: backoff_ms_def saturating_mul_def i64_max_def i64_min_def)
  show ?thesis
  proof (cases n)
    case 0
    then show ?thesis using suc [of 0] zero by simp
  next
    case (Suc m)
    have "30000 * (2 :: int) ^ m \<le> 30000 * 2 ^ Suc m" by simp
    then show ?thesis using suc [of m] suc [of n] low [of m] Suc by (simp add: min_def)
  qed
qed

section \<open>Failures between two round trips\<close>

text \<open>An upload can be lost. The scheduler takes a due pipeline out of its batch in one round trip and
  enqueues its job in the next; when that one is refused, the pass reports success and the pipeline
  is neither due any more nor on the stream.\<close>

theorem popped_upload_lost:
  "let w = (demo_mem Map.empty [Delivered, Refused ''reset''])\<lparr>mm_zset := (\<lambda>_. [])(DEBOUNCE_KEY := [(''sales'', 500)])\<rparr>
   in \<exists>w'. run_state (scheduler_pass (mem_queue mem_redis) True) w = (True, w')
     \<and> map_of (mm_zset w' DEBOUNCE_KEY) ''sales'' = None \<and> mm_stream w' STREAM_KEY = []"
  by (simp add: scheduler_pass_def ensure_conn_def mem_run_simps mem_trip_def pop_due_script_def
      mem_due_def webhook_job_def new_job_id_def enqueue_def tell_def mem_zset_def Let_def)

text \<open>Nor do fences differ when the count fails. A count of attempts that fails is taken for the first attempt: when
  the first attempt's lock has expired and the entry is claimed again with the count refused, both
  attempts run with the same fence, and both hold the lock.\<close>

lemma fence_reused_without_count:
  "let q = mem_queue mem_redis; p = mem_encode demo_msg;
       w = demo_mem Map.empty [Delivered, Delivered, Delivered, Delivered, Refused ''reset'', Delivered]
   in \<exists>w1 w2. run_state (claim q ''5-0'' p) w = (Some (demo_msg, 1), w1)
     \<and> run_state (claim q ''5-0'' p) (w1\<lparr>mm_strings := Map.empty\<rparr>) = (Some (demo_msg, 1), w2)
     \<and> holds (mem_view w2) (demo_msg, 1, ''5-0'')"
  by (simp add: claim_def claim_message_def claim_attempt_def acquire_def try_lock_def bump_attempts_def ask_def
      mem_run_simps mem_trip_def mem_incr_def mem_decode_encode demo_prefix attempts_of_def Let_def
      is_terminal_def counter_def default_settings_def holds_def mem_field_def)

text \<open>A completed job runs again: the guard against redelivery takes a status that cannot be read for
  none.\<close>

lemma terminal_rerun_on_failed_read:
  "let q = mem_queue mem_redis;
       w = (demo_mem Map.empty [Refused ''reset''])\<lparr>mm_hash :=
         (\<lambda>_. Map.empty)(live_key (jm_job_id demo_msg) := [''status'' \<mapsto> ''completed''])\<rparr>
   in \<exists>w1. run_state (claim q ''5-0'' (mem_encode demo_msg)) w = (Some (demo_msg, 1), w1)"
  by (simp add: claim_def claim_message_def claim_attempt_def acquire_def try_lock_def bump_attempts_def ask_def
      mem_run_simps mem_trip_def mem_incr_def mem_decode_encode demo_prefix attempts_of_def Let_def
      is_terminal_def counter_def default_settings_def mem_field_def)

end
