(* ===== verification/Queue_Job.thy ===== *)
theory Queue_Job
  imports Job_Properties Queue_Properties
begin

text \<open>
  The queue with the executor of \<open>job.rs\<close> in it. A run keeps whatever each of the calls it makes
  keeps: so it leaves the entry of its job pending, and handling an entry returns and accounts for it.
\<close>

section \<open>What every call keeps\<close>

text \<open>\<open>R\<close> holds across every call the run makes to the store, the database, the flag and the sink.\<close>

definition calls_keep ::
  "('w \<Rightarrow> 'w \<Rightarrow> bool) \<Rightarrow> ('w, 'df, 'lf, 'col, 'n) JobOps \<Rightarrow> bool" where
  "calls_keep R jb \<longleftrightarrow>
     (\<forall>w b p t r w'. list_objects_v2 (jb_s3 jb) w b p t = (r, w') \<longrightarrow> R w w')
     \<and> (\<forall>w b k r w'. get_object (jb_s3 jb) w b k = (r, w') \<longrightarrow> R w w')
     \<and> (\<forall>w b k body r w'. put_object (jb_s3 jb) w b k body = (r, w') \<longrightarrow> R w w')
     \<and> (\<forall>w b k r w'. delete_object (jb_s3 jb) w b k = (r, w') \<longrightarrow> R w w')
     \<and> (\<forall>w sql ps r w'. pg_fetch_json (jb_pg jb) w sql ps = (r, w') \<longrightarrow> R w w')
     \<and> (\<forall>w sql ps r w'. pg_fetch_int (jb_pg jb) w sql ps = (r, w') \<longrightarrow> R w w')
     \<and> (\<forall>w c w'. jb_cancel jb w = (c, w') \<longrightarrow> R w w')
     \<and> (\<forall>p w. R w (jb_progress jb p w))"

locale run_calls = effect R for R :: "'w \<Rightarrow> 'w \<Rightarrow> bool" +
  fixes jb :: "('w, 'df, 'lf, 'col, 'n) JobOps" and obj :: "'w \<Rightarrow> Object \<rightharpoonup> string"
  assumes laws: "job_laws jb obj" and calls: "calls_keep R jb"
begin

lemma keeps:
  "list_objects_v2 (jb_s3 jb) w b p t = (r1, w') \<Longrightarrow> R w w'"
  "get_object (jb_s3 jb) w b k = (r2, w') \<Longrightarrow> R w w'"
  "put_object (jb_s3 jb) w b k body = (r3, w') \<Longrightarrow> R w w'"
  "delete_object (jb_s3 jb) w b k = (r3, w') \<Longrightarrow> R w w'"
  "pg_fetch_json (jb_pg jb) w sql ps = (r4, w') \<Longrightarrow> R w w'"
  "pg_fetch_int (jb_pg jb) w sql ps = (r5, w') \<Longrightarrow> R w w'"
  "jb_cancel jb w = (c, w') \<Longrightarrow> R w w'"
  "R w (jb_progress jb pr w)"
  using calls unfolding calls_keep_def by auto

lemma get_bytes_keeps: "get_bytes (jb_s3 jb) w b k = (r, w') \<Longrightarrow> R w w'"
  by (auto simp: get_bytes_def split: prod.splits sum.splits dest: keeps(2))

lemma put_document_keeps: "put_document (jb_s3 jb) w b k body = (r, w') \<Longrightarrow> R w w'"
  by (auto simp: put_document_def split: prod.splits sum.splits dest: keeps(3))

lemma list_from_keeps: "list_from (jb_s3 jb) w b p t ks = Some (r, w') \<Longrightarrow> R w w'"
proof -
  have "s3 = jb_s3 jb \<longrightarrow> R w (snd x)" if run: "list_from s3 w b p t ks = Some x"
    for s3 :: "'w S3Ops" and w b p t ks x
  proof (rule list_from.raw_induct [where P = "\<lambda>s3 w b p t ks x. s3 = jb_s3 jb \<longrightarrow> R w (snd x)", OF _ run])
    fix lf s3 w b p t ks x
    assume 1: "\<And>s3 w b p t ks x. lf s3 w b p t ks = Some x \<Longrightarrow> s3 = jb_s3 jb \<longrightarrow> R w (snd x)"
      "(case list_objects_v2 s3 w b p t of
        (Inl e, w') \<Rightarrow> Some (Inl (''S3 ListObjects failed: '' @ err_chain e), w')
      | (Inr (contents, next_token), w') \<Rightarrow>
          (let keys' = ks @ List.map_filter (\<lambda>k. k) contents
           in case next_token of
                Some t' \<Rightarrow> lf s3 w' b p (Some t') keys'
              | None \<Rightarrow> Some (Inr keys', w'))) = Some x"
    show "s3 = jb_s3 jb \<longrightarrow> R w (snd x)"
    proof
      assume s3: "s3 = jb_s3 jb"
      obtain q u where page: "list_objects_v2 s3 w b p t = (q, u)" by fastforce
      with s3 have u: "R w u" by (simp add: keeps(1))
      show "R w (snd x)"
      proof (cases "\<exists>contents t'. q = Inr (contents, Some t')")
        case True
        then obtain contents t' where q: "q = Inr (contents, Some t')" by blast
        with 1(2) page have "lf s3 u b p (Some t') (ks @ List.map_filter (\<lambda>k. k) contents) = Some x"
          by (simp add: Let_def)
        from 1(1) [OF this] s3 u show ?thesis by (blast intro: R_trans)
      next
        case False
        with 1(2) page have "snd x = u" by (auto simp: Let_def split: sum.splits option.splits)
        with u show ?thesis by simp
      qed
    qed
  qed
  then show "list_from (jb_s3 jb) w b p t ks = Some (r, w') \<Longrightarrow> R w w'" by fastforce
qed

lemma list_keys_keeps: "\<exists>r w'. list_keys (jb_s3 jb) w b p = Some (r, w') \<and> R w w'"
  using list_keys_same [OF job_lawsD(1) [OF laws], of w b p] list_from_keeps unfolding list_keys_def by blast

lemma read_version_keeps: "read_version (jb_s3 jb) js w b p v = (r, w') \<Longrightarrow> R w w'"
  by (auto simp: read_version_def Let_def split: prod.splits sum.splits dest: get_bytes_keeps)

lemma read_current_keeps: "read_current (jb_s3 jb) js w b p = (r, w') \<Longrightarrow> R w w'"
  by (auto simp: read_current_def split: prod.splits sum.splits
      dest: get_bytes_keeps read_version_keeps intro: R_trans)

lemma publish_keeps: "publish (jb_s3 jb) js w b p m = (r, w') \<Longrightarrow> R w w'"
  by (auto simp: publish_def R_refl split: prod.splits sum.splits dest: put_document_keeps intro: R_trans)

lemma read_retained_keeps: "read_retained (jb_s3 jb) js w b p vs ms = (r, w') \<Longrightarrow> R w w'"
proof (induction vs arbitrary: w ms)
  case (Cons v vs)
  then show ?case
    by (auto split: prod.splits sum.splits dest: read_version_keeps intro: R_trans)
qed (simp add: R_refl)

lemma delete_all_keeps: "delete_all (jb_s3 jb) w b p ks n = (d, w') \<Longrightarrow> R w w'"
proof (induction ks arbitrary: w n)
  case (Cons k ks)
  then show ?case by (auto split: prod.splits sum.splits dest: keeps(4) intro: R_trans)
qed (simp add: R_refl)

lemma vacuum_kept: "\<exists>r w'. vacuum (jb_s3 jb) js w b p current = Some (r, w') \<and> R w w'"
proof -
  obtain q u where list: "list_keys (jb_s3 jb) w b p = Some (q, u)" "R w u" using list_keys_keeps by blast
  then show ?thesis
    by (cases q)
      (auto simp: vacuum_def Let_def split: prod.splits sum.splits
        dest!: read_retained_keeps delete_all_keeps intro: R_trans)
qed

subsection \<open>The steps of a run\<close>

abbreviation kept :: "('w, 'e, 'a) task \<Rightarrow> bool" where
  "kept \<equiv> settles (\<lambda>_. True)"

lemma kept_result: "kept (task_result r)"
  by (rule settles_result) simp

lemma kept_and_then: "kept m \<Longrightarrow> (\<And>a. kept (f a)) \<Longrightarrow> kept (and_then m f)"
  by (rule settles_and_then)

lemma kept_run: "(\<And>w a w'. act w = (a, w') \<Longrightarrow> R w w') \<Longrightarrow> kept (task_run act)"
  by (rule settles_run) simp

lemmas kept_intros = kept_result kept_and_then kept_run settles_call settles_try settles_mod
  list_keys_keeps vacuum_kept keeps(8)

lemma resolve_version_kept: "kept (resolve_version jb pipeline v)"
  by (auto simp: resolve_version_def current_version_for_def split: option.splits
      intro!: kept_intros dest: keeps(6))

lemma load_config_kept: "kept (load_config jb v)"
  by (auto simp: load_config_def config_for_version_def intro!: kept_intros dest: keeps(5))

lemma init_publishes_kept: "kept (init_publishes jb ctx pre clean tables ps)"
  by (induction tables arbitrary: ps) (auto simp: Let_def intro!: kept_intros dest: read_current_keeps)

lemma collect_keys_kept: "kept (collect_keys jb ctx scs ks)"
  by (induction scs arbitrary: ks) (auto intro!: kept_intros)

lemma check_cancel_kept: "kept (check_cancel jb)"
  by (auto simp: check_cancel_def intro!: kept_intros dest: keeps(7))

lemma download_kept: "kept (download jb ctx n so_far ks files)"
  by (induction ks arbitrary: so_far files) (auto intro!: kept_intros check_cancel_kept dest: get_bytes_keeps)

lemma file_rows_kept: "kept (file_rows jb ctx dim key vals prio ks rows)"
  by (induction ks arbitrary: rows) (auto intro!: kept_intros dest: get_bytes_keeps)

lemma build_matchers_kept: "kept (build_matchers jb ctx cfg)"
proof -
  have "kept (load_dimensions jb ctx dims m)" for dims m
    by (induction dims arbitrary: m)
      (auto simp: kept_result split: DimensionRows.split intro!: kept_intros file_rows_kept)
  then show ?thesis by (auto simp: build_matchers_def intro!: kept_intros)
qed

lemma upload_keeps: "upload_partitions_async (jb_s3 jb) b pre version mid ps written w = (r, w') \<Longrightarrow> R w w'"
proof (induction ps arbitrary: written w)
  case (Cons p ps)
  then show ?case
    by (auto simp: Let_def R_refl split: option.splits prod.splits sum.splits dest: keeps(3) intro: R_trans)
qed (simp add: R_refl)

lemma run_mapping_keeps: "run_mapping jb ctx pre cfg matchers files mapping st w = (st', w') \<Longrightarrow> R w w'"
  by (auto simp: run_mapping_def upload_mapping_def Let_def R_refl
      split: option.splits sum.splits if_splits prod.splits dest: upload_keeps)

lemma run_mappings_kept: "kept (run_mappings jb ctx pre cfg matchers files idx ms st)"
  by (induction ms arbitrary: idx st) (auto intro!: kept_intros check_cancel_kept dest: run_mapping_keeps)

lemma publish_tables_kept: "kept (publish_tables jb ctx ps errors)"
  by (induction ps arbitrary: errors)
    (auto simp: kept_result split: sum.split intro!: kept_intros elim!: publish_keeps)

text \<open>The whole run returns and keeps what its calls keep.\<close>

lemma execute_job_kept: "kept (execute_job jb ctx pre pipeline v clean_run)"
  unfolding execute_job_def run_config_def
  by (intro kept_and_then resolve_version_kept load_config_kept init_publishes_kept collect_keys_kept
      download_kept build_matchers_kept run_mappings_kept publish_tables_kept kept_result
      settles_mod keeps(8))

lemma execute_job_keeps:
  "\<exists>r w'. execute_job jb ctx pre pipeline v clean_run w = Some (r, w') \<and> R w w'"
  using settlesD [OF execute_job_kept] by blast

end

text \<open>In terms of the laws alone.\<close>

lemma job_executor_keeps:
  assumes "job_laws jb obj" and "calls_keep R jb"
    and "\<And>w. R w w" and "\<And>u v w. R u v \<Longrightarrow> R v w \<Longrightarrow> R u w"
  shows "\<exists>out w'. job_executor jb ctx msg n i w = Some (out, w') \<and> R w w'"
proof -
  have "run_calls R jb obj"
    by (intro run_calls.intro run_calls_axioms.intro effect.intro) (use assms in \<open>blast+\<close>)
  then show ?thesis unfolding job_executor_def by (rule run_calls.execute_job_keeps)
qed

section \<open>Handling an entry\<close>

text \<open>The four stages of \<open>handle_claimed\<close>, for an executor that returns.\<close>

lemma handle_claimed_stages:
  assumes run: "\<And>msg n w. \<exists>out w'. run msg n i w = Some (out, w') \<and> R w w'"
    and claim: "run_state (claim q i payload) (wk_world s) = (x, w1)"
  obtains (idle) "x = None" "handle_claimed q run i payload s = Some (s\<lparr>wk_world := w1\<rparr>)"
  | (ran) msg n w2 out w3 v w4 where "x = Some (msg, n)"
      "run_state (begin_run q msg) w1 = ((), w2)" "run msg n i w2 = Some (out, w3)" "R w2 w3"
      "run_state (settle q msg i n out) w3 = (v, w4)"
      "handle_claimed q run i payload s = Some (s\<lparr>wk_world := w4\<rparr>)"
proof (cases x)
  case None
  with claim show thesis by (intro idle) (simp_all add: handle_claimed_def step_world_def)
next
  case (Some mn)
  obtain msg n where x: "x = Some (msg, n)" using Some by (cases mn) auto
  obtain w2 where b: "run_state (begin_run q msg) w1 = ((), w2)"
    by (cases "run_state (begin_run q msg) w1") simp
  obtain out w3 where r: "run msg n i w2 = Some (out, w3)" "R w2 w3" using run by blast
  obtain v w4 where f: "run_state (settle q msg i n out) w3 = (v, w4)"
    by (cases "run_state (settle q msg i n out) w3")
  show thesis
    by (rule ran [OF x b r f]) (use claim x b r f in \<open>simp add: handle_claimed_def step_world_def\<close>)
qed

text \<open>The specification of a whole handling: the claim, then the settling of the outcome.\<close>

definition spec_handle ::
  "nat \<Rightarrow> (nat \<Rightarrow> string) \<Rightarrow> JobError + JobOutcome \<Rightarrow> Ticket \<Rightarrow> Ticket" where
  "spec_handle limit token outcome tk =
     (case spec_claim limit token tk of
        (None, tk') \<Rightarrow> tk'
      | (Some n, tk') \<Rightarrow> spec_settle limit n (token n) outcome tk')"

lemma spec_claim_live: "spec_claim limit token tk = (Some n, tk') \<Longrightarrow> \<not> tk_terminal tk'"
  by (auto simp: spec_claim_def Let_def split: if_splits)

context steady_queue begin

text \<open>Marking a job running does not concern its ticket.\<close>

lemma begin_run_ticket:
  assumes "\<not> tk_terminal (ticket js msg i (view w))"
  shows "wp (begin_run q msg) (\<lambda>_ w'. ticket js msg i (view w') = ticket js msg i (view w)) w"
proof -
  have rest: "wp (publish_job_event q (jm_pipeline msg) (jm_job_id msg))
      (\<lambda>_ w2. wp (State (\<lambda>w. mark_running (qc_pg q) w (jm_job_id msg) (qc_consumer_name q)))
         (\<lambda>_ w3. ticket js msg i (view w3) = ticket js msg i (view w)) w2) w1"
    if "ticket js msg i (view w1) = ticket js msg i (view w)" for w1
    by (rule wp_publish, rule wp_mark_running) (use that in simp)
  show ?thesis unfolding begin_run_def wp_bind wp_read_clock wp_return
    by (rule wp_told, rule rest) (use assms in \<open>simp add: hset_all ticket_def is_terminal_def\<close>)
qed

lemma handle_refines:
  assumes d: "dec_message (qc_json q) payload = Inr msg" and c: "counted (jm_job_id msg) c (view (wk_world s))"
    and p: "validate_pipeline_prefix (jm_prefix msg) = Inr u"
    and run: "\<And>msg n w. \<exists>out w'. run msg n i w = Some (out, w') \<and> view w' = view w"
  shows "\<exists>s' out n w w'. handle_claimed q run i payload s = Some s' \<and> run msg n i w = Some (out, w')
    \<and> ticket (qc_json q) msg i (view (wk_world s'))
      = spec_handle (qs_max_attempts (qc_settings q)) (fence (jm_job_id msg)) out
          (ticket (qc_json q) msg i (view (wk_world s)))"
proof -
  let ?t = "\<lambda>w. ticket (qc_json q) msg i (view w)"
  let ?limit = "qs_max_attempts (qc_settings q)"
  obtain x w1 where claim: "run_state (claim q i payload) (wk_world s) = (x, w1)" by fastforce
  from wpD [OF claim_refines [OF d c p] claim]
  have spec: "spec_claim ?limit (fence (jm_job_id msg)) (?t (wk_world s)) = (map_option snd x, ?t w1)"
    and msg: "\<And>m n. x = Some (m, n) \<Longrightarrow> m = msg" by auto
  show ?thesis
  proof (rule handle_claimed_stages [where R = "\<lambda>w w'. view w' = view w" and run = run and i = i, OF run claim])
    assume x: "x = None" and h: "handle_claimed q run i payload s = Some (s\<lparr>wk_world := w1\<rparr>)"
    obtain out w' where "run msg 0 i w1 = Some (out, w')" using run by blast
    with x h spec show ?thesis by (fastforce simp: spec_handle_def simp del: ticket_sel)
  next
    fix m n w2 out w3 v w4
    assume x: "x = Some (m, n)" and b: "run_state (begin_run q m) w1 = ((), w2)"
      and r: "run m n i w2 = Some (out, w3)" "view w3 = view w2"
      and f: "run_state (settle q m i n out) w3 = (v, w4)"
      and h: "handle_claimed q run i payload s = Some (s\<lparr>wk_world := w4\<rparr>)"
    have m: "m = msg" using msg [OF x] .
    have "\<not> tk_terminal (?t w1)" using spec x by (intro spec_claim_live [of ?limit "fence (jm_job_id msg)"]) simp
    from wpD [OF begin_run_ticket [OF this] b [unfolded m]] r(2) have "?t w3 = ?t w1" by simp
    with wpD [OF settle_refines f [unfolded m]] spec x
    have "?t w4 = spec_handle ?limit (fence (jm_job_id msg)) out (?t (wk_world s))"
      by (simp add: spec_handle_def del: ticket_sel)
    with h r m show ?thesis by auto
  qed
qed

end

section \<open>Properties\<close>

text \<open>C4: Handling a delivered entry with the executor of the service ends and accounts for the entry,
  whichever calls to the store, the database and Redis fail: afterwards the entry is still pending,
  or its payload was unreadable, or its job is terminal, or its message waits among the delayed ones.
  The counter of running jobs is back where it was. The calls of a run are assumed to leave the
  pending entries alone.\<close>

theorem handling_returns_accounted:
  assumes "queue_store q view" and "job_laws jb obj"
    and "calls_keep (\<lambda>w w'. st_pending (view w) \<subseteq> st_pending (view w')) jb"
    and "i \<in> st_pending (view (wk_world s))"
  shows "\<exists>s'. handle_claimed q (job_executor jb ctx) i payload s = Some s'
    \<and> payload_accounted (qc_json q) payload i (view (wk_world s')) \<and> wk_in_flight s' = wk_in_flight s"
proof -
  let ?run = "job_executor jb ctx"
  have run: "\<exists>out w'. ?run msg n i w = Some (out, w') \<and> st_pending (view w) \<subseteq> st_pending (view w')" for msg n w
    by (rule job_executor_keeps [OF assms(2,3)]) auto
  have keeps: "i \<in> st_pending (view w')" if "?run msg n i w = Some (out, w')" "i \<in> st_pending (view w)"
    for msg n w out w' using run [of msg n w] that by auto
  obtain x w1 where claim: "run_state (claim q i payload) (wk_world s) = (x, w1)" by fastforce
  from handle_claimed_stages [where R = "\<lambda>w w'. st_pending (view w) \<subseteq> st_pending (view w')"
      and run = ?run and i = i, OF run claim]
  obtain w' where h: "handle_claimed q ?run i payload s = Some (s\<lparr>wk_world := w'\<rparr>)" by metis
  from queue_store.handle_claimed_accounted [OF assms(1,4) keeps h] h show ?thesis by simp
qed


section \<open>A sample\<close>

text \<open>A store that can only be read, in a world that has other things: \<open>st\<close> are its objects.\<close>

definition still_s3 :: "MemStore \<Rightarrow> 'w S3Ops" where
  "still_s3 st = \<lparr>
     list_objects_v2 = (\<lambda>w b p t. (fst (list_objects_v2 mem_s3 st b p t), w)),
     get_object = (\<lambda>w b k. (fst (get_object mem_s3 st b k), w)),
     put_object = (\<lambda>w b k body. (Inl mem_error, w)), delete_object = (\<lambda>w b k. (Inl mem_error, w))\<rparr>"

lemma still_list: "list_law (still_s3 st :: 'w S3Ops) (\<lambda>_. mem_obj st)"
  unfolding list_law_def
proof (intro allI)
  fix b pre
  from mem_laws obtain rest where rest: "pages mem_s3 mem_obj (mem_obj st) b pre rest" "distinct (rest None)"
      "set (rest None) = {k. mem_obj st (b, k) \<noteq> None \<and> starts_with k pre}"
    unfolding s3_laws_def list_law_def by blast
  have "pages (still_s3 st :: 'w S3Ops) (\<lambda>_. mem_obj st) (mem_obj st) b pre rest" unfolding pages_def
  proof (intro allI impI)
    fix w w' :: 'w and t r
    assume "list_objects_v2 (still_s3 st) w b pre t = (r, w')"
    then obtain u where "list_objects_v2 mem_s3 st b pre t = (r, u)"
      by (cases "list_objects_v2 mem_s3 st b pre t") (simp add: still_s3_def)
    from rest(1) [unfolded pages_def, rule_format, OF refl this]
    show "mem_obj st = mem_obj st
        \<and> (\<forall>contents. r = Inr (contents, None) \<longrightarrow> rest t = List.map_filter (\<lambda>k. k) contents)
        \<and> (\<forall>contents t'. r = Inr (contents, Some t') \<longrightarrow>
             rest t = List.map_filter (\<lambda>k. k) contents @ rest (Some t')
             \<and> length (rest (Some t')) < length (rest t))" by blast
  qed
  with rest(2,3) show "\<exists>rest. pages (still_s3 st :: 'w S3Ops) (\<lambda>_. mem_obj st) (mem_obj st) b pre rest
      \<and> distinct (rest None) \<and> set (rest None) = {k. mem_obj st (b, k) \<noteq> None \<and> starts_with k pre}"
    by blast
qed

lemma still_laws: "s3_laws (still_s3 st :: 'w S3Ops) (\<lambda>_. mem_obj st)"
proof -
  have "mem_obj st (b, k) = Some body" if "get_object (still_s3 st) w b k = (Inr (Inr body), w')" for w w' :: 'w and b k body
    using that s3_get [OF mem_laws, of st b k "Inr (Inr body)"]
    by (cases "get_object mem_s3 st b k") (simp add: still_s3_def)
  then have "get_law (still_s3 st :: 'w S3Ops) (\<lambda>_. mem_obj st)" unfolding get_law_def by blast
  with still_list show ?thesis by (simp add: s3_laws_def put_law_def delete_law_def still_s3_def)
qed

text \<open>The sample of \<open>Job_Properties\<close> over that store, in the world of the queue.\<close>

definition still_jb :: "MemStore \<Rightarrow> (Mem, DemoFrame, DemoFrame, DemoCol, nat) JobOps" where
  "still_jb st = \<lparr>jb_s3 = still_s3 st, jb_js = demo_serde,
     jb_pg = mem_pg\<lparr>pg_fetch_json := (\<lambda>w _ _. (Inr (Some ''good''), w)), pg_fetch_int := (\<lambda>w _ _. (Inr (Some 1), w))\<rparr>,
     jb_frames = demo_ops, jb_json = demo_json_with (\<lambda>_ _. Inr []), jb_lower = (\<lambda>s. s),
     jb_debug_list = join '', '', jb_parse_config = (\<lambda>_. Inr (demo_config None)),
     jb_cancel = (\<lambda>w. (False, w)), jb_progress = (\<lambda>p w. w), jb_now = (\<lambda>w. ''now''),
     jb_join_error = ''panic'', jb_order = (\<lambda>ps. ps)\<rparr>"

lemma still_job_laws: "job_laws (still_jb st) (\<lambda>_. mem_obj st)"
  using still_laws by (simp add: job_laws_def still_jb_def)

lemma still_calls: "(\<And>w. R w w) \<Longrightarrow> calls_keep R (still_jb st)"
  by (auto simp: calls_keep_def still_jb_def still_s3_def)

interpretation still_runs: run_calls "\<lambda>w w'. mem_view w' = mem_view w" "still_jb st" "\<lambda>_. mem_obj st" for st
  by unfold_locales (simp_all add: still_job_laws still_calls)

definition still_files :: MemStore where
  "still_files = \<lparr>ms_objects = [((''lake'', ''tx/1.csv''), ''b'')], ms_faults = []\<rparr>"

lemma handling_returns_accounted_witness:
  "\<exists>s'. handle_claimed (mem_queue mem_redis) (job_executor (still_jb still_files) demo_ctx) ''5-0'' (mem_encode demo_msg)
      \<lparr>wk_world = demo_mem Map.empty [Delivered, ReplyLost ''reset''], wk_in_flight = 2, wk_consumer_ok = True\<rparr> = Some s'
    \<and> accounted (qc_json (mem_queue mem_redis)) demo_msg ''5-0'' (mem_view (wk_world s')) \<and> wk_in_flight s' = 2"
proof -
  let ?s = "\<lparr>wk_world = demo_mem Map.empty [Delivered, ReplyLost ''reset''], wk_in_flight = 2, wk_consumer_ok = True\<rparr>"
  have "''5-0'' \<in> st_pending (mem_view (wk_world ?s))" by simp
  from handling_returns_accounted [OF scripted.queue_store_axioms still_job_laws still_calls this,
      where payload = "mem_encode demo_msg"]
  show ?thesis by (simp add: payload_accounted_def mem_decode_encode)
qed


end
