(* ===== verification/Startup.thy ===== *)
theory Startup
  imports Queue Http_Proofs
begin

text \<open>
  Models the start of the process in \<open>src/lib.rs\<close>: the required environment, the settings read from
  it, and the state the HTTP server and the loops are given. The environment is a function \<open>env\<close> that
  answers \<open>None\<close> for a variable that is unset or not Unicode. The clients of S3, Redis and Postgres
  are services: only whether they can be made is seen. \<open>Shutdown\<close> goes on from here.
\<close>

type_synonym Env = "string \<Rightarrow> string option"

definition REQUIRED_ENV_VARS :: "string list" where
  "REQUIRED_ENV_VARS =
     [''S3_BUCKET_PIPELINES'', ''S3_BUCKET_LAKE'', ''S3_BUCKET_WAREHOUSE'', ''AWS_ACCESS_KEY_ID'',
      ''AWS_SECRET_ACCESS_KEY'', ''AWS_REGION'', ''AWS_ENDPOINT_URL'', ''KARET_WORKER_TOKEN'',
      ''DATABASE_URL'', ''REDIS_URL'', ''KARET_WEBHOOK_SECRET'']"

definition require_env_vars :: "Env \<Rightarrow> string list \<Rightarrow> string + unit" where
  "require_env_vars env names =
     (let missing = filter (\<lambda>name. case env name of Some v \<Rightarrow> v = [] | None \<Rightarrow> True) names
      in if missing = [] then Inr ()
         else Inl (''missing required environment variable(s): '' @ join '', '' missing
           @ ''. set them before starting karet-worker (see docker-compose.yaml)''))"

text \<open>\<open>env_parse\<close> for an unsigned type with the given largest value.\<close>

definition parse_unsigned :: "nat \<Rightarrow> string \<Rightarrow> nat option" where
  "parse_unsigned largest s = (case parse_nat (drop_plus s) of
     None \<Rightarrow> None | Some n \<Rightarrow> if n \<le> largest then Some n else None)"

definition env_parse :: "Env \<Rightarrow> nat \<Rightarrow> string \<Rightarrow> nat \<Rightarrow> nat" where
  "env_parse env largest name fallback =
     (case env name of
        Some raw \<Rightarrow> (case parse_unsigned largest raw of Some n \<Rightarrow> n | None \<Rightarrow> fallback)
      | None \<Rightarrow> fallback)"

definition u32_max :: nat where "u32_max = 2 ^ 32 - 1"

definition env_settings :: "Env \<Rightarrow> QueueSettings" where
  "env_settings env = default_settings\<lparr>
     qs_max_attempts := env_parse env u32_max ''MAX_ATTEMPTS'' 3,
     qs_lock_ttl_ms := env_parse env u64_max ''JOB_LOCK_TTL_MS'' 90000,
     qs_heartbeat_ms := env_parse env u64_max ''HEARTBEAT_MS'' 30000\<rparr>"

text \<open>The size of the pool of database connections.\<close>

definition pool_max_connections :: "Env \<Rightarrow> nat" where
  "pool_max_connections env = env_parse env u32_max ''DATABASE_POOL_MAX'' 4"

text \<open>What the server and the loops run with; \<open>su_consumers\<close> is how many consumer loops start beside
  one mover, one reclaimer and one debounce scheduler.\<close>

record Setup =
  su_pipelines_bucket :: string
  su_lake_bucket :: string
  su_warehouse_bucket :: string
  su_auth_token :: string
  su_webhook_secret :: string
  su_consumer_name :: string
  su_settings :: QueueSettings
  su_consumers :: nat
  su_addr :: string

text \<open>A variable that the check above found.\<close>

definition required :: "Env \<Rightarrow> string \<Rightarrow> string" where
  "required env name = the (env name)"

definition run_setup ::
  "Env \<Rightarrow> (string \<Rightarrow> string + unit) \<Rightarrow> (string \<Rightarrow> string + unit) \<Rightarrow> nat \<Rightarrow> string + Setup" where
  "run_setup env open_redis connect_db pid =
     rbind (require_env_vars env REQUIRED_ENV_VARS) (\<lambda>_.
     rbind (open_redis (required env ''REDIS_URL'')) (\<lambda>_.
     rbind (connect_db (required env ''DATABASE_URL'')) (\<lambda>_.
       Inr \<lparr>su_pipelines_bucket = required env ''S3_BUCKET_PIPELINES'',
         su_lake_bucket = required env ''S3_BUCKET_LAKE'',
         su_warehouse_bucket = required env ''S3_BUCKET_WAREHOUSE'',
         su_auth_token = required env ''KARET_WORKER_TOKEN'',
         su_webhook_secret = required env ''KARET_WEBHOOK_SECRET'',
         su_consumer_name = ''worker-'' @ (case env ''HOSTNAME'' of Some h \<Rightarrow> h | None \<Rightarrow> ''local'')
           @ ''-'' @ show_nat pid,
         su_settings = env_settings env,
         su_consumers = max 1 (env_parse env u64_max ''WORKER_CONCURRENCY'' 1),
         su_addr = ''0.0.0.0:'' @ (case env ''PORT'' of Some p \<Rightarrow> p | None \<Rightarrow> ''8080'')\<rparr>)))"

section \<open>Properties\<close>

lemma require_env_vars_ok:
  "require_env_vars env names = Inr u \<longleftrightarrow> (\<forall>name \<in> set names. \<exists>v. env name = Some v \<and> v \<noteq> [])"
  by (auto simp: require_env_vars_def Let_def filter_empty_conv split: option.splits)

text \<open>C40: A worker that starts cannot run open: its bearer token and its webhook secret are not empty, and
  every required variable is set, so that the webhook only acts on a request that carries the
  secret. At least one consumer loop runs.\<close>

theorem startup_fail_closed:
  assumes "run_setup env open_redis connect_db pid = Inr su"
  shows "su_auth_token su \<noteq> [] \<and> su_webhook_secret su \<noteq> [] \<and> 1 \<le> su_consumers su
    \<and> (\<forall>name \<in> set REQUIRED_ENV_VARS. env name \<notin> {None, Some []})
    \<and> (\<forall>header auth. authorize_events True (Some (su_webhook_secret su)) header auth = None
         \<longleftrightarrow> webhook_provided header auth = Some (su_webhook_secret su))"
proof -
  have names: "''KARET_WORKER_TOKEN'' \<in> set REQUIRED_ENV_VARS" "''KARET_WEBHOOK_SECRET'' \<in> set REQUIRED_ENV_VARS"
    by (simp_all add: REQUIRED_ENV_VARS_def)
  from assms have "require_env_vars env REQUIRED_ENV_VARS = Inr ()"
    and su: "su_auth_token su = required env ''KARET_WORKER_TOKEN''"
      "su_webhook_secret su = required env ''KARET_WEBHOOK_SECRET''" "1 \<le> su_consumers su"
    by (auto simp: run_setup_def rbind_eq_Inr)
  then have set: "\<forall>name \<in> set REQUIRED_ENV_VARS. \<exists>v. env name = Some v \<and> v \<noteq> []"
    by (simp add: require_env_vars_ok)
  from set names su(1,2) have "su_auth_token su \<noteq> []" "su_webhook_secret su \<noteq> []"
    by (auto simp: required_def)
  moreover from set have "\<forall>name \<in> set REQUIRED_ENV_VARS. env name \<notin> {None, Some []}" by fastforce
  ultimately show ?thesis using su(3) by (auto simp: authorize_events_None)
qed

lemma startup_fail_closed_witness:
  "\<exists>su. run_setup (\<lambda>_. Some ''x'') (\<lambda>_. Inr ()) (\<lambda>_. Inr ()) 7 = Inr su \<and> su_webhook_secret su \<noteq> []"
proof -
  have "require_env_vars (\<lambda>_. Some ''x'') REQUIRED_ENV_VARS = Inr ()" by (simp add: require_env_vars_ok)
  then obtain su where r: "run_setup (\<lambda>_. Some ''x'') (\<lambda>_. Inr ()) (\<lambda>_. Inr ()) 7 = Inr su"
    by (simp add: run_setup_def)
  with startup_fail_closed [OF r] show ?thesis by blast
qed

end
