(* ===== verification/Http_Router.thy ===== *)
theory Http_Router
  imports Startup Queue_Properties
begin

text \<open>
  Models \<open>router\<close> of \<open>src/http.rs\<close> and what it composes: the routes, the bearer-token layer in front
  of one of them, and the handlers of \<open>Http\<close> on the state they share (the routing cache, the store and
  the worker's process with its Redis). Axum is third-party code: its router builder is the record
  \<open>Axum\<close> and the locale \<open>axum\<close> states the documented behaviour the source relies on. What axum
  extracts of a request (headers as text, the body) is the record \<open>Request\<close>. Dropping the body of a
  \<open>HEAD\<close> answer is left to axum.
\<close>

section \<open>Axum\<close>

datatype Method = GET | HEAD | POST | OtherMethod string

datatype Handler = Root | Health | PostS3Events | PostConfigValidate

datatype MethodRouter = Get Handler | Post Handler

datatype Layer = RequireBearerToken

text \<open>Where a request goes: to a handler through the layers around it, outermost first; to a route
  that does not serve its method, which the layers of that route may or may not wrap; or nowhere.\<close>

datatype Dispatch = Endpoint Handler "Layer list" | WrongMethod "Layer list" | NoRoute

record 'rt Axum =
  ax_new :: 'rt
  ax_route :: "'rt \<Rightarrow> string \<Rightarrow> MethodRouter \<Rightarrow> 'rt"
  ax_route_layer :: "'rt \<Rightarrow> Layer \<Rightarrow> 'rt"
  ax_merge :: "'rt \<Rightarrow> 'rt \<Rightarrow> 'rt"
  ax_dispatch :: "'rt \<Rightarrow> Method \<Rightarrow> string \<Rightarrow> Dispatch"
  ax_not_found :: Response
  ax_wrong_method :: Response

definition router :: "'rt Axum \<Rightarrow> 'rt" where
  "router ax =
     (let protected = ax_route_layer ax
            (ax_route ax (ax_new ax) ''/config/validate'' (Post PostConfigValidate)) RequireBearerToken
      in ax_merge ax
           (ax_route ax (ax_route ax (ax_route ax (ax_new ax) ''/'' (Get Root)) ''/health'' (Get Health))
              ''/events/s3'' (Post PostS3Events))
           protected)"

text \<open>A path without the characters of axum's patterns is matched as it is; \<open>get\<close> serves \<open>HEAD\<close> too.\<close>

definition literal_path :: "string \<Rightarrow> bool" where
  "literal_path p = list_all (\<lambda>c. c \<notin> {CHR ''{'', CHR ''}'', CHR '':'', CHR ''*''}) p"

fun serves :: "MethodRouter \<Rightarrow> Method \<Rightarrow> bool" where
  "serves (Get h) m = (m = GET \<or> m = HEAD)"
| "serves (Post h) m = (m = POST)"

fun handler_of :: "MethodRouter \<Rightarrow> Handler" where
  "handler_of (Get h) = h"
| "handler_of (Post h) = h"

locale axum =
  fixes ax :: "'rt Axum"
  assumes new: "ax_dispatch ax (ax_new ax) m p = NoRoute"
    and route: "literal_path p \<Longrightarrow> (\<And>m. ax_dispatch ax r m p = NoRoute)
      \<Longrightarrow> ax_dispatch ax (ax_route ax r p mr) m p = (if serves mr m then Endpoint (handler_of mr) [] else WrongMethod [])"
    and route_other: "literal_path p \<Longrightarrow> q \<noteq> p
      \<Longrightarrow> ax_dispatch ax (ax_route ax r p mr) m q = ax_dispatch ax r m q"
    and layer_endpoint: "ax_dispatch ax r m p = Endpoint h ls
      \<Longrightarrow> ax_dispatch ax (ax_route_layer ax r l) m p = Endpoint h (l # ls)"
    and layer_method: "ax_dispatch ax r m p = WrongMethod ls
      \<Longrightarrow> ax_dispatch ax (ax_route_layer ax r l) m p \<in> {WrongMethod ls, WrongMethod (l # ls)}"
    and layer_none: "ax_dispatch ax r m p = NoRoute
      \<Longrightarrow> ax_dispatch ax (ax_route_layer ax r l) m p = NoRoute"
    and merge_left: "ax_dispatch ax s m p = NoRoute
      \<Longrightarrow> ax_dispatch ax (ax_merge ax r s) m p = ax_dispatch ax r m p"
    and merge_right: "ax_dispatch ax r m p = NoRoute
      \<Longrightarrow> ax_dispatch ax (ax_merge ax r s) m p = ax_dispatch ax s m p"
    and not_found: "r_status (ax_not_found ax) = 404"
    and wrong_method: "r_status (ax_wrong_method ax) = 405"
begin

lemmas on_route = new route route_other literal_path_def

lemma protected_dispatch:
  "ax_dispatch ax (ax_route_layer ax (ax_route ax (ax_new ax) ''/config/validate'' (Post PostConfigValidate))
      RequireBearerToken) m p \<in>
     (if p \<noteq> ''/config/validate'' then {NoRoute}
      else if m = POST then {Endpoint PostConfigValidate [RequireBearerToken]}
      else {WrongMethod [], WrongMethod [RequireBearerToken]})"
proof (cases "p = ''/config/validate''")
  case True
  then have "ax_dispatch ax (ax_route ax (ax_new ax) ''/config/validate'' (Post PostConfigValidate)) m p
      = (if m = POST then Endpoint PostConfigValidate [] else WrongMethod [])"
    by (simp add: on_route)
  then show ?thesis
    using True layer_endpoint [of _ m p PostConfigValidate "[]"] layer_method [of _ m p "[]"] by auto
qed (simp add: on_route layer_none)

lemma open_dispatch:
  "ax_dispatch ax (ax_route ax (ax_route ax (ax_route ax (ax_new ax) ''/'' (Get Root)) ''/health'' (Get Health))
      ''/events/s3'' (Post PostS3Events)) m p =
     (if p = ''/events/s3'' then if m = POST then Endpoint PostS3Events [] else WrongMethod []
      else if p = ''/health'' then if m = GET \<or> m = HEAD then Endpoint Health [] else WrongMethod []
      else if p = ''/'' then if m = GET \<or> m = HEAD then Endpoint Root [] else WrongMethod []
      else NoRoute)"
  by (simp add: on_route)

lemma router_open:
  "p \<noteq> ''/config/validate'' \<Longrightarrow> ax_dispatch ax (router ax) m p =
     (if p = ''/events/s3'' then if m = POST then Endpoint PostS3Events [] else WrongMethod []
      else if p = ''/health'' then if m = GET \<or> m = HEAD then Endpoint Health [] else WrongMethod []
      else if p = ''/'' then if m = GET \<or> m = HEAD then Endpoint Root [] else WrongMethod []
      else NoRoute)"
  using protected_dispatch [of m p] by (simp add: router_def merge_left open_dispatch)

lemma router_protected:
  "ax_dispatch ax (router ax) m ''/config/validate'' \<in>
     (if m = POST then {Endpoint PostConfigValidate [RequireBearerToken]}
      else {WrongMethod [], WrongMethod [RequireBearerToken]})"
  using protected_dispatch [of m "''/config/validate''"] by (simp add: router_def merge_right open_dispatch)

end

text \<open>A router that keeps its routes in a list meets the laws.\<close>

type_synonym Routes = "(string \<times> MethodRouter \<times> Layer list) list"

fun list_dispatch :: "Routes \<Rightarrow> Method \<Rightarrow> string \<Rightarrow> Dispatch" where
  "list_dispatch [] m p = NoRoute"
| "list_dispatch ((q, mr, ls) # r) m p =
     (if q = p then if serves mr m then Endpoint (handler_of mr) ls else WrongMethod ls
      else list_dispatch r m p)"

definition list_axum :: "Routes Axum" where
  "list_axum = \<lparr>ax_new = [], ax_route = (\<lambda>r p mr. (p, mr, []) # r),
     ax_route_layer = (\<lambda>r l. map (\<lambda>(p, mr, ls). (p, mr, l # ls)) r), ax_merge = append,
     ax_dispatch = list_dispatch,
     ax_not_found = \<lparr>r_status = 404, r_body = PlainBody []\<rparr>,
     ax_wrong_method = \<lparr>r_status = 405, r_body = PlainBody []\<rparr>\<rparr>"

lemma list_dispatch_layer:
  "list_dispatch (map (\<lambda>(p, mr, ls). (p, mr, l # ls)) r) m p =
     (case list_dispatch r m p of Endpoint h ls \<Rightarrow> Endpoint h (l # ls)
      | WrongMethod ls \<Rightarrow> WrongMethod (l # ls) | NoRoute \<Rightarrow> NoRoute)"
  by (induction r m p rule: list_dispatch.induct) auto

lemma list_dispatch_append:
  "list_dispatch (r @ s) m p = (case list_dispatch r m p of NoRoute \<Rightarrow> list_dispatch s m p | d \<Rightarrow> d)"
  by (induction r m p rule: list_dispatch.induct) auto

interpretation routes: axum list_axum
  by unfold_locales
    (auto simp: list_axum_def list_dispatch_layer list_dispatch_append split: Dispatch.splits)

section \<open>The state of the server\<close>

text \<open>\<open>AppState\<close> without its routing cache, which is shared and changes: it is part of the state.\<close>

record ('s, 'w) AppState =
  ap_pipelines_bucket :: string
  ap_lake_bucket :: string
  ap_warehouse_bucket :: string
  ap_s3_client :: "'s S3Ops option"
  ap_auth_token :: string
  ap_queue :: "'w QueueCtx option"
  ap_webhook_secret :: "string option"

record ('s, 'w) Server =
  sv_routing :: RoutingCache
  sv_store :: 's
  sv_worker :: "'w Worker"

text \<open>What \<open>run\<close> hands to the router.\<close>

definition app_state :: "Setup \<Rightarrow> 's S3Ops \<Rightarrow> 'w QueueCtx \<Rightarrow> ('s, 'w) AppState" where
  "app_state su s3 q =
     \<lparr>ap_pipelines_bucket = su_pipelines_bucket su, ap_lake_bucket = su_lake_bucket su,
      ap_warehouse_bucket = su_warehouse_bucket su, ap_s3_client = Some s3,
      ap_auth_token = su_auth_token su, ap_queue = Some q,
      ap_webhook_secret = Some (su_webhook_secret su)\<rparr>"

text \<open>The JSON parsers, \<open>XLEN\<close> of the job stream, and the clock before and after a rebuild of the
  routing table.\<close>

record ('s, 'w) Outside =
  os_parse_routing :: "string \<Rightarrow> string + string list"
  os_parse_config :: "string \<Rightarrow> string + PipelineConfig"
  os_parse_events :: "string \<Rightarrow> S3EventRecord list option"
  os_xlen :: "'w \<Rightarrow> string + int"
  os_now :: "RoutingCache \<times> 's \<Rightarrow> nat"
  os_later :: "RoutingCache \<times> 's \<Rightarrow> nat"

text \<open>\<open>rq_bytes\<close> is the body as \<open>to_bytes\<close> reads it within its limit, \<open>rq_text\<close> what the \<open>String\<close>
  extractor gives: the text, or axum's own rejection.\<close>

record Request =
  rq_method :: Method
  rq_path :: string
  rq_secret_header :: "string option"
  rq_authorization :: "string option"
  rq_bytes :: "string option"
  rq_text :: "Response + string"

section \<open>Handlers on the state\<close>

text \<open>Connecting to Redis; without a queue no handler asks.\<close>

definition connect_queue :: "('s, 'w) AppState \<Rightarrow> 'w \<Rightarrow> (string + unit) \<times> 'w" where
  "connect_queue ap w =
     (case ap_queue ap of None \<Rightarrow> (Inl [], w) | Some q \<Rightarrow> rd_connect (qc_redis q) w)"

definition debounce_on :: "('s, 'w) AppState \<Rightarrow> 'w \<Rightarrow> string \<Rightarrow> (string + int) \<times> 'w" where
  "debounce_on ap w slug =
     (case ap_queue ap of None \<Rightarrow> (Inl [], w)
      | Some q \<Rightarrow> run_state (debounce_event (qc_redis q) slug) w)"

definition route_on ::
  "('s, 'w) AppState \<Rightarrow> ('s, 'w) Outside \<Rightarrow> RoutingCache \<times> 's \<Rightarrow> string \<Rightarrow> (string list \<times> RoutingCache \<times> 's) option" where
  "route_on ap os s key =
     route_key (ap_s3_client ap) (os_parse_routing os) (ap_pipelines_bucket ap) (os_now os s) (os_later os s)
       (fst s) (snd s) key"

definition serve_health :: "('s, 'w) AppState \<Rightarrow> ('s, 'w) Outside \<Rightarrow> ('s, 'w) Server \<Rightarrow> Response \<times> ('s, 'w) Server" where
  "serve_health ap os sv =
     (let wk = sv_worker sv in
      case ap_queue ap of
        None \<Rightarrow> (health None, sv)
      | Some q \<Rightarrow>
          (case connect_queue ap (wk_world wk) of
             (connected, w1) \<Rightarrow>
               (health (Some (wk_in_flight wk, wk_consumer_ok wk, map_sum id (\<lambda>_. os_xlen os w1) connected)),
                sv\<lparr>sv_worker := wk\<lparr>wk_world := w1\<rparr>\<rparr>)))"

text \<open>A handler that asks for a connection and is refused leaves the world as the attempt left it; the
  earlier answers do not ask.\<close>

definition asks_connection :: "('s, 'w) AppState \<Rightarrow> ('s, 'w) Outside \<Rightarrow> Request \<Rightarrow> bool" where
  "asks_connection ap os rq \<longleftrightarrow>
     authorize_events (ap_queue ap \<noteq> None) (ap_webhook_secret ap) (rq_secret_header rq) (rq_authorization rq) = None
     \<and> Option.bind (rq_bytes rq) (os_parse_events os) \<noteq> None"

definition serve_events ::
  "('s, 'w) AppState \<Rightarrow> ('s, 'w) Outside \<Rightarrow> Request \<Rightarrow> ('s, 'w) Server \<Rightarrow> (Response \<times> ('s, 'w) Server) option" where
  "serve_events ap os rq sv =
     (let wk = sv_worker sv; (connected, w1) = connect_queue ap (wk_world wk) in
      case post_s3_events (route_on ap os) (debounce_on ap) (os_parse_events os) (ap_lake_bucket ap)
             (ap_queue ap \<noteq> None) (ap_webhook_secret ap) (rq_secret_header rq) (rq_authorization rq)
             (rq_bytes rq) (map_sum id (\<lambda>_. w1) connected) (sv_routing sv, sv_store sv) of
        None \<Rightarrow> None
      | Some (response, (cache, store), w2) \<Rightarrow>
          Some (response,
            \<lparr>sv_routing = cache, sv_store = store,
             sv_worker = wk\<lparr>wk_world := (case w2 of Some w \<Rightarrow> w
               | None \<Rightarrow> if asks_connection ap os rq then w1 else wk_world wk)\<rparr>\<rparr>))"

text \<open>A body that is no text is rejected before the handler runs.\<close>

definition serve_validate :: "('s, 'w) Outside \<Rightarrow> Request \<Rightarrow> ('s, 'w) Server \<Rightarrow> Response \<times> ('s, 'w) Server" where
  "serve_validate os rq sv =
     (case rq_text rq of
        Inl rejection \<Rightarrow> (rejection, sv)
      | Inr body \<Rightarrow>
          (case post_config_validate (os_parse_config os) (sv_routing sv) body of
             (response, cache) \<Rightarrow> (response, sv\<lparr>sv_routing := cache\<rparr>)))"

fun run_handler ::
  "('s, 'w) AppState \<Rightarrow> ('s, 'w) Outside \<Rightarrow> Request \<Rightarrow> Handler \<Rightarrow> ('s, 'w) Server \<Rightarrow> (Response \<times> ('s, 'w) Server) option" where
  "run_handler ap os rq Root sv = Some (root, sv)"
| "run_handler ap os rq Health sv = Some (serve_health ap os sv)"
| "run_handler ap os rq PostS3Events sv = serve_events ap os rq sv"
| "run_handler ap os rq PostConfigValidate sv = Some (serve_validate os rq sv)"

fun run_layers ::
  "('s, 'w) AppState \<Rightarrow> Request \<Rightarrow> Layer list \<Rightarrow> ('t \<Rightarrow> (Response \<times> 't) option) \<Rightarrow> 't \<Rightarrow> (Response \<times> 't) option" where
  "run_layers ap rq [] run = run"
| "run_layers ap rq (RequireBearerToken # ls) run =
     require_bearer_token (ap_auth_token ap) (rq_authorization rq) (run_layers ap rq ls run)"

text \<open>\<open>None\<close> when a listing of the store never ends.\<close>

definition respond ::
  "'rt Axum \<Rightarrow> ('s, 'w) AppState \<Rightarrow> ('s, 'w) Outside \<Rightarrow> Request \<Rightarrow> ('s, 'w) Server \<Rightarrow> (Response \<times> ('s, 'w) Server) option" where
  "respond ax ap os rq =
     (case ax_dispatch ax (router ax) (rq_method rq) (rq_path rq) of
        Endpoint h ls \<Rightarrow> run_layers ap rq ls (run_handler ap os rq h)
      | WrongMethod ls \<Rightarrow> run_layers ap rq ls (\<lambda>sv. Some (ax_wrong_method ax, sv))
      | NoRoute \<Rightarrow> (\<lambda>sv. Some (ax_not_found ax, sv)))"

section \<open>Properties\<close>

lemma bearer_refused:
  "authorization \<noteq> Some (''Bearer '' @ auth_token) \<Longrightarrow>
     require_bearer_token auth_token authorization run_next s
       = Some (error_response 401 ''unauthorized'' ''missing or invalid bearer token'' [], s)"
  unfolding require_bearer_token_def
  by (auto simp: strip_prefix_Some bind_eq_Some_conv split: option.splits)

lemma bearer_accepted:
  "authorization = Some (''Bearer '' @ auth_token)
    \<Longrightarrow> require_bearer_token auth_token authorization run_next s = run_next s"
  by (simp add: require_bearer_token_def strip_prefix_def)

lemma error_status [simp]: "r_status (error_response status kind message details) = status"
  by (simp add: error_response_def)

text \<open>The three places a request can carry the webhook secret in.\<close>

lemma webhook_refused:
  assumes "\<forall>s. ap_webhook_secret ap = Some s \<longrightarrow> s = []
      \<or> rq_secret_header rq \<noteq> Some s \<and> rq_authorization rq \<notin> {Some s, Some (''Bearer '' @ s)}"
  obtains response where "serve_events ap os rq sv = Some (response, sv)" and "r_status response \<in> {401, 503}"
proof -
  have "authorize_events (ap_queue ap \<noteq> None) (ap_webhook_secret ap) (rq_secret_header rq)
      (rq_authorization rq) \<noteq> None"
    using assms
    by (auto simp: authorize_events_None webhook_provided_def strip_prefix_Some split: option.splits)
  then obtain response where
    a: "authorize_events (ap_queue ap \<noteq> None) (ap_webhook_secret ap) (rq_secret_header rq)
      (rq_authorization rq) = Some response" by blast
  then have "serve_events ap os rq sv = Some (response, sv)"
    by (simp add: serve_events_def post_s3_events_def asks_connection_def Let_def split: prod.splits)
  then show ?thesis using authorize_events_status [OF a] by (rule that)
qed

lemma serve_health_only_connects:
  "serve_health ap os sv = (response, sv') \<Longrightarrow>
     sv' = sv\<lparr>sv_worker := (sv_worker sv)\<lparr>wk_world := snd (connect_queue ap (wk_world (sv_worker sv)))\<rparr>\<rparr>"
  by (auto simp: serve_health_def connect_queue_def Let_def split: option.splits prod.splits)

text \<open>C26: The HTTP interface is closed without its two secrets. A request, whatever its method, path and
  body, that does not carry the bearer token to \<open>/config/validate\<close> and does not carry a non-empty
  webhook secret to \<open>/events/s3\<close> changes neither the routing cache nor the store nor Redis: at most
  \<open>/health\<close> opens a connection. Outside \<open>/\<close> and \<open>/health\<close> the answer is 401, 404, 405 or 503.\<close>

theorem router_fail_closed:
  assumes "axum ax"
    and "rq_path rq = ''/config/validate'' \<Longrightarrow> rq_authorization rq \<noteq> Some (''Bearer '' @ ap_auth_token ap)"
    and "rq_path rq = ''/events/s3'' \<Longrightarrow> \<forall>s. ap_webhook_secret ap = Some s \<longrightarrow> s = []
      \<or> rq_secret_header rq \<noteq> Some s \<and> rq_authorization rq \<notin> {Some s, Some (''Bearer '' @ s)}"
  shows "\<exists>response sv'. respond ax ap os rq sv = Some (response, sv')
    \<and> (sv' = sv \<or> rq_path rq = ''/health'' \<and> sv' = sv\<lparr>sv_worker := (sv_worker sv)\<lparr>wk_world :=
         snd (connect_queue ap (wk_world (sv_worker sv)))\<rparr>\<rparr>)
    \<and> (rq_path rq \<notin> {''/'', ''/health''} \<longrightarrow> r_status response \<in> {401, 404, 405, 503})"
proof -
  note [simp] = axum.not_found [OF assms(1)] axum.wrong_method [OF assms(1)]
  consider "rq_path rq = ''/config/validate''" | "rq_path rq = ''/events/s3''" | "rq_path rq = ''/health''"
    | "rq_path rq \<notin> {''/config/validate'', ''/events/s3'', ''/health''}" by blast
  then show ?thesis
  proof cases
    case 1
    then have "respond ax ap os rq sv \<in> {Some (ax_wrong_method ax, sv),
        Some (error_response 401 ''unauthorized'' ''missing or invalid bearer token'' [], sv)}"
      using axum.router_protected [OF assms(1), of "rq_method rq"]
      by (auto simp: respond_def bearer_refused [OF assms(2) [OF 1]] split: if_splits)
    then show ?thesis by auto
  next
    case 2
    obtain response where "serve_events ap os rq sv = Some (response, sv)" "r_status response \<in> {401, 503}"
      by (rule webhook_refused [OF assms(3) [OF 2]])
    with 2 show ?thesis by (auto simp: respond_def axum.router_open [OF assms(1)])
  next
    case 3
    obtain response sv' where h: "serve_health ap os sv = (response, sv')" by fastforce
    from 3 h serve_health_only_connects [OF h] show ?thesis
      by (simp add: respond_def axum.router_open [OF assms(1)])
  next
    case 4
    then show ?thesis by (auto simp: respond_def axum.router_open [OF assms(1)])
  qed
qed

text \<open>A request with a wrong token, and one with the right one, on a worker that runs.\<close>

definition demo_outside :: "(MemStore, Mem) Outside" where
  "demo_outside = \<lparr>os_parse_routing = (\<lambda>body. Inr [body]), os_parse_config = (\<lambda>_. Inl ''expected value''),
     os_parse_events = (\<lambda>_. Some []), os_xlen = (\<lambda>_. Inr 0), os_now = (\<lambda>_. 5), os_later = (\<lambda>_. 6)\<rparr>"

definition demo_app :: "(MemStore, Mem) AppState" where
  "demo_app = \<lparr>ap_pipelines_bucket = ''b'', ap_lake_bucket = ''lake'', ap_warehouse_bucket = ''warehouse'',
     ap_s3_client = Some steady_s3, ap_auth_token = ''token'', ap_queue = Some (mem_queue mem_redis),
     ap_webhook_secret = Some ''secret''\<rparr>"

definition demo_server :: "(MemStore, Mem) Server" where
  "demo_server = \<lparr>sv_routing = \<lparr>rc_built_at = Some 4, rc_entries = []\<rparr>, sv_store = demo_pipelines,
     sv_worker = \<lparr>wk_world = demo_mem Map.empty [], wk_in_flight = 0, wk_consumer_ok = True\<rparr>\<rparr>"

definition demo_request :: "string \<Rightarrow> Request" where
  "demo_request token = \<lparr>rq_method = POST, rq_path = ''/config/validate'', rq_secret_header = None,
     rq_authorization = Some (''Bearer '' @ token), rq_bytes = Some ''{}'', rq_text = Inr ''{}''\<rparr>"

lemma router_fail_closed_witness:
  "\<exists>response. respond list_axum demo_app demo_outside (demo_request ''guess'') demo_server
     = Some (response, demo_server) \<and> r_status response \<in> {401, 404, 405, 503}"
  using router_fail_closed [OF routes.axum_axioms, of "demo_request ''guess''" demo_app demo_outside demo_server]
  by (simp add: demo_request_def demo_app_def)

end
