(* ===== verification/Config_Tests.thy ===== *)
theory Config_Tests
  imports Config_Proofs
begin

text \<open>
  The test module of \<open>src/config.rs\<close>: each test is a boolean over the model, and each holds of it. The
  property test and its generator are in \<open>Config_Mutations\<close>, where the property is proved for all
  the values the generator draws.
\<close>

section \<open>Helpers\<close>

text \<open>\<open>r.unwrap_err()\<close> followed by a check; it panics, so the test fails, on \<open>Ok\<close>.\<close>

definition unwrap_err :: "'e + 'a \<Rightarrow> ('e \<Rightarrow> bool) \<Rightarrow> bool" where
  "unwrap_err r check = (case r of Inl e \<Rightarrow> check e | Inr _ \<Rightarrow> False)"

text \<open>An assignment to a field of \<open>xs[0]\<close>.\<close>

definition first_mut :: "('a \<Rightarrow> 'a) \<Rightarrow> 'a list \<Rightarrow> 'a list" where
  "first_mut f xs = (case xs of [] \<Rightarrow> [] | x # rest \<Rightarrow> f x # rest)"

definition on_source :: "(SourceContainer \<Rightarrow> SourceContainer) \<Rightarrow> PipelineConfig \<Rightarrow> PipelineConfig" where
  "on_source f cfg = cfg\<lparr>cfg_source_containers := first_mut f (cfg_source_containers cfg)\<rparr>"

definition on_mapping :: "(Mapping \<Rightarrow> Mapping) \<Rightarrow> PipelineConfig \<Rightarrow> PipelineConfig" where
  "on_mapping f cfg = cfg\<lparr>cfg_mappings := first_mut f (cfg_mappings cfg)\<rparr>"

definition on_table :: "(AnalyticTable \<Rightarrow> AnalyticTable) \<Rightarrow> PipelineConfig \<Rightarrow> PipelineConfig" where
  "on_table f cfg = cfg\<lparr>cfg_analytic_tables := first_mut f (cfg_analytic_tables cfg)\<rparr>"

definition dangling :: "(string \<Rightarrow> string \<Rightarrow> bool) \<Rightarrow> ConfigError \<Rightarrow> bool" where
  "dangling check e = (case e of DanglingReference _ kind target \<Rightarrow> check kind target | _ \<Rightarrow> False)"

definition plain_column :: "string \<Rightarrow> string \<Rightarrow> bool option \<Rightarrow> ColumnSchema" where
  "plain_column name ty nullable = \<lparr>cs_name = name, cs_path = None, cs_type = ty, cs_nullable = nullable,
     cs_assertions = None\<rparr>"

text \<open>The literal \<open>1.0\<close>.\<close>

definition f64_one :: f64 where "f64_one = 0x3FF0000000000000"

section \<open>The sample configuration of the tests\<close>

definition minimal_valid_config :: PipelineConfig where
  "minimal_valid_config = \<lparr>cfg_version = 1,
     cfg_source_containers = [\<lparr>sc_id = ''src'', sc_name = ''Src'', sc_path_prefix = ''raw/src/'', sc_format = Csv,
       sc_schema = [plain_column ''a'' ''string'' None], sc_record_filter = None\<rparr>],
     cfg_dimensions = [
       \<lparr>d_id = ''categories'', d_name = Some ''Categories'', d_match = KeywordSubstring,
         d_case_insensitive = Some True, d_on_miss = OnMissNull,
         d_rows = Inline [''category''] [\<lparr>ir_patterns = [''UBER''], ir_values = [''TRANSPORT''], ir_priority = 0\<rparr>]\<rparr>,
       \<lparr>d_id = ''merchants'', d_name = None, d_match = KeywordSubstring,
         d_case_insensitive = None, d_on_miss = OnMissNull,
         d_rows = Inline [''merchant''] [\<lparr>ir_patterns = [''UBER''], ir_values = [''UBER''], ir_priority = 0\<rparr>]\<rparr>],
     cfg_mappings = [\<lparr>m_id = ''m'', m_name = [], m_source_container_id = ''src'', m_analytic_table_id = ''t'',
       m_columns = [\<lparr>mc_name = ''cat'', mc_expr = DimRef ''categories'' None (Col ''a'')\<rparr>,
                    \<lparr>mc_name = ''mer'', mc_expr = DimRef ''merchants'' None (Col ''a'')\<rparr>],
       m_where = None\<rparr>],
     cfg_analytic_tables = [\<lparr>t_id = ''t'', t_name = ''T'',
       t_schema = [plain_column ''cat'' ''string'' (Some True), plain_column ''mer'' ''string'' (Some True)],
       t_partition_keys = [], t_dedup_keys = []\<rparr>],
     cfg_layout = Map.empty\<rparr>"

section \<open>References and ids\<close>

definition valid_config_passes :: bool where
  "valid_config_passes \<longleftrightarrow> validate minimal_valid_config = Inr ()"

definition with_source_twice :: PipelineConfig where
  "with_source_twice = minimal_valid_config\<lparr>cfg_source_containers :=
     cfg_source_containers minimal_valid_config @ [cfg_source_containers minimal_valid_config ! 0]\<rparr>"

definition duplicate_source_container_id_is_reported :: bool where
  "duplicate_source_container_id_is_reported \<longleftrightarrow>
     unwrap_err (validate with_source_twice)
       (list_ex (\<lambda>e. case e of DuplicateId _ kind i \<Rightarrow> kind = ''source_container'' \<and> i = ''src'' | _ \<Rightarrow> False))"

definition where_predicate_referencing_unknown_column_is_reported :: bool where
  "where_predicate_referencing_unknown_column_is_reported \<longleftrightarrow>
     unwrap_err (validate (on_mapping (\<lambda>m. m\<lparr>m_where := Some (Eq (Col ''not_an_output_column'') (Str ''x''))\<rparr>)
        minimal_valid_config))
       (list_ex (dangling (\<lambda>kind _. kind = ''mapping_column'')))"

definition where_predicate_over_output_columns_validates :: bool where
  "where_predicate_over_output_columns_validates \<longleftrightarrow>
     validate (on_mapping (\<lambda>m. m\<lparr>m_where := Some (NotNode (Eq (Col (mc_name (m_columns m ! 0))) Null))\<rparr>)
        minimal_valid_config) = Inr ()"

definition dangling_source_container_reference_is_reported :: bool where
  "dangling_source_container_reference_is_reported \<longleftrightarrow>
     unwrap_err (validate (on_mapping (\<lambda>m. m\<lparr>m_source_container_id := ''missing''\<rparr>) minimal_valid_config))
       (list_ex (dangling (\<lambda>kind target. kind = ''source_container'' \<and> target = ''missing'')))"

text \<open>The expression of the mapping's first column, or of its second, replaced.\<close>

definition with_first_expr :: "AstNode \<Rightarrow> PipelineConfig" where
  "with_first_expr e = on_mapping (\<lambda>m. m\<lparr>m_columns := first_mut (\<lambda>c. c\<lparr>mc_expr := e\<rparr>) (m_columns m)\<rparr>)
     minimal_valid_config"

definition with_second_expr :: "AstNode \<Rightarrow> PipelineConfig" where
  "with_second_expr e = on_mapping (\<lambda>m. m\<lparr>m_columns := (m_columns m)[1 := (m_columns m ! 1)\<lparr>mc_expr := e\<rparr>]\<rparr>)
     minimal_valid_config"

definition dangling_dimension_reference_is_reported :: bool where
  "dangling_dimension_reference_is_reported \<longleftrightarrow>
     unwrap_err (validate (with_first_expr (DimRef ''does_not_exist'' None (Col ''a''))))
       (list_ex (dangling (\<lambda>kind target. kind = ''dimension'' \<and> target = ''does_not_exist'')))"

definition dangling_dimension_value_column_is_reported :: bool where
  "dangling_dimension_value_column_is_reported \<longleftrightarrow>
     unwrap_err (validate (with_second_expr (DimRef ''categories'' (Some ''not_a_value_column'') (Col ''a''))))
       (list_ex (dangling (\<lambda>kind target. kind = ''dimension_value'' \<and> target = ''categories.not_a_value_column'')))"

definition empty_id_is_reported_as_missing_field :: bool where
  "empty_id_is_reported_as_missing_field \<longleftrightarrow>
     unwrap_err (validate (on_mapping (\<lambda>m. m\<lparr>m_source_container_id := []\<rparr>)
        (on_source (\<lambda>s. s\<lparr>sc_id := []\<rparr>) minimal_valid_config)))
       (list_ex (\<lambda>e. case e of MissingField path field \<Rightarrow> path = ''/source_containers/0/id'' \<and> field = ''id''
          | _ \<Rightarrow> False))"

definition config_without_lookups :: PipelineConfig where
  "config_without_lookups = \<lparr>cfg_version = 1,
     cfg_source_containers = [\<lparr>sc_id = ''src'', sc_name = ''Src'', sc_path_prefix = ''raw/src/'', sc_format = Csv,
       sc_schema = [plain_column ''a'' ''string'' None], sc_record_filter = None\<rparr>],
     cfg_dimensions = [],
     cfg_mappings = [\<lparr>m_id = ''m'', m_name = [], m_source_container_id = ''src'', m_analytic_table_id = ''t'',
       m_columns = [\<lparr>mc_name = ''out'', mc_expr = Col ''a''\<rparr>], m_where = None\<rparr>],
     cfg_analytic_tables = [\<lparr>t_id = ''t'', t_name = ''T'',
       t_schema = [plain_column ''out'' ''string'' (Some True)], t_partition_keys = [], t_dedup_keys = []\<rparr>],
     cfg_layout = Map.empty\<rparr>"

definition valid_config_without_lookups_passes :: bool where
  "valid_config_without_lookups_passes \<longleftrightarrow> validate config_without_lookups = Inr ()"

section \<open>Columns\<close>

definition mapping_column_not_in_analytic_table_is_reported :: bool where
  "mapping_column_not_in_analytic_table_is_reported \<longleftrightarrow>
     unwrap_err (validate (on_table (\<lambda>t. t\<lparr>t_schema := filter (\<lambda>c. cs_name c \<noteq> ''mer'') (t_schema t)\<rparr>)
        minimal_valid_config))
       (list_ex (dangling (\<lambda>kind target. kind = ''analytic_table_column'' \<and> ends_with target ''.mer'')))"

definition partition_key_must_name_schema_column :: bool where
  "partition_key_must_name_schema_column \<longleftrightarrow>
     unwrap_err (validate (on_table (\<lambda>t. t\<lparr>t_partition_keys := [''ghost'']\<rparr>) minimal_valid_config))
       (list_ex (dangling (\<lambda>kind target. kind = ''schema_column'' \<and> target = ''ghost'')))"

text \<open>The table has one more column of the type, and the mapping a constant for it.\<close>

definition with_column :: "string \<Rightarrow> string \<Rightarrow> (AnalyticTable \<Rightarrow> AnalyticTable) \<Rightarrow> PipelineConfig" where
  "with_column name ty keys =
     on_table (\<lambda>t. keys (t\<lparr>t_schema := t_schema t @ [plain_column name ty (Some True)]\<rparr>))
       (on_mapping (\<lambda>m. m\<lparr>m_columns := m_columns m @ [\<lparr>mc_name = name, mc_expr = Num f64_one\<rparr>]\<rparr>)
         minimal_valid_config)"

definition partition_keys_reject_floats_dupes_and_more_than_two :: bool where
  "partition_keys_reject_floats_dupes_and_more_than_two \<longleftrightarrow>
     unwrap_err (validate (with_column ''amt'' ''float64'' (\<lambda>t. t\<lparr>t_partition_keys := [''cat'', ''cat'', ''amt'']\<rparr>)))
       (\<lambda>errs. let msgs = map config_error_display errs
         in list_ex (\<lambda>m. str_contains m ''at most 2'') msgs
          \<and> list_ex (\<lambda>m. str_contains m ''duplicate partition key'') msgs
          \<and> list_ex (\<lambda>m. str_contains m ''float-capable'') msgs)
     \<and> unwrap_err (validate (with_column ''n'' ''number'' (\<lambda>t. t\<lparr>t_partition_keys := [''n'']\<rparr>)))
       (list_ex (\<lambda>e. str_contains (config_error_display e) ''float-capable''))"

definition dedup_key_must_name_schema_column_but_floats_allowed :: bool where
  "dedup_key_must_name_schema_column_but_floats_allowed \<longleftrightarrow>
     unwrap_err (validate (on_table (\<lambda>t. t\<lparr>t_dedup_keys := [''ghost'']\<rparr>) minimal_valid_config))
       (list_ex (dangling (\<lambda>kind target. kind = ''schema_column'' \<and> target = ''ghost'')))
     \<and> validate (with_column ''amt'' ''float64'' (\<lambda>t. t\<lparr>t_dedup_keys := [''amt'']\<rparr>)) = Inr ()"

section \<open>Prefixes and messages\<close>

definition source_prefix_shape_is_validated :: bool where
  "source_prefix_shape_is_validated \<longleftrightarrow>
     list_all (\<lambda>bad. validate (on_source (\<lambda>s. s\<lparr>sc_path_prefix := bad\<rparr>) minimal_valid_config) \<noteq> Inr ())
       [''/abs/'', ''no-slash'', ''a/../b/'', []]
     \<and> validate (on_source (\<lambda>s. s\<lparr>sc_path_prefix := ''banks/rbc/chequing/''\<rparr>) minimal_valid_config) = Inr ()"

definition nested_source_prefixes_rejected :: bool where
  "nested_source_prefixes_rejected \<longleftrightarrow>
     (let cfg = minimal_valid_config;
          first = cfg_source_containers cfg ! 0;
          second = first\<lparr>sc_id := ''s2'', sc_name := ''S2'', sc_path_prefix := sc_path_prefix first @ ''nested/''\<rparr>
      in unwrap_err (validate (cfg\<lparr>cfg_source_containers := cfg_source_containers cfg @ [second]\<rparr>))
        (list_ex (\<lambda>e. str_contains (config_error_display e) ''must not overlap'')))"

definition col_ref_not_in_source_schema_is_reported :: bool where
  "col_ref_not_in_source_schema_is_reported \<longleftrightarrow>
     unwrap_err (validate (with_first_expr (Col ''nope'')))
       (list_ex (dangling (\<lambda>kind target. kind = ''source_column'' \<and> ends_with target ''.nope'')))"

definition error_message_contains_offending_identifier :: bool where
  "error_message_contains_offending_identifier \<longleftrightarrow>
     unwrap_err (validate with_source_twice)
       (\<lambda>errs. case List.find (\<lambda>e. case e of DuplicateId _ _ _ \<Rightarrow> True | _ \<Rightarrow> False) errs of
          None \<Rightarrow> False | Some e \<Rightarrow> str_contains (config_error_display e) ''src'')"

section \<open>The tests pass\<close>

lemma config_acceptance_tests:
  valid_config_passes where_predicate_over_output_columns_validates valid_config_without_lookups_passes
  by code_simp+

lemma config_reference_tests:
  duplicate_source_container_id_is_reported where_predicate_referencing_unknown_column_is_reported
  dangling_source_container_reference_is_reported dangling_dimension_reference_is_reported
  dangling_dimension_value_column_is_reported empty_id_is_reported_as_missing_field
  by code_simp+

lemma config_column_tests:
  mapping_column_not_in_analytic_table_is_reported partition_key_must_name_schema_column
  partition_keys_reject_floats_dupes_and_more_than_two dedup_key_must_name_schema_column_but_floats_allowed
  col_ref_not_in_source_schema_is_reported
  by code_simp+

lemma config_prefix_tests:
  source_prefix_shape_is_validated nested_source_prefixes_rejected error_message_contains_offending_identifier
  by code_simp+

end
