(* ===== verification/Http_Tests.thy ===== *)
theory Http_Tests
  imports Http_Router Config_Tests
begin

text \<open>
  The test module of \<open>src/http.rs\<close>. The tests that send a request hold for every router that meets
  the laws of \<open>axum\<close>; what \<open>serde_json\<close> makes of a body is an argument, and the lemmas name the
  outcome each test relies on.
\<close>

section \<open>Helpers\<close>

definition TEST_TOKEN :: string where "TEST_TOKEN = ''test-token''"

definition test_state :: "('s, 'w) AppState" where
  "test_state = \<lparr>ap_pipelines_bucket = ''karet-pipelines'', ap_lake_bucket = ''karet-lake'',
     ap_warehouse_bucket = ''karet-warehouse'', ap_s3_client = None, ap_auth_token = TEST_TOKEN,
     ap_queue = None, ap_webhook_secret = Some ''test-webhook-secret''\<rparr>"

text \<open>The routing cache each test starts with, over any store and process.\<close>

definition test_server :: "'s \<Rightarrow> 'w Worker \<Rightarrow> ('s, 'w) Server" where
  "test_server store wk = \<lparr>sv_routing = \<lparr>rc_built_at = None, rc_entries = []\<rparr>, sv_store = store, sv_worker = wk\<rparr>"

text \<open>\<open>app.oneshot(request).await.unwrap()\<close>: the check is made on the response.\<close>

definition oneshot ::
  "'rt Axum \<Rightarrow> ('s, 'w) Outside \<Rightarrow> 's \<Rightarrow> 'w Worker \<Rightarrow> Request \<Rightarrow> (Response \<Rightarrow> bool) \<Rightarrow> bool" where
  "oneshot ax os store wk request check =
     (case respond ax test_state os request (test_server store wk) of
        Some (response, _) \<Rightarrow> check response | None \<Rightarrow> False)"

definition empty_request :: "Method \<Rightarrow> string \<Rightarrow> Request" where
  "empty_request m uri = \<lparr>rq_method = m, rq_path = uri, rq_secret_header = None, rq_authorization = None,
     rq_bytes = Some [], rq_text = Inr []\<rparr>"

definition post_with_auth :: "string \<Rightarrow> string option \<Rightarrow> string \<Rightarrow> Request" where
  "post_with_auth uri token body = \<lparr>rq_method = POST, rq_path = uri, rq_secret_header = None,
     rq_authorization = map_option (\<lambda>token. ''Bearer '' @ token) token,
     rq_bytes = Some body, rq_text = Inr body\<rparr>"

text \<open>\<open>read_json\<close> and indexing of the value it gives.\<close>

fun json_at :: "string \<Rightarrow> Json \<Rightarrow> Json option" where
  "json_at k (JsObj kvs) = map_of kvs k"
| "json_at k _ = None"

fun json_array :: "Json \<Rightarrow> Json list option" where
  "json_array (JsArr vs) = Some vs"
| "json_array _ = None"

definition read_json :: "(Json \<Rightarrow> bool) \<Rightarrow> Response \<Rightarrow> bool" where
  "read_json check response = (case r_body response of JsonBody v \<Rightarrow> check v | PlainBody _ \<Rightarrow> False)"

definition has_kind :: "string \<Rightarrow> Json \<Rightarrow> bool" where
  "has_kind kind e \<longleftrightarrow> json_at ''kind'' e = Some (JsStr kind)"

section \<open>Routes\<close>

definition health_returns_200 :: "'rt Axum \<Rightarrow> ('s, 'w) Outside \<Rightarrow> 's \<Rightarrow> 'w Worker \<Rightarrow> bool" where
  "health_returns_200 ax os store wk =
     oneshot ax os store wk (empty_request GET ''/health'') (\<lambda>r. r_status r = 200)"

definition health_needs_no_token :: "'rt Axum \<Rightarrow> ('s, 'w) Outside \<Rightarrow> 's \<Rightarrow> 'w Worker \<Rightarrow> bool" where
  "health_needs_no_token ax os store wk =
     oneshot ax os store wk (empty_request GET ''/health'') (\<lambda>r. r_status r = 200)"

definition root_answers_head_probe_without_auth :: "'rt Axum \<Rightarrow> ('s, 'w) Outside \<Rightarrow> 's \<Rightarrow> 'w Worker \<Rightarrow> bool" where
  "root_answers_head_probe_without_auth ax os store wk =
     oneshot ax os store wk (empty_request HEAD ''/'') (\<lambda>r. r_status r = 200)"

definition unknown_path_is_404_not_401 :: "'rt Axum \<Rightarrow> ('s, 'w) Outside \<Rightarrow> 's \<Rightarrow> 'w Worker \<Rightarrow> bool" where
  "unknown_path_is_404_not_401 ax os store wk =
     oneshot ax os store wk (empty_request GET ''/nonexistent'') (\<lambda>r. r_status r = 404)"

definition events_returns_503_when_queue_disabled :: "'rt Axum \<Rightarrow> ('s, 'w) Outside \<Rightarrow> 's \<Rightarrow> 'w Worker \<Rightarrow> bool" where
  "events_returns_503_when_queue_disabled ax os store wk =
     oneshot ax os store wk
       ((post_with_auth ''/events/s3'' None ''{\"Records\":[]}'')\<lparr>rq_secret_header := Some ''test-webhook-secret''\<rparr>)
       (\<lambda>r. r_status r = 503
          \<and> read_json (\<lambda>v. Option.bind (json_at ''error'' v) (json_at ''kind'') = Some (JsStr ''queue_disabled'')) r)"

section \<open>Configuration checks\<close>

definition VALID_CONFIG :: string where
  "VALID_CONFIG = ''{ \"version\": 1, \"source_containers\": [], \"dimensions\": [], \"mappings\": [], \"analytic_tables\": [], \"layout\": {} }''"

definition config_validate_returns_ok_on_valid :: "'rt Axum \<Rightarrow> ('s, 'w) Outside \<Rightarrow> 's \<Rightarrow> 'w Worker \<Rightarrow> bool" where
  "config_validate_returns_ok_on_valid ax os store wk =
     oneshot ax os store wk (post_with_auth ''/config/validate'' (Some TEST_TOKEN) VALID_CONFIG)
       (\<lambda>r. r_status r = 200 \<and> read_json (\<lambda>v. json_at ''ok'' v = Some (JsBool True)) r)"

text \<open>\<open>bad\<close> is the test's JSON text of two sources with one id.\<close>

definition config_validate_returns_errors_on_invalid ::
  "string \<Rightarrow> 'rt Axum \<Rightarrow> ('s, 'w) Outside \<Rightarrow> 's \<Rightarrow> 'w Worker \<Rightarrow> bool" where
  "config_validate_returns_errors_on_invalid bad ax os store wk =
     oneshot ax os store wk (post_with_auth ''/config/validate'' (Some TEST_TOKEN) bad)
       (\<lambda>r. r_status r = 200 \<and> read_json (\<lambda>v. json_at ''ok'' v = Some (JsBool False)
          \<and> (case Option.bind (json_at ''errors'' v) json_array of
               None \<Rightarrow> False
             | Some errors \<Rightarrow> errors \<noteq> []
                 \<and> list_ex (\<lambda>e. has_kind ''duplicate_id'' e
                       \<and> (case json_at ''path'' e of Some (JsStr _) \<Rightarrow> True | _ \<Rightarrow> False)) errors)) r)"

definition config_validate_reports_schema_on_unparseable_body ::
  "'rt Axum \<Rightarrow> ('s, 'w) Outside \<Rightarrow> 's \<Rightarrow> 'w Worker \<Rightarrow> bool" where
  "config_validate_reports_schema_on_unparseable_body ax os store wk =
     oneshot ax os store wk (post_with_auth ''/config/validate'' (Some TEST_TOKEN) ''not json'')
       (\<lambda>r. r_status r = 200 \<and> read_json (\<lambda>v. json_at ''ok'' v = Some (JsBool False)
          \<and> (case Option.bind (json_at ''errors'' v) json_array of
               Some (e # _) \<Rightarrow> has_kind ''schema'' e | _ \<Rightarrow> False)) r)"

definition config_validate_rejects_missing_token :: "'rt Axum \<Rightarrow> ('s, 'w) Outside \<Rightarrow> 's \<Rightarrow> 'w Worker \<Rightarrow> bool" where
  "config_validate_rejects_missing_token ax os store wk =
     oneshot ax os store wk (post_with_auth ''/config/validate'' None ''{}'')
       (\<lambda>r. r_status r = 401
          \<and> read_json (\<lambda>v. Option.bind (json_at ''error'' v) (json_at ''kind'') = Some (JsStr ''unauthorized'')) r)"

definition config_validate_rejects_wrong_token :: "'rt Axum \<Rightarrow> ('s, 'w) Outside \<Rightarrow> 's \<Rightarrow> 'w Worker \<Rightarrow> bool" where
  "config_validate_rejects_wrong_token ax os store wk =
     oneshot ax os store wk (post_with_auth ''/config/validate'' (Some ''wrong-token'') ''{}'')
       (\<lambda>r. r_status r = 401)"

section \<open>The pure helpers\<close>

definition validate_pipeline_prefix_accepts_legitimate_shapes :: bool where
  "validate_pipeline_prefix_accepts_legitimate_shapes \<longleftrightarrow>
     list_all (\<lambda>p. is_ok (validate_pipeline_prefix p))
       [''pipelines/demo/'', ''pipelines/my-pipeline-2/'', ''a/b.c/d_e/'', ''single/'']"

definition validate_pipeline_prefix_rejects_malformed_shapes :: bool where
  "validate_pipeline_prefix_rejects_malformed_shapes \<longleftrightarrow>
     list_all (\<lambda>p. \<not> is_ok (validate_pipeline_prefix p))
       [[], ''no-trailing-slash'', ''/leading/slash/'', ''double//slash/'', ''pipelines/../other/'',
        ''./relative/'', ''pipelines/sp ace/'', ''pipelines/semi;colon/'', ''pipelines/quo'' @ [CHR 0x27] @ ''te/'']
     \<and> \<not> is_ok (validate_pipeline_prefix (replicate 600 (CHR ''a'') @ ''/''))"

definition match_key_routes_by_prefix :: bool where
  "match_key_routes_by_prefix \<longleftrightarrow>
     (let entries = [(''banks/rbc/'', ''spending''), (''shared/exports/'', ''spending''), (''shared/exports/'', ''audit'')]
      in match_key entries ''shared/exports/jan.csv'' = [''audit'', ''spending'']
         \<and> match_key entries ''banks/rbc/chequing/feb.csv'' = [''spending'']
         \<and> match_key entries ''unrelated/x.csv'' = []
         \<and> match_key [([], ''oo'' @ ''ps'')] ''anything.csv'' = [])"

definition urldecode_handles_percent_and_plus :: bool where
  "urldecode_handles_percent_and_plus \<longleftrightarrow>
     urldecode ''a%2Fb+c'' = ''a/b c'' \<and> urldecode ''plain'' = ''plain'' \<and> urldecode ''bad%zz'' = ''bad%zz''"

section \<open>The tests pass\<close>

lemma router_tests:
  assumes "axum ax"
  shows "health_returns_200 ax os store wk" and "health_needs_no_token ax os store wk"
    and "root_answers_head_probe_without_auth ax os store wk" and "unknown_path_is_404_not_401 ax os store wk"
    and "events_returns_503_when_queue_disabled ax os store wk"
  using axum.not_found [OF assms]
  by (simp_all add: health_returns_200_def health_needs_no_token_def root_answers_head_probe_without_auth_def
      unknown_path_is_404_not_401_def events_returns_503_when_queue_disabled_def oneshot_def respond_def
      axum.router_open [OF assms] empty_request_def post_with_auth_def test_state_def test_server_def
      serve_health_def serve_events_def health_def root_def post_s3_events_def authorize_events_def
      error_response_def read_json_def connect_queue_def)

lemma token_tests:
  assumes "axum ax"
  shows "config_validate_rejects_missing_token ax os store wk"
    and "config_validate_rejects_wrong_token ax os store wk"
  using axum.router_protected [OF assms, of POST]
  by (simp_all add: config_validate_rejects_missing_token_def config_validate_rejects_wrong_token_def
      oneshot_def respond_def post_with_auth_def test_state_def TEST_TOKEN_def bearer_refused
      error_response_def read_json_def)

text \<open>What a check with the right token answers.\<close>

lemma oneshot_validate:
  assumes "axum ax"
  shows "oneshot ax os store wk (post_with_auth ''/config/validate'' (Some TEST_TOKEN) body) check
    = check (fst (post_config_validate (os_parse_config os) \<lparr>rc_built_at = None, rc_entries = []\<rparr> body))"
  using axum.router_protected [OF assms, of POST]
  by (simp add: oneshot_def respond_def post_with_auth_def bearer_accepted test_state_def
      serve_validate_def test_server_def split: prod.splits)

definition empty_config :: PipelineConfig where
  "empty_config = \<lparr>cfg_version = 1, cfg_source_containers = [], cfg_dimensions = [], cfg_mappings = [],
     cfg_analytic_tables = [], cfg_layout = Map.empty\<rparr>"

definition one_column_source :: "string \<Rightarrow> string \<Rightarrow> SourceContainer" where
  "one_column_source name pre = \<lparr>sc_id = ''s'', sc_name = name, sc_path_prefix = pre, sc_format = Csv,
     sc_schema = [plain_column ''c'' ''string'' None], sc_record_filter = None\<rparr>"

definition two_sources_config :: PipelineConfig where
  "two_sources_config = empty_config\<lparr>cfg_source_containers :=
     [one_column_source ''S'' ''raw/s/'', one_column_source ''S2'' ''raw/s2/'']\<rparr>"

lemma validate_empty_config: "validate empty_config = Inr ()"
  by code_simp

lemma validate_two_sources: "\<exists>errs. validate two_sources_config = Inl errs \<and> errs \<noteq> []
    \<and> list_ex (\<lambda>e. error_kind e = ''duplicate_id'') errs"
proof -
  have "unwrap_err (validate two_sources_config)
      (\<lambda>errs. \<not> List.null errs \<and> list_ex (\<lambda>e. error_kind e = ''duplicate_id'') errs)"
    by code_simp
  then show ?thesis
    by (cases "validate two_sources_config") (auto simp: unwrap_err_def)
qed

lemma config_validate_tests:
  assumes "axum ax"
  shows "os_parse_config os VALID_CONFIG = Inr empty_config \<Longrightarrow> config_validate_returns_ok_on_valid ax os store wk"
    and "os_parse_config os bad = Inr two_sources_config
      \<Longrightarrow> config_validate_returns_errors_on_invalid bad ax os store wk"
    and "os_parse_config os ''not json'' = Inl e
      \<Longrightarrow> config_validate_reports_schema_on_unparseable_body ax os store wk"
  using validate_two_sources
  by (auto simp: config_validate_returns_ok_on_valid_def config_validate_returns_errors_on_invalid_def
      config_validate_reports_schema_on_unparseable_body_def oneshot_validate [OF assms]
      post_config_validate_def read_json_def validate_empty_config has_kind_def error_to_json_def list_ex_iff)

lemma helper_tests:
  validate_pipeline_prefix_accepts_legitimate_shapes validate_pipeline_prefix_rejects_malformed_shapes
  match_key_routes_by_prefix urldecode_handles_percent_and_plus
  by code_simp+

end
