(* ===== verification/Config_Mutations.thy ===== *)
theory Config_Mutations
  imports Config_Tests
begin

text \<open>
  The property test of \<open>src/config.rs\<close>: its generator of configurations, its mutations, and the
  property, which the test samples, for every value. The generator draws four sizes, and for each
  mapping a source, a table, a kind of expression and a lookup.
\<close>

section \<open>The generator\<close>

definition gen_source :: "nat \<Rightarrow> SourceContainer" where
  "gen_source i = \<lparr>sc_id = ''s'' @ show_nat i, sc_name = ''S'' @ show_nat i,
     sc_path_prefix = ''raw/s'' @ show_nat i @ ''/'', sc_format = Csv,
     sc_schema = [plain_column ''c0'' ''string'' None], sc_record_filter = None\<rparr>"

definition gen_dimension :: "nat \<Rightarrow> Dimension" where
  "gen_dimension i = \<lparr>d_id = ''l'' @ show_nat i, d_name = Some (''L'' @ show_nat i), d_match = KeywordSubstring,
     d_case_insensitive = Some True, d_on_miss = OnMissNull,
     d_rows = Inline [''v''] [\<lparr>ir_patterns = [''x''], ir_values = [''Y''], ir_priority = 0\<rparr>]\<rparr>"

definition gen_table :: "nat \<Rightarrow> AnalyticTable" where
  "gen_table i = \<lparr>t_id = ''t'' @ show_nat i, t_name = ''T'' @ show_nat i,
     t_schema = [plain_column ''out0'' ''string'' (Some True)], t_partition_keys = [], t_dedup_keys = []\<rparr>"

definition gen_expr :: "nat \<Rightarrow> nat \<Rightarrow> nat \<Rightarrow> AstNode" where
  "gen_expr n_lookups tag lookup_idx =
     (if tag = 0 then Col ''c0''
      else if tag = 1 then Str ''x''
      else if tag = 2 then Num f64_one
      else if n_lookups > 0 then DimRef (''l'' @ show_nat (lookup_idx mod n_lookups)) None (Col ''c0'')
      else Col ''c0'')"

definition gen_mapping :: "nat \<Rightarrow> nat list \<Rightarrow> nat list \<Rightarrow> nat list \<Rightarrow> nat list \<Rightarrow> nat \<Rightarrow> Mapping" where
  "gen_mapping n_lookups src_idxs tbl_idxs tags lk_idxs i =
     \<lparr>m_id = ''m'' @ show_nat i, m_name = [], m_source_container_id = ''s'' @ show_nat (src_idxs ! i),
      m_analytic_table_id = ''t'' @ show_nat (tbl_idxs ! i),
      m_columns = [\<lparr>mc_name = ''out0'', mc_expr = gen_expr n_lookups (tags ! i) (lk_idxs ! i)\<rparr>],
      m_where = None\<rparr>"

definition gen_config ::
  "nat \<Rightarrow> nat \<Rightarrow> nat \<Rightarrow> nat \<Rightarrow> nat list \<Rightarrow> nat list \<Rightarrow> nat list \<Rightarrow> nat list \<Rightarrow> PipelineConfig" where
  "gen_config n_sources n_lookups n_tables n_mappings src_idxs tbl_idxs tags lk_idxs =
     \<lparr>cfg_version = 1, cfg_source_containers = map gen_source [0..<n_sources],
      cfg_dimensions = map gen_dimension [0..<n_lookups],
      cfg_mappings = map (gen_mapping n_lookups src_idxs tbl_idxs tags lk_idxs) [0..<n_mappings],
      cfg_analytic_tables = map gen_table [0..<n_tables], cfg_layout = Map.empty\<rparr>"

text \<open>A vector of the given length with its elements below a bound.\<close>

definition vec_below :: "nat \<Rightarrow> nat \<Rightarrow> nat list \<Rightarrow> bool" where
  "vec_below n bound xs \<longleftrightarrow> length xs = n \<and> list_all (\<lambda>x. x < bound) xs"

inductive arb_valid_pipeline_config :: "PipelineConfig \<Rightarrow> bool" where
  drawn:
    "\<lbrakk>n_sources \<in> {1..3}; n_lookups \<in> {0..2}; n_tables \<in> {1..3}; n_mappings \<in> {1..3};
      vec_below n_mappings n_sources src_idxs; vec_below n_mappings n_tables tbl_idxs;
      vec_below n_mappings 4 tags; vec_below n_mappings (max n_lookups 1) lk_idxs\<rbrakk>
     \<Longrightarrow> arb_valid_pipeline_config
          (gen_config n_sources n_lookups n_tables n_mappings src_idxs tbl_idxs tags lk_idxs)"

inductive_cases arb_configE: "arb_valid_pipeline_config cfg"

section \<open>Mutations\<close>

datatype Mutation = DropSourceId | DuplicateSourceId | DropMappingId | BreakMappingSourceRef
  | BreakMappingTableRef | BreakDimRef

text \<open>\<open>None\<close> when the configuration does not have what the mutation changes.\<close>

fun apply_mutation :: "PipelineConfig \<Rightarrow> Mutation \<Rightarrow> PipelineConfig option" where
  "apply_mutation cfg DropSourceId =
     (if cfg_source_containers cfg = [] then None else Some (on_source (\<lambda>s. s\<lparr>sc_id := []\<rparr>) cfg))"
| "apply_mutation cfg DuplicateSourceId =
     (if length (cfg_source_containers cfg) < 2 then None
      else let scs = cfg_source_containers cfg
           in Some (cfg\<lparr>cfg_source_containers := scs[1 := (scs ! 1)\<lparr>sc_id := sc_id (scs ! 0)\<rparr>]\<rparr>))"
| "apply_mutation cfg DropMappingId =
     (if cfg_mappings cfg = [] then None else Some (on_mapping (\<lambda>m. m\<lparr>m_id := []\<rparr>) cfg))"
| "apply_mutation cfg BreakMappingSourceRef =
     (if cfg_mappings cfg = [] then None
      else Some (on_mapping (\<lambda>m. m\<lparr>m_source_container_id := ''__does_not_exist__''\<rparr>) cfg))"
| "apply_mutation cfg BreakMappingTableRef =
     (if cfg_mappings cfg = [] then None
      else Some (on_mapping (\<lambda>m. m\<lparr>m_analytic_table_id := ''__does_not_exist__''\<rparr>) cfg))"
| "apply_mutation cfg BreakDimRef =
     (case cfg_mappings cfg of
        [] \<Rightarrow> None
      | m # _ \<Rightarrow>
          if m_columns m = [] then None
          else Some (on_mapping (\<lambda>m. m\<lparr>m_columns := first_mut
            (\<lambda>c. c\<lparr>mc_expr := DimRef ''__does_not_exist__'' None (Col ''c0'')\<rparr>) (m_columns m)\<rparr>) cfg))"

section \<open>Generated configurations are valid\<close>

lemma not_slash_digits: "CHR ''/'' \<notin> set (show_nat n)"
  by (rule show_nat_no_char) (simp add: is_digit_def)

lemma gen_prefix_inj:
  assumes "starts_with (''raw/s'' @ show_nat j @ ''/'') (''raw/s'' @ show_nat i @ ''/'')"
  shows "i = j"
proof -
  from assms have "prefix (show_nat i @ ''/'') (show_nat j @ ''/'')" by simp
  then obtain r where r: "show_nat j @ ''/'' = (show_nat i @ ''/'') @ r" by (auto simp: prefix_def)
  have "takeWhile (\<lambda>c. c \<noteq> CHR ''/'') (show_nat n @ CHR ''/'' # x) = show_nat n" for n x
    using not_slash_digits [of n] by (subst takeWhile_append2) auto
  from this [of j "[]"] this [of i r] r have "show_nat j = show_nat i" by simp
  then show ?thesis by simp
qed

lemma gen_prefix_shape: "\<not> malformed_prefix (''raw/s'' @ show_nat i @ ''/'')"
proof -
  have "split_on (CHR ''/'') (''raw/s'' @ show_nat i @ ''/'') = [''raw'', ''s'' @ show_nat i, []]"
    using split_on_append_sep [of "CHR ''/''" "''s'' @ show_nat i" "[]"] not_slash_digits [of i]
    by simp
  then show ?thesis by (auto simp: malformed_prefix_def suffix_def)
qed

lemma gen_sel [simp]:
  "sc_id (gen_source i) = ''s'' @ show_nat i" "sc_name (gen_source i) = ''S'' @ show_nat i"
  "sc_path_prefix (gen_source i) = ''raw/s'' @ show_nat i @ ''/''"
  "d_id (gen_dimension i) = ''l'' @ show_nat i" "t_id (gen_table i) = ''t'' @ show_nat i"
  "t_name (gen_table i) = ''T'' @ show_nat i"
  "m_id (gen_mapping n ss ts gs ls i) = ''m'' @ show_nat i"
  by (simp_all add: gen_source_def gen_dimension_def gen_table_def gen_mapping_def)

lemma gen_config_sel [simp]:
  "cfg_source_containers (gen_config ns nl nt nm ss ts gs ls) = map gen_source [0..<ns]"
  "cfg_dimensions (gen_config ns nl nt nm ss ts gs ls) = map gen_dimension [0..<nl]"
  "cfg_mappings (gen_config ns nl nt nm ss ts gs ls) = map (gen_mapping nl ss ts gs ls) [0..<nm]"
  "cfg_analytic_tables (gen_config ns nl nt nm ss ts gs ls) = map gen_table [0..<nt]"
  by (simp_all add: gen_config_def)

lemma gen_prefixes_ok: "prefixes_ok (map gen_source [0..<n])"
proof -
  have "\<not> starts_with (sc_path_prefix (gen_source j)) (sc_path_prefix (gen_source i))" if "i \<noteq> j" for i j
    using gen_prefix_inj [of i j] that unfolding gen_sel by blast
  moreover have "\<not> malformed_prefix (sc_path_prefix (gen_source i))" for i
    unfolding gen_sel by (rule gen_prefix_shape)
  ultimately show ?thesis unfolding prefixes_ok_def by (auto simp del: gen_sel(3)) (auto simp: gen_sel(3))
qed

lemma gen_nodes:
  "ast_nodes (Col c) = [Col c]" "ast_nodes (Str s) = [Str s]" "ast_nodes (Num x) = [Num x]"
  "ast_nodes (DimRef d v (Col c)) = [DimRef d v (Col c), Col c]"
  by (subst ast_nodes.simps, simp)+

lemma gen_expr_refs:
  "col_refs (gen_expr n tag lk) \<subseteq> {''c0''}"
  "(d, v) \<in> dim_refs (gen_expr n tag lk) \<Longrightarrow> v = None \<and> (\<exists>i < n. d = ''l'' @ show_nat i)"
  by (auto simp: gen_expr_def col_refs_def dim_refs_def gen_nodes split: if_splits intro!: exI [of _ "lk mod n"])

lemma gen_mapping_valid:
  assumes "src_idxs ! i < n_sources" and "tbl_idxs ! i < n_tables"
    and "cfg_source_containers cfg = map gen_source [0..<n_sources]"
    and "cfg_dimensions cfg = map gen_dimension [0..<n_lookups]"
    and "cfg_analytic_tables cfg = map gen_table [0..<n_tables]"
  shows "valid_mapping cfg (gen_mapping n_lookups src_idxs tbl_idxs tags lk_idxs i)"
proof -
  let ?e = "gen_expr n_lookups (tags ! i) (lk_idxs ! i)"
  have "\<exists>dim \<in> set (cfg_dimensions cfg). d_id dim = d \<and> (\<forall>col. v = Some col \<longrightarrow> col \<in> set (value_columns dim))"
    if "(d, v) \<in> dim_refs ?e" for d v
    using gen_expr_refs(2) [OF that] assms(4) by (auto simp: gen_dimension_def)
  then show ?thesis
    using assms gen_expr_refs(1) [of n_lookups "tags ! i" "lk_idxs ! i"]
    by (auto simp: valid_mapping_def gen_mapping_def gen_source_def gen_table_def plain_column_def)
qed

lemma gen_config_valid:
  assumes "vec_below n_mappings n_sources src_idxs" and "vec_below n_mappings n_tables tbl_idxs"
  shows "valid_config (gen_config n_sources n_lookups n_tables n_mappings src_idxs tbl_idxs tags lk_idxs)"
proof -
  have idx: "src_idxs ! i < n_sources" "tbl_idxs ! i < n_tables" if "i < n_mappings" for i
    using assms that by (auto simp: vec_below_def list_all_length)
  have ids: "distinct (map (\<lambda>i. c # show_nat i) [0..<n])" for c n
    by (simp add: distinct_map inj_on_def)
  have "valid_table (gen_table i)" for i by (simp add: valid_table_def gen_table_def)
  with gen_prefixes_ok idx show ?thesis
    by (auto simp: valid_config_def ids_ok_def comp_def ids simp del: gen_sel(3)
        intro!: gen_mapping_valid [of _ _ n_sources _ n_tables])
qed

section \<open>Mutated configurations are rejected\<close>

lemma rejected:
  assumes "\<not> valid_config cfg"
  shows "\<exists>errs. validate cfg = Inl errs \<and> errs \<noteq> [] \<and> (\<forall>e \<in> set errs. config_error_display e \<noteq> [])"
proof -
  have "config_error_display e \<noteq> []" for e by (cases e) simp_all
  moreover have "validate_errors cfg \<noteq> []" using assms by (simp add: validate_errors_Nil)
  ultimately show ?thesis by (simp add: validate_def Let_def)
qed

lemma first_mut_mem: "xs \<noteq> [] \<Longrightarrow> f (hd xs) \<in> set (first_mut f xs)"
  by (cases xs) (simp_all add: first_mut_def)

lemma bad_mapping: "mp \<in> set (cfg_mappings cfg) \<Longrightarrow> \<not> valid_mapping cfg mp \<Longrightarrow> \<not> valid_config cfg"
  by (auto simp: valid_config_def)

text \<open>No generated id starts with an underscore.\<close>

lemma no_such_id:
  "''__does_not_exist__'' \<notin> sc_id ` set (cfg_source_containers (gen_config ns nl nt nm ss ts gs ls))"
  "''__does_not_exist__'' \<notin> d_id ` set (cfg_dimensions (gen_config ns nl nt nm ss ts gs ls))"
  "''__does_not_exist__'' \<notin> t_id ` set (cfg_analytic_tables (gen_config ns nl nt nm ss ts gs ls))"
  by auto

lemma mutated_invalid:
  assumes cfg: "cfg = gen_config ns nl nt nm ss ts gs ls" and m: "apply_mutation cfg mu = Some cfg'"
  shows "\<not> valid_config cfg'"
proof (cases mu)
  case DropSourceId
  with m have "cfg_source_containers cfg \<noteq> []" "cfg' = on_source (\<lambda>s. s\<lparr>sc_id := []\<rparr>) cfg"
    by (auto split: if_splits)
  with first_mut_mem [of "cfg_source_containers cfg" "\<lambda>s. s\<lparr>sc_id := []\<rparr>"] show ?thesis
    by (fastforce simp: valid_config_def ids_ok_def on_source_def)
next
  case DuplicateSourceId
  with m have len: "2 \<le> length (cfg_source_containers cfg)" and
    cfg': "cfg' = cfg\<lparr>cfg_source_containers := (cfg_source_containers cfg)
      [1 := (cfg_source_containers cfg ! 1)\<lparr>sc_id := sc_id (cfg_source_containers cfg ! 0)\<rparr>]\<rparr>"
    by (auto simp: Let_def split: if_splits)
  obtain a b rest where "cfg_source_containers cfg = a # b # rest"
    using len by (cases "cfg_source_containers cfg"; cases "tl (cfg_source_containers cfg)") auto
  then have "\<not> distinct (map sc_id (cfg_source_containers cfg'))" by (simp add: cfg')
  then show ?thesis by (simp add: valid_config_def ids_ok_def)
next
  case DropMappingId
  with m have "cfg_mappings cfg \<noteq> []" "cfg' = on_mapping (\<lambda>m. m\<lparr>m_id := []\<rparr>) cfg"
    by (auto split: if_splits)
  with first_mut_mem [of "cfg_mappings cfg" "\<lambda>m. m\<lparr>m_id := []\<rparr>"] show ?thesis
    by (fastforce simp: valid_config_def ids_ok_def on_mapping_def)
next
  case BreakMappingSourceRef
  let ?f = "\<lambda>m. m\<lparr>m_source_container_id := ''__does_not_exist__''\<rparr>"
  from BreakMappingSourceRef m have "cfg_mappings cfg \<noteq> []" and cfg': "cfg' = on_mapping ?f cfg"
    by (auto split: if_splits)
  then have "?f (hd (cfg_mappings cfg)) \<in> set (cfg_mappings cfg')"
    by (simp add: on_mapping_def first_mut_mem)
  then show ?thesis
    by (rule bad_mapping) (use no_such_id(1) in \<open>auto simp: valid_mapping_def cfg' on_mapping_def cfg\<close>)
next
  case BreakMappingTableRef
  let ?f = "\<lambda>m. m\<lparr>m_analytic_table_id := ''__does_not_exist__''\<rparr>"
  from BreakMappingTableRef m have "cfg_mappings cfg \<noteq> []" and cfg': "cfg' = on_mapping ?f cfg"
    by (auto split: if_splits)
  then have "?f (hd (cfg_mappings cfg)) \<in> set (cfg_mappings cfg')"
    by (simp add: on_mapping_def first_mut_mem)
  then show ?thesis
    by (rule bad_mapping) (use no_such_id(3) in \<open>auto simp: valid_mapping_def cfg' on_mapping_def cfg\<close>)
next
  case BreakDimRef
  let ?e = "DimRef ''__does_not_exist__'' None (Col ''c0'')"
  let ?f = "\<lambda>m. m\<lparr>m_columns := first_mut (\<lambda>c. c\<lparr>mc_expr := ?e\<rparr>) (m_columns m)\<rparr>"
  from BreakDimRef m have ne: "cfg_mappings cfg \<noteq> []" "m_columns (hd (cfg_mappings cfg)) \<noteq> []"
    and cfg': "cfg' = on_mapping ?f cfg"
    by (auto split: if_splits list.splits)
  have mem: "?f (hd (cfg_mappings cfg)) \<in> set (cfg_mappings cfg')"
    using first_mut_mem [OF ne(1), of ?f] by (simp add: cfg' on_mapping_def)
  let ?c = "(hd (m_columns (hd (cfg_mappings cfg))))\<lparr>mc_expr := ?e\<rparr>"
  have c: "?c \<in> set (m_columns (?f (hd (cfg_mappings cfg))))"
    using first_mut_mem [OF ne(2), of "\<lambda>c. c\<lparr>mc_expr := ?e\<rparr>"] by simp
  have r: "(''__does_not_exist__'', None) \<in> dim_refs (mc_expr ?c)" by (simp add: dim_refs_def gen_nodes)
  have "\<not> valid_mapping cfg' (?f (hd (cfg_mappings cfg)))"
  proof
    assume "valid_mapping cfg' (?f (hd (cfg_mappings cfg)))"
    then have "\<forall>c \<in> set (m_columns (?f (hd (cfg_mappings cfg)))). \<forall>(d, v) \<in> dim_refs (mc_expr c).
        \<exists>dim \<in> set (cfg_dimensions cfg'). d_id dim = d \<and> (\<forall>col. v = Some col \<longrightarrow> col \<in> set (value_columns dim))"
      unfolding valid_mapping_def by (elim conjE)
    from bspec [OF bspec [OF this c] r] obtain dim
      where "dim \<in> set (cfg_dimensions cfg')" "d_id dim = ''__does_not_exist__''" by auto
    then have "''__does_not_exist__'' \<in> d_id ` set (cfg_dimensions cfg')" by (metis imageI)
    with no_such_id(2) [of ns nl nt nm ss ts gs ls] show False by (simp add: cfg' on_mapping_def cfg)
  qed
  with mem show ?thesis by (rule bad_mapping)
qed

section \<open>Properties\<close>

text \<open>The mutations that are drawn, and the test of one: a configuration that does not validate, or does not have what
  the mutation changes, is passed over.\<close>

definition arb_mutation :: "Mutation list" where
  "arb_mutation = [DropSourceId, DuplicateSourceId, DropMappingId, BreakMappingSourceRef, BreakMappingTableRef, BreakDimRef]"

definition mutated_config_test :: "PipelineConfig \<Rightarrow> Mutation \<Rightarrow> bool" where
  "mutated_config_test cfg mu \<longleftrightarrow> (validate cfg = Inr () \<longrightarrow>
     (case apply_mutation cfg mu of
        None \<Rightarrow> True
      | Some mutated \<Rightarrow>
          (case validate mutated of
             Inr _ \<Rightarrow> False
           | Inl errs \<Rightarrow> errs \<noteq> [] \<and> list_all (\<lambda>e. config_error_display e \<noteq> []) errs)))"

text \<open>C29: The property test of the configuration module holds of everything its generator draws: each
  drawn configuration validates, so the test discards none, and each mutation of it that applies is
  rejected, with at least one error and no empty message.\<close>

theorem mutated_config_is_rejected:
  assumes "arb_valid_pipeline_config cfg"
  shows "validate cfg = Inr () \<and> (\<forall>mu. mu \<in> set arb_mutation \<and> mutated_config_test cfg mu)"
proof -
  from assms obtain ns nl nt nm ss ts gs ls where cfg: "cfg = gen_config ns nl nt nm ss ts gs ls"
    and "vec_below nm ns ss" "vec_below nm nt ts" by (rule arb_configE)
  then have "validate cfg = Inr ()" by (simp add: validate_ok gen_config_valid)
  moreover have "mu \<in> set arb_mutation" for mu by (cases mu) (simp_all add: arb_mutation_def)
  moreover have "mutated_config_test cfg mu" for mu
    using rejected [OF mutated_invalid [OF cfg]]
    by (fastforce simp: mutated_config_test_def list_all_iff split: option.splits)
  ultimately show ?thesis by blast
qed

lemma mutated_config_is_rejected_witness:
  "\<exists>errs. validate (on_source (\<lambda>s. s\<lparr>sc_id := []\<rparr>) (gen_config 1 0 1 1 [0] [0] [3] [0])) = Inl errs \<and> errs \<noteq> []"
proof -
  have "arb_valid_pipeline_config (gen_config 1 0 1 1 [0] [0] [3] [0])"
    by (rule drawn) (simp_all add: vec_below_def)
  moreover have "apply_mutation (gen_config 1 0 1 1 [0] [0] [3] [0]) DropSourceId
      = Some (on_source (\<lambda>s. s\<lparr>sc_id := []\<rparr>) (gen_config 1 0 1 1 [0] [0] [3] [0]))" by simp
  moreover from mutated_config_is_rejected [OF calculation(1)]
  have "validate (gen_config 1 0 1 1 [0] [0] [3] [0]) = Inr ()"
    "mutated_config_test (gen_config 1 0 1 1 [0] [0] [3] [0]) DropSourceId" by blast+
  ultimately show ?thesis
    by (auto simp: mutated_config_test_def simp del: apply_mutation.simps split: sum.split_asm)
qed

end
