(* ===== verification/Dimension_Tests.thy ===== *)
theory Dimension_Tests
  imports Dimension_Proofs Config_Tests
begin

text \<open>
  The test module of \<open>src/dimension.rs\<close>, without the test of the wire form of \<open>OnMiss\<close>, which is
  serde's. The texts are ASCII, on which \<open>to_lowercase\<close> is \<open>ascii_lower\<close>.
\<close>

section \<open>Helpers\<close>

definition lower_char :: "char \<Rightarrow> char" where
  "lower_char c = (if c \<in> set ''ABCDEFGHIJKLMNOPQRSTUVWXYZ'' then char_of (of_char c + 32 :: nat) else c)"

definition ascii_lower :: "string \<Rightarrow> string" where
  "ascii_lower s = map lower_char s"

definition inline_dim :: "string \<Rightarrow> MatchMode \<Rightarrow> OnMiss \<Rightarrow> InlineDimensionRow list \<Rightarrow> Dimension" where
  "inline_dim i mode on_miss rows = \<lparr>d_id = i, d_name = None, d_match = mode, d_case_insensitive = Some True,
     d_on_miss = on_miss, d_rows = Inline [''category''] rows\<rparr>"

definition pattern_row :: "string list \<Rightarrow> string \<Rightarrow> int \<Rightarrow> InlineDimensionRow" where
  "pattern_row patterns v priority = \<lparr>ir_patterns = patterns, ir_values = [v], ir_priority = priority\<rparr>"

definition file_dim :: "string \<Rightarrow> string \<Rightarrow> string \<Rightarrow> string list \<Rightarrow> Dimension" where
  "file_dim i pathp key values = \<lparr>d_id = i, d_name = None, d_match = Exact, d_case_insensitive = None,
     d_on_miss = OnMissNull, d_rows = File pathp key values None\<rparr>"

text \<open>The row cap is compared in binary when the tests are evaluated.\<close>

lemma cap_binary [code_unfold]: "MAX_DIMENSION_ROWS < n \<longleftrightarrow> 1000000 < int n"
  by (simp add: MAX_DIMENSION_ROWS_def)

text \<open>\<open>build_inline_registry\<close> on the one dimension, then \<open>lookup\<close> in its matcher; both must not
  fail or panic.\<close>

definition looks_up :: "Dimension \<Rightarrow> string \<Rightarrow> string option \<Rightarrow> bool" where
  "looks_up dim input expected \<longleftrightarrow>
     (case build_inline_registry ascii_lower [dim] of
        Inl _ \<Rightarrow> False
      | Inr reg \<Rightarrow> (case reg (d_id dim) of
            None \<Rightarrow> False | Some m \<Rightarrow> lookup ascii_lower m input 0 = Inr expected))"

section \<open>The tests\<close>

definition substring_match_is_case_insensitive_and_priority_ordered :: bool where
  "substring_match_is_case_insensitive_and_priority_ordered \<longleftrightarrow>
     (let dim = inline_dim ''categories'' KeywordSubstring OnMissNull
            [pattern_row [''safeway''] ''Groceries'' 0, pattern_row [''safeway gas''] ''Fuel'' 10]
      in looks_up dim ''SAFEWAY GAS #123'' (Some ''Fuel'') \<and> looks_up dim ''SAFEWAY #99'' (Some ''Groceries'')
       \<and> looks_up dim ''UNRELATED'' None)"

definition on_miss_passthrough_and_literal :: bool where
  "on_miss_passthrough_and_literal \<longleftrightarrow>
     (let pass = inline_dim ''d'' Exact Passthrough [pattern_row [''CA''] ''Canada'' 0];
          lit = inline_dim ''d'' Exact (Literal ''Uncategorized'') [pattern_row [''CA''] ''Canada'' 0]
      in looks_up pass ''ca'' (Some ''Canada'') \<and> looks_up pass ''XK'' (Some ''XK'')
       \<and> looks_up lit ''ZZ'' (Some ''Uncategorized''))"

definition duplicate_exact_key_is_an_error :: bool where
  "duplicate_exact_key_is_an_error \<longleftrightarrow>
     unwrap_err (build_inline_registry ascii_lower [inline_dim ''codes'' Exact OnMissNull
         [pattern_row [''A''] ''first'' 0, pattern_row [''A''] ''second'' 0]])
       (\<lambda>err. err = DuplicateKey ''codes'' ''a'')"

definition geo_csv :: string where
  "geo_csv = ''code,country,region'' @ [CHR 0x0A] @ ''CA,Canada,Americas'' @ [CHR 0x0A] @ ''DE,'' @ [CHR 0x22]
     @ ''Germany, Fed. Rep.'' @ [CHR 0x22] @ '',Europe'' @ [CHR 0x0A]"

definition csv_rows_resolve_key_values_and_priority :: bool where
  "csv_rows_resolve_key_values_and_priority \<longleftrightarrow>
     (let dim = file_dim ''geo'' ''dimensions/geo/'' ''code'' [''country'', ''region'']
      in case rows_from_csv dim ''code'' [''country'', ''region''] None geo_csv of
           Inl _ \<Rightarrow> False
         | Inr rows \<Rightarrow> length rows = 2
             \<and> (case new_matcher ascii_lower dim rows of
                  Inl _ \<Rightarrow> False
                | Inr m \<Rightarrow> lookup ascii_lower m ''CA'' 0 = Inr (Some ''Canada'')
                    \<and> lookup ascii_lower m ''CA'' 1 = Inr (Some ''Americas'')
                    \<and> lookup ascii_lower m ''DE'' 0 = Inr (Some ''Germany, Fed. Rep.'')))"

definition csv_missing_declared_column_is_an_error :: bool where
  "csv_missing_declared_column_is_an_error \<longleftrightarrow>
     unwrap_err (rows_from_csv (file_dim ''geo'' ''d/'' ''code'' [''region'']) ''code'' [''region''] None
         (''code,country'' @ [CHR 0x0A] @ ''CA,Canada'' @ [CHR 0x0A]))
       (\<lambda>err. err = MissingColumn ''geo'' ''region'')"

definition matches_first_in_definition_order_at_equal_priority :: bool where
  "matches_first_in_definition_order_at_equal_priority \<longleftrightarrow>
     looks_up (inline_dim ''d'' KeywordSubstring OnMissNull
       [pattern_row [''ab''] ''first'' 0, pattern_row [''abc''] ''second'' 0]) ''abcdef'' (Some ''first'')"

definition case_sensitive_dimension_does_not_match_different_case :: bool where
  "case_sensitive_dimension_does_not_match_different_case \<longleftrightarrow>
     (let dim = (inline_dim ''d'' KeywordSubstring OnMissNull [pattern_row [''UBER''] ''T'' 0])
            \<lparr>d_case_insensitive := Some False\<rparr>
      in looks_up dim ''uber eats'' None \<and> looks_up dim ''UBER EATS'' (Some ''T''))"

definition negative_priority_is_deprioritised :: bool where
  "negative_priority_is_deprioritised \<longleftrightarrow>
     looks_up (inline_dim ''d'' KeywordSubstring OnMissNull
       [pattern_row [''x''] ''low'' (- 5), pattern_row [''x''] ''high'' 0]) ''xyz'' (Some ''high'')"

definition priority_only_compares_matching_rows :: bool where
  "priority_only_compares_matching_rows \<longleftrightarrow>
     looks_up (inline_dim ''d'' KeywordSubstring OnMissNull
       [pattern_row [''zzz''] ''unmatched'' 100, pattern_row [''x''] ''matched'' 0]) ''xyz'' (Some ''matched'')"

definition on_miss_does_not_fire_when_a_row_matches :: bool where
  "on_miss_does_not_fire_when_a_row_matches \<longleftrightarrow>
     looks_up (inline_dim ''d'' KeywordSubstring (Literal ''fallback'') [pattern_row [''x''] ''hit'' 0])
       ''xyz'' (Some ''hit'')"

definition exact_mode_requires_whole_value_equality :: bool where
  "exact_mode_requires_whole_value_equality \<longleftrightarrow>
     (let dim = inline_dim ''d'' Exact OnMissNull [pattern_row [''CA''] ''Canada'' 0]
      in looks_up dim ''CA'' (Some ''Canada'') \<and> looks_up dim ''CANADA'' None)"

definition duplicate_substring_patterns_are_allowed :: bool where
  "duplicate_substring_patterns_are_allowed \<longleftrightarrow>
     is_ok (build_inline_registry ascii_lower [inline_dim ''d'' KeywordSubstring OnMissNull
       [pattern_row [''x''] ''a'' 0, pattern_row [''x''] ''b'' 0]])"

definition row_cap_is_enforced :: bool where
  "row_cap_is_enforced \<longleftrightarrow>
     unwrap_err (new_matcher ascii_lower (file_dim ''big'' ''d/'' ''k'' [''v''])
         (replicate (MAX_DIMENSION_ROWS + 1) ([''k''], [Some ''v''], 0)))
       (\<lambda>err. case err of TooManyRows _ _ _ \<Rightarrow> True | _ \<Rightarrow> False)"

definition value_index_resolves_by_name :: bool where
  "value_index_resolves_by_name \<longleftrightarrow>
     (case new_matcher ascii_lower (file_dim ''geo'' ''d/'' ''code'' [''country'', ''region'']) [] of
        Inl _ \<Rightarrow> False
      | Inr m \<Rightarrow> value_index m None = Some 0 \<and> value_index m (Some ''region'') = Some 1
          \<and> value_index m (Some ''nope'') = None)"

section \<open>The tests pass\<close>

lemma dimension_matching_tests:
  substring_match_is_case_insensitive_and_priority_ordered
  matches_first_in_definition_order_at_equal_priority
  case_sensitive_dimension_does_not_match_different_case negative_priority_is_deprioritised
  priority_only_compares_matching_rows exact_mode_requires_whole_value_equality
  by code_simp+

lemma dimension_miss_tests:
  on_miss_passthrough_and_literal on_miss_does_not_fire_when_a_row_matches
  duplicate_exact_key_is_an_error duplicate_substring_patterns_are_allowed
  value_index_resolves_by_name
  by code_simp+

lemma dimension_csv_tests:
  csv_rows_resolve_key_values_and_priority csv_missing_declared_column_is_an_error
  by code_simp+

lemma dimension_cap_test: row_cap_is_enforced
  by (simp add: row_cap_is_enforced_def new_matcher_def unwrap_err_def)

end
