(* ===== verification/Service_Tests.thy ===== *)
theory Service_Tests
  imports Startup Manifest_Proofs Config_Tests
begin

text \<open>
  The test modules of \<open>src/manifest.rs\<close>, \<open>src/s3.rs\<close>, \<open>src/queue.rs\<close> and \<open>src/lib.rs\<close>. Each test is a
  boolean over the model. The environment tests hold over any environment, and a job id has the
  tested shape at every time and for every UUID. The tests of derived serde code are in
  \<open>Wire_Samples\<close>.
\<close>

section \<open>Manifests\<close>

definition test_file :: "string \<Rightarrow> string \<Rightarrow> ManifestFile" where
  "test_file key mapping = \<lparr>mf_key = key, mf_mapping_id = mapping, mf_bytes = 10\<rparr>"

definition test_manifest :: "nat \<Rightarrow> ManifestFile list \<Rightarrow> TableManifest" where
  "test_manifest version files = \<lparr>tm_version = version, tm_created_at = ''2026-09-16T00:00:00Z'', tm_job_id = None,
     tm_files = files\<rparr>"

definition a_mapping_replaces_only_its_own_files :: bool where
  "a_mapping_replaces_only_its_own_files \<longleftrightarrow>
     (let prev = test_manifest 1 [test_file ''v1/year=2026/a.parquet'' ''caddy'', test_file ''v1/year=2026/b.parquet'' ''edge''];
          next_files = apply_mapping_writes (tm_files prev) ''caddy'' [test_file ''v2/year=2026/a.parquet'' ''caddy'']
      in map mf_key next_files = [''v1/year=2026/b.parquet'', ''v2/year=2026/a.parquet''])"

definition vanished_partitions_drop_out :: bool where
  "vanished_partitions_drop_out \<longleftrightarrow>
     (let prev = test_manifest 1 [test_file ''v1/month=8/m.parquet'' ''m'', test_file ''v1/month=9/m.parquet'' ''m''];
          next_files = apply_mapping_writes (tm_files prev) ''m'' [test_file ''v2/month=9/m.parquet'' ''m'']
      in length next_files = 1 \<and> mf_key (next_files ! 0) = ''v2/month=9/m.parquet'')"

definition writing_a_table_for_the_first_time :: bool where
  "writing_a_table_for_the_first_time \<longleftrightarrow>
     length (apply_mapping_writes [] ''m'' [test_file ''v1/m.parquet'' ''m'']) = 1"

definition a_mapping_that_did_not_run_keeps_its_files :: bool where
  "a_mapping_that_did_not_run_keeps_its_files \<longleftrightarrow>
     (let prev = test_manifest 1 [test_file ''v1/a.parquet'' ''caddy'', test_file ''v1/b.parquet'' ''edge''];
          next_files = apply_mapping_writes (tm_files prev) ''edge'' [test_file ''v2/b.parquet'' ''edge'']
      in map mf_key next_files = [''v1/a.parquet'', ''v2/b.parquet''])"

definition retention_keeps_the_newest_versions :: bool where
  "retention_keeps_the_newest_versions \<longleftrightarrow>
     versions_to_drop [1..<13] 12 10 = [1, 2] \<and> versions_to_drop [1, 2, 3] 3 10 = []"

definition retention_ignores_versions_above_current :: bool where
  "retention_ignores_versions_above_current \<longleftrightarrow> versions_to_drop [1, 2, 3, 99] 3 2 = [1]"

definition vacuum_collects_orphans_but_never_live_files :: bool where
  "vacuum_collects_orphans_but_never_live_files \<longleftrightarrow>
     (let retained = [test_manifest 2 [test_file ''v2/m.parquet'' ''m'']];
          present = [''v1/m.parquet'', ''v2/m.parquet'', ''v3/m.parquet'', ''_manifests/2.json'', ''_current.json'']
      in sort (unreferenced_keys retained present) = [''v1/m.parquet'', ''v3/m.parquet''])"

lemma manifest_tests:
  a_mapping_replaces_only_its_own_files vanished_partitions_drop_out writing_a_table_for_the_first_time
  a_mapping_that_did_not_run_keeps_its_files retention_keeps_the_newest_versions
  retention_ignores_versions_above_current vacuum_collects_orphans_but_never_live_files
  by code_simp+

section \<open>Error chains\<close>

text \<open>\<open>chain\<close> nests one error per message, the first outermost; \<open>None\<close> is its panic on no message.\<close>

fun chain :: "string list \<Rightarrow> S3Error option" where
  "chain [] = None"
| "chain (msg # causes) = Some (msg, causes)"

definition surfaces_the_underlying_cause :: bool where
  "surfaces_the_underlying_cause \<longleftrightarrow>
     map_option err_chain (chain [''dispatch failure'', ''error trying to connect'', ''tcp connect error'',
       ''Connection refused (os error 111)''])
     = Some ''dispatch failure: error trying to connect: tcp connect error: Connection refused (os error 111)''"

definition does_not_repeat_a_layer_that_reprints_its_child :: bool where
  "does_not_repeat_a_layer_that_reprints_its_child \<longleftrightarrow>
     map_option err_chain (chain [''dispatch failure'', ''dispatch failure'']) = Some ''dispatch failure''"

definition single_error_is_unchanged :: bool where
  "single_error_is_unchanged \<longleftrightarrow>
     map_option err_chain (chain [''S3 body read failed'']) = Some ''S3 body read failed''"

lemma err_chain_tests:
  surfaces_the_underlying_cause does_not_repeat_a_layer_that_reprints_its_child single_error_is_unchanged
  by code_simp+

section \<open>Queue helpers\<close>

definition backoff_doubles_and_caps :: bool where
  "backoff_doubles_and_caps \<longleftrightarrow>
     backoff_ms 1 = 30000 \<and> backoff_ms 2 = 60000 \<and> backoff_ms 3 = 120000 \<and> backoff_ms 10 = 600000"

definition base36_renders_known_values :: bool where
  "base36_renders_known_values \<longleftrightarrow>
     to_base36 0 = ''0'' \<and> to_base36 35 = ''z'' \<and> to_base36 36 = ''10''
     \<and> to_base36 1788797272117 = ''mtrfpkqd''"

definition live_and_lock_keys_are_scoped :: bool where
  "live_and_lock_keys_are_scoped \<longleftrightarrow>
     live_key ''j1'' = ''karet:jobs:live:j1'' \<and> lock_key ''demo'' = ''karet:lock:pipeline:demo''
     \<and> index_key ''demo'' = ''karet:jobs:index:demo''"

text \<open>\<open>str::splitn\<close>: at most \<open>n\<close> parts, the last with whatever is left.\<close>

fun splitn :: "nat \<Rightarrow> char \<Rightarrow> string \<Rightarrow> string list" where
  "splitn 0 c s = []"
| "splitn (Suc 0) c s = [s]"
| "splitn (Suc (Suc n)) c s =
     (case dropWhile (\<lambda>d. d \<noteq> c) s of
        [] \<Rightarrow> [s] | _ # rest \<Rightarrow> takeWhile (\<lambda>d. d \<noteq> c) s # splitn (Suc n) c rest)"

definition is_base36 :: "char \<Rightarrow> bool" where
  "is_base36 c \<longleftrightarrow> c \<in> set ''0123456789abcdefghijklmnopqrstuvwxyz''"

definition new_job_id_matches_web_shape :: "'w RedisOps \<Rightarrow> 'w \<Rightarrow> bool" where
  "new_job_id_matches_web_shape r w \<longleftrightarrow>
     (let parts = splitn 3 (CHR ''-'') (fst (run_state (new_job_id r) w))
      in parts ! 0 = ''job'' \<and> parts ! 1 \<noteq> [] \<and> list_all is_base36 (parts ! 1) \<and> length (parts ! 2) = 6)"

lemma backoff_test: backoff_doubles_and_caps
  by code_simp

lemma base36_test: base36_renders_known_values
  by (simp add: base36_renders_known_values_def to_base36_def base36_digits.simps base36_digit_def)

lemma key_test: live_and_lock_keys_are_scoped
  by code_simp

text \<open>The digits of a job id and its shape, for every time and UUID.\<close>

lemma base36_digit_range: "d < 36 \<Longrightarrow> is_base36 (base36_digit d)"
  unfolding is_base36_def base36_digit_def by (rule nth_mem) simp

lemma base36_digits_range: "list_all is_base36 (base36_digits n)"
  by (induction n rule: base36_digits.induct)
    (subst base36_digits.simps, auto intro!: base36_digit_range simp: nat_less_iff)

lemma to_base36_range: "list_all is_base36 (to_base36 n)" and to_base36_nonempty: "to_base36 n \<noteq> []"
  using base36_digits_range [of n]
  by (auto simp: to_base36_def is_base36_def list_all_iff base36_digits.simps [of n])

lemma base36_no_dash: "list_all is_base36 s \<Longrightarrow> d \<in> set s \<Longrightarrow> d \<noteq> CHR ''-''"
proof -
  have "\<not> is_base36 (CHR ''-'')" "is_base36 (CHR ''0'')" by code_simp+
  then show "list_all is_base36 s \<Longrightarrow> d \<in> set s \<Longrightarrow> d \<noteq> CHR ''-''"
    by (auto simp: list_all_iff)
qed

lemma job_id_test:
  assumes "\<And>w. 6 \<le> length (fst (uuid_hex r w))"
  shows "new_job_id_matches_web_shape r w"
proof -
  obtain suffix w1 where u: "uuid_hex r w = (suffix, w1)" by fastforce
  let ?t = "to_base36 (clock_ms r w1)"
  have "takeWhile (\<lambda>d. d \<noteq> CHR ''-'') (?t @ CHR ''-'' # s) = ?t"
    "dropWhile (\<lambda>d. d \<noteq> CHR ''-'') (?t @ CHR ''-'' # s) = CHR ''-'' # s" for s
    using base36_no_dash [OF to_base36_range] by (simp_all add: takeWhile_tail dropWhile_append3 takeWhile_append2 dropWhile_append2)
  moreover have "length (take 6 suffix) = 6" using assms [of w] u by simp
  ultimately show ?thesis
    using to_base36_range [of "clock_ms r w1"] to_base36_nonempty [of "clock_ms r w1"]
    by (simp add: new_job_id_matches_web_shape_def new_job_id_def read_clock_def u numeral_3_eq_3)
qed

section \<open>The environment\<close>

definition set_var :: "string \<Rightarrow> string \<Rightarrow> Env \<Rightarrow> Env" where
  "set_var name value env = env(name := Some value)"

definition remove_var :: "string \<Rightarrow> Env \<Rightarrow> Env" where
  "remove_var name env = env(name := None)"

definition require_env_vars_succeeds_when_all_set :: "Env \<Rightarrow> bool" where
  "require_env_vars_succeeds_when_all_set env \<longleftrightarrow>
     is_ok (require_env_vars (set_var ''KARET_TEST_B'' ''b'' (set_var ''KARET_TEST_A'' ''a'' env))
       [''KARET_TEST_A'', ''KARET_TEST_B''])"

definition require_env_vars_names_every_missing_var :: "Env \<Rightarrow> bool" where
  "require_env_vars_names_every_missing_var env \<longleftrightarrow>
     (let env' = set_var ''KARET_TEST_PRESENT'' ''x''
            (remove_var ''KARET_TEST_MISSING_2'' (remove_var ''KARET_TEST_MISSING_1'' env))
      in unwrap_err (require_env_vars env' [''KARET_TEST_MISSING_1'', ''KARET_TEST_PRESENT'', ''KARET_TEST_MISSING_2''])
           (\<lambda>err. str_contains err ''KARET_TEST_MISSING_1'' \<and> str_contains err ''KARET_TEST_MISSING_2''
              \<and> \<not> str_contains err ''KARET_TEST_PRESENT''))"

definition require_env_vars_treats_empty_string_as_missing :: "Env \<Rightarrow> bool" where
  "require_env_vars_treats_empty_string_as_missing env \<longleftrightarrow>
     unwrap_err (require_env_vars (set_var ''KARET_TEST_EMPTY'' [] env) [''KARET_TEST_EMPTY''])
       (\<lambda>err. str_contains err ''KARET_TEST_EMPTY'')"

text \<open>The messages, whatever the rest of the environment holds.\<close>

lemma missing_messages:
  "str_contains (''missing required environment variable(s): '' @ join '', '' [''KARET_TEST_MISSING_1'', ''KARET_TEST_MISSING_2'']
     @ ''. set them before starting karet-worker (see docker-compose.yaml)'') ''KARET_TEST_MISSING_1''"
  "str_contains (''missing required environment variable(s): '' @ join '', '' [''KARET_TEST_MISSING_1'', ''KARET_TEST_MISSING_2'']
     @ ''. set them before starting karet-worker (see docker-compose.yaml)'') ''KARET_TEST_MISSING_2''"
  "\<not> str_contains (''missing required environment variable(s): '' @ join '', '' [''KARET_TEST_MISSING_1'', ''KARET_TEST_MISSING_2'']
     @ ''. set them before starting karet-worker (see docker-compose.yaml)'') ''KARET_TEST_PRESENT''"
  "str_contains (''missing required environment variable(s): '' @ join '', '' [''KARET_TEST_EMPTY'']
     @ ''. set them before starting karet-worker (see docker-compose.yaml)'') ''KARET_TEST_EMPTY''"
  by code_simp+

lemma env_tests:
  "require_env_vars_succeeds_when_all_set env"
  "require_env_vars_names_every_missing_var env"
  "require_env_vars_treats_empty_string_as_missing env"
  using missing_messages
  by (simp_all add: require_env_vars_succeeds_when_all_set_def require_env_vars_names_every_missing_var_def
      require_env_vars_treats_empty_string_as_missing_def require_env_vars_def set_var_def remove_var_def
      unwrap_err_def)

end
