(* ===== verification/Frame_Rows.thy ===== *)
theory Frame_Rows
  imports Pipeline_Proofs "HOL-Library.Multiset"
begin

text \<open>
  What the Polars operations do to rows. \<open>Frames\<close> leaves frames abstract; here a \<open>FrameView\<close> reads
  the rows of a frame as maps from column names to values \<open>'v\<close>, and the locale \<open>row_frames\<close> states the
  documented effect of each operation on them. Expressions are evaluated by the view: the builders
  are elementwise, so a projection works row by row, except that a projection onto literals alone
  has one row.
\<close>

type_synonym 'v row = "string \<rightharpoonup> 'v"

section \<open>Groups of rows\<close>

text \<open>Each element once, in the order of first appearance.\<close>

definition first_seen :: "'a list \<Rightarrow> 'a list" where
  "first_seen xs = rev (remdups (rev xs))"

lemma first_seen_distinct [simp]: "distinct (first_seen xs)"
  by (simp add: first_seen_def)

lemma first_seen_set [simp]: "set (first_seen xs) = set xs"
  by (simp add: first_seen_def)

definition key_tuple :: "string list \<Rightarrow> 'v row \<Rightarrow> 'v option list" where
  "key_tuple keys r = map r keys"

definition rows_with :: "string list \<Rightarrow> 'v option list \<Rightarrow> 'v row list \<Rightarrow> 'v row list" where
  "rows_with keys t rs = filter (\<lambda>r. key_tuple keys r = t) rs"

definition key_tuples :: "string list \<Rightarrow> 'v row list \<Rightarrow> 'v option list list" where
  "key_tuples keys rs = first_seen (map (key_tuple keys) rs)"

definition group_rows :: "string list \<Rightarrow> 'v row list \<Rightarrow> 'v row list list" where
  "group_rows keys rs = map (\<lambda>t. rows_with keys t rs) (key_tuples keys rs)"

lemma group_rows_length: "length (group_rows keys rs) = card (key_tuple keys ` set rs)"
  by (simp add: group_rows_def key_tuples_def flip: distinct_card)

lemma rows_with_nonempty: "t \<in> set (key_tuples keys rs) \<Longrightarrow> rows_with keys t rs \<noteq> []"
  by (auto simp: key_tuples_def rows_with_def filter_empty_conv)

text \<open>Grouping rows neither loses nor repeats one.\<close>

lemma mset_filter_split:
  assumes "distinct ts" and "f ` set xs \<subseteq> set ts"
  shows "(\<Sum>t\<leftarrow>ts. mset (filter (\<lambda>x. f x = t) xs)) = mset xs"
  using assms(2)
proof (induction xs)
  case (Cons x xs)
  have none: "(\<Sum>t\<leftarrow>us. mset (if f x = t then [x] else [])) = {#}" if "f x \<notin> set us" for us
    using that by (induction us) auto
  have one: "(\<Sum>t\<leftarrow>ts. mset (if f x = t then [x] else [])) = {#x#}" if "f x \<in> set ts"
    using assms(1) that by (induction ts) (auto simp: none)
  have "mset (filter (\<lambda>y. f y = t) (x # xs)) = mset (if f x = t then [x] else []) + mset (filter (\<lambda>y. f y = t) xs)"
    for t by simp
  then show ?case
    using Cons one by (simp only: sum_list_addf) simp
qed simp

lemma group_rows_mset: "mset (concat (group_rows keys rs)) = mset rs"
proof -
  have "mset (concat (group_rows keys rs)) = (\<Sum>t\<leftarrow>key_tuples keys rs. mset (rows_with keys t rs))"
    by (simp add: group_rows_def mset_concat o_def)
  also have "\<dots> = mset rs"
    unfolding rows_with_def by (rule mset_filter_split) (simp_all add: key_tuples_def)
  finally show ?thesis .
qed

text \<open>The first row of every group.\<close>

definition first_rows :: "string list \<Rightarrow> 'v row list \<Rightarrow> 'v row list" where
  "first_rows keys rs = map hd (group_rows keys rs)"

lemma hd_filter_tuple: "t \<in> set (key_tuples keys rs) \<Longrightarrow>
    hd (rows_with keys t rs) \<in> set rs \<and> key_tuple keys (hd (rows_with keys t rs)) = t"
  using hd_in_set [OF rows_with_nonempty [of t keys rs]] by (auto simp: rows_with_def)

lemma first_rows_keys: "map (key_tuple keys) (first_rows keys rs) = key_tuples keys rs"
  by (simp add: first_rows_def group_rows_def o_def hd_filter_tuple cong: map_cong)

lemma first_rows_subset: "set (first_rows keys rs) \<subseteq> set rs"
  by (auto simp: first_rows_def group_rows_def hd_filter_tuple)

section \<open>The view of frames\<close>

record ('df, 'lf, 'v) FrameView =
  fv_rows :: "'df \<Rightarrow> 'v row list"
  fv_lazy :: "'lf \<Rightarrow> 'v row list"
  fv_eval :: "Expr \<Rightarrow> 'v row \<Rightarrow> 'v"
  fv_holds :: "'v \<Rightarrow> bool"
  fv_any :: "'v \<Rightarrow> AnyValue"
  fv_parquet :: "string \<Rightarrow> 'v row list"

definition project :: "('df, 'lf, 'v) FrameView \<Rightarrow> (string \<times> Expr) list \<Rightarrow> 'v row \<Rightarrow> 'v row" where
  "project view es r = map_of (map (\<lambda>(n, e). (n, fv_eval view e r)) es)"

text \<open>Whether some expression of a projection reads a column.\<close>

definition reads_column :: "(string \<times> Expr) list \<Rightarrow> bool" where
  "reads_column es \<longleftrightarrow> list_ex (\<lambda>(n, e). expr_cols e \<noteq> {}) es"

locale row_frames =
  fixes ops :: "('df, 'lf, 'col) FrameOps" and view :: "('df, 'lf, 'v) FrameView"
  assumes height: "df_height ops df = length (fv_rows view df)"
    and frame_select: "df_select ops df names = Inr df' \<Longrightarrow>
      df_column_names ops df' = names \<and> fv_rows view df' = map (\<lambda>r. r |` set names) (fv_rows view df)"
    and to_lazy: "fv_lazy view (df_lazy ops df) = fv_rows view df"
    and lazy_select: "reads_column es \<Longrightarrow> fv_lazy view (lf_select ops lf es) = map (project view es) (fv_lazy view lf)"
    and lazy_literals: "es \<noteq> [] \<Longrightarrow> \<not> reads_column es \<Longrightarrow>
      fv_lazy view (lf_select ops lf es) = [project view es Map.empty]"
    and lazy_filter: "fv_lazy view (lf_filter ops lf e) = filter (\<lambda>r. fv_holds view (fv_eval view e r)) (fv_lazy view lf)"
    and collect: "lf_collect ops lf = Inr df \<Longrightarrow> fv_rows view df = fv_lazy view lf"
    and lazy_concat: "lf_concat ops lfs = Inr lf \<Longrightarrow> fv_lazy view lf = concat (map (fv_lazy view) lfs)"
    and unique: "df_unique_stable ops df keys = Inr df' \<Longrightarrow> fv_rows view df' = first_rows keys (fv_rows view df)"
    and partition_by: "df_partition_by_stable ops df keys = Inr dfs \<Longrightarrow>
      map (fv_rows view) dfs = group_rows keys (fv_rows view df)"
    and drop_many: "fv_rows view (df_drop_many ops df names) = map (\<lambda>r. r |` (- set names)) (fv_rows view df)"
    and cells: "df_column ops df name = Inr c \<Longrightarrow> i < length (fv_rows view df) \<Longrightarrow>
      \<exists>v. (fv_rows view df ! i) name = Some v \<and> col_get ops c i = Inr (fv_any view v)"
    and parquet: "df_parquet ops df = Inr bytes \<Longrightarrow> fv_parquet view bytes = fv_rows view df"
begin

text \<open>The path segment a row goes to, by its key values.\<close>

lemma first_cell_row:
  assumes "fv_rows view df \<noteq> []" and "first_cell ops df k = Inr av"
  obtains v where "hd (fv_rows view df) k = Some v" and "av = fv_any view v"
  using assms cells [of df k _ 0] by (auto simp: first_cell_def rbind_eq_Inr hd_conv_nth)

end

end
