(* ===== verification/Pipeline_Rows.thy ===== *)
theory Pipeline_Rows
  imports Frame_Rows Job
begin

text \<open>
  The pipeline read row by row, over any frames that meet \<open>row_frames\<close>: which rows a file gives a
  mapping, and that what a mapping writes to its partitions is exactly the rows of its files, less the
  duplicates the table's keys drop.
\<close>

section \<open>Rows of a file\<close>

definition node_holds ::
  "(string \<Rightarrow> string) \<Rightarrow> Registry \<Rightarrow> ('df, 'lf, 'v) FrameView \<Rightarrow> AstNode \<Rightarrow> 'v row \<Rightarrow> bool" where
  "node_holds lower reg view n r \<longleftrightarrow>
     (\<exists>e. compile lower reg n = Inr e \<and> fv_holds view (fv_eval view e r))"

definition passes ::
  "(string \<Rightarrow> string) \<Rightarrow> Registry \<Rightarrow> ('df, 'lf, 'v) FrameView \<Rightarrow> AstNode option \<Rightarrow> 'v row \<Rightarrow> bool" where
  "passes lower reg view p r = (case p of None \<Rightarrow> True | Some n \<Rightarrow> node_holds lower reg view n r)"

lemma passes_simps [simp]:
  "passes lower reg view None = (\<lambda>_. True)"
  "compile lower reg n = Inr e \<Longrightarrow> passes lower reg view (Some n) = (\<lambda>r. fv_holds view (fv_eval view e r))"
  by (auto simp: fun_eq_iff passes_def node_holds_def)

text \<open>The rows a mapping starts from: the declared columns of a CSV file, or the records of a JSON file
  that pass the source's filter.\<close>

definition source_rows ::
  "(string \<Rightarrow> string) \<Rightarrow> ('df, 'lf, 'col) FrameOps \<Rightarrow> ('n, 'df) JsonOps \<Rightarrow> ('df, 'lf, 'v) FrameView
    \<Rightarrow> Registry \<Rightarrow> SourceContainer \<Rightarrow> string \<Rightarrow> 'v row list \<Rightarrow> bool" where
  "source_rows lower ops jops view reg sc bytes rs \<longleftrightarrow>
     (case sc_format sc of
        Csv \<Rightarrow> (\<exists>df. csv_read ops bytes = Inr df
                 \<and> rs = map (\<lambda>r. r |` (cs_name ` set (sc_schema sc))) (fv_rows view df))
      | Ndjson \<Rightarrow> (\<exists>df skipped. read_json_source jops bytes sc = Inr (Inr (df, skipped))
                 \<and> rs = filter (passes lower reg view (sc_record_filter sc)) (fv_rows view df)))"

text \<open>The row a mapping makes of a source row.\<close>

definition mapped_row ::
  "(string \<Rightarrow> string) \<Rightarrow> Registry \<Rightarrow> ('df, 'lf, 'v) FrameView \<Rightarrow> MappingColumn list \<Rightarrow> 'v row \<Rightarrow> 'v row" where
  "mapped_row lower reg view columns r = map_of (List.map_filter (\<lambda>c.
     case compile lower reg (mc_expr c) of
       Inr e \<Rightarrow> Some (mc_name c, fv_eval view e r) | Inl _ \<Rightarrow> None) columns)"

text \<open>The rows a mapping's columns make of the source rows. A projection onto literals alone does not
  see how many rows its input has: it yields one.\<close>

definition reads_source :: "MappingColumn list \<Rightarrow> bool" where
  "reads_source columns \<longleftrightarrow> (\<exists>c \<in> set columns. col_refs (mc_expr c) \<noteq> {})"

definition mapped_rows ::
  "(string \<Rightarrow> string) \<Rightarrow> Registry \<Rightarrow> ('df, 'lf, 'v) FrameView \<Rightarrow> MappingColumn list \<Rightarrow> 'v row list
    \<Rightarrow> 'v row list" where
  "mapped_rows lower reg view columns rs =
     (if reads_source columns then map (mapped_row lower reg view columns) rs
      else [mapped_row lower reg view columns Map.empty])"

lemma compile_columns_Cons:
  "compile_columns lower key reg (c # cs) = Inr es \<longleftrightarrow>
     (\<exists>e es'. compile lower reg (mc_expr c) = Inr e \<and> compile_columns lower key reg cs = Inr es'
        \<and> es = (mc_name c, e) # es')"
  by (auto simp: compile_columns_def rbind_eq_Inr map_err_eq_Inr)

lemma compile_columns_row:
  "compile_columns lower key reg cs = Inr es \<Longrightarrow> project view es r = mapped_row lower reg view cs r"
proof (induction cs arbitrary: es)
  case Nil
  then show ?case by (simp add: compile_columns_def project_def mapped_row_def map_filter_simps)
next
  case (Cons c cs)
  then obtain e es' where "compile lower reg (mc_expr c) = Inr e" "es = (mc_name c, e) # es'"
    "project view es' r = mapped_row lower reg view cs r" by (auto simp: compile_columns_Cons)
  then show ?case by (simp add: project_def mapped_row_def map_filter_simps)
qed

lemma compile_columns_reads:
  "compile_columns lower key reg cs = Inr es \<Longrightarrow> reads_column es \<longleftrightarrow> reads_source cs"
  unfolding reads_source_def
proof (induction cs arbitrary: es)
  case Nil
  then show ?case by (simp add: compile_columns_def reads_column_def)
next
  case (Cons c cs)
  then show ?case by (auto simp: compile_columns_Cons reads_column_def dest: compile_cols)
qed

lemma compile_columns_Nil: "compile_columns lower key reg cs = Inr [] \<Longrightarrow> cs = []"
  by (cases cs) (auto simp: compile_columns_Cons)

lemma read_csv_projected_select:
  "read_csv_projected ops key bytes sc = Inr df \<Longrightarrow>
     \<exists>df0. csv_read ops bytes = Inr df0 \<and> df_select ops df0 (map cs_name (sc_schema sc)) = Inr df"
proof (cases "csv_read ops bytes")
  case (Inr df0)
  then show "read_csv_projected ops key bytes sc = Inr df \<Longrightarrow> ?thesis"
    by (cases "validate_csv_headers (df_column_names ops df0) (sc_schema sc)")
      (simp_all add: read_csv_projected_def read_source_def project_schema_columns_def map_err_eq_Inr)
qed (simp add: read_csv_projected_def read_source_def)

context row_frames
begin

lemma filter_records_rows:
  "filter_records lower ops key reg p df = Inr df' \<Longrightarrow>
     fv_rows view df' = filter (passes lower reg view p) (fv_rows view df)"
  by (cases p) (auto simp: filter_records_def rbind_eq_Inr map_err_eq_Inr to_lazy lazy_filter dest!: collect)

lemma read_projected_rows:
  assumes "read_projected lower ops jops key bytes sc reg = Inr (Inr df)"
  shows "source_rows lower ops jops view reg sc bytes (fv_rows view df)"
proof (cases "sc_format sc")
  case Csv
  with assms read_csv_projected_select [of ops key bytes sc df] show ?thesis
    by (auto simp: read_projected_def source_rows_def dest!: frame_select)
next
  case Ndjson
  with assms show ?thesis
    by (auto simp: read_projected_def source_rows_def rbind_eq_Inr map_err_eq_Inr dest!: filter_records_rows)
qed

text \<open>The rows of the projection, then of the filter on its output.\<close>

lemma apply_mapping_rows:
  assumes "apply_mapping lower ops key mp reg df0 = Inr df"
  obtains es where "compile_columns lower key reg (m_columns mp) = Inr es"
    and "fv_rows view df = filter (passes lower reg view (m_where mp))
      (fv_lazy view (lf_select ops (df_lazy ops df0) es))"
  using assms
  by (cases "m_where mp")
    (auto simp: apply_mapping_def Let_def rbind_eq_Inr map_err_eq_Inr lazy_filter dest!: collect)

lemma ingest_file_split:
  assumes "ingest_file lower ops jops key bytes cfg mp reg = Inr (Inr df)"
    and "resolve_source_container key cfg = Inr sc"
  obtains df0 where "read_projected lower ops jops key bytes sc reg = Inr (Inr df0)"
    and "apply_mapping lower ops key mp reg df0 = Inr df"
  using assms by (auto simp: ingest_file_def rbind_eq_Inr)

text \<open>The projection on the rows of a frame, whether or not it reads them.\<close>

lemma projected_rows:
  assumes "compile_columns lower key reg columns = Inr es" and "columns \<noteq> []"
  shows "fv_lazy view (lf_select ops lf es) = mapped_rows lower reg view columns (fv_lazy view lf)"
proof (cases "reads_source columns")
  case True
  then show ?thesis
    by (simp add: mapped_rows_def lazy_select compile_columns_reads [OF assms(1)] compile_columns_row [OF assms(1)])
next
  case False
  moreover from compile_columns_Nil assms have "es \<noteq> []" by blast
  ultimately show ?thesis
    by (simp add: mapped_rows_def lazy_literals compile_columns_reads [OF assms(1)] compile_columns_row [OF assms(1)])
qed

lemma file_rows:
  assumes "ingest_file lower ops jops key bytes cfg mp reg = Inr (Inr df)"
    and "resolve_source_container key cfg = Inr sc"
    and "m_columns mp \<noteq> []"
  shows "\<exists>rs. source_rows lower ops jops view reg sc bytes rs
    \<and> fv_rows view df = filter (passes lower reg view (m_where mp))
        (mapped_rows lower reg view (m_columns mp) rs)"
proof -
  obtain df0 where r: "read_projected lower ops jops key bytes sc reg = Inr (Inr df0)"
    and a: "apply_mapping lower ops key mp reg df0 = Inr df"
    by (rule ingest_file_split [OF assms(1,2)])
  obtain es where c: "compile_columns lower key reg (m_columns mp) = Inr es"
    and f: "fv_rows view df = filter (passes lower reg view (m_where mp))
      (fv_lazy view (lf_select ops (df_lazy ops df0) es))"
    by (rule apply_mapping_rows [OF a])
  from f projected_rows [OF c assms(3)] read_projected_rows [OF r] show ?thesis
    by (auto simp: to_lazy)
qed

text \<open>A file under a mapping of constants: one row, if the mapping's predicate keeps it.\<close>

lemma constant_file_rows:
  assumes "ingest_file lower ops jops key bytes cfg mp reg = Inr (Inr df)"
    and "m_columns mp \<noteq> []" and "\<not> reads_source (m_columns mp)"
  shows "fv_rows view df = filter (passes lower reg view (m_where mp))
    [mapped_row lower reg view (m_columns mp) Map.empty]"
proof -
  from assms(1) obtain sc where "resolve_source_container key cfg = Inr sc"
    by (auto simp: ingest_file_def split: sum.splits)
  from file_rows [OF assms(1) this assms(2)] assms(3) show ?thesis by (auto simp: mapped_rows_def)
qed

end

section \<open>Rows of the partitions\<close>

definition kept_rows :: "AnalyticTable \<Rightarrow> 'v row list \<Rightarrow> 'v row list" where
  "kept_rows table rs = (if t_dedup_keys table = [] then rs else first_rows (t_dedup_keys table) rs)"

lemma first_rows_length: "length (first_rows keys rs) \<le> length rs"
proof -
  have "card (key_tuple keys ` set rs) \<le> length rs"
    by (rule order_trans [OF card_image_le card_length]) simp
  then show ?thesis by (simp add: first_rows_def group_rows_length)
qed

text \<open>The path segments of a tuple of key values.\<close>

definition path_values ::
  "('df, 'lf, 'col) FrameOps \<Rightarrow> ('df, 'lf, 'v) FrameView \<Rightarrow> 'v option list \<Rightarrow> string list \<Rightarrow> bool" where
  "path_values ops view t vals \<longleftrightarrow>
     list_all2 (\<lambda>x s. \<exists>v. x = Some v \<and> segment_value ops (fv_any view v) = Inr s) t vals"

text \<open>An output holds the rows of one tuple without their key columns, under the path of the tuple.\<close>

definition holds_tuple ::
  "('df, 'lf, 'col) FrameOps \<Rightarrow> ('df, 'lf, 'v) FrameView \<Rightarrow> Mapping \<Rightarrow> AnalyticTable \<Rightarrow> 'v row list
    \<Rightarrow> 'v option list \<Rightarrow> PartitionOutput \<Rightarrow> bool" where
  "holds_tuple ops view mp table rs t p \<longleftrightarrow>
     fv_parquet view (po_bytes p)
       = map (\<lambda>r. r |` (- set (t_partition_keys table))) (rows_with (t_partition_keys table) t rs)
     \<and> (\<exists>vals. path_values ops view t vals \<and> po_key p = hive_key mp table vals)"

context row_frames
begin

lemma dedup_kept:
  assumes "dedup_rows ops df table = Inr (df', dropped)"
  shows "fv_rows view df' = kept_rows table (fv_rows view df)
    \<and> dropped + length (fv_rows view df') = length (fv_rows view df)"
  using assms first_rows_length [of "t_dedup_keys table" "fv_rows view df"]
  by (auto simp: dedup_rows_def kept_rows_def rbind_eq_Inr map_err_eq_Inr height usize_sub_def
      dest!: unique split: if_splits)

lemma key_values_path:
  assumes "key_values ops keys df vals" and "fv_rows view df \<noteq> []"
  shows "path_values ops view (key_tuple keys (hd (fv_rows view df))) vals"
  using assms(1) unfolding key_values_def path_values_def key_tuple_def
proof (induction keys vals rule: list_all2_induct)
  case (Cons k keys s vals)
  then obtain av where c: "first_cell ops df k = Inr av" and s: "segment_value ops av = Inr s" by blast
  obtain v where "hd (fv_rows view df) k = Some v" "av = fv_any view v"
    by (rule first_cell_row [OF assms(2) c])
  with s Cons show ?case by simp
qed simp

lemma group_holds_tuple:
  assumes "group_output ops mp table grp = Inr p"
    and "fv_rows view grp = rows_with (t_partition_keys table) t rs"
    and "t \<in> set (key_tuples (t_partition_keys table) rs)"
  shows "holds_tuple ops view mp table rs t p"
proof -
  let ?keys = "t_partition_keys table"
  from group_output_key [OF assms(1)] obtain vals where
    v: "key_values ops ?keys grp vals" "po_key p = hive_key mp table vals"
      "df_parquet ops (df_drop_many ops grp ?keys) = Inr (po_bytes p)" by blast
  from rows_with_nonempty [OF assms(3)] assms(2) have "fv_rows view grp \<noteq> []" by simp
  from key_values_path [OF v(1) this] hd_filter_tuple [OF assms(3)] assms(2)
  have "path_values ops view t vals" by simp
  with v(2) parquet [OF v(3)] assms(2) show ?thesis by (auto simp: holds_tuple_def drop_many)
qed

lemma partitions_hold:
  assumes "produce_partitions ops df mp table = Inr parts" and "t_partition_keys table \<noteq> []"
  shows "list_all2 (holds_tuple ops view mp table (fv_rows view df))
    (key_tuples (t_partition_keys table) (fv_rows view df)) parts"
proof -
  let ?keys = "t_partition_keys table" and ?rs = "fv_rows view df"
  from produce_partitions_groups [OF assms] obtain dfs where
    g: "df_partition_by_stable ops df ?keys = Inr dfs"
    and o: "list_all2 (\<lambda>g p. group_output ops mp table g = Inr p) dfs parts" by blast
  from partition_by [OF g] have m: "map (fv_rows view) dfs = map (\<lambda>t. rows_with ?keys t ?rs) (key_tuples ?keys ?rs)"
    by (simp add: group_rows_def)
  then have len: "length dfs = length (key_tuples ?keys ?rs)" by (metis length_map)
  show ?thesis
  proof (rule list_all2_all_nthI)
    show "length (key_tuples ?keys ?rs) = length parts" using len o by (simp add: list_all2_lengthD)
    fix i assume i: "i < length (key_tuples ?keys ?rs)"
    with m len have "fv_rows view (dfs ! i) = rows_with ?keys (key_tuples ?keys ?rs ! i) ?rs"
      by (metis nth_map)
    moreover from o i len have "group_output ops mp table (dfs ! i) = Inr (parts ! i)"
      by (simp add: list_all2_conv_all_nth)
    ultimately show "holds_tuple ops view mp table ?rs (key_tuples ?keys ?rs ! i) (parts ! i)"
      using i by (intro group_holds_tuple) simp_all
  qed
qed

lemma partitions_rows:
  assumes "list_all2 (holds_tuple ops view mp table rs) (key_tuples (t_partition_keys table) rs) parts"
  shows "mset (concat (map (\<lambda>p. fv_parquet view (po_bytes p)) parts))
    = mset (map (\<lambda>r. r |` (- set (t_partition_keys table))) rs)"
proof -
  let ?keys = "t_partition_keys table"
  from assms have "map (\<lambda>p. fv_parquet view (po_bytes p)) parts
      = map (map (\<lambda>r. r |` (- set ?keys))) (group_rows ?keys rs)"
    unfolding group_rows_def by (induction rule: list_all2_induct) (simp_all add: holds_tuple_def)
  then have "mset (concat (map (\<lambda>p. fv_parquet view (po_bytes p)) parts))
      = image_mset (\<lambda>r. r |` (- set ?keys)) (mset (concat (group_rows ?keys rs)))"
    by (simp flip: map_concat)
  then show ?thesis by (simp add: group_rows_mset)
qed

lemma union_rows:
  assumes "ingest_many lower ops jops files cfg mp reg = Inr (Inr lf)"
  shows "fv_lazy view lf = concat (map (fv_rows view) (ingested lower ops jops cfg mp reg files))"
  using assms
  by (auto simp: ingest_many_def ingest_frames_result map_err_eq_Inr to_lazy o_def dest!: lazy_concat split: if_splits)

end

section \<open>A mapping's task\<close>

lemma mapping_task_split:
  assumes "mapping_task jb cfg reg mapping_id table_id files = Inr (Inr (parts, dropped))"
  obtains mp table lf df df' where "List.find (\<lambda>m. m_id m = mapping_id) (cfg_mappings cfg) = Some mp"
    and "List.find (\<lambda>t. t_id t = table_id) (cfg_analytic_tables cfg) = Some table"
    and "ingest_many (jb_lower jb) (jb_frames jb) (jb_json jb) files cfg mp reg = Inr (Inr lf)"
    and "lf_collect (jb_frames jb) lf = Inr df" and "dedup_rows (jb_frames jb) df table = Inr (df', dropped)"
    and "produce_partitions (jb_frames jb) df' mp table = Inr parts"
  using assms
  by (auto simp: mapping_task_def finish_frame_def Let_def rbind_eq_Inr map_err_eq_Inr ok_or_def
      split: option.split_asm if_split_asm)

section \<open>Properties\<close>

text \<open>C13: What a file contributes, row by row, under any mapping that has columns. When some column reads a
  column of the source, the frame of the file has one row for each source row, every value computed from
  that row by the mapping's expression; when all columns are constants it has exactly one row of these
  constants, however many rows the source has. In both cases the rows on which the mapping's predicate,
  read on the output columns, does not hold are left out. The source rows are the declared columns of a
  CSV file, or the records of a JSON file that pass the source's own filter.\<close>

theorem ingest_file_rows:
  assumes "row_frames ops view"
    and "ingest_file lower ops jops key bytes cfg mp reg = Inr (Inr df)"
    and "resolve_source_container key cfg = Inr sc"
    and "m_columns mp \<noteq> []"
  shows "\<exists>rs. source_rows lower ops jops view reg sc bytes rs
    \<and> fv_rows view df = filter (passes lower reg view (m_where mp))
        (if \<exists>c \<in> set (m_columns mp). col_refs (mc_expr c) \<noteq> {}
         then map (mapped_row lower reg view (m_columns mp)) rs
         else [mapped_row lower reg view (m_columns mp) Map.empty])"
  using row_frames.file_rows [OF assms] unfolding mapped_rows_def reads_source_def .

text \<open>A mapping of constants keeps at most one row of every file, however many records the file has.
  Configurations of that kind validate.\<close>

lemma constant_mapping_collapses:
  assumes "row_frames ops view"
    and "ingest_file lower ops jops key bytes cfg mp reg = Inr (Inr df)"
    and "m_columns mp \<noteq> []" and "\<not> reads_source (m_columns mp)" and "m_where mp = None"
  shows "fv_rows view df = [mapped_row lower reg view (m_columns mp) Map.empty]"
  using row_frames.constant_file_rows [OF assms(1-4)] assms(5) by simp

text \<open>C12: A mapping's task neither loses nor invents a row. The partitions it hands to the upload hold,
  together, exactly the rows of the files that ingest, less the rows the table's dedup keys drop; those
  are counted, and of every key tuple the first row stays. Each partition holds the rows of one
  tuple of partition values, without the key columns, under the path made of that tuple.\<close>

theorem mapping_rows_conserved:
  assumes "row_frames (jb_frames jb) view"
    and "mapping_task jb cfg reg mapping_id table_id files = Inr (Inr (parts, dropped))"
  shows "\<exists>mp table rows. List.find (\<lambda>m. m_id m = mapping_id) (cfg_mappings cfg) = Some mp
    \<and> List.find (\<lambda>t. t_id t = table_id) (cfg_analytic_tables cfg) = Some table
    \<and> rows = concat (map (fv_rows view) (ingested (jb_lower jb) (jb_frames jb) (jb_json jb) cfg mp reg files))
    \<and> dropped + length (kept_rows table rows) = length rows
    \<and> mset (concat (map (\<lambda>p. fv_parquet view (po_bytes p)) parts))
        = mset (map (\<lambda>r. r |` (- set (t_partition_keys table))) (kept_rows table rows))
    \<and> (t_partition_keys table \<noteq> [] \<longrightarrow>
        list_all2 (holds_tuple (jb_frames jb) view mp table (kept_rows table rows))
          (key_tuples (t_partition_keys table) (kept_rows table rows)) parts)"
proof -
  note laws = assms(1)
  obtain mp table lf df df' where
    m: "List.find (\<lambda>m. m_id m = mapping_id) (cfg_mappings cfg) = Some mp"
      "List.find (\<lambda>t. t_id t = table_id) (cfg_analytic_tables cfg) = Some table"
    and i: "ingest_many (jb_lower jb) (jb_frames jb) (jb_json jb) files cfg mp reg = Inr (Inr lf)"
    and c: "lf_collect (jb_frames jb) lf = Inr df"
    and d: "dedup_rows (jb_frames jb) df table = Inr (df', dropped)"
    and p: "produce_partitions (jb_frames jb) df' mp table = Inr parts"
    by (rule mapping_task_split [OF assms(2)])
  obtain rows where rows:
    "rows = concat (map (fv_rows view) (ingested (jb_lower jb) (jb_frames jb) (jb_json jb) cfg mp reg files))"
    by simp
  from row_frames.collect [OF laws c] row_frames.union_rows [OF laws i] have df: "fv_rows view df = rows" by (simp add: rows)
  from row_frames.dedup_kept [OF laws d] df have kept: "fv_rows view df' = kept_rows table rows"
    "dropped + length (kept_rows table rows) = length rows" by force+
  have "mset (concat (map (\<lambda>p. fv_parquet view (po_bytes p)) parts))
        = mset (map (\<lambda>r. r |` (- set (t_partition_keys table))) (kept_rows table rows))
    \<and> (t_partition_keys table \<noteq> [] \<longrightarrow>
        list_all2 (holds_tuple (jb_frames jb) view mp table (kept_rows table rows))
          (key_tuples (t_partition_keys table) (kept_rows table rows)) parts)"
  proof (cases "t_partition_keys table = []")
    case True
    with p obtain bytes where "df_parquet (jb_frames jb) df' = Inr bytes" "map po_bytes parts = [bytes]"
      by (auto simp: produce_partitions_def rbind_eq_Inr map_err_eq_Inr)
    with row_frames.parquet [OF laws] kept True show ?thesis by (auto simp: restrict_map_def)
  next
    case False
    from row_frames.partitions_hold [OF laws p False] kept
    have "list_all2 (holds_tuple (jb_frames jb) view mp table (kept_rows table rows))
        (key_tuples (t_partition_keys table) (kept_rows table rows)) parts" by simp
    with row_frames.partitions_rows [OF laws this] show ?thesis by blast
  qed
  with m rows kept(2) show ?thesis by blast
qed

end
