(* ===== verification/Float_Times.thy ===== *)
theory Float_Times
  imports Rust_Float
begin

text \<open>
  The product of two \<open>f64\<close> values, rounded to the nearest with ties to even, and the truncation to an
  \<open>i64\<close>, on the bits as integers: what Polars computes for a Unix time in seconds.
\<close>

fun bit_length :: "int \<Rightarrow> nat" where
  "bit_length n = (if n \<le> 0 then 0 else Suc (bit_length (n div 2)))"

declare bit_length.simps [simp del]

text \<open>\<open>m / 2 ^ s\<close> to the nearest integer.\<close>

definition half_even :: "int \<Rightarrow> nat \<Rightarrow> int" where
  "half_even m s =
     (let d = m div 2 ^ s; r = 2 * (m mod 2 ^ s)
      in if r < 2 ^ s \<or> (r = 2 ^ s \<and> even d) then d else d + 1)"

text \<open>The \<open>f64\<close> nearest to \<open>m * 2 ^ k\<close>, with its sign. The unit of its last place is \<open>2 ^ q\<close>; a significand
  that rounds up to the next power of two carries into the exponent, and past the largest one lies infinity.\<close>

definition f64_of_scaled :: "bool \<Rightarrow> int \<Rightarrow> int \<Rightarrow> f64" where
  "f64_of_scaled negative m k =
     (let q = max (- 1074) (k + int (bit_length m) - 53);
          mant = (if q \<le> k then m * 2 ^ nat (k - q) else half_even m (nat (q - k)))
      in word_of_int (min (2047 * 2 ^ 52) ((q + 1074) * 2 ^ 52 + mant) + (if negative then 2 ^ 63 else 0)))"

text \<open>Sign, exponent field, and significand with its hidden bit.\<close>

definition f64_parts :: "f64 \<Rightarrow> bool \<times> int \<times> int" where
  "f64_parts x =
     (let a = uint x; e = a div 2 ^ 52 mod 2048
      in (2 ^ 63 \<le> a, e, if e = 0 then a mod 2 ^ 52 else a mod 2 ^ 52 + 2 ^ 52))"

definition f64_nan :: f64 where "f64_nan = word_of_int (2047 * 2 ^ 52 + 2 ^ 51)"

definition f64_times :: "f64 \<Rightarrow> f64 \<Rightarrow> f64" where
  "f64_times x y =
     (case f64_parts x of (nx, ex, mx) \<Rightarrow> case f64_parts y of (ny, ey, my) \<Rightarrow>
        if (ex = 2047 \<and> mx \<noteq> 2 ^ 52) \<or> (ey = 2047 \<and> my \<noteq> 2 ^ 52) then f64_nan
        else if ex = 2047 \<or> ey = 2047
        then (if mx = 0 \<or> my = 0 then f64_nan
              else word_of_int (2047 * 2 ^ 52 + (if nx \<noteq> ny then 2 ^ 63 else 0)))
        else if mx = 0 \<or> my = 0 then word_of_int (if nx \<noteq> ny then 2 ^ 63 else 0)
        else f64_of_scaled (nx \<noteq> ny) (mx * my) (max 1 ex + max 1 ey - 2150))"

definition f64_of_int :: "int \<Rightarrow> f64" where
  "f64_of_int i = (if i = 0 then 0 else f64_of_scaled (i < 0) \<bar>i\<bar> 0)"

text \<open>Towards zero; \<open>None\<close> when the value is no number or no \<open>i64\<close>.\<close>

definition f64_trunc :: "f64 \<Rightarrow> int option" where
  "f64_trunc x =
     (case f64_parts x of (neg, e, m) \<Rightarrow>
        if e = 2047 then None
        else let k = max 1 e - 1075; t = (if 0 \<le> k then m * 2 ^ nat k else m div 2 ^ nat (- k));
                 i = (if neg then - t else t)
             in if - (2 ^ 63) \<le> i \<and> i < 2 ^ 63 then Some i else None)"

text \<open>The rounding is off by half a unit at most.\<close>

lemma half_even_near: "2 * \<bar>half_even m s * 2 ^ s - m\<bar> \<le> 2 ^ s"
proof -
  have e: "m div 2 ^ s * 2 ^ s - m = - (m mod 2 ^ s)" using div_mult_mod_eq [of m "2 ^ s"] by linarith
  then have e1: "(m div 2 ^ s + 1) * 2 ^ s - m = 2 ^ s - m mod 2 ^ s" by (simp only: distrib_right)
  obtain r P where rP: "m mod 2 ^ s = r" "(2 :: int) ^ s = P" by simp
  then have "0 \<le> r" "r < P" by auto
  then show ?thesis unfolding half_even_def Let_def
    by (simp only: e e1 rP(1) split: if_split) (auto simp: rP(2) abs_if)
qed

lemma f64_times_thousand: "f64_times 4745290144971950653 4652007308841189376 = 4790150281785229312"
  by code_simp

end
