(* ===== verification/Mem_Frames.thy ===== *)
theory Mem_Frames
  imports Frame_Rows Float_Times "HOL-Library.Countable"
begin

text \<open>
  An in-memory instance of the Polars operations with typed cells and an evaluator for the builder
  terms, on which the repository's tests of the pipeline run. It meets \<open>row_frames\<close>. Text functions
  are ASCII; arithmetic is on integers, products on floats too; dates are days since 1970. A frame is its column names and its
  rows; a lazy frame carries the error its collection will report.
\<close>

section \<open>Cells\<close>

datatype Cell = CNull | CInt int | CFloat f64 | CStr string | CBool bool | CDate int

instance Cell :: countable
  by countable_datatype

type_synonym MemFrame = "string list \<times> Cell list list"
type_synonym MemLazy = "string option \<times> MemFrame"

definition cell_any :: "Cell \<Rightarrow> AnyValue" where
  "cell_any v = (case v of CNull \<Rightarrow> AvOther ''Null'' | CInt i \<Rightarrow> AvInt64 i | CFloat x \<Rightarrow> AvOther ''Float64''
     | CStr s \<Rightarrow> AvString s | CBool b \<Rightarrow> AvBoolean b | CDate d \<Rightarrow> AvDate (word_of_int d))"

definition cell_str :: "Cell \<Rightarrow> string option" where
  "cell_str v = (case v of CStr s \<Rightarrow> Some s | _ \<Rightarrow> None)"

definition str_cell :: "string option \<Rightarrow> Cell" where
  "str_cell s = (case s of Some s \<Rightarrow> CStr s | None \<Rightarrow> CNull)"

section \<open>Dates\<close>

definition days_from_civil :: "int \<Rightarrow> int \<Rightarrow> int \<Rightarrow> int" where
  "days_from_civil y m d =
     (let y' = (if m \<le> 2 then y - 1 else y); era = y' div 400; yoe = y' mod 400;
          doy = (153 * ((m + 9) mod 12) + 2) div 5 + d - 1;
          doe = yoe * 365 + yoe div 4 - yoe div 100 + doy
      in era * 146097 + doe - 719468)"

definition civil_from_days :: "int \<Rightarrow> int \<times> int \<times> int" where
  "civil_from_days days =
     (let z = days + 719468; era = z div 146097; doe = z mod 146097;
          yoe = (doe - doe div 1460 + doe div 36524 - doe div 146096) div 365;
          doy = doe - (365 * yoe + yoe div 4 - yoe div 100);
          mp = (5 * doy + 2) div 153; d = doy - (153 * mp + 2) div 5 + 1;
          m = (if mp < 10 then mp + 3 else mp - 9)
      in (yoe + era * 400 + (if m \<le> 2 then 1 else 0), m, d))"

text \<open>\<open>%Y-%m-%d\<close>: the parts must name a day of the calendar.\<close>

definition parse_ymd :: "string \<Rightarrow> int option" where
  "parse_ymd s =
     (case split_on (CHR ''-'') s of
        [ys, ms, ds] \<Rightarrow>
          (case (parse_nat ys, parse_nat ms, parse_nat ds) of
             (Some y, Some m, Some d) \<Rightarrow>
               (let days = days_from_civil (int y) (int m) (int d)
                in if civil_from_days days = (int y, int m, int d) then Some days else None)
           | _ \<Rightarrow> None)
      | _ \<Rightarrow> None)"

section \<open>Evaluation\<close>

definition upper_char :: "char \<Rightarrow> char" where
  "upper_char c = (if 97 \<le> (of_char c :: nat) \<and> (of_char c :: nat) \<le> 122 then char_of (of_char c - 32 :: nat) else c)"

definition down_char :: "char \<Rightarrow> char" where
  "down_char c = (if 65 \<le> (of_char c :: nat) \<and> (of_char c :: nat) \<le> 90 then char_of (of_char c + 32 :: nat) else c)"

definition null_strict :: "(Cell \<Rightarrow> Cell \<Rightarrow> Cell) \<Rightarrow> Cell \<Rightarrow> Cell \<Rightarrow> Cell" where
  "null_strict f a b = (if a = CNull \<or> b = CNull then CNull else f a b)"

fun cell_less :: "Cell \<Rightarrow> Cell \<Rightarrow> bool" where
  "cell_less (CInt a) (CInt b) = (a < b)"
| "cell_less (CFloat a) (CFloat b) = f64_lt a b"
| "cell_less (CDate a) (CDate b) = (a < b)"
| "cell_less _ _ = False"

fun int_op :: "(int \<Rightarrow> int \<Rightarrow> int) \<Rightarrow> Cell \<Rightarrow> Cell \<Rightarrow> Cell" where
  "int_op f (CInt a) (CInt b) = CInt (f a b)"
| "int_op f _ _ = CNull"

fun mul_op :: "Cell \<Rightarrow> Cell \<Rightarrow> Cell" where
  "mul_op (CInt a) (CInt b) = CInt (a * b)"
| "mul_op (CFloat a) (CFloat b) = CFloat (f64_times a b)"
| "mul_op (CInt a) (CFloat b) = CFloat (f64_times (f64_of_int a) b)"
| "mul_op (CFloat a) (CInt b) = CFloat (f64_times a (f64_of_int b))"
| "mul_op _ _ = CNull"

fun str_op :: "(string \<Rightarrow> string \<Rightarrow> Cell) \<Rightarrow> Cell \<Rightarrow> Cell \<Rightarrow> Cell" where
  "str_op f (CStr a) (CStr b) = f a b"
| "str_op f _ _ = CNull"

fun eval_bin :: "BinOp \<Rightarrow> Cell \<Rightarrow> Cell \<Rightarrow> Cell" where
  "eval_bin OpAdd a b = int_op (+) a b"
| "eval_bin OpSub a b = int_op (-) a b"
| "eval_bin OpMul a b = mul_op a b"
| "eval_bin OpDiv a b = (if b = CInt 0 then CNull else int_op (div) a b)"
| "eval_bin OpEq a b = null_strict (\<lambda>a b. CBool (a = b)) a b"
| "eval_bin OpNeq a b = null_strict (\<lambda>a b. CBool (a \<noteq> b)) a b"
| "eval_bin OpGt a b = null_strict (\<lambda>a b. CBool (cell_less b a)) a b"
| "eval_bin OpLt a b = null_strict (\<lambda>a b. CBool (cell_less a b)) a b"
| "eval_bin OpGtEq a b = null_strict (\<lambda>a b. CBool (a = b \<or> cell_less b a)) a b"
| "eval_bin OpLtEq a b = null_strict (\<lambda>a b. CBool (a = b \<or> cell_less a b)) a b"
| "eval_bin OpAnd a b = (if a = CBool False \<or> b = CBool False then CBool False
     else if a = CBool True \<and> b = CBool True then CBool True else CNull)"
| "eval_bin OpOr a b = (if a = CBool True \<or> b = CBool True then CBool True
     else if a = CBool False \<and> b = CBool False then CBool False else CNull)"
| "eval_bin StrContainsLiteral a b = str_op (\<lambda>s p. CBool (str_contains s p)) a b"
| "eval_bin StrStripChars a b = (case a of CStr s \<Rightarrow> CStr (trim s) | _ \<Rightarrow> CNull)"

definition date_part :: "(int \<times> int \<times> int \<Rightarrow> int) \<Rightarrow> Cell \<Rightarrow> Cell" where
  "date_part f v = (case v of CDate d \<Rightarrow> CInt (f (civil_from_days d)) | _ \<Rightarrow> CNull)"

fun eval_un :: "UnOp \<Rightarrow> Cell \<Rightarrow> Cell" where
  "eval_un OpNot v = (case v of CBool b \<Rightarrow> CBool (\<not> b) | _ \<Rightarrow> CNull)"
| "eval_un StrToUppercase v = (case v of CStr s \<Rightarrow> CStr (map upper_char s) | _ \<Rightarrow> CNull)"
| "eval_un StrToLowercase v = (case v of CStr s \<Rightarrow> CStr (map down_char s) | _ \<Rightarrow> CNull)"
| "eval_un DtYear v = date_part fst v"
| "eval_un DtMonth v = date_part (fst \<circ> snd) v"
| "eval_un DtDay v = date_part (snd \<circ> snd) v"

fun eval_cast :: "DataType \<Rightarrow> Cell \<Rightarrow> Cell" where
  "eval_cast DTInt64 v = (case v of CInt i \<Rightarrow> CInt i | CStr s \<Rightarrow> (case parse_i64 s of Some i \<Rightarrow> CInt i | None \<Rightarrow> CNull)
     | CDate d \<Rightarrow> CInt d | CFloat x \<Rightarrow> (case f64_trunc x of Some i \<Rightarrow> CInt i | None \<Rightarrow> CNull) | _ \<Rightarrow> CNull)"
| "eval_cast DTString v = (case v of CStr s \<Rightarrow> CStr s | CInt i \<Rightarrow> CStr (show_int i) | _ \<Rightarrow> CNull)"
| "eval_cast DTDate v = (case v of CDate d \<Rightarrow> CDate d | CInt d \<Rightarrow> CDate d | _ \<Rightarrow> CNull)"
| "eval_cast DTFloat64 v = (case v of CFloat x \<Rightarrow> CFloat x | _ \<Rightarrow> CNull)"
| "eval_cast DTDatetimeMs v = (case v of CInt ms \<Rightarrow> CInt (ms div 86400000) | _ \<Rightarrow> CNull)"

fun eval_slice :: "Cell \<Rightarrow> Cell \<Rightarrow> Cell \<Rightarrow> Cell" where
  "eval_slice (CStr s) (CInt start) len =
     (let rest = (if 0 \<le> start then drop (nat start) s else drop (length s - nat (- start)) s)
      in CStr (case len of CInt l \<Rightarrow> take (nat l) rest | _ \<Rightarrow> rest))"
| "eval_slice _ _ _ = CNull"

fun eval_lit :: "LitValue \<Rightarrow> Cell" where
  "eval_lit (LitStr s) = CStr s"
| "eval_lit (LitNum x) = CFloat x"
| "eval_lit (LitBool b) = CBool b"
| "eval_lit (LitInt i) = CInt i"
| "eval_lit LitNull = CNull"

fun mem_eval :: "Expr \<Rightarrow> Cell row \<Rightarrow> Cell" where
  "mem_eval (ECol c) r = (case r c of Some v \<Rightarrow> v | None \<Rightarrow> CNull)"
| "mem_eval (ELit v) r = eval_lit v"
| "mem_eval (EBin bop a b) r = eval_bin bop (mem_eval a r) (mem_eval b r)"
| "mem_eval (EUn uop a) r = eval_un uop (mem_eval a r)"
| "mem_eval (ESlice a s l) r = eval_slice (mem_eval a r) (mem_eval s r) (mem_eval l r)"
| "mem_eval (EConcatStr es sep ignore_nulls) r =
     (let vs = map (\<lambda>e. cell_str (mem_eval e r)) es
      in if \<not> ignore_nulls \<and> None \<in> set vs then CNull else CStr (join sep (List.map_filter (\<lambda>v. v) vs)))"
| "mem_eval (EWhen c t e) r = (if mem_eval c r = CBool True then mem_eval t r else mem_eval e r)"
| "mem_eval (ECoalesce es) r =
     (case filter (\<lambda>v. v \<noteq> CNull) (map (\<lambda>e. mem_eval e r) es) of v # _ \<Rightarrow> v | [] \<Rightarrow> CNull)"
| "mem_eval (ECast e ty) r = eval_cast ty (mem_eval e r)"
| "mem_eval (EStrToDate e format strict) r =
     (case mem_eval e r of
        CStr s \<Rightarrow> (if format = ''%Y-%m-%d'' then (case parse_ymd s of Some d \<Rightarrow> CDate d | None \<Rightarrow> CNull) else CNull)
      | _ \<Rightarrow> CNull)"
| "mem_eval (EMap e f) r = (case f (cell_str (mem_eval e r)) of Inr s \<Rightarrow> str_cell s | Inl _ \<Rightarrow> CNull)"

section \<open>Frames\<close>

definition cell_of :: "string list \<Rightarrow> Cell list \<Rightarrow> string \<Rightarrow> Cell" where
  "cell_of names cs n = (case map_of (zip names cs) n of Some v \<Rightarrow> v | None \<Rightarrow> CNull)"

text \<open>A cell that is missing is null, so a row always has every column.\<close>

definition row_of :: "string list \<Rightarrow> Cell list \<Rightarrow> Cell row" where
  "row_of names cs n = (if n \<in> set names then Some (cell_of names cs n) else None)"

definition frame_rows :: "MemFrame \<Rightarrow> Cell row list" where
  "frame_rows df = map (row_of (fst df)) (snd df)"

definition key_cells :: "string list \<Rightarrow> string list \<Rightarrow> Cell list \<Rightarrow> Cell option list" where
  "key_cells names keys cs = key_tuple keys (row_of names cs)"

definition mem_select :: "MemFrame \<Rightarrow> string list \<Rightarrow> string + MemFrame" where
  "mem_select df ns =
     (if list_all (\<lambda>n. n \<in> set (fst df)) ns then Inr (ns, map (\<lambda>cs. map (cell_of (fst df) cs) ns) (snd df))
      else Inl ''column not found'')"

definition mem_project :: "MemLazy \<Rightarrow> (string \<times> Expr) list \<Rightarrow> MemLazy" where
  "mem_project lf es =
     (case lf of (err, names, rows) \<Rightarrow>
        let missing = list_ex (\<lambda>(n, e). \<not> expr_cols e \<subseteq> set names) es;
            err' = (if err \<noteq> None then err else if missing then Some ''column not found''
                    else if \<not> distinct (map fst es) then Some ''duplicate column'' else None)
        in (err', map fst es,
            if reads_column es then map (\<lambda>cs. map (\<lambda>(n, e). mem_eval e (row_of names cs)) es) rows
            else if es = [] then [] else [map (\<lambda>(n, e). mem_eval e Map.empty) es]))"

definition mem_filter :: "MemLazy \<Rightarrow> Expr \<Rightarrow> MemLazy" where
  "mem_filter lf e = (case lf of (err, names, rows) \<Rightarrow>
     (err, names, filter (\<lambda>cs. mem_eval e (row_of names cs) = CBool True) rows))"

definition mem_collect :: "MemLazy \<Rightarrow> string + MemFrame" where
  "mem_collect lf = (case lf of (Some e, _) \<Rightarrow> Inl e | (None, df) \<Rightarrow> Inr df)"

definition mem_concat :: "MemLazy list \<Rightarrow> string + MemLazy" where
  "mem_concat lfs =
     (case lfs of
        [] \<Rightarrow> Inl ''empty container given''
      | (err, names, rows) # rest \<Rightarrow>
          if list_all (\<lambda>lf. fst (snd lf) = names) rest
          then Inr (case List.find (\<lambda>lf. fst lf \<noteq> None) lfs of Some lf \<Rightarrow> fst lf | None \<Rightarrow> None,
                    names, concat (map (\<lambda>lf. snd (snd lf)) lfs))
          else Inl ''schema names differ'')"

definition mem_tuples :: "MemFrame \<Rightarrow> string list \<Rightarrow> Cell list list list" where
  "mem_tuples df keys =
     (let key = key_cells (fst df) keys
      in map (\<lambda>t. filter (\<lambda>cs. key cs = t) (snd df)) (first_seen (map key (snd df))))"

definition mem_drop :: "MemFrame \<Rightarrow> string list \<Rightarrow> MemFrame" where
  "mem_drop df ns =
     (let names = filter (\<lambda>n. n \<notin> set ns) (fst df)
      in (names, map (\<lambda>cs. map (cell_of (fst df) cs) names) (snd df)))"

text \<open>A file is the magic number and a number that stands for the frame.\<close>

definition mem_parquet :: "MemFrame \<Rightarrow> string" where
  "mem_parquet df = ''PAR1'' @ show_nat (to_nat df)"

definition read_parquet :: "string \<Rightarrow> MemFrame" where
  "read_parquet bytes = (case parse_nat (drop 4 bytes) of Some n \<Rightarrow> from_nat n | None \<Rightarrow> ([], []))"

text \<open>Comma-separated lines after a header; every column is text.\<close>

definition mem_csv :: "string \<Rightarrow> string + MemFrame" where
  "mem_csv bytes =
     (case filter (\<lambda>l. l \<noteq> []) (split_on (CHR 0x0A) bytes) of
        [] \<Rightarrow> Inl ''no data''
      | header # rest \<Rightarrow> Inr (split_on (CHR '','') header, map (\<lambda>l. map CStr (split_on (CHR '','') l)) rest))"

definition mem_column :: "MemFrame \<Rightarrow> string \<Rightarrow> string + Cell list" where
  "mem_column df n =
     (if n \<in> set (fst df) then Inr (map (\<lambda>cs. cell_of (fst df) cs n) (snd df)) else Inl ''column not found'')"

fun mem_floats :: "Cell list \<Rightarrow> string + f64 option list" where
  "mem_floats [] = Inr []"
| "mem_floats (CFloat x # vs) = map_sum id (\<lambda>r. Some x # r) (mem_floats vs)"
| "mem_floats (CNull # vs) = map_sum id (\<lambda>r. None # r) (mem_floats vs)"
| "mem_floats (_ # vs) = Inl ''cannot cast''"

definition mem_ops :: "(MemFrame, MemLazy, Cell list) FrameOps" where
  "mem_ops = \<lparr>df_column_names = fst, df_column = mem_column, df_height = (\<lambda>df. length (snd df)),
     df_select = mem_select, df_lazy = Pair None, lf_select = mem_project, lf_filter = mem_filter,
     lf_collect = mem_collect, lf_concat = mem_concat,
     df_unique_stable = (\<lambda>df keys. Inr (fst df, map hd (mem_tuples df keys))),
     df_partition_by_stable = (\<lambda>df keys. Inr (map (Pair (fst df)) (mem_tuples df keys))),
     df_drop_many = mem_drop, df_parquet = (\<lambda>df. Inr (mem_parquet df)), csv_read = mem_csv,
     col_null_count = (\<lambda>c. length (filter (\<lambda>v. v = CNull) c)),
     col_get = (\<lambda>c i. if i < length c then Inr (cell_any (c ! i)) else Inl ''out of bounds''),
     col_to_f64 = mem_floats, date_string = (\<lambda>d. Some (show_int d)), f64_opt_debug = (\<lambda>_. ''None'')\<rparr>"

definition mem_view :: "(MemFrame, MemLazy, Cell) FrameView" where
  "mem_view = \<lparr>fv_rows = frame_rows, fv_lazy = (\<lambda>lf. frame_rows (snd lf)), fv_eval = mem_eval,
     fv_holds = (\<lambda>v. v = CBool True), fv_any = cell_any, fv_parquet = (\<lambda>b. frame_rows (read_parquet b))\<rparr>"

section \<open>The laws\<close>

lemma row_of_map: "row_of ns (map f ns) = (\<lambda>n. if n \<in> set ns then Some (f n) else None)"
  by (auto simp: fun_eq_iff row_of_def cell_of_def map_of_zip_map)

lemma row_of_select:
  "set ns \<subseteq> set names \<Longrightarrow> row_of ns (map (cell_of names cs) ns) = row_of names cs |` set ns"
  by (auto simp: fun_eq_iff row_of_map restrict_map_def row_of_def)

lemma row_of_project: "row_of (map fst es) (map (\<lambda>(n, e). f e) es) = map_of (map (\<lambda>(n, e). (n, f e)) es)"
proof
  fix n
  have "zip (map fst es) (map (\<lambda>(n, e). f e) es) = map (\<lambda>(n, e). (n, f e)) es"
    by (induction es) auto
  moreover have "map_of (map (\<lambda>(n, e). (n, f e)) es) n = None \<longleftrightarrow> n \<notin> fst ` set es"
    by (induction es) auto
  ultimately show "row_of (map fst es) (map (\<lambda>(n, e). f e) es) n = map_of (map (\<lambda>(n, e). (n, f e)) es) n"
    by (auto simp: row_of_def cell_of_def split: option.splits)
qed

lemma mem_select_rows:
  "mem_select df ns = Inr df' \<Longrightarrow> fst df' = ns \<and> frame_rows df' = map (\<lambda>r. r |` set ns) (frame_rows df)"
  by (auto simp: mem_select_def frame_rows_def list_all_iff subset_iff row_of_select split: if_splits)

lemma mem_project_rows:
  "reads_column es \<Longrightarrow> frame_rows (snd (mem_project lf es)) = map (project mem_view es) (frame_rows (snd lf))"
  "es \<noteq> [] \<Longrightarrow> \<not> reads_column es \<Longrightarrow> frame_rows (snd (mem_project lf es)) = [project mem_view es Map.empty]"
  by (auto simp: mem_project_def frame_rows_def row_of_project project_def mem_view_def Let_def split: prod.split)

lemma mem_filter_rows:
  "frame_rows (snd (mem_filter lf e)) = filter (\<lambda>r. mem_eval e r = CBool True) (frame_rows (snd lf))"
  by (auto simp: mem_filter_def frame_rows_def filter_map o_def split: prod.split)

lemma mem_collect_rows: "mem_collect lf = Inr df \<Longrightarrow> snd lf = df"
  by (auto simp: mem_collect_def split: prod.splits option.splits)

lemma mem_concat_rows:
  assumes "mem_concat lfs = Inr lf"
  shows "frame_rows (snd lf) = concat (map (\<lambda>lf. frame_rows (snd lf)) lfs)"
proof -
  from assms obtain err names rows rest where l: "lfs = (err, names, rows) # rest"
    and n: "\<forall>x \<in> set rest. fst (snd x) = names"
    and s: "snd lf = (names, concat (map (\<lambda>lf. snd (snd lf)) lfs))"
    by (auto simp: mem_concat_def list_all_iff split: list.splits if_splits)
  from n l have "\<forall>x \<in> set lfs. frame_rows (snd x) = map (row_of names) (snd (snd x))"
    by (auto simp: frame_rows_def)
  with s show ?thesis by (simp add: frame_rows_def map_concat case_prod_beta o_def cong: map_cong)
qed

lemma mem_tuples_rows:
  "map (map (row_of (fst df))) (mem_tuples df keys) = group_rows keys (frame_rows df)"
  by (simp add: mem_tuples_def group_rows_def key_tuples_def rows_with_def frame_rows_def filter_map
      key_cells_def [abs_def] o_def Let_def)

lemma mem_tuples_nonempty: "g \<in> set (mem_tuples df keys) \<Longrightarrow> g \<noteq> []"
  by (auto simp: mem_tuples_def Let_def filter_empty_conv)

lemma mem_unique_rows:
  "frame_rows (fst df, map hd (mem_tuples df keys)) = first_rows keys (frame_rows df)"
proof -
  have "map (row_of (fst df)) (map hd (mem_tuples df keys)) = map hd (map (map (row_of (fst df))) (mem_tuples df keys))"
    using mem_tuples_nonempty [of _ df keys] by (simp add: hd_map)
  then show ?thesis by (simp only: frame_rows_def fst_conv snd_conv first_rows_def mem_tuples_rows [unfolded frame_rows_def])
qed

lemma mem_partition_rows:
  "map frame_rows (map (Pair (fst df)) (mem_tuples df keys)) = group_rows keys (frame_rows df)"
  using mem_tuples_rows [of df keys] by (simp add: frame_rows_def [abs_def] o_def)

lemma mem_drop_rows: "frame_rows (mem_drop df ns) = map (\<lambda>r. r |` (- set ns)) (frame_rows df)"
proof -
  have "row_of (filter (\<lambda>n. n \<notin> set ns) names) (map (cell_of names cs) (filter (\<lambda>n. n \<notin> set ns) names))
      = row_of names cs |` (- set ns)" for names cs
    by (auto simp: fun_eq_iff row_of_map restrict_map_def row_of_def)
  then show ?thesis by (simp add: mem_drop_def frame_rows_def Let_def)
qed

lemma mem_column_cells:
  assumes "mem_column df n = Inr c" and "i < length (frame_rows df)"
  shows "i < length c \<and> (frame_rows df ! i) n = Some (c ! i)"
  using assms by (auto simp: mem_column_def frame_rows_def row_of_def split: if_splits)

lemma frame_rows_length: "length (frame_rows df) = length (snd df)"
  by (simp add: frame_rows_def)

lemma read_parquet_back: "read_parquet (mem_parquet df) = df"
  by (simp add: read_parquet_def mem_parquet_def)

interpretation mem: row_frames mem_ops mem_view
proof
  fix df :: MemFrame and name c i
  assume "df_column mem_ops df name = Inr c" and "i < length (fv_rows mem_view df)"
  with mem_column_cells [of df name c i]
  show "\<exists>v. (fv_rows mem_view df ! i) name = Some v \<and> col_get mem_ops c i = Inr (fv_any mem_view v)"
    by (simp add: mem_ops_def mem_view_def)
qed (simp_all add: mem_ops_def mem_view_def mem_select_rows mem_project_rows [unfolded mem_view_def]
      mem_filter_rows mem_collect_rows mem_concat_rows mem_partition_rows mem_drop_rows
      mem_unique_rows read_parquet_back frame_rows_length del: map_map)

end
