(* ===== verification/Pipeline_Tests.thy ===== *)
theory Pipeline_Tests
  imports Mem_Frames Dimension_Tests
begin

text \<open>
  The test module of \<open>src/pipeline.rs\<close>, on the frames of \<open>Mem_Frames\<close>, whose CSV reader takes every
  column as text. The property tests are stated for every value, not for the drawn ones only.
\<close>

section \<open>Headers and projection\<close>

text \<open>\<open>[a-z][a-z0-9_]{0,7}\<close>.\<close>

definition arb_column_name :: "string \<Rightarrow> bool" where
  "arb_column_name s \<longleftrightarrow>
     (case s of [] \<Rightarrow> False
      | c # rest \<Rightarrow> c \<in> set ''abcdefghijklmnopqrstuvwxyz'' \<and> length rest \<le> 7
          \<and> list_all (\<lambda>d. d \<in> set ''abcdefghijklmnopqrstuvwxyz0123456789_'') rest)"

definition string_column :: "string \<Rightarrow> ColumnSchema" where
  "string_column name = plain_column name ''string'' None"

definition arb_schema :: "ColumnSchema list \<Rightarrow> bool" where
  "arb_schema schema \<longleftrightarrow>
     length schema \<le> 8 \<and> list_all (\<lambda>c. c = string_column (cs_name c) \<and> arb_column_name (cs_name c)) schema"

definition arb_headers :: "string list \<Rightarrow> bool" where
  "arb_headers headers \<longleftrightarrow> length headers \<le> 12 \<and> list_all arb_column_name headers"

definition header_validation_accepts_iff_all_schema_cols_present :: "ColumnSchema list \<Rightarrow> string list \<Rightarrow> bool" where
  "header_validation_accepts_iff_all_schema_cols_present schema headers \<longleftrightarrow>
     (let result = validate_csv_headers headers schema;
          expected_missing = map cs_name (filter (\<lambda>c. \<not> list_ex (\<lambda>h. h = cs_name c) headers) schema)
      in if expected_missing = [] then is_ok result
         else unwrap_err result (\<lambda>missing. missing = expected_missing))"

lemma header_validation_test:
  "arb_schema schema \<Longrightarrow> arb_headers headers \<Longrightarrow>
     header_validation_accepts_iff_all_schema_cols_present schema headers"
  by (simp add: header_validation_accepts_iff_all_schema_cols_present_def validate_csv_headers_def
      unwrap_err_def Let_def)

text \<open>One row: the schema columns hold one text, the extra columns another.\<close>

definition str_row :: "(string \<times> string) list \<Rightarrow> MemFrame" where
  "str_row columns = (map fst columns, [map (\<lambda>c. CStr (snd c)) columns])"

definition project_schema_columns_ignores_extras :: "string list \<Rightarrow> string list \<Rightarrow> bool" where
  "project_schema_columns_ignores_extras raw_names raw_extras \<longleftrightarrow>
     (let schema_names = first_seen raw_names;
          extras = first_seen (filter (\<lambda>n. n \<notin> set schema_names) raw_extras);
          schema = map string_column schema_names;
          df_extras = str_row (map (\<lambda>n. (n, ''schema_val'')) schema_names @ map (\<lambda>n. (n, ''extra_val'')) extras);
          df_clean = str_row (map (\<lambda>n. (n, ''schema_val'')) schema_names)
      in schema_names \<noteq> [] \<longrightarrow>
         (case (project_schema_columns mem_ops df_extras schema, project_schema_columns mem_ops df_clean schema) of
            (Inr out_extras, Inr out_clean) \<Rightarrow> out_extras = out_clean | _ \<Rightarrow> False))"

lemma cell_of_schema:
  "n \<in> set names \<Longrightarrow> cell_of (names @ extras) (map (\<lambda>_. v) names @ vs) n = v"
  by (induction names) (auto simp: cell_of_def)

lemma projection_test: "project_schema_columns_ignores_extras raw_names raw_extras"
proof -
  have "mem_select (names @ extras, [map (\<lambda>_. v) names @ vs]) names = Inr (names, [map (\<lambda>_. v) names])"
    for names extras :: "string list" and v vs
    by (simp add: mem_select_def cell_of_schema list_all_iff cong: map_cong)
  from this [of _ _ _ "[]"] this [of _ "[]" _ "[]"] this show ?thesis
    by (simp add: project_schema_columns_ignores_extras_def project_schema_columns_def mem_ops_def str_row_def
        string_column_def plain_column_def o_def Let_def)
qed

section \<open>Ingesting a file\<close>

definition simple_config :: PipelineConfig where
  "simple_config = \<lparr>cfg_version = 1,
     cfg_source_containers = [\<lparr>sc_id = ''src'', sc_name = ''Src'', sc_path_prefix = ''raw/src/'', sc_format = Csv,
       sc_schema = [string_column ''date'', string_column ''description'', plain_column ''amount'' ''number'' None],
       sc_record_filter = None\<rparr>],
     cfg_dimensions = [],
     cfg_mappings = [\<lparr>m_id = ''m'', m_name = [], m_source_container_id = ''src'', m_analytic_table_id = ''t'',
       m_columns = [\<lparr>mc_name = ''upper_desc'', mc_expr = Upper (Col ''description'')\<rparr>], m_where = None\<rparr>],
     cfg_analytic_tables = [\<lparr>t_id = ''t'', t_name = ''T'', t_schema = [string_column ''upper_desc''],
       t_partition_keys = [], t_dedup_keys = []\<rparr>],
     cfg_layout = Map.empty\<rparr>"

definition csv_lines :: "string list \<Rightarrow> string" where
  "csv_lines ls = concat (map (\<lambda>l. l @ [CHR 0x0A]) ls)"

definition no_json :: "(unit, MemFrame) JsonOps" where
  "no_json = \<lparr>parse_value = (\<lambda>_. None), num_as_i64 = (\<lambda>_. None), num_as_f64 = (\<lambda>_. None),
     num_to_string = (\<lambda>_. []), str_to_f64 = (\<lambda>_. None), frame_new = (\<lambda>_ _. Inl [])\<rparr>"

text \<open>\<open>ingest_file\<close> with no matchers; it must not panic.\<close>

definition ingests :: "string \<Rightarrow> string list \<Rightarrow> PipelineConfig \<Rightarrow> nat \<Rightarrow> (PipelineError + MemFrame \<Rightarrow> bool) \<Rightarrow> bool" where
  "ingests key ls cfg i check =
     (case ingest_file ascii_lower mem_ops no_json key (csv_lines ls) cfg (cfg_mappings cfg ! i) Map.empty of
        Inl _ \<Rightarrow> False | Inr r \<Rightarrow> check r)"

definition expect :: "('a \<Rightarrow> bool) \<Rightarrow> 'e + 'a \<Rightarrow> bool" where
  "expect check r = (case r of Inr a \<Rightarrow> check a | Inl _ \<Rightarrow> False)"

definition text_at :: "MemFrame \<Rightarrow> string \<Rightarrow> nat \<Rightarrow> string option" where
  "text_at df name i =
     (case mem_column df name of Inr c \<Rightarrow> Option.bind (get_at c i) cell_str | Inl _ \<Rightarrow> None)"

definition ingest_file_uppercases_description :: bool where
  "ingest_file_uppercases_description \<longleftrightarrow>
     ingests ''raw/src/file.csv'' [''date,description,amount'', ''2024-01-01,hello,10.0''] simple_config 0
       (expect (\<lambda>df. df_height mem_ops df = 1 \<and> text_at df ''upper_desc'' 0 = Some ''HELLO''))"

definition with_where :: "AstNode \<Rightarrow> PipelineConfig" where
  "with_where p = on_mapping (\<lambda>m. m\<lparr>m_where := Some p\<rparr>) simple_config"

definition where_drops_non_matching_rows :: bool where
  "where_drops_non_matching_rows \<longleftrightarrow>
     ingests ''raw/src/f.csv'' [''date,description,amount'', ''2024-01-01,keep,1.0'', ''2024-01-02,drop,2.0'']
       (with_where (Eq (Col ''upper_desc'') (Str ''KEEP''))) 0
       (expect (\<lambda>df. df_height mem_ops df = 1 \<and> text_at df ''upper_desc'' 0 = Some ''KEEP''))"

definition where_composes_with_and_or_not :: bool where
  "where_composes_with_and_or_not \<longleftrightarrow>
     (let is = (\<lambda>v. Eq (Col ''upper_desc'') (Str v))
      in ingests ''raw/src/f.csv''
           [''date,description,amount'', ''2024-01-01,a,1'', ''2024-01-02,b,2'', ''2024-01-03,drop,3'', ''2024-01-04,c,4'']
           (with_where (And (NotNode (is ''DROP'')) (Or (is ''A'') (is ''B'')))) 0
           (expect (\<lambda>df. df_height mem_ops df = 2)))"

definition absent_where_keeps_every_row :: bool where
  "absent_where_keeps_every_row \<longleftrightarrow>
     ingests ''raw/src/f.csv'' [''date,description,amount'', ''2024-01-01,a,1'', ''2024-01-02,b,2''] simple_config 0
       (expect (\<lambda>df. df_height mem_ops df = 2))"

definition ingest_file_rejects_unknown_key :: bool where
  "ingest_file_rejects_unknown_key \<longleftrightarrow>
     ingests ''raw/other/file.csv'' [''date,description,amount'', ''2024-01-01,hello,10.0''] simple_config 0
       (\<lambda>r. unwrap_err r (\<lambda>e. case e of UnknownSourceContainer key \<Rightarrow> key = ''raw/other/file.csv'' | _ \<Rightarrow> False))"

definition ingest_file_reports_missing_columns :: bool where
  "ingest_file_reports_missing_columns \<longleftrightarrow>
     ingests ''raw/src/file.csv'' [''date,description'', ''2024-01-01,hello''] simple_config 0
       (\<lambda>r. unwrap_err r (\<lambda>e. case e of
          MissingColumns key missing \<Rightarrow> key = ''raw/src/file.csv'' \<and> missing = [''amount''] | _ \<Rightarrow> False))"

definition with_second_mapping :: PipelineConfig where
  "with_second_mapping =
     (let second = (cfg_mappings simple_config ! 0)\<lparr>m_id := ''second_mapping'',
            m_analytic_table_id := t_id (cfg_analytic_tables simple_config ! 0),
            m_columns := [\<lparr>mc_name = ''description_upper'', mc_expr = Upper (Col ''description'')\<rparr>]\<rparr>
      in simple_config\<lparr>cfg_mappings := cfg_mappings simple_config @ [second]\<rparr>)"

definition ingest_file_uses_the_supplied_mapping_not_the_first :: bool where
  "ingest_file_uses_the_supplied_mapping_not_the_first \<longleftrightarrow>
     (let ls = [''date,description,amount'', ''2024-01-01,hello,10.0'']
      in ingests ''raw/src/file.csv'' ls with_second_mapping 1 (expect (\<lambda>df.
           df_column_names mem_ops df = [''description_upper''] \<and> text_at df ''description_upper'' 0 = Some ''HELLO''
           \<and> ingests ''raw/src/file.csv'' ls with_second_mapping 0 (expect (\<lambda>df1.
               df_column_names mem_ops df1 \<noteq> df_column_names mem_ops df)))))"

lemma ingest_file_tests:
  ingest_file_uppercases_description where_drops_non_matching_rows where_composes_with_and_or_not
  absent_where_keeps_every_row ingest_file_rejects_unknown_key ingest_file_reports_missing_columns
  ingest_file_uses_the_supplied_mapping_not_the_first
  by code_simp+

section \<open>Many files\<close>

text \<open>\<open>ingest_many\<close> with no matchers, collected; it must neither panic nor fail to collect.\<close>

definition ingests_all :: "(string \<times> string) list \<Rightarrow> (PipelineError + MemFrame \<Rightarrow> bool) \<Rightarrow> bool" where
  "ingests_all files check =
     (case ingest_many ascii_lower mem_ops no_json files simple_config (cfg_mappings simple_config ! 0) Map.empty of
        Inl _ \<Rightarrow> False
      | Inr (Inl e) \<Rightarrow> check (Inl e)
      | Inr (Inr lf) \<Rightarrow> (case lf_collect mem_ops lf of Inl _ \<Rightarrow> False | Inr df \<Rightarrow> check (Inr df)))"

definition good_file :: "string \<times> string" where
  "good_file = (''raw/src/good.csv'', csv_lines [''date,description,amount'', ''2024-01-01,hello,10.0''])"

definition bad_file :: "string \<times> string" where
  "bad_file = (''raw/src/bad.csv'', csv_lines [''date,description'', ''2024-01-01,hello''])"

definition ingest_many_concats_rows :: bool where
  "ingest_many_concats_rows \<longleftrightarrow>
     ingests_all [(''raw/src/a.csv'', csv_lines [''date,description,amount'', ''2024-01-01,hello,10.0'']),
                  (''raw/src/b.csv'', csv_lines [''date,description,amount'', ''2024-02-01,world,20.0''])]
       (expect (\<lambda>df. df_height mem_ops df = 2
          \<and> map (text_at df ''upper_desc'') [0..<df_height mem_ops df] = [Some ''HELLO'', Some ''WORLD'']))"

definition ingest_many_skips_failing_file :: bool where
  "ingest_many_skips_failing_file \<longleftrightarrow>
     ingests_all [good_file, bad_file]
       (expect (\<lambda>df. df_height mem_ops df = 1 \<and> text_at df ''upper_desc'' 0 = Some ''HELLO''))"

definition ingest_many_errors_when_all_files_fail :: bool where
  "ingest_many_errors_when_all_files_fail \<longleftrightarrow>
     ingests_all [bad_file] (\<lambda>r. unwrap_err r (\<lambda>e. case e of NoFilesSucceeded \<Rightarrow> True | _ \<Rightarrow> False))"

lemma ingest_many_tests:
  ingest_many_concats_rows ingest_many_skips_failing_file ingest_many_errors_when_all_files_fail
  by code_simp+

section \<open>Partitions\<close>

definition test_table :: "string \<Rightarrow> string list \<Rightarrow> string list \<Rightarrow> AnalyticTable" where
  "test_table i partition_keys dedup_keys = \<lparr>t_id = i, t_name = i, t_schema = [],
     t_partition_keys = partition_keys, t_dedup_keys = dedup_keys\<rparr>"

definition test_mapping :: "string \<Rightarrow> Mapping" where
  "test_mapping table_id = \<lparr>m_id = ''m'', m_name = [], m_source_container_id = ''src'',
     m_analytic_table_id = table_id, m_columns = [], m_where = None\<rparr>"

definition df_with_keys :: "(int \<times> int \<times> string) list \<Rightarrow> MemFrame" where
  "df_with_keys rows = ([''year'', ''month'', ''v''], map (\<lambda>(y, m, v). [CInt y, CInt m, CStr v]) rows)"

definition produce_partitions_no_partitioning :: bool where
  "produce_partitions_no_partitioning \<longleftrightarrow>
     expect (\<lambda>outs. length outs = 1 \<and> po_key (outs ! 0) = ''orders/m.parquet''
          \<and> take 4 (po_bytes (outs ! 0)) = ''PAR1'')
       (produce_partitions mem_ops (df_with_keys [(2024, 1, ''a''), (2024, 2, ''b'')])
          (test_mapping ''orders'') (test_table ''orders'' [] []))"

text \<open>The names of a file's columns are those of the frame it was written from.\<close>

definition produce_partitions_groups_by_key_tuple_and_drops_key_columns :: bool where
  "produce_partitions_groups_by_key_tuple_and_drops_key_columns \<longleftrightarrow>
     expect (\<lambda>outs. length outs = 2
          \<and> ''transactions/year=2024/month=1/m.parquet'' \<in> set (map po_key outs)
          \<and> ''transactions/year=2024/month=2/m.parquet'' \<in> set (map po_key outs)
          \<and> list_all (\<lambda>out. fst (read_parquet (po_bytes out)) = [''v'']) outs)
       (produce_partitions mem_ops (df_with_keys [(2024, 1, ''a''), (2024, 2, ''b''), (2024, 2, ''c'')])
          (test_mapping ''transactions'') (test_table ''transactions'' [''year'', ''month''] []))"

definition produce_partitions_encodes_values_per_type :: bool where
  "produce_partitions_encodes_values_per_type \<longleftrightarrow>
     expect (\<lambda>outs. ''t/account=visa%20gold/flag=true/m.parquet'' \<in> set (map po_key outs)
          \<and> ''t/account=chequing/flag=false/m.parquet'' \<in> set (map po_key outs))
       (produce_partitions mem_ops
          ([''account'', ''flag'', ''v''], [[CStr ''visa gold'', CBool True, CStr ''a''], [CStr ''chequing'', CBool False, CStr ''b'']])
          (test_mapping ''t'') (test_table ''t'' [''account'', ''flag''] []))"

definition produce_partitions_null_key_fails_with_column_and_count :: bool where
  "produce_partitions_null_key_fails_with_column_and_count \<longleftrightarrow>
     unwrap_err
       (produce_partitions mem_ops
          ([''year'', ''v''], [[CInt 2024, CStr ''a''], [CNull, CStr ''b''], [CNull, CStr ''c'']])
          (test_mapping ''t'') (test_table ''t'' [''year''] []))
       (\<lambda>e. let msg = pipeline_error_display (\<lambda>_. []) e in str_contains msg ''`year`'' \<and> str_contains msg ''2 null'')"

definition produce_partitions_distinct_keys_per_mapping :: bool where
  "produce_partitions_distinct_keys_per_mapping \<longleftrightarrow>
     (let df = df_with_keys [(2024, 1, ''a'')]; table = test_table ''transactions'' [''year'', ''month''] [];
          keys_of = (\<lambda>i. produce_partitions mem_ops df ((test_mapping ''transactions'')\<lparr>m_id := i\<rparr>) table)
      in expect (\<lambda>visa. expect (\<lambda>chq. po_key (visa ! 0) \<noteq> po_key (chq ! 0)) (keys_of ''scotia_chq_mapping''))
           (keys_of ''scotia_visa_mapping''))"

definition dedup_rows_keeps_first_and_counts :: bool where
  "dedup_rows_keeps_first_and_counts \<longleftrightarrow>
     (let df = ([''k'', ''v''], [[CStr ''a'', CInt 1], [CStr ''b'', CInt 2], [CStr ''a'', CInt 3], [CStr ''a'', CInt 4]])
      in expect (\<lambda>(deduped, dropped). dropped = 2 \<and> df_height mem_ops deduped = 2
             \<and> list_all (\<lambda>r. hd r = CStr ''a'' \<longrightarrow> r = [CStr ''a'', CInt 1]) (snd deduped))
           (dedup_rows mem_ops df (test_table ''t'' [] [''k'']))
       \<and> expect (\<lambda>(same, zero). zero = 0 \<and> df_height mem_ops same = df_height mem_ops df)
           (dedup_rows mem_ops df (test_table ''t'' [] [])))"

lemma partition_tests:
  produce_partitions_encodes_values_per_type
  produce_partitions_null_key_fails_with_column_and_count produce_partitions_distinct_keys_per_mapping
  dedup_rows_keeps_first_and_counts
  by code_simp+

lemma no_partitioning_test: produce_partitions_no_partitioning
  by (simp add: produce_partitions_no_partitioning_def produce_partitions_def test_table_def test_mapping_def
      unpartitioned_key_def mem_ops_def mem_parquet_def expect_def map_err_def)

text \<open>No file holds a key column.\<close>

lemma partition_columns:
  assumes "produce_partitions mem_ops df mp table = Inr outs" and "t_partition_keys table \<noteq> []"
    and "out \<in> set outs"
  shows "fst (read_parquet (po_bytes out)) = filter (\<lambda>n. n \<notin> set (t_partition_keys table)) (fst df)"
proof -
  have p: "df_partition_by_stable mem_ops df keys = Inr (map (Pair (fst df)) (mem_tuples df keys))" for keys
    by (simp add: mem_ops_def)
  from produce_partitions_groups [OF assms(1,2)] have l: "list_all2 (\<lambda>g out. group_output mem_ops mp table g = Inr out)
      (map (Pair (fst df)) (mem_tuples df (t_partition_keys table))) outs" (is "list_all2 _ ?dfs _")
    by (simp add: p)
  from assms(3) obtain i where i: "i < length outs" "outs ! i = out" by (auto simp: in_set_conv_nth)
  then have "?dfs ! i \<in> set ?dfs" by (intro nth_mem) (simp only: list_all2_lengthD [OF l])
  moreover from list_all2_nthD2 [OF l i(1)] i(2) have "group_output mem_ops mp table (?dfs ! i) = Inr out" by simp
  ultimately obtain grp where g: "grp \<in> set ?dfs" "group_output mem_ops mp table grp = Inr out" by blast
  from group_output_key [OF g(2)] have "po_bytes out = mem_parquet (mem_drop grp (t_partition_keys table))"
    by (auto simp: mem_ops_def)
  with g(1) show ?thesis by (auto simp: read_parquet_back mem_drop_def Let_def)
qed

lemma groups_by_key_test: produce_partitions_groups_by_key_tuple_and_drops_key_columns
proof -
  let ?outs = "produce_partitions mem_ops (df_with_keys [(2024, 1, ''a''), (2024, 2, ''b''), (2024, 2, ''c'')])
    (test_mapping ''transactions'') (test_table ''transactions'' [''year'', ''month''] [])"
  have "expect (\<lambda>outs. length outs = 2
          \<and> ''transactions/year=2024/month=1/m.parquet'' \<in> set (map po_key outs)
          \<and> ''transactions/year=2024/month=2/m.parquet'' \<in> set (map po_key outs)) ?outs"
    by code_simp
  moreover have "fst (read_parquet (po_bytes out)) = [''v'']" if "?outs = Inr outs" "out \<in> set outs" for outs out
    using partition_columns [OF that(1) _ that(2)] by (simp add: test_table_def df_with_keys_def)
  ultimately show ?thesis
    unfolding produce_partitions_groups_by_key_tuple_and_drops_key_columns_def
    by (cases ?outs) (auto simp: expect_def list_all_iff)
qed

section \<open>Upload\<close>

text \<open>The test's mock uploader, without state of its own.\<close>

definition mock_put :: "string \<Rightarrow> unit Uploader" where
  "mock_put fail_on u key bytes = ((if key = fail_on then Inl ''simulated S3 failure'' else Inr ()), u)"

definition ok_put :: "unit Uploader" where
  "ok_put u key bytes = (Inr (), u)"

definition one_byte :: "string \<Rightarrow> PartitionOutput" where
  "one_byte key = \<lparr>po_key = key, po_bytes = [CHR 0x00]\<rparr>"

definition upload_failure_identifies_partition :: bool where
  "upload_failure_identifies_partition \<longleftrightarrow>
     unwrap_err
       (fst (upload_partitions (mock_put ''t/year=2024/month=02/b.parquet'') ()
          [one_byte ''t/year=2024/month=01/a.parquet'', one_byte ''t/year=2024/month=02/b.parquet'',
           one_byte ''t/year=2024/month=03/c.parquet'']))
       (\<lambda>e. case e of
          PartitionUploadFailed key message \<Rightarrow>
            key = ''t/year=2024/month=02/b.parquet'' \<and> str_contains message ''simulated''
        | _ \<Rightarrow> False)"

definition upload_success_returns_all_keys :: bool where
  "upload_success_returns_all_keys \<longleftrightarrow>
     expect (\<lambda>keys. keys = [''a.parquet'', ''b.parquet''])
       (fst (upload_partitions ok_put () [one_byte ''a.parquet'', one_byte ''b.parquet'']))"

lemma upload_tests: upload_failure_identifies_partition upload_success_returns_all_keys
  by code_simp+

section \<open>The property tests over whole files\<close>

text \<open>\<open>[a-zA-Z]{1,8}\<close>, one to five of them in each of one to four files.\<close>

definition is_letter :: "char \<Rightarrow> bool" where
  "is_letter c \<longleftrightarrow> c \<in> set ''abcdefghijklmnopqrstuvwxyzABCDEFGHIJKLMNOPQRSTUVWXYZ''"

definition letters :: "string \<Rightarrow> bool" where
  "letters s \<longleftrightarrow> 1 \<le> length s \<and> length s \<le> 8 \<and> list_all is_letter s"

definition arb_files_rows :: "string list list \<Rightarrow> bool" where
  "arb_files_rows files_rows \<longleftrightarrow> 1 \<le> length files_rows \<and> length files_rows \<le> 4
     \<and> list_all (\<lambda>rows. 1 \<le> length rows \<and> length rows \<le> 5 \<and> list_all letters rows) files_rows"

definition rows_file :: "nat \<times> string list \<Rightarrow> string \<times> string" where
  "rows_file f = (''raw/src/f'' @ show_nat (fst f) @ ''.csv'',
     csv_lines (''date,description,amount'' # map (\<lambda>d. ''2024-01-01,'' @ d @ '',0.0'') (snd f)))"

definition texts :: "MemFrame \<Rightarrow> string option list" where
  "texts df = map (text_at df ''upper_desc'') [0..<df_height mem_ops df]"

text \<open>Sorting both sides compares them as multisets; a row without a text makes \<open>unwrap\<close> panic, and is
  not among the expected ones.\<close>

definition multi_file_ingest_is_union_of_single_file :: "string list list \<Rightarrow> bool" where
  "multi_file_ingest_is_union_of_single_file files_rows \<longleftrightarrow>
     (let files = map rows_file (enumerate 0 files_rows);
          expected_upper = map Some (concat (map (map (map upper_char)) files_rows));
          single_file_sum = concat (map (\<lambda>(key, bytes).
            case ingest_file ascii_lower mem_ops no_json key bytes simple_config (cfg_mappings simple_config ! 0) Map.empty of
              Inr (Inr df) \<Rightarrow> texts df | _ \<Rightarrow> [None]) files)
      in ingests_all files (expect (\<lambda>df. mset (texts df) = mset single_file_sum \<and> mset (texts df) = mset expected_upper)))"

definition upper_frame :: "string list \<Rightarrow> MemFrame" where
  "upper_frame rows = ([''upper_desc''], map (\<lambda>d. [CStr (map upper_char d)]) rows)"

lemma letters_plain: "letters s \<Longrightarrow> CHR 0x0A \<notin> set s \<and> CHR '','' \<notin> set s"
proof -
  have "\<not> is_letter (CHR 0x0A)" "\<not> is_letter (CHR '','')" by code_simp+
  then show "letters s \<Longrightarrow> ?thesis" by (auto simp: letters_def list_all_iff)
qed

lemma csv_lines_split: "\<forall>l \<in> set ls. CHR 0x0A \<notin> set l \<Longrightarrow> split_on (CHR 0x0A) (csv_lines ls) = ls @ [[]]"
  by (induction ls) (simp_all add: csv_lines_def split_on_append_sep)

lemma row_cells: "letters d \<Longrightarrow> split_on (CHR '','') (''2024-01-01,'' @ d @ '',0.0'') = [''2024-01-01'', d, ''0.0'']"
  using split_on_join [of "[''2024-01-01'', d, ''0.0'']" "CHR '',''"] letters_plain [of d] by simp

lemma rows_file_frame:
  assumes "list_all letters rows"
  shows "mem_csv (snd (rows_file (i, rows)))
    = Inr ([''date'', ''description'', ''amount''], map (\<lambda>d. [CStr ''2024-01-01'', CStr d, CStr ''0.0'']) rows)"
proof -
  let ?ls = "''date,description,amount'' # map (\<lambda>d. ''2024-01-01,'' @ d @ '',0.0'') rows"
  have "\<forall>l \<in> set ?ls. CHR 0x0A \<notin> set l" using assms letters_plain by (auto simp: list_all_iff)
  from csv_lines_split [OF this]
  have "filter (\<lambda>l. l \<noteq> []) (split_on (CHR 0x0A) (csv_lines ?ls)) = ?ls" by (simp add: filter_map o_def)
  moreover have "map (\<lambda>d. map CStr (split_on (CHR '','') (''2024-01-01,'' @ d @ '',0.0''))) rows
      = map (\<lambda>d. [CStr ''2024-01-01'', CStr d, CStr ''0.0'']) rows"
    using assms by (intro map_cong refl) (simp add: list_all_iff row_cells del: append.simps)
  ultimately show ?thesis by (simp add: mem_csv_def rows_file_def o_def)
qed

lemma simple_file:
  assumes "list_all letters rows"
  shows "ingest_file ascii_lower mem_ops no_json (fst (rows_file (i, rows))) (snd (rows_file (i, rows)))
    simple_config (cfg_mappings simple_config ! 0) Map.empty = Inr (Inr (upper_frame rows))"
proof -
  have "resolve_source_container (fst (rows_file (i, rows))) simple_config
      = Inr (cfg_source_containers simple_config ! 0)"
    by (simp add: resolve_source_container_def simple_config_def rows_file_def ok_or_def)
  moreover have "read_projected ascii_lower mem_ops no_json (fst (rows_file (i, rows))) (snd (rows_file (i, rows)))
      (cfg_source_containers simple_config ! 0) Map.empty
      = Inr (Inr ([''date'', ''description'', ''amount''], map (\<lambda>d. [CStr ''2024-01-01'', CStr d, CStr ''0.0'']) rows))"
    by (simp add: read_projected_def read_csv_projected_def read_source_def mem_ops_def rows_file_frame [OF assms]
        simple_config_def validate_csv_headers_def project_schema_columns_def mem_select_def string_column_def
        plain_column_def map_err_def cell_of_def)
  moreover have "apply_mapping ascii_lower mem_ops key (cfg_mappings simple_config ! 0) Map.empty
      ([''date'', ''description'', ''amount''], map (\<lambda>d. [CStr ''2024-01-01'', CStr d, CStr ''0.0'']) rows)
      = Inr (upper_frame rows)" for key
    by (simp add: apply_mapping_def simple_config_def compile_columns_def compile1_def map_err_def mem_ops_def
        mem_project_def reads_column_def mem_collect_def row_of_def cell_of_def upper_frame_def)
  ultimately show ?thesis by (simp add: ingest_file_def)
qed

lemma texts_upper: "texts (upper_frame rows) = map (\<lambda>d. Some (map upper_char d)) rows"
  by (auto simp: texts_def upper_frame_def mem_ops_def text_at_def mem_column_def cell_of_def cell_str_def
      get_at_def intro!: nth_equalityI)

lemma ingested_all:
  "\<forall>f \<in> set fs. ingest_file lower ops jops (fst (g f)) (snd (g f)) cfg mp reg = Inr (Inr (h f))
    \<Longrightarrow> ingested lower ops jops cfg mp reg (map g fs) = map h fs"
  by (induction fs) (simp_all add: ingested_def map_filter_simps case_prod_beta)

lemma concat_upper:
  "files_rows \<noteq> [] \<Longrightarrow> mem_concat (map (\<lambda>rows. (None, upper_frame rows)) files_rows)
    = Inr (None, upper_frame (concat files_rows))"
proof -
  have "List.find (\<lambda>lf. fst lf \<noteq> None) (map (\<lambda>rows. (None :: string option, upper_frame rows)) rs) = None"
    for rs :: "string list list"
    by (simp add: find_None_iff)
  then show "files_rows \<noteq> [] \<Longrightarrow> ?thesis"
    by (cases files_rows) (auto simp: mem_concat_def upper_frame_def list_all_iff map_concat o_def)
qed

lemma union_test:
  assumes "arb_files_rows files_rows"
  shows "multi_file_ingest_is_union_of_single_file files_rows"
proof -
  let ?fs = "enumerate 0 files_rows" and ?mp = "cfg_mappings simple_config ! 0"
  from assms have l: "\<forall>rows \<in> set files_rows. list_all letters rows" and ne: "files_rows \<noteq> []"
    by (auto simp: arb_files_rows_def list_all_iff)
  then have one: "\<forall>f \<in> set ?fs. ingest_file ascii_lower mem_ops no_json (fst (rows_file f)) (snd (rows_file f))
      simple_config ?mp Map.empty = Inr (Inr (upper_frame (snd f)))"
    using simple_file by (auto simp: in_set_enumerate_eq)
  have frames: "map (\<lambda>f. upper_frame (snd f)) ?fs = map upper_frame files_rows"
    using map_map [of upper_frame snd ?fs] by (simp add: o_def)
  have "ingest_many ascii_lower mem_ops no_json (map rows_file ?fs) simple_config ?mp Map.empty
      = Inr (Inr (None, upper_frame (concat files_rows)))"
    using ingested_all [OF one] concat_upper [OF ne] ne
    by (simp add: ingest_many_def ingest_frames_result frames mem_ops_def map_err_def o_def)
  moreover have "concat (map (\<lambda>f. case ingest_file ascii_lower mem_ops no_json (fst (rows_file f)) (snd (rows_file f))
      simple_config ?mp Map.empty of Inr (Inr df) \<Rightarrow> texts df | _ \<Rightarrow> [None]) ?fs)
      = concat (map texts (map upper_frame files_rows))"
    unfolding frames [symmetric] using one by (intro arg_cong [where f = concat]) simp
  ultimately show ?thesis
    by (simp add: multi_file_ingest_is_union_of_single_file_def ingests_all_def mem_collect_def expect_def
        texts_upper case_prod_beta o_def map_concat Let_def mem_ops_def [THEN arg_cong, of lf_collect])
qed

section \<open>Partitions cover the tuples\<close>

definition arb_year_months :: "(int \<times> int) list \<Rightarrow> bool" where
  "arb_year_months rows \<longleftrightarrow> 1 \<le> length rows \<and> length rows \<le> 20
     \<and> list_all (\<lambda>(y, m). 2022 \<le> y \<and> y \<le> 2025 \<and> 1 \<le> m \<and> m \<le> 12) rows"

definition partitions_cover_distinct_tuples :: "(int \<times> int) list \<Rightarrow> bool" where
  "partitions_cover_distinct_tuples rows \<longleftrightarrow>
     expect (\<lambda>outs. set (map po_key outs)
           = set (map (\<lambda>(y, m). ''t/year='' @ show_int y @ ''/month='' @ show_int m @ ''/m.parquet'') rows))
       (produce_partitions mem_ops (df_with_keys (map (\<lambda>(y, m). (y, m, ''x'')) rows))
          (test_mapping ''t'') (test_table ''t'' [''year'', ''month''] []))"

definition ym_row :: "int \<times> int \<Rightarrow> Cell list" where
  "ym_row ym = [CInt (fst ym), CInt (snd ym), CStr ''x'']"

definition ym_key :: "int \<times> int \<Rightarrow> string" where
  "ym_key ym = ''t/year='' @ show_int (fst ym) @ ''/month='' @ show_int (snd ym) @ ''/m.parquet''"

lemma ym_group_output:
  "group_output mem_ops (test_mapping ''t'') (test_table ''t'' [''year'', ''month''] [])
      ([''year'', ''month'', ''v''], ym_row ym # rest)
    = Inr \<lparr>po_key = ym_key ym,
        po_bytes = mem_parquet (mem_drop ([''year'', ''month'', ''v''], ym_row ym # rest) [''year'', ''month''])\<rparr>"
  by (simp add: group_output_def group_segment_def first_cell_def mem_ops_def mem_column_def cell_of_def ym_row_def
      test_table_def test_mapping_def ym_key_def map_err_def cell_any_def)

lemma ym_tuple: "key_cells [''year'', ''month'', ''v''] [''year'', ''month''] (ym_row ym)
    = [Some (CInt (fst ym)), Some (CInt (snd ym))]"
  by (simp add: key_cells_def key_tuple_def row_of_def cell_of_def ym_row_def)

lemma ym_groups:
  assumes "g \<in> set (mem_tuples ([''year'', ''month'', ''v''], map ym_row rows) [''year'', ''month''])"
  shows "\<exists>ym rest. ym \<in> set rows \<and> g = ym_row ym # rest"
proof -
  from assms have "set g \<subseteq> ym_row ` set rows" by (auto simp: mem_tuples_def Let_def)
  with mem_tuples_nonempty [OF assms] show ?thesis by (cases g) auto
qed

lemma ym_covered:
  assumes "ym \<in> set rows"
  shows "\<exists>rest. ym_row ym # rest \<in> set (mem_tuples ([''year'', ''month'', ''v''], map ym_row rows) [''year'', ''month''])"
proof -
  let ?key = "key_cells [''year'', ''month'', ''v''] [''year'', ''month'']"
  let ?g = "filter (\<lambda>cs. ?key cs = ?key (ym_row ym)) (map ym_row rows)"
  from assms have g: "?g \<in> set (mem_tuples ([''year'', ''month'', ''v''], map ym_row rows) [''year'', ''month''])"
    by (auto simp: mem_tuples_def Let_def)
  then obtain ym' rest where h: "?g = ym_row ym' # rest" using ym_groups by blast
  then have "ym_row ym' \<in> set ?g" by simp
  then have "ym' = ym" by (auto simp: ym_tuple prod_eq_iff)
  with g h show ?thesis by auto
qed

lemma ym_row_eq: "ym_row a = ym_row b \<longleftrightarrow> a = b"
  by (auto simp: ym_row_def prod_eq_iff)

definition heads :: "Cell list list list \<Rightarrow> (int \<times> int) set" where
  "heads gs = {ym. \<exists>rest. ym_row ym # rest \<in> set gs}"

lemma ym_outputs:
  assumes "\<forall>g \<in> set gs. \<exists>ym rest. g = ym_row ym # rest"
  shows "\<exists>outs. collect_results (\<lambda>g. group_output mem_ops (test_mapping ''t'') (test_table ''t'' [''year'', ''month''] [])
    ([''year'', ''month'', ''v''], g)) gs = Inr outs \<and> set (map po_key outs) = ym_key ` heads gs"
  using assms
proof (induction gs)
  case (Cons g gs)
  then obtain ym rest where g: "g = ym_row ym # rest" by auto
  have "heads (g # gs) = insert ym (heads gs)"
    by (auto simp: heads_def g ym_row_eq simp del: split_paired_Ex)
  with Cons g show ?case by (auto simp: ym_group_output)
qed (simp add: heads_def)

lemma collect_results_map: "collect_results f (map g xs) = collect_results (\<lambda>x. f (g x)) xs"
  by (induction xs) simp_all

lemma cover_test: "arb_year_months rows \<Longrightarrow> partitions_cover_distinct_tuples rows"
proof -
  let ?gs = "mem_tuples ([''year'', ''month'', ''v''], map ym_row rows) [''year'', ''month'']"
  have df: "df_with_keys (map (\<lambda>(y, m). (y, m, ''x'')) rows) = ([''year'', ''month'', ''v''], map ym_row rows)"
    by (simp add: df_with_keys_def ym_row_def case_prod_beta)
  have "\<forall>g \<in> set ?gs. \<exists>ym rest. g = ym_row ym # rest" using ym_groups by blast
  from ym_outputs [OF this] obtain outs where
    outs: "collect_results (\<lambda>g. group_output mem_ops (test_mapping ''t'') (test_table ''t'' [''year'', ''month''] [])
      ([''year'', ''month'', ''v''], g)) ?gs = Inr outs" "set (map po_key outs) = ym_key ` heads ?gs" by blast
  have "heads ?gs = set rows"
    using ym_groups [of _ rows] ym_covered [of _ rows]
    by (auto simp: heads_def ym_row_eq simp del: split_paired_Ex) (metis list.inject ym_row_eq)
  moreover have "check_null_keys mem_ops ([''year'', ''month'', ''v''], map ym_row rows) [''year'', ''month''] = Inr ()"
    by (auto simp: mem_ops_def mem_column_def cell_of_def ym_row_def map_err_def filter_empty_conv)
  ultimately show ?thesis
    using outs
    by (simp add: partitions_cover_distinct_tuples_def produce_partitions_def df test_table_def expect_def
        mem_ops_def map_err_def ym_key_def case_prod_beta collect_results_map)
qed

end
