(* ===== verification/Pipeline_Samples.thy ===== *)
theory Pipeline_Samples
  imports Pipeline_Rows Pipeline_Tests Job_Properties
begin

text \<open>
  The statements of \<open>Pipeline_Rows\<close> on the typed frames of \<open>Mem_Frames\<close>: a file, a mapping of
  constants, and a mapping's whole task with duplicates and partitions.
\<close>

definition three_rows :: "string \<times> string" where
  "three_rows = (''raw/src/c.csv'', csv_lines [''date,description,amount'', ''2024-01-01,hello,1'',
     ''2024-01-02,world,2'', ''2024-01-03,hello,3''])"

definition partitioned_config :: PipelineConfig where
  "partitioned_config = on_table (\<lambda>t. t\<lparr>t_partition_keys := [''upper_desc''], t_dedup_keys := [''upper_desc'']\<rparr>)
     simple_config"

definition constant_config :: PipelineConfig where
  "constant_config = on_mapping (\<lambda>m. m\<lparr>m_columns := [\<lparr>mc_name = ''upper_desc'', mc_expr = Str ''X''\<rparr>]\<rparr>) simple_config"

definition rows_jb :: "(MemStore, MemFrame, MemLazy, Cell list, unit) JobOps" where
  "rows_jb = \<lparr>jb_s3 = mem_s3, jb_js = demo_serde, jb_pg = demo_pg ''good'', jb_frames = mem_ops,
     jb_json = no_json, jb_lower = ascii_lower, jb_debug_list = join '', '',
     jb_parse_config = (\<lambda>s. Inr simple_config), jb_cancel = (\<lambda>w. (False, w)), jb_progress = (\<lambda>p w. w),
     jb_now = (\<lambda>w. ''now''), jb_join_error = ''panic'', jb_order = (\<lambda>ps. ps)\<rparr>"

definition sample_ingest :: "PipelineConfig \<Rightarrow> panic + (PipelineError + MemFrame)" where
  "sample_ingest cfg = ingest_file ascii_lower mem_ops no_json (fst three_rows) (snd three_rows) cfg
     (cfg_mappings cfg ! 0) Map.empty"

definition sample_task :: "panic + (string + PartitionOutput list \<times> nat)" where
  "sample_task = mapping_task rows_jb partitioned_config Map.empty ''m'' ''t'' [good_file, bad_file, three_rows]"

lemma sample_ingest_frame: "expect (expect (\<lambda>df. length (snd df) = 3)) (sample_ingest simple_config)"
  by code_simp

lemma sample_ingest_constant: "expect (expect (\<lambda>df. length (snd df) = 1)) (sample_ingest constant_config)"
  by code_simp

lemma sample_task_result: "expect (expect (\<lambda>(parts, dropped). length parts = 2 \<and> dropped = 2)) sample_task"
  by code_simp

lemma constant_config_valid: "validate constant_config = Inr ()"
  by code_simp

lemma expect_Inr: "expect check r \<Longrightarrow> \<exists>a. r = Inr a \<and> check a"
  by (cases r) (auto simp: expect_def)

text \<open>The same file under a mapping that reads it, and under one of constants.\<close>

lemma sample_source: "resolve_source_container (fst three_rows) simple_config = Inr (cfg_source_containers simple_config ! 0)"
  by (simp add: resolve_source_container_def simple_config_def three_rows_def ok_or_def)

lemma sample_source_constant:
  "resolve_source_container (fst three_rows) constant_config = Inr (cfg_source_containers simple_config ! 0)"
  using sample_source
  by (simp add: resolve_source_container_def constant_config_def on_mapping_def first_mut_def simple_config_def)

lemma ingest_file_rows_witness:
  "\<exists>df rs df1. sample_ingest simple_config = Inr (Inr df)
    \<and> source_rows ascii_lower mem_ops no_json mem_view Map.empty (cfg_source_containers simple_config ! 0) (snd three_rows) rs
    \<and> fv_rows mem_view df = map (mapped_row ascii_lower Map.empty mem_view (m_columns (cfg_mappings simple_config ! 0))) rs
    \<and> sample_ingest constant_config = Inr (Inr df1)
    \<and> fv_rows mem_view df1 = [mapped_row ascii_lower Map.empty mem_view (m_columns (cfg_mappings constant_config ! 0)) Map.empty]"
proof -
  from sample_ingest_frame obtain df where df: "sample_ingest simple_config = Inr (Inr df)"
    by (blast dest: expect_Inr)
  from sample_ingest_constant obtain df1 where df1: "sample_ingest constant_config = Inr (Inr df1)"
    by (blast dest: expect_Inr)
  have m: "m_columns (cfg_mappings simple_config ! 0) \<noteq> []" "m_where (cfg_mappings simple_config ! 0) = None"
    "\<exists>c \<in> set (m_columns (cfg_mappings simple_config ! 0)). col_refs (mc_expr c) \<noteq> {}"
    by (auto simp: simple_config_def col_refs_def ast_nodes.simps)
  have m1: "m_columns (cfg_mappings constant_config ! 0) \<noteq> []" "m_where (cfg_mappings constant_config ! 0) = None"
    "\<not> (\<exists>c \<in> set (m_columns (cfg_mappings constant_config ! 0)). col_refs (mc_expr c) \<noteq> {})"
    by (simp_all add: constant_config_def on_mapping_def first_mut_def simple_config_def col_refs_def ast_nodes.simps)
  from ingest_file_rows [OF mem.row_frames_axioms df [unfolded sample_ingest_def] sample_source m(1)] m(2,3)
    ingest_file_rows [OF mem.row_frames_axioms df1 [unfolded sample_ingest_def] sample_source_constant m1(1)] m1(2,3)
    df df1
  show ?thesis by auto
qed

lemma constant_mapping_collapses_sample:
  "\<exists>df. sample_ingest constant_config = Inr (Inr df)
    \<and> fv_rows mem_view df = [mapped_row ascii_lower Map.empty mem_view (m_columns (cfg_mappings constant_config ! 0)) Map.empty]"
proof -
  from sample_ingest_constant obtain df where df: "sample_ingest constant_config = Inr (Inr df)"
    by (blast dest: expect_Inr)
  have "fv_rows mem_view df = [mapped_row ascii_lower Map.empty mem_view (m_columns (cfg_mappings constant_config ! 0)) Map.empty]"
    by (rule constant_mapping_collapses [OF mem.row_frames_axioms df [unfolded sample_ingest_def]])
      (simp_all add: reads_source_def constant_config_def on_mapping_def first_mut_def simple_config_def col_refs_def ast_nodes.simps)
  with df show ?thesis by blast
qed

lemma mapping_rows_conserved_witness:
  "\<exists>parts mp table rows. sample_task = Inr (Inr (parts, 2))
    \<and> rows = concat (map (fv_rows mem_view) (ingested ascii_lower mem_ops no_json partitioned_config mp Map.empty [good_file, bad_file, three_rows]))
    \<and> 2 + length (kept_rows table rows) = length rows
    \<and> mset (concat (map (\<lambda>p. fv_parquet mem_view (po_bytes p)) parts))
        = mset (map (\<lambda>r. r |` (- set (t_partition_keys table))) (kept_rows table rows))"
proof -
  from sample_task_result obtain parts where s: "sample_task = Inr (Inr (parts, 2))"
    by (auto dest!: expect_Inr)
  have j: "jb_frames rows_jb = mem_ops" "jb_lower rows_jb = ascii_lower" "jb_json rows_jb = no_json"
    by (simp_all add: rows_jb_def)
  from mapping_rows_conserved [of rows_jb mem_view, unfolded j, OF mem.row_frames_axioms s [unfolded sample_task_def]]
  show ?thesis using s by blast
qed

end
