(* ===== verification/Evaluator_Tests.thy ===== *)
theory Evaluator_Tests
  imports Pipeline_Tests
begin

text \<open>
  The test module of \<open>src/evaluator.rs\<close>, on the frames of \<open>Mem_Frames\<close>. The property tests are stated for
  every value.
\<close>

text \<open>\<open>df.lazy().select([..]).collect()\<close> of the compiled nodes under their aliases; every step must
  succeed.\<close>

definition selects :: "Registry \<Rightarrow> MemFrame \<Rightarrow> (string \<times> AstNode) list \<Rightarrow> (MemFrame \<Rightarrow> bool) \<Rightarrow> bool" where
  "selects reg df nodes check =
     expect (\<lambda>es. expect check (lf_collect mem_ops (lf_select mem_ops (df_lazy mem_ops df) es)))
       (collect_results (\<lambda>(alias, n). map_sum id (Pair alias) (compile ascii_lower reg n)) nodes)"

definition cell_at :: "MemFrame \<Rightarrow> string \<Rightarrow> nat \<Rightarrow> Cell option" where
  "cell_at df name i = (case mem_column df name of Inr c \<Rightarrow> get_at c i | Inl _ \<Rightarrow> None)"

definition date_parts_extract_as_int64 :: bool where
  "date_parts_extract_as_int64 \<longleftrightarrow>
     (let parse = ParseDate (Col ''d'') ''%Y-%m-%d''
      in selects Map.empty ([''d''], [[CStr ''2026-09-06''], [CStr ''2024-01-31'']])
           [(''y'', Year parse), (''m'', Month parse), (''day'', Day parse)]
           (\<lambda>out. cell_at out ''y'' 0 = Some (CInt 2026) \<and> cell_at out ''m'' 0 = Some (CInt 9)
              \<and> cell_at out ''day'' 1 = Some (CInt 31)))"

text \<open>The bits of 1788934940.86 and of 1788934940860.0, the same instant.\<close>

definition from_unix_converts_epoch_seconds_and_millis :: bool where
  "from_unix_converts_epoch_seconds_and_millis \<longleftrightarrow>
     selects Map.empty ([''s'', ''ms''], [[CFloat 4745290144971950653, CFloat 4790150281785229312]])
       [(''from_s'', FromUnix (Col ''s'') None), (''from_ms'', FromUnix (Col ''ms'') (Some ''ms''))]
       (\<lambda>out. (case cell_at out ''from_s'' 0 of Some (CDate _) \<Rightarrow> True | _ \<Rightarrow> False)
          \<and> cell_at out ''from_s'' 0 = cell_at out ''from_ms'' 0
          \<and> expect (\<lambda>parts. cell_at parts ''y'' 0 = Some (CInt 2026) \<and> cell_at parts ''m'' 0 = Some (CInt 9)
                \<and> cell_at parts ''d'' 0 = Some (CInt 9))
              (lf_collect mem_ops (lf_select mem_ops (df_lazy mem_ops out)
                [(''y'', EUn DtYear (ECol ''from_s'')), (''m'', EUn DtMonth (ECol ''from_s'')),
                 (''d'', EUn DtDay (ECol ''from_s''))])))"

definition parse_date_produces_null_on_malformed :: bool where
  "parse_date_produces_null_on_malformed \<longleftrightarrow>
     selects Map.empty ([''d''], [[CStr ''2024-01-01''], [CStr ''not-a-date'']])
       [(''v'', ParseDate (Col ''d'') ''%Y-%m-%d'')]
       (\<lambda>out. (case cell_at out ''v'' 0 of Some (CDate _) \<Rightarrow> True | _ \<Rightarrow> False) \<and> cell_at out ''v'' 1 = Some CNull)"

definition coalesce_returns_first_non_null :: bool where
  "coalesce_returns_first_non_null \<longleftrightarrow>
     selects Map.empty ([''a'', ''b''], [[CStr ''HIT'', CStr ''FALLBACK''], [CNull, CStr ''FALLBACK'']])
       [(''v'', Coalesce [Col ''a'', Col ''b''])]
       (\<lambda>out. text_at out ''v'' 0 = Some ''HIT'' \<and> text_at out ''v'' 1 = Some ''FALLBACK'')"

definition coalesce_all_null_returns_null :: bool where
  "coalesce_all_null_returns_null \<longleftrightarrow>
     selects Map.empty ([''a''], [[CNull]]) [(''v'', Coalesce [Col ''a'', Null])]
       (\<lambda>out. cell_at out ''v'' 0 = Some CNull)"

definition coalesce_empty_args_is_null :: bool where
  "coalesce_empty_args_is_null \<longleftrightarrow>
     selects Map.empty ([''a''], [[CStr ''irrelevant'']]) [(''v'', Coalesce [])]
       (\<lambda>out. cell_at out ''v'' 0 = Some CNull)"

definition concat_ignores_null_args :: bool where
  "concat_ignores_null_args \<longleftrightarrow>
     selects Map.empty ([''a'', ''b''], [[CStr ''FROM'', CStr ''ACCT''], [CStr ''FROM'', CNull]])
       [(''v'', Concat '' '' [Col ''a'', Col ''b''])]
       (\<lambda>out. text_at out ''v'' 0 = Some ''FROM ACCT'' \<and> text_at out ''v'' 1 = Some ''FROM'')"

lemma evaluator_tests:
  date_parts_extract_as_int64 from_unix_converts_epoch_seconds_and_millis parse_date_produces_null_on_malformed coalesce_returns_first_non_null
  coalesce_all_null_returns_null coalesce_empty_args_is_null concat_ignores_null_args
  by code_simp+

section \<open>The property tests\<close>

text \<open>One row whose \<open>i\<close>-th column holds \<open>val_i\<close>; \<open>drawn\<close> are the column names before the duplicates go.\<close>

definition col_returns_row_value :: "string list \<Rightarrow> nat \<Rightarrow> bool" where
  "col_returns_row_value drawn target_idx \<longleftrightarrow>
     (let cols = first_seen drawn;
          target = target_idx mod length cols;
          df = (cols, [map (\<lambda>i. CStr (''val_'' @ show_nat i)) [0..<length cols]])
      in cols \<noteq> [] \<longrightarrow>
         selects Map.empty df [(''v'', Col (cols ! target))]
           (\<lambda>out. text_at out ''v'' 0 = Some (''val_'' @ show_nat target)))"

lemma cell_of_nth: "distinct names \<Longrightarrow> i < length names \<Longrightarrow> length cs = length names \<Longrightarrow> cell_of names cs (names ! i) = cs ! i"
  by (simp add: cell_of_def map_of_zip_nth)

text \<open>What a projection onto one node of a one-row frame holds.\<close>

lemma selects_one:
  assumes "compile ascii_lower reg n = Inr e" and "expr_cols e \<noteq> {}" and "expr_cols e \<subseteq> set names"
  shows "selects reg (names, [cs]) [(''v'', n)] check = check ([''v''], [[mem_eval e (row_of names cs)]])"
  using assms
  by (simp add: selects_def expect_def mem_ops_def mem_project_def mem_collect_def reads_column_def)

lemma col_test: "col_returns_row_value drawn target_idx"
proof (cases "first_seen drawn = []")
  case False
  let ?cols = "first_seen drawn"
  let ?target = "target_idx mod length ?cols"
  from False have t: "?target < length ?cols" by simp
  then have "?cols ! ?target \<in> set ?cols" by (rule nth_mem)
  with t show ?thesis
    by (simp add: col_returns_row_value_def Let_def selects_one text_at_def mem_column_def cell_of_def [of "[''v'']"]
        row_of_def cell_of_nth cell_str_def del: first_seen_set)
qed (simp add: col_returns_row_value_def)

text \<open>A dimension with the drawn rows of patterns and values.\<close>

definition drawn_dim :: "bool \<Rightarrow> (string list \<times> string) list \<Rightarrow> Dimension" where
  "drawn_dim case_insensitive rows = \<lparr>d_id = ''l'', d_name = None, d_match = KeywordSubstring,
     d_case_insensitive = Some case_insensitive, d_on_miss = OnMissNull,
     d_rows = Inline [''v''] (map (\<lambda>(pats, out). \<lparr>ir_patterns = pats, ir_values = [out], ir_priority = 0\<rparr>) rows)\<rparr>"

definition dim_ref_eval_equals_direct_call :: "bool \<Rightarrow> (string list \<times> string) list \<Rightarrow> string \<Rightarrow> bool" where
  "dim_ref_eval_equals_direct_call case_insensitive rows input \<longleftrightarrow>
     expect (\<lambda>registry.
         case registry ''l'' of
           None \<Rightarrow> False
         | Some direct_matcher \<Rightarrow>
             selects registry ([''x''], [[CStr input]]) [(''v'', DimRef ''l'' None (Col ''x''))]
               (\<lambda>out. expect (\<lambda>expected. text_at out ''v'' 0 = expected) (lookup ascii_lower direct_matcher input 0)))
       (build_inline_registry ascii_lower [drawn_dim case_insensitive rows])"

lemma dim_ref_test:
  assumes "length rows \<le> 5"
  shows "dim_ref_eval_equals_direct_call case_insensitive rows input"
proof -
  let ?dim = "drawn_dim case_insensitive rows"
  let ?rows = "inline_triples (map (\<lambda>(pats, out). \<lparr>ir_patterns = pats, ir_values = [out], ir_priority = 0\<rparr>) rows)"
  from assms have "\<not> MAX_DIMENSION_ROWS < length ?rows" by (simp add: inline_triples_def MAX_DIMENSION_ROWS_def)
  then obtain m where m: "new_matcher ascii_lower ?dim ?rows = Inr m" and mode: "dm_match_mode m = KeywordSubstring"
    by (simp add: new_matcher_def drawn_dim_def Let_def)
  from mode obtain x where l: "lookup ascii_lower m input 0 = Inr x"
    by (simp add: lookup_def find_hit_def)
  have reg: "build_inline_registry ascii_lower [?dim] = Inr [''l'' \<mapsto> m]"
    using m by (simp add: build_inline_registry_def drawn_dim_def)
  have c: "compile ascii_lower [''l'' \<mapsto> m] (DimRef ''l'' None (Col ''x'')) = Inr (EMap (ECol ''x'') (probe ascii_lower m 0))"
    by (simp add: dim_ref_probe_def ok_or_def value_index_def)
  have "mem_eval (EMap (ECol ''x'') (probe ascii_lower m 0)) (row_of [''x''] [CStr input]) = str_cell x"
    using l by (simp add: row_of_def cell_of_def cell_str_def probe_def)
  with l show ?thesis
    by (simp add: dim_ref_eval_equals_direct_call_def reg expect_def [of "\<lambda>r. _ r"] selects_one [OF c]
        text_at_def mem_column_def cell_of_def cell_str_def str_cell_def split: option.splits)
qed

end
