(* ===== verification/Data_Tests.thy ===== *)
theory Data_Tests
  imports Pipeline_Tests
begin

text \<open>
  The test modules of \<open>src/assertions.rs\<close> and \<open>src/json_source.rs\<close>, on the frames of \<open>Mem_Frames\<close>.
  What \<open>serde_json\<close> makes of a line is given with each test as a table of lines and values; a number
  comes with its three readings.
\<close>

section \<open>Assertions\<close>

definition no_assertions :: ColumnAssertions where
  "no_assertions = \<lparr>ca_not_null = None, ca_min = None, ca_max = None\<rparr>"

definition table_with :: "string \<Rightarrow> string \<Rightarrow> ColumnAssertions \<Rightarrow> AnalyticTable" where
  "table_with name ty a = \<lparr>t_id = ''t'', t_name = ''T'',
     t_schema = [(plain_column name ty None)\<lparr>cs_assertions := Some a\<rparr>], t_partition_keys = [], t_dedup_keys = []\<rparr>"

definition one_column :: "string \<Rightarrow> Cell list \<Rightarrow> MemFrame" where
  "one_column name cells = ([name], map (\<lambda>v. [v]) cells)"

definition no_assertions_produces_no_violations :: bool where
  "no_assertions_produces_no_violations \<longleftrightarrow>
     validate_assertions mem_ops (one_column ''a'' [CInt 1, CInt 2, CInt 3])
       \<lparr>t_id = ''t'', t_name = ''T'', t_schema = [plain_column ''a'' ''int64'' None],
        t_partition_keys = [], t_dedup_keys = []\<rparr> = []"

definition not_null_catches_nulls :: bool where
  "not_null_catches_nulls \<longleftrightarrow>
     map av_kind (validate_assertions mem_ops (one_column ''a'' [CInt 1, CNull, CInt 3])
       (table_with ''a'' ''int64'' (no_assertions\<lparr>ca_not_null := Some True\<rparr>))) = [''not_null'']"

text \<open>The floats 1, 5, 10, 11, 50 and 100 by their bits.\<close>

definition range_catches_out_of_bounds :: bool where
  "range_catches_out_of_bounds \<longleftrightarrow>
     map av_kind (validate_assertions mem_ops
       (one_column ''a'' [CFloat 0, CFloat 0x4014000000000000, CFloat 0x4026000000000000])
       (table_with ''a'' ''float64'' (no_assertions\<lparr>ca_min := Some f64_one, ca_max := Some 0x4024000000000000\<rparr>)))
     = [''range'']"

definition missing_column_reported :: bool where
  "missing_column_reported \<longleftrightarrow>
     map av_kind (validate_assertions mem_ops (one_column ''b'' [CInt 1])
       (table_with ''a'' ''int64'' (no_assertions\<lparr>ca_not_null := Some True\<rparr>))) = [''missing_column'']"

definition multiple_assertions_all_reported :: bool where
  "multiple_assertions_all_reported \<longleftrightarrow>
     (let kinds = map av_kind (validate_assertions mem_ops
            (one_column ''a'' [CFloat f64_one, CNull, CFloat 0x4059000000000000])
            (table_with ''a'' ''float64'' (no_assertions\<lparr>ca_not_null := Some True, ca_max := Some 0x4049000000000000\<rparr>)))
      in ''not_null'' \<in> set kinds \<and> ''range'' \<in> set kinds)"

lemma assertion_tests:
  no_assertions_produces_no_violations not_null_catches_nulls missing_column_reported
  by code_simp+

lemmas range_defs = validate_assertions_def column_violations_def check_column_def not_null_violations_def
  range_violations_def table_with_def one_column_def no_assertions_def plain_column_def mem_ops_def mem_column_def
  cell_of_def map_filter_simps f64_lt_def f64_is_nan_def f64_key_def f64_magnitude_def f64_negative_def f64_one_def

lemma range_tests: range_catches_out_of_bounds multiple_assertions_all_reported
  by (simp_all add: range_catches_out_of_bounds_def multiple_assertions_all_reported_def range_defs)

section \<open>JSON sources\<close>

text \<open>The integer, float and text a number reads as.\<close>

type_synonym TestNumber = "int option \<times> f64 option \<times> string"

definition int_number :: "int \<Rightarrow> TestNumber JsonValue" where
  "int_number i = JNumber (Some i, None, show_int i)"

definition column_cells :: "Builder \<Rightarrow> Cell list" where
  "column_cells b = (case b of
       BStr v \<Rightarrow> map str_cell v
     | BI64 v \<Rightarrow> map (case_option CNull CInt) v
     | BF64 v \<Rightarrow> map (case_option CNull CFloat) v
     | BBool v \<Rightarrow> map (case_option CNull CBool) v)"

definition mem_frame_new :: "nat \<Rightarrow> (string \<times> Builder) list \<Rightarrow> string + MemFrame" where
  "mem_frame_new height columns =
     (if list_all (\<lambda>(n, b). length (column_cells b) = height) columns
      then Inr (map fst columns, map (\<lambda>i. map (\<lambda>(n, b). column_cells b ! i) columns) [0..<height])
      else Inl ''height mismatch'')"

definition json_table :: "(string \<times> TestNumber JsonValue) list \<Rightarrow> (TestNumber, MemFrame) JsonOps" where
  "json_table parsed = \<lparr>parse_value = map_of parsed, num_as_i64 = fst, num_as_f64 = fst \<circ> snd,
     num_to_string = snd \<circ> snd, str_to_f64 = (\<lambda>_. None), frame_new = mem_frame_new\<rparr>"

definition json_col :: "string \<Rightarrow> string \<Rightarrow> string option \<Rightarrow> ColumnSchema" where
  "json_col name ty path = (plain_column name ty None)\<lparr>cs_path := path\<rparr>"

definition json_src :: "SourceFormat \<Rightarrow> ColumnSchema list \<Rightarrow> SourceContainer" where
  "json_src format schema = \<lparr>sc_id = ''s'', sc_name = ''S'', sc_path_prefix = ''logs/'', sc_format = format,
     sc_schema = schema, sc_record_filter = None\<rparr>"

definition cell_in :: "MemFrame \<Rightarrow> string \<Rightarrow> nat \<Rightarrow> Cell option" where
  "cell_in df name i = (case mem_column df name of Inr c \<Rightarrow> get_at c i | Inl _ \<Rightarrow> None)"

text \<open>\<open>read_json_source(lines).unwrap()\<close>; it must not panic either.\<close>

definition reads ::
  "(string \<times> TestNumber JsonValue) list \<Rightarrow> string list \<Rightarrow> ColumnSchema list \<Rightarrow> (MemFrame \<Rightarrow> nat \<Rightarrow> bool) \<Rightarrow> bool" where
  "reads parsed ls schema check =
     expect (expect (\<lambda>(df, skipped). check df skipped))
       (read_json_source (json_table parsed) (join [CHR 0x0A] ls) (json_src Ndjson schema))"

definition compiles_dotted_and_indexed_paths :: bool where
  "compiles_dotted_and_indexed_paths \<longleftrightarrow>
     compile_path ''request.headers.User-Agent[0]''
       = Inr [Key ''request'', Key ''headers'', Key ''User-Agent'', Index 0]
     \<and> \<not> is_ok (compile_path ''a[x]'') \<and> \<not> is_ok (compile_path [])"

text \<open>The line of the test, by its name.\<close>

definition caddy_record :: "TestNumber JsonValue" where
  "caddy_record = JObject [(''ts'', JNumber (None, Some 0x41DAA83EC7370A3D, ''1788934940.86'')), (''status'', int_number 200),
     (''request'', JObject [(''host'', JString ''etl.example''),
        (''headers'', JObject [(''User-Agent'', JArray [JString ''curl/8'']), (''Cf-Ipcountry'', JArray [JString ''CA''])])])]"

definition extracts_nested_caddy_shaped_record :: bool where
  "extracts_nested_caddy_shaped_record \<longleftrightarrow>
     reads [(''{caddy}'', caddy_record)] [''{caddy}'']
       [json_col ''ts'' ''number'' None, json_col ''status'' ''int64'' None, json_col ''host'' ''string'' (Some ''request.host''),
        json_col ''ua'' ''string'' (Some ''request.headers.User-Agent[0]''),
        json_col ''country'' ''string'' (Some ''request.headers.Cf-Ipcountry[0]'')]
       (\<lambda>df skipped. skipped = 0 \<and> df_height mem_ops df = 1
          \<and> cell_in df ''host'' 0 = Some (CStr ''etl.example'') \<and> cell_in df ''ua'' 0 = Some (CStr ''curl/8'')
          \<and> cell_in df ''status'' 0 = Some (CInt 200) \<and> cell_in df ''ts'' 0 = Some (CFloat 0x41DAA83EC7370A3D))"

definition missing_paths_and_shape_mismatches_become_null :: bool where
  "missing_paths_and_shape_mismatches_become_null \<longleftrightarrow>
     reads [(''{1}'', JObject [(''a'', int_number 1)]),
            (''{2}'', JObject [(''a'', int_number 2), (''nested'', JObject [(''b'', JString ''x'')])])]
       [''{1}'', ''{2}'']
       [json_col ''a'' ''int64'' None, json_col ''b'' ''string'' (Some ''nested.b'')]
       (\<lambda>df skipped. df_height mem_ops df = 2 \<and> cell_in df ''b'' 0 = Some CNull \<and> cell_in df ''b'' 1 = Some (CStr ''x''))"

definition skips_unparseable_ndjson_lines :: bool where
  "skips_unparseable_ndjson_lines \<longleftrightarrow>
     reads [(''{1}'', JObject [(''a'', int_number 1)]), (''{3}'', JObject [(''a'', int_number 3)])]
       [''{1}'', ''not json at all'', [], ''{3}'', []] [json_col ''a'' ''int64'' None]
       (\<lambda>df skipped. df_height mem_ops df = 2 \<and> skipped = 1)"

definition a_whole_file_json_array_is_rejected_with_a_useful_message :: bool where
  "a_whole_file_json_array_is_rejected_with_a_useful_message \<longleftrightarrow>
     expect (\<lambda>r. unwrap_err r (\<lambda>err. str_contains err ''one JSON object''))
       (read_json_source (json_table []) ''[{1},{2},{3}]'' (json_src Ndjson [json_col ''a'' ''int64'' None]))"

definition coerces_across_json_types_when_lossless :: bool where
  "coerces_across_json_types_when_lossless \<longleftrightarrow>
     reads [(''{nsb}'', JObject [(''n'', JString ''42''), (''s'', int_number 7), (''b'', JBool True)])] [''{nsb}'']
       [json_col ''n'' ''int64'' None, json_col ''s'' ''string'' None, json_col ''b'' ''bool'' None]
       (\<lambda>df skipped. cell_in df ''n'' 0 = Some (CInt 42) \<and> cell_in df ''s'' 0 = Some (CStr ''7'')
          \<and> cell_in df ''b'' 0 = Some (CBool True))"

text \<open>The bound of \<open>u64\<close> compared in binary.\<close>

lemma u64_max_binary [code_unfold]: "n \<le> u64_max \<longleftrightarrow> int n \<le> 18446744073709551615"
  by (simp add: u64_max_def)

lemma path_test: compiles_dotted_and_indexed_paths
  by code_simp

lemma json_test2: missing_paths_and_shape_mismatches_become_null
  by code_simp

lemma json_test3: skips_unparseable_ndjson_lines
  by code_simp

lemma json_test4: a_whole_file_json_array_is_rejected_with_a_useful_message
  by code_simp

lemma json_test5: coerces_across_json_types_when_lossless
  by code_simp

lemma json_test1: extracts_nested_caddy_shaped_record
  by code_simp

end
