(* ===== verification/Testgen.thy ===== *)
theory Testgen
  imports Config
begin

text \<open>
  Models \<open>src/testgen.rs\<close>, the \<open>proptest\<close> generators of expression trees the property tests share. A
  strategy is the predicate of the values it can draw; how likely a value is, and the limits on the
  size of a drawn tree, are not part of it. A pattern \<open>.*\<close> draws any text on one line.
\<close>

section \<open>Leaves of the generators\<close>

definition in_class :: "string \<Rightarrow> nat \<Rightarrow> nat \<Rightarrow> string \<Rightarrow> bool" where
  "in_class class lo hi s \<longleftrightarrow> lo \<le> length s \<and> length s \<le> hi \<and> list_all (\<lambda>c. c \<in> set class) s"

definition lower_letters :: string where
  "lower_letters = ''abcdefghijklmnopqrstuvwxyz''"

definition upper_letters :: string where
  "upper_letters = ''ABCDEFGHIJKLMNOPQRSTUVWXYZ''"

definition digit_chars :: string where
  "digit_chars = ''0123456789''"

text \<open>\<open>[a-z][a-z0-9_]{0,7}\<close>\<close>

definition arb_id :: "string \<Rightarrow> bool" where
  "arb_id s \<longleftrightarrow> s \<noteq> [] \<and> in_class lower_letters 1 1 (take 1 s)
     \<and> in_class (lower_letters @ digit_chars @ ''_'') 0 7 (drop 1 s)"

text \<open>\<open>[A-Za-z0-9]{1,12}\<close>\<close>

definition arb_name :: "string \<Rightarrow> bool" where
  "arb_name s \<longleftrightarrow> in_class (upper_letters @ lower_letters @ digit_chars) 1 12 s"

text \<open>\<open>[%A-Za-z0-9_/-]{1,10}\<close>\<close>

definition arb_format :: "string \<Rightarrow> bool" where
  "arb_format s \<longleftrightarrow> in_class (''%'' @ upper_letters @ lower_letters @ digit_chars @ ''_/-'') 1 10 s"

definition any_line :: "string \<Rightarrow> bool" where
  "any_line s \<longleftrightarrow> CHR 0x0A \<notin> set s"

definition any_i64 :: "int \<Rightarrow> bool" where
  "any_i64 i \<longleftrightarrow> i64_min \<le> i \<and> i \<le> i64_max"

fun arb_cast_type :: "CastType \<Rightarrow> bool" where
  "arb_cast_type CastInt64 = True"
| "arb_cast_type CastFloat64 = True"
| "arb_cast_type CastString = True"
| "arb_cast_type CastDate = True"

section \<open>Trees\<close>

text \<open>The exponent is not all ones.\<close>

definition finite_f64 :: "f64 \<Rightarrow> bool" where
  "finite_f64 x \<longleftrightarrow> f64_magnitude x < 2047 * 2 ^ 52"

fun arb_leaf :: "AstNode \<Rightarrow> bool" where
  "arb_leaf (Col name) = arb_name name"
| "arb_leaf (Str value) = any_line value"
| "arb_leaf (Num value) = finite_f64 value"
| "arb_leaf (Bool value) = True"
| "arb_leaf Null = True"
| "arb_leaf _ = False"

text \<open>\<open>vec(inner, 0..5)\<close> draws at most four.\<close>

definition arb_vec :: "(AstNode \<Rightarrow> bool) \<Rightarrow> AstNode list \<Rightarrow> bool" where
  "arb_vec inner args \<longleftrightarrow> length args < 5 \<and> list_all inner args"

text \<open>The closure that makes a strategy for trees from one for their subtrees.\<close>

fun arb_branch :: "(AstNode \<Rightarrow> bool) \<Rightarrow> AstNode \<Rightarrow> bool" where
  "arb_branch inner (Add l r) \<longleftrightarrow> inner l \<and> inner r"
| "arb_branch inner (Sub l r) \<longleftrightarrow> inner l \<and> inner r"
| "arb_branch inner (Mul l r) \<longleftrightarrow> inner l \<and> inner r"
| "arb_branch inner (Div l r) \<longleftrightarrow> inner l \<and> inner r"
| "arb_branch inner (Concat sep args) \<longleftrightarrow> any_line sep \<and> arb_vec inner args"
| "arb_branch inner (Year i) \<longleftrightarrow> inner i"
| "arb_branch inner (Month i) \<longleftrightarrow> inner i"
| "arb_branch inner (Day i) \<longleftrightarrow> inner i"
| "arb_branch inner (Upper i) \<longleftrightarrow> inner i"
| "arb_branch inner (Lower i) \<longleftrightarrow> inner i"
| "arb_branch inner (Trim i) \<longleftrightarrow> inner i"
| "arb_branch inner (Substring i start len) \<longleftrightarrow> inner i \<and> any_i64 start \<and> pred_option any_i64 len"
| "arb_branch inner (Eq l r) \<longleftrightarrow> inner l \<and> inner r"
| "arb_branch inner (Ne l r) \<longleftrightarrow> inner l \<and> inner r"
| "arb_branch inner (Gt l r) \<longleftrightarrow> inner l \<and> inner r"
| "arb_branch inner (Lt l r) \<longleftrightarrow> inner l \<and> inner r"
| "arb_branch inner (Ge l r) \<longleftrightarrow> inner l \<and> inner r"
| "arb_branch inner (Le l r) \<longleftrightarrow> inner l \<and> inner r"
| "arb_branch inner (Contains i p) \<longleftrightarrow> inner i \<and> inner p"
| "arb_branch inner (IfNode c t e) \<longleftrightarrow> inner c \<and> inner t \<and> inner e"
| "arb_branch inner (Coalesce args) \<longleftrightarrow> arb_vec inner args"
| "arb_branch inner (ParseDate i format) \<longleftrightarrow> inner i \<and> arb_format format"
| "arb_branch inner (DimRef dim_id value i) \<longleftrightarrow> arb_id dim_id \<and> value = None \<and> inner i"
| "arb_branch inner (Cast i ty) \<longleftrightarrow> inner i \<and> arb_cast_type ty"
| "arb_branch inner _ = False"

text \<open>\<open>prop_recursive\<close>: the leaves, wrapped at most so many times.\<close>

primrec prop_recursive :: "nat \<Rightarrow> (AstNode \<Rightarrow> bool) \<Rightarrow> ((AstNode \<Rightarrow> bool) \<Rightarrow> AstNode \<Rightarrow> bool) \<Rightarrow> AstNode \<Rightarrow> bool" where
  "prop_recursive 0 leaf branch n \<longleftrightarrow> leaf n"
| "prop_recursive (Suc d) leaf branch n \<longleftrightarrow> leaf n \<or> branch (prop_recursive d leaf branch) n"

definition arb_ast_node :: "AstNode \<Rightarrow> bool" where
  "arb_ast_node = prop_recursive 6 arb_leaf arb_branch"

section \<open>What is drawn\<close>

lemma arb_children: "arb_branch inner n \<Longrightarrow> c \<in> set (children n) \<Longrightarrow> inner c"
  by (cases n) (auto simp: arb_vec_def list_all_iff)

lemma arb_few_children: "arb_branch inner n \<Longrightarrow> length (children n) < 5"
  by (cases n) (auto simp: arb_vec_def)

lemma leaf_children: "arb_leaf n \<Longrightarrow> children n = []"
  by (cases n) auto

text \<open>Every node of a drawn tree is drawn by one of the two strategies.\<close>

lemma drawn_nodes:
  "prop_recursive d arb_leaf arb_branch n \<Longrightarrow> m \<in> set (ast_nodes n) \<Longrightarrow>
     arb_leaf m \<or> (\<exists>e. arb_branch (prop_recursive e arb_leaf arb_branch) m)"
proof (induction d arbitrary: n)
  case 0
  then show ?case by (subst (asm) ast_nodes.simps) (simp add: leaf_children)
next
  case (Suc d)
  show ?case
  proof (cases "arb_leaf n")
    case True
    with Suc.prems(2) show ?thesis by (subst (asm) ast_nodes.simps) (simp add: leaf_children)
  next
    case False
    with Suc.prems(1) have b: "arb_branch (prop_recursive d arb_leaf arb_branch) n" by simp
    from Suc.prems(2) consider "m = n" | c where "c \<in> set (children n)" "m \<in> set (ast_nodes c)"
      by (subst (asm) ast_nodes.simps) auto
    then show ?thesis using b Suc.IH arb_children [OF b] by cases blast+
  qed
qed

text \<open>Four kinds of node are never drawn, a dimension reference never names its value column, and no
  argument list has more than four entries.\<close>

definition drawable :: "AstNode \<Rightarrow> bool" where
  "drawable m \<longleftrightarrow>
     (case m of FromUnix _ _ \<Rightarrow> False | And _ _ \<Rightarrow> False | Or _ _ \<Rightarrow> False | NotNode _ \<Rightarrow> False
      | DimRef _ value _ \<Rightarrow> value = None | _ \<Rightarrow> length (children m) \<le> 4)"

lemma never_drawn: "arb_ast_node n \<Longrightarrow> m \<in> set (ast_nodes n) \<Longrightarrow> drawable m"
  unfolding arb_ast_node_def
  by (drule (1) drawn_nodes) (cases m; auto simp: drawable_def arb_vec_def)

text \<open>The height of a tree; a drawn one has at most six levels above its leaves.\<close>

function ast_height :: "AstNode \<Rightarrow> nat" where
  "ast_height n = Max (insert 0 (Suc ` ast_height ` set (children n)))"
  by pat_completeness auto
termination
  by (relation "measure size") (auto dest: children_size)

declare ast_height.simps [simp del]

lemma ast_height_le: "ast_height n \<le> Suc d \<longleftrightarrow> (\<forall>c \<in> set (children n). ast_height c \<le> d)"
  by (subst ast_height.simps) auto

lemma drawn_height: "prop_recursive d arb_leaf arb_branch n \<Longrightarrow> ast_height n \<le> d"
proof (induction d arbitrary: n)
  case 0
  then show ?case by (subst ast_height.simps) (simp add: leaf_children)
next
  case (Suc d)
  then have "\<forall>c \<in> set (children n). prop_recursive d arb_leaf arb_branch c"
    using arb_children leaf_children by fastforce
  with Suc.IH show ?case by (simp add: ast_height_le)
qed

lemma arb_ast_node_height: "arb_ast_node n \<Longrightarrow> ast_height n \<le> 6"
  unfolding arb_ast_node_def by (rule drawn_height)

end
