(* ===== verification/Wire.thy ===== *)
theory Wire
  imports Json_Source Testgen "HOL-Library.Monad_Syntax"
begin

text \<open>
  What \<open>derive(Serialize, Deserialize)\<close> makes of a type, in its documented JSON form: a struct is an
  object with one member for each field, an \<open>Option\<close> that is absent is \<open>null\<close>, an unknown member is
  passed over unless the type denies it, a member that is there twice is an error. \<open>serde_json\<close>'s
  numbers and its text are parameters; the positional array form that \<open>serde\<close> reads as well is left
  out.
\<close>

section \<open>Numbers\<close>

text \<open>\<open>Number\<close>: made from a float or from an integer, read as one.\<close>

record 'n WireNumbers =
  json_f64 :: "f64 \<Rightarrow> 'n"
  json_int :: "int \<Rightarrow> 'n"
  num_f64 :: "'n \<Rightarrow> f64"
  num_int :: "'n \<Rightarrow> int option"

locale wire_numbers =
  fixes nums :: "'n WireNumbers"
  assumes float_reads: "finite_f64 x \<Longrightarrow> num_f64 nums (json_f64 nums x) = x"
    and int_reads: "i64_min \<le> i \<Longrightarrow> i < 2 ^ 64 \<Longrightarrow> num_int nums (json_int nums i) = Some i"

section \<open>Members of an object\<close>

definition members :: "string \<Rightarrow> (string \<times> 'v) list \<Rightarrow> 'v list" where
  "members k fs = map snd (filter (\<lambda>f. fst f = k) fs)"

definition field :: "string \<Rightarrow> ('v \<Rightarrow> 'a option) \<Rightarrow> (string \<times> 'v) list \<Rightarrow> 'a option" where
  "field k rd fs = (case members k fs of [v] \<Rightarrow> rd v | _ \<Rightarrow> None)"

text \<open>\<open>serde(default)\<close>, and an \<open>Option\<close> without it.\<close>

definition field_or :: "'a \<Rightarrow> string \<Rightarrow> ('v \<Rightarrow> 'a option) \<Rightarrow> (string \<times> 'v) list \<Rightarrow> 'a option" where
  "field_or d k rd fs = (case members k fs of [] \<Rightarrow> Some d | [v] \<Rightarrow> rd v | _ \<Rightarrow> None)"

text \<open>\<open>serde(deny_unknown_fields)\<close>\<close>

definition only_members :: "string list \<Rightarrow> (string \<times> 'v) list \<Rightarrow> unit option" where
  "only_members ks fs = (if list_all (\<lambda>f. fst f \<in> set ks) fs then Some () else None)"

text \<open>\<open>skip_serializing_if\<close>, with \<open>Option::is_none\<close> and in general.\<close>

fun member_opt :: "string \<Rightarrow> ('a \<Rightarrow> 'v) \<Rightarrow> 'a option \<Rightarrow> (string \<times> 'v) list" where
  "member_opt k wr None = []"
| "member_opt k wr (Some x) = [(k, wr x)]"

definition member_if :: "bool \<Rightarrow> string \<Rightarrow> 'v \<Rightarrow> (string \<times> 'v) list" where
  "member_if b k v = (if b then [(k, v)] else [])"

lemma members_simps [simp]:
  "members k [] = []"
  "members k ((j, v) # fs) = (if j = k then v # members k fs else members k fs)"
  "members k (fs @ gs) = members k fs @ members k gs"
  "members k (member_if b j v) = (if b \<and> j = k then [v] else [])"
  "members k (member_opt j wr x) = (if j = k then map wr (case x of None \<Rightarrow> [] | Some y \<Rightarrow> [y]) else [])"
  by (simp_all add: members_def member_if_def split: option.splits)

lemma field_cong:
  "(\<And>v. v \<in> snd ` set fs \<Longrightarrow> rd v = rd' v) \<Longrightarrow> field k rd fs = field k rd' fs"
  "(\<And>v. v \<in> snd ` set fs \<Longrightarrow> rd v = rd' v) \<Longrightarrow> field_or d k rd fs = field_or d k rd' fs"
proof -
  have "set (members k fs) \<subseteq> snd ` set fs" by (auto simp: members_def)
  then show "(\<And>v. v \<in> snd ` set fs \<Longrightarrow> rd v = rd' v) \<Longrightarrow> field k rd fs = field k rd' fs"
    "(\<And>v. v \<in> snd ` set fs \<Longrightarrow> rd v = rd' v) \<Longrightarrow> field_or d k rd fs = field_or d k rd' fs"
    by (auto simp: field_def field_or_def split: list.splits)
qed

lemma field_Some: "field k rd fs = Some x \<longleftrightarrow> (\<exists>v. members k fs = [v] \<and> rd v = Some x)"
  by (auto simp: field_def split: list.splits)

section \<open>Values\<close>

fun object_fields :: "'n JsonValue \<Rightarrow> (string \<times> 'n JsonValue) list option" where
  "object_fields (JObject fs) = Some fs"
| "object_fields _ = None"

fun read_string :: "'n JsonValue \<Rightarrow> string option" where
  "read_string (JString s) = Some s"
| "read_string _ = None"

fun read_bool :: "'n JsonValue \<Rightarrow> bool option" where
  "read_bool (JBool b) = Some b"
| "read_bool _ = None"

fun read_f64 :: "'n WireNumbers \<Rightarrow> 'n JsonValue \<Rightarrow> f64 option" where
  "read_f64 nums (JNumber n) = Some (num_f64 nums n)"
| "read_f64 nums _ = None"

text \<open>A unit variant is its name.\<close>

definition read_enum :: "(string \<times> 'a) list \<Rightarrow> 'n JsonValue \<Rightarrow> 'a option" where
  "read_enum variants v = Option.bind (read_string v) (map_of variants)"

text \<open>An integer type with its bounds; a number that is no integer, or is out of bounds, is an error.\<close>

fun read_int :: "'n WireNumbers \<Rightarrow> int \<Rightarrow> int \<Rightarrow> 'n JsonValue \<Rightarrow> int option" where
  "read_int nums lo hi (JNumber n) =
     Option.bind (num_int nums n) (\<lambda>i. if lo \<le> i \<and> i \<le> hi then Some i else None)"
| "read_int nums lo hi _ = None"

definition read_i64 :: "'n WireNumbers \<Rightarrow> 'n JsonValue \<Rightarrow> int option" where
  "read_i64 nums = read_int nums i64_min i64_max"

definition read_u64 :: "'n WireNumbers \<Rightarrow> 'n JsonValue \<Rightarrow> nat option" where
  "read_u64 nums v = map_option nat (read_int nums 0 (2 ^ 64 - 1) v)"

definition read_u32 :: "'n WireNumbers \<Rightarrow> 'n JsonValue \<Rightarrow> 32 word option" where
  "read_u32 nums v = map_option word_of_int (read_int nums 0 (2 ^ 32 - 1) v)"

fun read_list :: "('n JsonValue \<Rightarrow> 'a option) \<Rightarrow> 'n JsonValue \<Rightarrow> 'a list option" where
  "read_list rd (JArray vs) = those (map rd vs)"
| "read_list rd _ = None"

fun read_opt :: "('n JsonValue \<Rightarrow> 'a option) \<Rightarrow> 'n JsonValue \<Rightarrow> 'a option option" where
  "read_opt rd JNull = Some None"
| "read_opt rd v = map_option Some (rd v)"

text \<open>A \<open>HashMap\<close>: a later entry replaces an earlier one.\<close>

definition read_map :: "('n JsonValue \<Rightarrow> 'a option) \<Rightarrow> 'n JsonValue \<Rightarrow> (string \<rightharpoonup> 'a) option" where
  "read_map rd v =
     Option.bind (object_fields v) (\<lambda>fs.
     map_option (\<lambda>es. map_of (rev es)) (those (map (\<lambda>(k, x). map_option (Pair k) (rd x)) fs)))"

text \<open>A finite float is a number, any other \<open>null\<close>.\<close>

definition write_f64 :: "'n WireNumbers \<Rightarrow> f64 \<Rightarrow> 'n JsonValue" where
  "write_f64 nums x = (if finite_f64 x then JNumber (json_f64 nums x) else JNull)"

definition write_int :: "'n WireNumbers \<Rightarrow> int \<Rightarrow> 'n JsonValue" where
  "write_int nums i = JNumber (json_int nums i)"

fun write_opt :: "('a \<Rightarrow> 'n JsonValue) \<Rightarrow> 'a option \<Rightarrow> 'n JsonValue" where
  "write_opt wr None = JNull"
| "write_opt wr (Some x) = wr x"

definition write_list :: "('a \<Rightarrow> 'n JsonValue) \<Rightarrow> 'a list \<Rightarrow> 'n JsonValue" where
  "write_list wr xs = JArray (map wr xs)"

lemma write_list_cong [fundef_cong]:
  "xs = ys \<Longrightarrow> (\<And>x. x \<in> set ys \<Longrightarrow> f x = g x) \<Longrightarrow> write_list f xs = write_list g ys"
  by (simp add: write_list_def)

section \<open>Text\<close>

text \<open>\<open>serde_json\<close>'s text: \<open>to_string\<close>, \<open>from_str\<close> up to the value the typed reader sees, and the message of
  its errors. A document nested deeper than its recursion limit is not parsed.\<close>

record 'n JsonText =
  print_json :: "'n JsonValue \<Rightarrow> string"
  parse_json :: "string \<Rightarrow> 'n JsonValue option"
  json_error :: "string \<Rightarrow> string"

fun json_depth :: "'n JsonValue \<Rightarrow> nat" where
  "json_depth (JArray vs) = Suc (fold max (map json_depth vs) 0)"
| "json_depth (JObject fs) = Suc (fold max (map (\<lambda>f. json_depth (snd f)) fs) 0)"
| "json_depth _ = 0"

definition RECURSION_LIMIT :: nat where "RECURSION_LIMIT = 128"

locale json_text = wire_numbers nums for nums :: "'n WireNumbers" +
  fixes jt :: "'n JsonText"
  assumes parse_print: "json_depth v < RECURSION_LIMIT \<Longrightarrow> parse_json jt (print_json jt v) = Some v"

text \<open>\<open>from_str\<close> into a type.\<close>

definition from_json :: "'n JsonText \<Rightarrow> ('n JsonValue \<Rightarrow> 'a option) \<Rightarrow> string \<Rightarrow> string + 'a" where
  "from_json jt rd s = ok_or (json_error jt s) (Option.bind (parse_json jt s) rd)"

lemma fold_max_le: "fold max xs a \<le> (d :: nat) \<longleftrightarrow> a \<le> d \<and> (\<forall>x \<in> set xs. x \<le> d)"
  by (induction xs arbitrary: a) auto

lemma json_depth_le [simp]:
  "json_depth (JArray vs) \<le> d \<longleftrightarrow> 0 < d \<and> (\<forall>v \<in> set vs. json_depth v \<le> d - 1)"
  "json_depth (JObject fs) \<le> d \<longleftrightarrow> 0 < d \<and> (\<forall>f \<in> set fs. json_depth (snd f) \<le> d - 1)"
  by (cases d; simp add: fold_max_le)+

declare json_depth.simps(1,2) [simp del]

lemma written_depth [simp]:
  "json_depth (write_f64 nums x) = 0" "json_depth (write_int nums i) = 0"
  "json_depth (write_opt wr y) \<le> d \<longleftrightarrow> pred_option (\<lambda>x. json_depth (wr x) \<le> d) y"
  "json_depth (write_list wr xs) \<le> d \<longleftrightarrow> 0 < d \<and> (\<forall>x \<in> set xs. json_depth (wr x) \<le> d - 1)"
  by (simp_all add: write_f64_def write_int_def write_list_def) (cases y; simp)

lemma member_set [simp]:
  "f \<in> set (member_opt k wr y) \<longleftrightarrow> (\<exists>x. y = Some x \<and> f = (k, wr x))"
  "f \<in> set (member_if b k v) \<longleftrightarrow> b \<and> f = (k, v)"
  by (cases y) (auto simp: member_if_def)

section \<open>Reading what was written\<close>

lemma those_map: "(\<And>x. x \<in> set xs \<Longrightarrow> f x = Some (g x)) \<Longrightarrow> those (map f xs) = Some (map g xs)"
  by (induction xs) auto

lemma read_list_write:
  "(\<And>x. x \<in> set xs \<Longrightarrow> rd (wr x) = Some x) \<Longrightarrow> read_list rd (write_list wr xs) = Some xs"
  using those_map [of xs "rd \<circ> wr" "\<lambda>x. x"] by (simp add: write_list_def)

lemma read_list_Some: "read_list rd v = Some xs \<longleftrightarrow> (\<exists>vs. v = JArray vs \<and> those (map rd vs) = Some xs)"
  by (cases v) auto

lemma those_Some: "those (map rd vs) = Some xs \<longleftrightarrow> list_all2 (\<lambda>v x. rd v = Some x) vs xs"
  by (induction vs arbitrary: xs) (auto simp: list_all2_Cons1 split: option.splits)

lemma read_opt_write:
  assumes "\<And>x. y = Some x \<Longrightarrow> wr x \<noteq> JNull \<and> rd (wr x) = Some x"
  shows "read_opt rd (write_opt wr y) = Some y"
proof (cases y)
  case (Some x)
  with assms have "wr x \<noteq> JNull" "rd (wr x) = Some x" by auto
  with Some show ?thesis by (cases "wr x") auto
qed simp

lemma read_opt_cong:
  "(\<And>x. x = v \<Longrightarrow> rd x = rd' x) \<Longrightarrow> read_opt rd v = read_opt rd' v"
  by (cases v) auto

lemma read_string_write [simp]:
  "read_list read_string (write_list JString xs) = Some xs"
  "read_opt read_string (write_opt JString y) = Some y"
  "read_opt read_bool (write_opt JBool b) = Some b"
  by (simp_all add: read_list_write read_opt_write)

lemma read_f64_Some: "read_f64 nums v = Some x \<longleftrightarrow> (\<exists>n. v = JNumber n \<and> x = num_f64 nums n)"
  by (cases v) auto

lemma read_int_bounds: "read_int nums lo hi v = Some i \<Longrightarrow> lo \<le> i \<and> i \<le> hi"
  by (cases v) (auto simp: bind_eq_Some_conv split: if_splits)

context wire_numbers begin

lemma read_f64_write [simp]: "finite_f64 x \<Longrightarrow> read_f64 nums (write_f64 nums x) = Some x"
  by (simp add: write_f64_def float_reads)

lemma read_int_write [simp]:
  "i64_min \<le> lo \<Longrightarrow> hi < 2 ^ 64 \<Longrightarrow> lo \<le> i \<Longrightarrow> i \<le> hi \<Longrightarrow> read_int nums lo hi (write_int nums i) = Some i"
  by (simp add: write_int_def int_reads)

lemma read_i64_write [simp]: "any_i64 i \<Longrightarrow> read_i64 nums (write_int nums i) = Some i"
  unfolding read_i64_def by (rule read_int_write) (auto simp: any_i64_def i64_max_def)

lemma read_u64_write [simp]: "n \<le> u64_max \<Longrightarrow> read_u64 nums (write_int nums (int n)) = Some n"
proof -
  assume "n \<le> u64_max"
  then have "int n \<le> 2 ^ 64 - 1" by (simp add: u64_max_def)
  then have "read_int nums 0 (2 ^ 64 - 1) (write_int nums (int n)) = Some (int n)"
    by (intro read_int_write) (auto simp: i64_min_def)
  then show ?thesis by (simp add: read_u64_def)
qed

lemma read_u32_write [simp]: "read_u32 nums (write_int nums (uint (w :: 32 word))) = Some w"
proof -
  have "uint w \<le> 2 ^ 32 - 1" using uint_lt2p [of w] by simp
  then have "read_int nums 0 (2 ^ 32 - 1) (write_int nums (uint w)) = Some (uint w)"
    by (intro read_int_write) (auto simp: i64_min_def)
  then show ?thesis by (simp add: read_u32_def)
qed

lemma read_opt_number [simp]:
  "pred_option finite_f64 x \<Longrightarrow> read_opt (read_f64 nums) (write_opt (write_f64 nums) x) = Some x"
  "pred_option any_i64 i \<Longrightarrow> read_opt (read_i64 nums) (write_opt (write_int nums) i) = Some i"
  by (auto intro!: read_opt_write simp: write_f64_def write_int_def float_reads read_i64_write [unfolded write_int_def])

end

context json_text begin

lemma text_reads: "rd v = Some x \<Longrightarrow> json_depth v \<le> 127 \<Longrightarrow> from_json jt rd (print_json jt v) = Inr x"
  by (simp add: from_json_def parse_print ok_or_def RECURSION_LIMIT_def)

end

end
