(* ===== verification/Ast_Wire.thy ===== *)
theory Ast_Wire
  imports Wire
begin

text \<open>
  The JSON form of the expression trees of \<open>src/ast.rs\<close>: an object with a member \<open>kind\<close> that names the
  variant in snake case, beside one member for each of its fields, in their order. Its property test
  holds of every tree the generator draws.
\<close>

section \<open>Writing\<close>

definition node :: "string \<Rightarrow> (string \<times> 'n JsonValue) list \<Rightarrow> 'n JsonValue" where
  "node kind fs = JObject ((''kind'', JString kind) # fs)"

definition binary_node :: "string \<Rightarrow> 'n JsonValue \<Rightarrow> 'n JsonValue \<Rightarrow> 'n JsonValue" where
  "binary_node kind l r = node kind [(''left'', l), (''right'', r)]"

definition unary_node :: "string \<Rightarrow> 'n JsonValue \<Rightarrow> 'n JsonValue" where
  "unary_node kind i = node kind [(''input'', i)]"

fun cast_name :: "CastType \<Rightarrow> string" where
  "cast_name CastInt64 = ''int64''"
| "cast_name CastFloat64 = ''float64''"
| "cast_name CastString = ''string''"
| "cast_name CastDate = ''date''"

fun ast_to_json :: "'n WireNumbers \<Rightarrow> AstNode \<Rightarrow> 'n JsonValue" where
  "ast_to_json nums (Col name) = node ''col'' [(''name'', JString name)]"
| "ast_to_json nums (Str value) = node ''str'' [(''value'', JString value)]"
| "ast_to_json nums (Num value) = node ''num'' [(''value'', write_f64 nums value)]"
| "ast_to_json nums (Bool value) = node ''bool'' [(''value'', JBool value)]"
| "ast_to_json nums Null = node ''null'' []"
| "ast_to_json nums (Add l r) = binary_node ''add'' (ast_to_json nums l) (ast_to_json nums r)"
| "ast_to_json nums (Sub l r) = binary_node ''sub'' (ast_to_json nums l) (ast_to_json nums r)"
| "ast_to_json nums (Mul l r) = binary_node ''mul'' (ast_to_json nums l) (ast_to_json nums r)"
| "ast_to_json nums (Div l r) = binary_node ''div'' (ast_to_json nums l) (ast_to_json nums r)"
| "ast_to_json nums (Concat sep args) = node ''concat'' [(''sep'', JString sep), (''args'', write_list (ast_to_json nums) args)]"
| "ast_to_json nums (Upper i) = unary_node ''upper'' (ast_to_json nums i)"
| "ast_to_json nums (Lower i) = unary_node ''lower'' (ast_to_json nums i)"
| "ast_to_json nums (Trim i) = unary_node ''trim'' (ast_to_json nums i)"
| "ast_to_json nums (Substring i start len) = node ''substring''
       [(''input'', ast_to_json nums i), (''start'', write_int nums start), (''length'', write_opt (write_int nums) len)]"
| "ast_to_json nums (Eq l r) = binary_node ''eq'' (ast_to_json nums l) (ast_to_json nums r)"
| "ast_to_json nums (Ne l r) = binary_node ''ne'' (ast_to_json nums l) (ast_to_json nums r)"
| "ast_to_json nums (Gt l r) = binary_node ''gt'' (ast_to_json nums l) (ast_to_json nums r)"
| "ast_to_json nums (Lt l r) = binary_node ''lt'' (ast_to_json nums l) (ast_to_json nums r)"
| "ast_to_json nums (Ge l r) = binary_node ''ge'' (ast_to_json nums l) (ast_to_json nums r)"
| "ast_to_json nums (Le l r) = binary_node ''le'' (ast_to_json nums l) (ast_to_json nums r)"
| "ast_to_json nums (Contains i p) = node ''contains'' [(''input'', ast_to_json nums i), (''pattern'', ast_to_json nums p)]"
| "ast_to_json nums (FromUnix i unit) = node ''from_unix'' [(''input'', ast_to_json nums i), (''unit'', write_opt JString unit)]"
| "ast_to_json nums (And l r) = binary_node ''and'' (ast_to_json nums l) (ast_to_json nums r)"
| "ast_to_json nums (Or l r) = binary_node ''or'' (ast_to_json nums l) (ast_to_json nums r)"
| "ast_to_json nums (NotNode i) = unary_node ''not'' (ast_to_json nums i)"
| "ast_to_json nums (IfNode c t e) = node ''if''
       [(''cond'', ast_to_json nums c), (''then'', ast_to_json nums t), (''else'', ast_to_json nums e)]"
| "ast_to_json nums (Coalesce args) = node ''coalesce'' [(''args'', write_list (ast_to_json nums) args)]"
| "ast_to_json nums (ParseDate i format) = node ''parse_date'' [(''input'', ast_to_json nums i), (''format'', JString format)]"
| "ast_to_json nums (DimRef dim_id value i) = node ''dim_ref''
       [(''dim_id'', JString dim_id), (''value'', write_opt JString value), (''input'', ast_to_json nums i)]"
| "ast_to_json nums (Year i) = unary_node ''year'' (ast_to_json nums i)"
| "ast_to_json nums (Month i) = unary_node ''month'' (ast_to_json nums i)"
| "ast_to_json nums (Day i) = unary_node ''day'' (ast_to_json nums i)"
| "ast_to_json nums (Cast i ty) = node ''cast'' [(''input'', ast_to_json nums i), (''to'', JString (cast_name ty))]"

section \<open>Reading\<close>

definition read_cast_type :: "'n JsonValue \<Rightarrow> CastType option" where
  "read_cast_type = read_enum
     [(''int64'', CastInt64), (''float64'', CastFloat64), (''string'', CastString), (''date'', CastDate)]"

definition read_unary ::
  "(AstNode \<Rightarrow> AstNode) \<Rightarrow> ('n JsonValue \<Rightarrow> AstNode option) \<Rightarrow> (string \<times> 'n JsonValue) list \<Rightarrow> AstNode option" where
  "read_unary mk rd fs = map_option mk (field ''input'' rd fs)"

definition read_binary ::
  "(AstNode \<Rightarrow> AstNode \<Rightarrow> AstNode) \<Rightarrow> ('n JsonValue \<Rightarrow> AstNode option) \<Rightarrow> (string \<times> 'n JsonValue) list
    \<Rightarrow> AstNode option" where
  "read_binary mk rd fs = do { l \<leftarrow> field ''left'' rd fs; r \<leftarrow> field ''right'' rd fs; Some (mk l r) }"

text \<open>The variant a kind names, from its members; \<open>rd\<close> reads a subtree.\<close>

definition ast_variant ::
  "('n JsonValue \<Rightarrow> AstNode option) \<Rightarrow> 'n WireNumbers \<Rightarrow> string \<Rightarrow> (string \<times> 'n JsonValue) list \<Rightarrow> AstNode option" where
  "ast_variant rd nums kind fs =
     (if kind = ''col'' then map_option Col (field ''name'' read_string fs)
      else if kind = ''str'' then map_option Str (field ''value'' read_string fs)
      else if kind = ''num'' then map_option Num (field ''value'' (read_f64 nums) fs)
      else if kind = ''bool'' then map_option Bool (field ''value'' read_bool fs)
      else if kind = ''null'' then Some Null
      else if kind = ''add'' then read_binary Add rd fs
      else if kind = ''sub'' then read_binary Sub rd fs
      else if kind = ''mul'' then read_binary Mul rd fs
      else if kind = ''div'' then read_binary Div rd fs
      else if kind = ''concat'' then do { sep \<leftarrow> field ''sep'' read_string fs; args \<leftarrow> field ''args'' (read_list rd) fs; Some (Concat sep args) }
      else if kind = ''upper'' then read_unary Upper rd fs
      else if kind = ''lower'' then read_unary Lower rd fs
      else if kind = ''trim'' then read_unary Trim rd fs
      else if kind = ''substring'' then do { i \<leftarrow> field ''input'' rd fs; start \<leftarrow> field ''start'' (read_i64 nums) fs;
              len \<leftarrow> field_or None ''length'' (read_opt (read_i64 nums)) fs; Some (Substring i start len) }
      else if kind = ''eq'' then read_binary Eq rd fs
      else if kind = ''ne'' then read_binary Ne rd fs
      else if kind = ''gt'' then read_binary Gt rd fs
      else if kind = ''lt'' then read_binary Lt rd fs
      else if kind = ''ge'' then read_binary Ge rd fs
      else if kind = ''le'' then read_binary Le rd fs
      else if kind = ''contains'' then do { i \<leftarrow> field ''input'' rd fs; p \<leftarrow> field ''pattern'' rd fs; Some (Contains i p) }
      else if kind = ''from_unix'' then do { i \<leftarrow> field ''input'' rd fs; unit \<leftarrow> field_or None ''unit'' (read_opt read_string) fs; Some (FromUnix i unit) }
      else if kind = ''and'' then read_binary And rd fs
      else if kind = ''or'' then read_binary Or rd fs
      else if kind = ''not'' then read_unary NotNode rd fs
      else if kind = ''if'' then do { c \<leftarrow> field ''cond'' rd fs; t \<leftarrow> field ''then'' rd fs; e \<leftarrow> field ''else'' rd fs; Some (IfNode c t e) }
      else if kind = ''coalesce'' then map_option Coalesce (field ''args'' (read_list rd) fs)
      else if kind = ''parse_date'' then do { i \<leftarrow> field ''input'' rd fs; format \<leftarrow> field ''format'' read_string fs; Some (ParseDate i format) }
      else if kind = ''dim_ref'' then do { dim_id \<leftarrow> field ''dim_id'' read_string fs; value \<leftarrow> field_or None ''value'' (read_opt read_string) fs;
              i \<leftarrow> field ''input'' rd fs; Some (DimRef dim_id value i) }
      else if kind = ''year'' then read_unary Year rd fs
      else if kind = ''month'' then read_unary Month rd fs
      else if kind = ''day'' then read_unary Day rd fs
      else if kind = ''cast'' then do { i \<leftarrow> field ''input'' rd fs; ty \<leftarrow> field ''to'' read_cast_type fs; Some (Cast i ty) }
      else None)"

lemma member_size: "v \<in> snd ` set fs \<Longrightarrow> size v < size (JObject fs)"
  by (auto intro!: le_imp_less_Suc size_list_estimation')

lemma element_size: "v \<in> set vs \<Longrightarrow> size v < size (JArray vs)"
  by (induction vs) auto

lemma ast_variant_cong [fundef_cong]:
  assumes "\<And>v. size v < size (JObject fs) \<Longrightarrow> rd v = rd' v" and "nums = nums'" and "kind = kind'" and "fs = fs'"
  shows "ast_variant rd nums kind fs = ast_variant rd' nums' kind' fs'"
proof -
  have subtree: "field k rd fs = field k rd' fs" for k
    by (rule field_cong) (simp only: assms(1) member_size)
  have list_eq: "read_list rd v = read_list rd' v" if "v \<in> snd ` set fs" for v
  proof (cases v)
    case (JArray vs)
    then have "rd w = rd' w" if "w \<in> set vs" for w
      using that \<open>v \<in> snd ` set fs\<close> assms(1) element_size [of w vs] member_size [of v fs] by fastforce
    with JArray show ?thesis by (simp cong: map_cong)
  qed simp_all
  have subtrees: "field k (read_list rd) fs = field k (read_list rd') fs" for k
    by (rule field_cong) (rule list_eq)
  show ?thesis
    unfolding ast_variant_def read_unary_def read_binary_def assms(2-4) [symmetric] subtree subtrees ..
qed

function ast_of_json :: "'n WireNumbers \<Rightarrow> 'n JsonValue \<Rightarrow> AstNode option" where
  "ast_of_json nums v =
     (case v of
        JObject fs \<Rightarrow> Option.bind (field ''kind'' read_string fs) (\<lambda>kind. ast_variant (ast_of_json nums) nums kind fs)
      | _ \<Rightarrow> None)"
  by pat_completeness auto
termination
  by (relation "measure (\<lambda>(nums, v). size v)") auto

declare ast_of_json.simps [simp del]

section \<open>Round trip\<close>

text \<open>The literals JSON can carry.\<close>

fun literal_ok :: "AstNode \<Rightarrow> bool" where
  "literal_ok (Num value) = finite_f64 value"
| "literal_ok (Substring i start len) \<longleftrightarrow> any_i64 start \<and> pred_option any_i64 len"
| "literal_ok _ = True"

definition wire_ast :: "AstNode \<Rightarrow> bool" where
  "wire_ast n \<longleftrightarrow> list_all literal_ok (ast_nodes n)"

lemma wire_ast_step: "wire_ast n \<longleftrightarrow> literal_ok n \<and> (\<forall>c \<in> set (children n). wire_ast c)"
  unfolding wire_ast_def by (subst ast_nodes.simps) (auto simp: list_all_iff)

lemma read_cast_name [simp]: "read_cast_type (JString (cast_name ty)) = Some ty"
  by (cases ty) (simp_all add: read_cast_type_def read_enum_def)

lemma read_node: "ast_of_json nums (node kind fs) = ast_variant (ast_of_json nums) nums kind ((''kind'', JString kind) # fs)"
  if "members ''kind'' fs = []"
  using that by (subst ast_of_json.simps) (simp add: node_def field_def)

context wire_numbers begin

lemma ast_reads: "wire_ast n \<Longrightarrow> ast_of_json nums (ast_to_json nums n) = Some n"
proof (induction "size n" arbitrary: n rule: less_induct)
  case less
  have c: "c \<in> set (children n) \<Longrightarrow> ast_of_json nums (ast_to_json nums c) = Some c" for c
    using less children_size [of c n] by (simp add: wire_ast_step [of n])
  have ok: "literal_ok n" using less.prems by (simp add: wire_ast_step [of n])
  show ?case
    using c ok
    by (cases n)
      (simp_all add: read_node unary_node_def binary_node_def ast_variant_def read_unary_def read_binary_def
        field_def field_or_def read_list_write)
qed

end

sublocale wire_numbers \<subseteq> wire_ast: codec "ast_to_json nums" "ast_of_json nums" wire_ast
  by unfold_locales (rule ast_reads)

text \<open>A level of the tree is an object, and an array for a list of arguments.\<close>

lemma ast_json_depth: "json_depth (ast_to_json nums n) \<le> 2 * ast_height n + 2"
proof (induction "size n" arbitrary: n rule: less_induct)
  case less
  obtain d where d: "d = ast_height n" by simp
  show ?case
  proof (cases "children n")
    case Nil
    then show ?thesis by (cases n) (simp_all add: node_def unary_node_def binary_node_def write_list_def pred_option_def)
  next
    case (Cons c cs)
    have "ast_height n \<noteq> 0" using Cons by (subst ast_height.simps) (simp add: Max_eq_iff)
    with d obtain e where e: "ast_height n = Suc e" by (cases "ast_height n") auto
    then have "\<forall>c \<in> set (children n). ast_height c \<le> e" using ast_height_le [of n e] by simp
    then have "\<forall>c \<in> set (children n). json_depth (ast_to_json nums c) \<le> 2 * e + 2"
      using less children_size by (meson le_trans add_le_mono1 mult_le_mono2)
    then show ?thesis
      unfolding e by (cases n) (auto simp: node_def unary_node_def binary_node_def pred_option_def)
  qed
qed

section \<open>The property test\<close>

definition ast_json_round_trip :: "'n WireNumbers \<Rightarrow> 'n JsonText \<Rightarrow> AstNode \<Rightarrow> bool" where
  "ast_json_round_trip nums jt t \<longleftrightarrow>
     from_json jt (ast_of_json nums) (print_json jt (ast_to_json nums t)) = Inr t"

lemma drawn_wire_ast: "arb_ast_node t \<Longrightarrow> wire_ast t"
proof -
  have "arb_leaf m \<Longrightarrow> literal_ok m" "arb_branch inner m \<Longrightarrow> literal_ok m" for m inner
    by (cases m; simp)+
  then show "arb_ast_node t \<Longrightarrow> wire_ast t"
    unfolding arb_ast_node_def wire_ast_def list_all_iff by (blast dest: drawn_nodes)
qed

context json_text begin

lemma ast_round_trip_test: "arb_ast_node t \<Longrightarrow> ast_json_round_trip nums jt t"
proof -
  assume t: "arb_ast_node t"
  have "json_depth (ast_to_json nums t) \<le> 14"
    using ast_json_depth [of nums t] arb_ast_node_height [OF t] by simp
  then show ?thesis
    unfolding ast_json_round_trip_def
    by (intro text_reads) (simp_all add: ast_reads drawn_wire_ast [OF t])
qed

end

end
