(* ===== verification/Config_Wire.thy ===== *)
theory Config_Wire
  imports Ast_Wire
begin

text \<open>
  The JSON form of a pipeline configuration, from the attributes of \<open>src/config.rs\<close> (lines 1 to 210):
  renamed members, defaults, members left out when empty, types that deny unknown members, the untagged
  rows of a dimension. A configuration that is written reads back as itself.
\<close>

section \<open>Writing\<close>

definition format_name :: "SourceFormat \<Rightarrow> string" where
  "format_name f = (case f of Csv \<Rightarrow> ''csv'' | Ndjson \<Rightarrow> ''ndjson'')"

definition match_name :: "MatchMode \<Rightarrow> string" where
  "match_name m = (case m of Exact \<Rightarrow> ''exact'' | KeywordSubstring \<Rightarrow> ''keyword_substring'')"

definition assertions_to_json :: "'n WireNumbers \<Rightarrow> ColumnAssertions \<Rightarrow> 'n JsonValue" where
  "assertions_to_json nums a = JObject
     (member_opt ''not_null'' JBool (ca_not_null a) @ member_opt ''min'' (write_f64 nums) (ca_min a)
      @ member_opt ''max'' (write_f64 nums) (ca_max a))"

definition column_to_json :: "'n WireNumbers \<Rightarrow> ColumnSchema \<Rightarrow> 'n JsonValue" where
  "column_to_json nums c = JObject
     ([(''name'', JString (cs_name c)), (''path'', write_opt JString (cs_path c)), (''type'', JString (cs_type c)),
       (''nullable'', write_opt JBool (cs_nullable c))]
      @ member_opt ''assertions'' (assertions_to_json nums) (cs_assertions c))"

definition source_to_json :: "'n WireNumbers \<Rightarrow> SourceContainer \<Rightarrow> 'n JsonValue" where
  "source_to_json nums sc = JObject
     [(''id'', JString (sc_id sc)), (''name'', JString (sc_name sc)), (''path_prefix'', JString (sc_path_prefix sc)),
      (''format'', JString (format_name (sc_format sc))), (''schema'', write_list (column_to_json nums) (sc_schema sc)),
      (''record_filter'', write_opt (ast_to_json nums) (sc_record_filter sc))]"

fun on_miss_to_json :: "OnMiss \<Rightarrow> 'n JsonValue" where
  "on_miss_to_json OnMissNull = JString ''null''"
| "on_miss_to_json Passthrough = JString ''passthrough''"
| "on_miss_to_json (Literal s) = JObject [(''literal'', JString s)]"

definition row_to_json :: "'n WireNumbers \<Rightarrow> InlineDimensionRow \<Rightarrow> 'n JsonValue" where
  "row_to_json nums r = JObject
     [(''patterns'', write_list JString (ir_patterns r)), (''values'', write_list JString (ir_values r)),
      (''priority'', write_int nums (ir_priority r))]"

fun rows_to_json :: "'n WireNumbers \<Rightarrow> DimensionRows \<Rightarrow> 'n JsonValue" where
  "rows_to_json nums (Inline values rows) =
     JObject [(''values'', write_list JString values), (''rows'', write_list (row_to_json nums) rows)]"
| "rows_to_json nums (File path_prefix key values priority_column) =
     JObject [(''path_prefix'', JString path_prefix), (''key'', JString key), (''values'', write_list JString values),
       (''priority_column'', write_opt JString priority_column)]"

definition dimension_to_json :: "'n WireNumbers \<Rightarrow> Dimension \<Rightarrow> 'n JsonValue" where
  "dimension_to_json nums d = JObject
     [(''id'', JString (d_id d)), (''name'', write_opt JString (d_name d)), (''match'', JString (match_name (d_match d))),
      (''case_insensitive'', write_opt JBool (d_case_insensitive d)), (''on_miss'', on_miss_to_json (d_on_miss d)),
      (''rows'', rows_to_json nums (d_rows d))]"

definition mapping_column_to_json :: "'n WireNumbers \<Rightarrow> MappingColumn \<Rightarrow> 'n JsonValue" where
  "mapping_column_to_json nums c = JObject [(''name'', JString (mc_name c)), (''expr'', ast_to_json nums (mc_expr c))]"

definition mapping_to_json :: "'n WireNumbers \<Rightarrow> Mapping \<Rightarrow> 'n JsonValue" where
  "mapping_to_json nums m = JObject
     [(''id'', JString (m_id m)), (''name'', JString (m_name m)), (''source_container_id'', JString (m_source_container_id m)),
      (''analytic_table_id'', JString (m_analytic_table_id m)),
      (''columns'', write_list (mapping_column_to_json nums) (m_columns m)),
      (''where'', write_opt (ast_to_json nums) (m_where m))]"

definition table_to_json :: "'n WireNumbers \<Rightarrow> AnalyticTable \<Rightarrow> 'n JsonValue" where
  "table_to_json nums t = JObject
     ([(''id'', JString (t_id t)), (''name'', JString (t_name t)), (''schema'', write_list (column_to_json nums) (t_schema t))]
      @ member_if (t_partition_keys t \<noteq> []) ''partition_keys'' (write_list JString (t_partition_keys t))
      @ member_if (t_dedup_keys t \<noteq> []) ''dedup_keys'' (write_list JString (t_dedup_keys t)))"

definition position_to_json :: "'n WireNumbers \<Rightarrow> LayoutPosition \<Rightarrow> 'n JsonValue" where
  "position_to_json nums p = JObject [(''x'', write_f64 nums (lp_x p)), (''y'', write_f64 nums (lp_y p))]"

text \<open>The entries of the layout come in the order the hash map iterates in.\<close>

definition config_to_json ::
  "'n WireNumbers \<Rightarrow> (string \<times> LayoutPosition) list \<Rightarrow> PipelineConfig \<Rightarrow> 'n JsonValue" where
  "config_to_json nums entries cfg = JObject
     [(''version'', write_int nums (uint (cfg_version cfg))),
      (''source_containers'', write_list (source_to_json nums) (cfg_source_containers cfg)),
      (''dimensions'', write_list (dimension_to_json nums) (cfg_dimensions cfg)),
      (''mappings'', write_list (mapping_to_json nums) (cfg_mappings cfg)),
      (''analytic_tables'', write_list (table_to_json nums) (cfg_analytic_tables cfg)),
      (''layout'', JObject (map (\<lambda>(k, p). (k, position_to_json nums p)) entries))]"

section \<open>Reading\<close>

definition read_format :: "'n JsonValue \<Rightarrow> SourceFormat option" where
  "read_format = read_enum [(''csv'', Csv), (''ndjson'', Ndjson)]"

definition read_match :: "'n JsonValue \<Rightarrow> MatchMode option" where
  "read_match = read_enum [(''exact'', Exact), (''keyword_substring'', KeywordSubstring)]"

definition assertions_of_json :: "'n WireNumbers \<Rightarrow> 'n JsonValue \<Rightarrow> ColumnAssertions option" where
  "assertions_of_json nums v = do {
     fs \<leftarrow> object_fields v;
     only_members [''not_null'', ''min'', ''max''] fs;
     not_null \<leftarrow> field_or None ''not_null'' (read_opt read_bool) fs;
     lo \<leftarrow> field_or None ''min'' (read_opt (read_f64 nums)) fs;
     hi \<leftarrow> field_or None ''max'' (read_opt (read_f64 nums)) fs;
     Some \<lparr>ca_not_null = not_null, ca_min = lo, ca_max = hi\<rparr> }"

definition column_of_json :: "'n WireNumbers \<Rightarrow> 'n JsonValue \<Rightarrow> ColumnSchema option" where
  "column_of_json nums v = do {
     fs \<leftarrow> object_fields v;
     name \<leftarrow> field ''name'' read_string fs;
     path \<leftarrow> field_or None ''path'' (read_opt read_string) fs;
     ty \<leftarrow> field ''type'' read_string fs;
     nullable \<leftarrow> field_or None ''nullable'' (read_opt read_bool) fs;
     assertions \<leftarrow> field_or None ''assertions'' (read_opt (assertions_of_json nums)) fs;
     Some \<lparr>cs_name = name, cs_path = path, cs_type = ty, cs_nullable = nullable, cs_assertions = assertions\<rparr> }"

definition source_of_json :: "'n WireNumbers \<Rightarrow> 'n JsonValue \<Rightarrow> SourceContainer option" where
  "source_of_json nums v = do {
     fs \<leftarrow> object_fields v;
     i \<leftarrow> field ''id'' read_string fs;
     name \<leftarrow> field ''name'' read_string fs;
     path_prefix \<leftarrow> field ''path_prefix'' read_string fs;
     format \<leftarrow> field_or Csv ''format'' read_format fs;
     schema \<leftarrow> field ''schema'' (read_list (column_of_json nums)) fs;
     record_filter \<leftarrow> field_or None ''record_filter'' (read_opt (ast_of_json nums)) fs;
     Some \<lparr>sc_id = i, sc_name = name, sc_path_prefix = path_prefix, sc_format = format, sc_schema = schema,
       sc_record_filter = record_filter\<rparr> }"

text \<open>A unit variant as a string, the other one as an object with one member.\<close>

fun on_miss_of_json :: "'n JsonValue \<Rightarrow> OnMiss option" where
  "on_miss_of_json (JString s) = map_of [(''null'', OnMissNull), (''passthrough'', Passthrough)] s"
| "on_miss_of_json (JObject [(k, v)]) = (if k = ''literal'' then map_option Literal (read_string v) else None)"
| "on_miss_of_json _ = None"

definition row_of_json :: "'n WireNumbers \<Rightarrow> 'n JsonValue \<Rightarrow> InlineDimensionRow option" where
  "row_of_json nums v = do {
     fs \<leftarrow> object_fields v;
     patterns \<leftarrow> field ''patterns'' (read_list read_string) fs;
     values \<leftarrow> field ''values'' (read_list read_string) fs;
     priority \<leftarrow> field_or 0 ''priority'' (read_i64 nums) fs;
     Some \<lparr>ir_patterns = patterns, ir_values = values, ir_priority = priority\<rparr> }"

definition inline_of_json :: "'n WireNumbers \<Rightarrow> (string \<times> 'n JsonValue) list \<Rightarrow> DimensionRows option" where
  "inline_of_json nums fs = do {
     values \<leftarrow> field ''values'' (read_list read_string) fs;
     rows \<leftarrow> field ''rows'' (read_list (row_of_json nums)) fs;
     Some (Inline values rows) }"

definition file_of_json :: "(string \<times> 'n JsonValue) list \<Rightarrow> DimensionRows option" where
  "file_of_json fs = do {
     path_prefix \<leftarrow> field ''path_prefix'' read_string fs;
     key \<leftarrow> field ''key'' read_string fs;
     values \<leftarrow> field ''values'' (read_list read_string) fs;
     priority_column \<leftarrow> field_or None ''priority_column'' (read_opt read_string) fs;
     Some (File path_prefix key values priority_column) }"

text \<open>Untagged: the first variant that reads.\<close>

definition rows_of_json :: "'n WireNumbers \<Rightarrow> 'n JsonValue \<Rightarrow> DimensionRows option" where
  "rows_of_json nums v = Option.bind (object_fields v) (\<lambda>fs.
     case inline_of_json nums fs of Some rows \<Rightarrow> Some rows | None \<Rightarrow> file_of_json fs)"

definition dimension_of_json :: "'n WireNumbers \<Rightarrow> 'n JsonValue \<Rightarrow> Dimension option" where
  "dimension_of_json nums v = do {
     fs \<leftarrow> object_fields v;
     i \<leftarrow> field ''id'' read_string fs;
     name \<leftarrow> field_or None ''name'' (read_opt read_string) fs;
     mode \<leftarrow> field_or Exact ''match'' read_match fs;
     case_insensitive \<leftarrow> field_or None ''case_insensitive'' (read_opt read_bool) fs;
     on_miss \<leftarrow> field_or OnMissNull ''on_miss'' on_miss_of_json fs;
     rows \<leftarrow> field ''rows'' (rows_of_json nums) fs;
     Some \<lparr>d_id = i, d_name = name, d_match = mode, d_case_insensitive = case_insensitive, d_on_miss = on_miss,
       d_rows = rows\<rparr> }"

definition mapping_column_of_json :: "'n WireNumbers \<Rightarrow> 'n JsonValue \<Rightarrow> MappingColumn option" where
  "mapping_column_of_json nums v = do {
     fs \<leftarrow> object_fields v;
     name \<leftarrow> field ''name'' read_string fs;
     expr \<leftarrow> field ''expr'' (ast_of_json nums) fs;
     Some \<lparr>mc_name = name, mc_expr = expr\<rparr> }"

definition mapping_of_json :: "'n WireNumbers \<Rightarrow> 'n JsonValue \<Rightarrow> Mapping option" where
  "mapping_of_json nums v = do {
     fs \<leftarrow> object_fields v;
     only_members [''id'', ''name'', ''source_container_id'', ''analytic_table_id'', ''columns'', ''where''] fs;
     i \<leftarrow> field ''id'' read_string fs;
     name \<leftarrow> field_or [] ''name'' read_string fs;
     source_container_id \<leftarrow> field ''source_container_id'' read_string fs;
     analytic_table_id \<leftarrow> field ''analytic_table_id'' read_string fs;
     columns \<leftarrow> field ''columns'' (read_list (mapping_column_of_json nums)) fs;
     predicate \<leftarrow> field_or None ''where'' (read_opt (ast_of_json nums)) fs;
     Some \<lparr>m_id = i, m_name = name, m_source_container_id = source_container_id,
       m_analytic_table_id = analytic_table_id, m_columns = columns, m_where = predicate\<rparr> }"

definition table_of_json :: "'n WireNumbers \<Rightarrow> 'n JsonValue \<Rightarrow> AnalyticTable option" where
  "table_of_json nums v = do {
     fs \<leftarrow> object_fields v;
     i \<leftarrow> field ''id'' read_string fs;
     name \<leftarrow> field ''name'' read_string fs;
     schema \<leftarrow> field ''schema'' (read_list (column_of_json nums)) fs;
     partition_keys \<leftarrow> field_or [] ''partition_keys'' (read_list read_string) fs;
     dedup_keys \<leftarrow> field_or [] ''dedup_keys'' (read_list read_string) fs;
     Some \<lparr>t_id = i, t_name = name, t_schema = schema, t_partition_keys = partition_keys, t_dedup_keys = dedup_keys\<rparr> }"

definition position_of_json :: "'n WireNumbers \<Rightarrow> 'n JsonValue \<Rightarrow> LayoutPosition option" where
  "position_of_json nums v = do {
     fs \<leftarrow> object_fields v;
     x \<leftarrow> field ''x'' (read_f64 nums) fs;
     y \<leftarrow> field ''y'' (read_f64 nums) fs;
     Some \<lparr>lp_x = x, lp_y = y\<rparr> }"

definition config_of_json :: "'n WireNumbers \<Rightarrow> 'n JsonValue \<Rightarrow> PipelineConfig option" where
  "config_of_json nums v = do {
     fs \<leftarrow> object_fields v;
     version \<leftarrow> field ''version'' (read_u32 nums) fs;
     source_containers \<leftarrow> field ''source_containers'' (read_list (source_of_json nums)) fs;
     dimensions \<leftarrow> field ''dimensions'' (read_list (dimension_of_json nums)) fs;
     mappings \<leftarrow> field ''mappings'' (read_list (mapping_of_json nums)) fs;
     analytic_tables \<leftarrow> field ''analytic_tables'' (read_list (table_of_json nums)) fs;
     layout \<leftarrow> field_or Map.empty ''layout'' (read_map (position_of_json nums)) fs;
     Some \<lparr>cfg_version = version, cfg_source_containers = source_containers, cfg_dimensions = dimensions,
       cfg_mappings = mappings, cfg_analytic_tables = analytic_tables, cfg_layout = layout\<rparr> }"

section \<open>Round trip\<close>

text \<open>What JSON can carry: finite floats, integers of their type.\<close>

definition wire_assertions :: "ColumnAssertions \<Rightarrow> bool" where
  "wire_assertions a \<longleftrightarrow> pred_option finite_f64 (ca_min a) \<and> pred_option finite_f64 (ca_max a)"

definition wire_column :: "ColumnSchema \<Rightarrow> bool" where
  "wire_column c \<longleftrightarrow> pred_option wire_assertions (cs_assertions c)"

definition wire_source :: "SourceContainer \<Rightarrow> bool" where
  "wire_source sc \<longleftrightarrow> list_all wire_column (sc_schema sc) \<and> pred_option wire_ast (sc_record_filter sc)"

definition wire_dimension :: "Dimension \<Rightarrow> bool" where
  "wire_dimension d \<longleftrightarrow>
     (case d_rows d of Inline _ rows \<Rightarrow> list_all (\<lambda>r. any_i64 (ir_priority r)) rows | File _ _ _ _ \<Rightarrow> True)"

definition wire_mapping :: "Mapping \<Rightarrow> bool" where
  "wire_mapping m \<longleftrightarrow> list_all (\<lambda>c. wire_ast (mc_expr c)) (m_columns m) \<and> pred_option wire_ast (m_where m)"

definition wire_table :: "AnalyticTable \<Rightarrow> bool" where
  "wire_table t \<longleftrightarrow> list_all wire_column (t_schema t)"

definition wire_position :: "LayoutPosition \<Rightarrow> bool" where
  "wire_position p \<longleftrightarrow> finite_f64 (lp_x p) \<and> finite_f64 (lp_y p)"

definition wire_config :: "PipelineConfig \<Rightarrow> bool" where
  "wire_config cfg \<longleftrightarrow> list_all wire_source (cfg_source_containers cfg) \<and> list_all wire_dimension (cfg_dimensions cfg)
     \<and> list_all wire_mapping (cfg_mappings cfg) \<and> list_all wire_table (cfg_analytic_tables cfg)
     \<and> (\<forall>p \<in> ran (cfg_layout cfg). wire_position p)"

lemmas wire_reads = field_def field_or_def member_if_def only_members_def

lemma ast_not_null: "ast_to_json nums n \<noteq> JNull"
  by (cases n) (simp_all add: node_def unary_node_def binary_node_def)

lemma read_map_write:
  assumes "distinct (map fst es)" and "\<And>k p. (k, p) \<in> set es \<Longrightarrow> rd (wr p) = Some p"
  shows "read_map rd (JObject (map (\<lambda>(k, p). (k, wr p)) es)) = Some (map_of es)"
proof -
  have "those (map (\<lambda>(k, x). map_option (Pair k) (rd x)) (map (\<lambda>(k, p). (k, wr p)) es)) = Some es"
    using assms(2) those_map [of es "\<lambda>(k, p). map_option (Pair k) (rd (wr p))" "\<lambda>e. e"]
    by (auto simp: comp_def case_prod_unfold)
  moreover have "map_of (rev es) = map_of es"
    using assms(1) by (intro map_of_eqI) (auto simp: rev_map [symmetric])
  ultimately show ?thesis by (simp add: read_map_def)
qed

context wire_numbers begin

lemma assertions_read: "wire_assertions a \<Longrightarrow> assertions_of_json nums (assertions_to_json nums a) = Some a"
  by (cases "ca_not_null a"; cases "ca_min a"; cases "ca_max a")
    (simp_all add: assertions_of_json_def assertions_to_json_def wire_reads wire_assertions_def write_f64_def
      float_reads)

lemma column_reads: "wire_column c \<Longrightarrow> column_of_json nums (column_to_json nums c) = Some c"
proof -
  assume ok: "wire_column c"
  then have "read_opt (assertions_of_json nums) (assertions_to_json nums a) = Some (Some a)"
    if "cs_assertions c = Some a" for a
    using that assertions_read [of a] by (simp add: wire_column_def assertions_to_json_def)
  then show ?thesis
    by (cases "cs_assertions c") (simp_all add: column_of_json_def column_to_json_def wire_reads)
qed

lemma ast_opt_reads: "pred_option wire_ast x \<Longrightarrow> read_opt (ast_of_json nums) (write_opt (ast_to_json nums) x) = Some x"
  by (rule read_opt_write) (simp add: ast_not_null ast_reads)

lemma source_reads: "wire_source sc \<Longrightarrow> source_of_json nums (source_to_json nums sc) = Some sc"
  by (cases "sc_format sc")
    (simp_all add: source_of_json_def source_to_json_def wire_reads wire_source_def list_all_iff read_list_write
      column_reads ast_opt_reads read_format_def read_enum_def format_name_def)

lemma row_reads: "any_i64 (ir_priority r) \<Longrightarrow> row_of_json nums (row_to_json nums r) = Some r"
  by (simp add: row_of_json_def row_to_json_def wire_reads)

lemma rows_read:
  "(case rows of Inline _ rs \<Rightarrow> list_all (\<lambda>r. any_i64 (ir_priority r)) rs | File _ _ _ _ \<Rightarrow> True) \<Longrightarrow>
     rows_of_json nums (rows_to_json nums rows) = Some rows"
  by (cases rows)
    (simp_all add: rows_of_json_def inline_of_json_def file_of_json_def wire_reads list_all_iff read_list_write row_reads)

lemma on_miss_reads: "on_miss_of_json (on_miss_to_json m) = Some m"
  by (cases m) simp_all

lemma dimension_reads: "wire_dimension d \<Longrightarrow> dimension_of_json nums (dimension_to_json nums d) = Some d"
  by (cases "d_match d")
    (simp_all add: dimension_of_json_def dimension_to_json_def wire_reads wire_dimension_def rows_read on_miss_reads
      read_match_def read_enum_def match_name_def)

lemma mapping_reads: "wire_mapping m \<Longrightarrow> mapping_of_json nums (mapping_to_json nums m) = Some m"
proof -
  assume ok: "wire_mapping m"
  have "mapping_column_of_json nums (mapping_column_to_json nums c) = Some c" if "c \<in> set (m_columns m)" for c
    using ok that
    by (simp add: mapping_column_of_json_def mapping_column_to_json_def wire_reads wire_mapping_def list_all_iff ast_reads)
  with ok show ?thesis
    by (simp add: mapping_of_json_def mapping_to_json_def wire_reads wire_mapping_def read_list_write ast_opt_reads)
qed

lemma table_reads: "wire_table t \<Longrightarrow> table_of_json nums (table_to_json nums t) = Some t"
  by (simp add: table_of_json_def table_to_json_def wire_reads wire_table_def list_all_iff read_list_write column_reads)

lemma config_reads:
  assumes "wire_config cfg" and "distinct (map fst entries)" and "map_of entries = cfg_layout cfg"
  shows "config_of_json nums (config_to_json nums entries cfg) = Some cfg"
proof -
  have "position_of_json nums (position_to_json nums p) = Some p" if "(k, p) \<in> set entries" for k p
  proof -
    have "p \<in> ran (cfg_layout cfg)" using that assms(2,3) by (metis map_of_eq_Some_iff ranI)
    with assms(1) show ?thesis
      by (simp add: wire_config_def wire_position_def position_of_json_def position_to_json_def wire_reads)
  qed
  with assms(2,3) have "read_map (position_of_json nums) (JObject (map (\<lambda>(k, p). (k, position_to_json nums p)) entries))
      = Some (cfg_layout cfg)"
    by (simp add: read_map_write)
  with assms(1) show ?thesis
    by (simp add: config_of_json_def config_to_json_def wire_reads wire_config_def list_all_iff read_list_write
        source_reads dimension_reads mapping_reads table_reads)
qed

end

sublocale wire_numbers \<subseteq> wire_source: codec "source_to_json nums" "source_of_json nums" wire_source
  by unfold_locales (rule source_reads)

sublocale wire_numbers \<subseteq> wire_mapping: codec "mapping_to_json nums" "mapping_of_json nums" wire_mapping
  by unfold_locales (rule mapping_reads)

section \<open>Nesting\<close>

text \<open>All expressions of a configuration; sixty levels of them keep the document within the parser's
  limit.\<close>

definition config_exprs :: "PipelineConfig \<Rightarrow> AstNode set" where
  "config_exprs cfg =
     (\<Union>m \<in> set (cfg_mappings cfg). mc_expr ` set (m_columns m) \<union> set_option (m_where m))
     \<union> (\<Union>sc \<in> set (cfg_source_containers cfg). set_option (sc_record_filter sc))"

lemma column_depth: "json_depth (column_to_json nums c) \<le> 2"
  by (auto simp: column_to_json_def assertions_to_json_def pred_option_def ball_Un)

lemma dimension_depth: "json_depth (dimension_to_json nums d) \<le> 5"
proof -
  have "json_depth (on_miss_to_json (d_on_miss d)) \<le> 4" by (cases "d_on_miss d") simp_all
  moreover have "json_depth (rows_to_json nums (d_rows d)) \<le> 4"
    by (cases "d_rows d") (auto simp: row_to_json_def pred_option_def)
  ultimately show ?thesis by (simp add: dimension_to_json_def pred_option_def)
qed

lemma config_depth:
  assumes "\<forall>n \<in> config_exprs cfg. ast_height n \<le> 60"
  shows "json_depth (config_to_json nums es cfg) \<le> 127"
proof -
  have e: "json_depth (ast_to_json nums n) \<le> 122" if "n \<in> config_exprs cfg" for n
    using ast_json_depth [of nums n] assms that by fastforce
  have "json_depth (source_to_json nums sc) \<le> 125" if "sc \<in> set (cfg_source_containers cfg)" for sc
  proof -
    have "pred_option (\<lambda>n. json_depth (ast_to_json nums n) \<le> 124) (sc_record_filter sc)"
      using e that by (fastforce simp: config_exprs_def pred_option_def)
    then show ?thesis
      by (auto simp: source_to_json_def intro: order_trans [OF column_depth])
  qed
  moreover have "json_depth (mapping_to_json nums m) \<le> 125" if "m \<in> set (cfg_mappings cfg)" for m
  proof -
    have "pred_option (\<lambda>n. json_depth (ast_to_json nums n) \<le> 124) (m_where m)"
      "\<forall>c \<in> set (m_columns m). json_depth (ast_to_json nums (mc_expr c)) \<le> 122"
      using e that by (fastforce simp: config_exprs_def pred_option_def)+
    then show ?thesis by (auto simp: mapping_to_json_def mapping_column_to_json_def)
  qed
  moreover have "json_depth (table_to_json nums t) \<le> 125" for t
    by (auto simp: table_to_json_def ball_Un intro: order_trans [OF column_depth])
  moreover have "json_depth (dimension_to_json nums d) \<le> 125" for d
    by (rule order_trans [OF dimension_depth]) simp
  ultimately show ?thesis by (auto simp: config_to_json_def position_to_json_def)
qed

section \<open>Properties\<close>

text \<open>C25: A configuration the worker's types can hold survives being written as JSON and parsed again,
  whichever way the layout's hash map is iterated: members that are left out come back as their
  defaults, a dimension's untagged rows as the variant they were. It needs finite numbers, priorities
  and substring bounds of \<open>i64\<close>, and expressions of at most sixty levels.\<close>

theorem config_text_round_trip:
  assumes "json_text nums jt" and "wire_config cfg" and "\<forall>n \<in> config_exprs cfg. ast_height n \<le> 60"
    and "distinct (map fst entries)" and "map_of entries = cfg_layout cfg"
  shows "from_json jt (config_of_json nums) (print_json jt (config_to_json nums entries cfg)) = Inr cfg"
proof (rule json_text.text_reads [OF assms(1)])
  show "config_of_json nums (config_to_json nums entries cfg) = Some cfg"
    using assms by (intro wire_numbers.config_reads) (simp_all add: json_text_def)
  show "json_depth (config_to_json nums entries cfg) \<le> 127" by (rule config_depth [OF assms(3)])
qed

end
