(* ===== verification/Message_Wire.thy ===== *)
theory Message_Wire
  imports Config_Wire Manifest_Proofs Http_Proofs Queue Config_Proofs Pipeline
begin

text \<open>
  The JSON forms of the documents the worker exchanges with its services: the job message of
  \<open>src/queue.rs\<close>, the manifest and the pointer of \<open>src/manifest.rs\<close>, the lenient view of a stored
  configuration and the upload events of \<open>src/http.rs\<close>. The conversions that the other theories take as
  parameters are built from them over \<open>serde_json\<close>'s text, and their laws follow from its law alone.
\<close>

section \<open>Job messages\<close>

definition message_to_json :: "'n WireNumbers \<Rightarrow> JobMessage \<Rightarrow> 'n JsonValue" where
  "message_to_json nums m = JObject
     [(''job_id'', JString (jm_job_id m)), (''pipeline'', JString (jm_pipeline m)), (''prefix'', JString (jm_prefix m)),
      (''config_version_id'', write_opt (write_int nums) (jm_config_version_id m)),
      (''clean_run'', JBool (jm_clean_run m)), (''trigger'', JString (jm_trigger m)),
      (''enqueued_at'', write_int nums (jm_enqueued_at m))]"

definition message_of_json :: "'n WireNumbers \<Rightarrow> 'n JsonValue \<Rightarrow> JobMessage option" where
  "message_of_json nums v = do {
     fs \<leftarrow> object_fields v;
     job_id \<leftarrow> field ''job_id'' read_string fs;
     pipeline \<leftarrow> field ''pipeline'' read_string fs;
     prefix \<leftarrow> field ''prefix'' read_string fs;
     config_version_id \<leftarrow> field_or None ''config_version_id'' (read_opt (read_i64 nums)) fs;
     clean_run \<leftarrow> field_or False ''clean_run'' read_bool fs;
     trigger \<leftarrow> field ''trigger'' read_string fs;
     enqueued_at \<leftarrow> field ''enqueued_at'' (read_i64 nums) fs;
     Some \<lparr>jm_job_id = job_id, jm_pipeline = pipeline, jm_prefix = prefix, jm_config_version_id = config_version_id,
       jm_clean_run = clean_run, jm_trigger = trigger, jm_enqueued_at = enqueued_at\<rparr> }"

definition wire_message :: "JobMessage \<Rightarrow> bool" where
  "wire_message m \<longleftrightarrow> pred_option any_i64 (jm_config_version_id m) \<and> any_i64 (jm_enqueued_at m)"

definition message_json :: "'n WireNumbers \<Rightarrow> 'n JsonText \<Rightarrow> MessageJson" where
  "message_json nums jt = \<lparr>enc_message = \<lambda>m. print_json jt (message_to_json nums m),
     dec_message = from_json jt (message_of_json nums)\<rparr>"

section \<open>Manifests\<close>

definition pointer_to_json :: "'n WireNumbers \<Rightarrow> nat \<Rightarrow> 'n JsonValue" where
  "pointer_to_json nums version = JObject [(''version'', write_int nums (int version))]"

definition pointer_of_json :: "'n WireNumbers \<Rightarrow> 'n JsonValue \<Rightarrow> nat option" where
  "pointer_of_json nums v = Option.bind (object_fields v) (field ''version'' (read_u64 nums))"

definition manifest_file_to_json :: "'n WireNumbers \<Rightarrow> ManifestFile \<Rightarrow> 'n JsonValue" where
  "manifest_file_to_json nums f = JObject
     [(''key'', JString (mf_key f)), (''mapping_id'', JString (mf_mapping_id f)), (''bytes'', write_int nums (int (mf_bytes f)))]"

definition manifest_file_of_json :: "'n WireNumbers \<Rightarrow> 'n JsonValue \<Rightarrow> ManifestFile option" where
  "manifest_file_of_json nums v = do {
     fs \<leftarrow> object_fields v;
     key \<leftarrow> field ''key'' read_string fs;
     mapping_id \<leftarrow> field ''mapping_id'' read_string fs;
     bytes \<leftarrow> field ''bytes'' (read_u64 nums) fs;
     Some \<lparr>mf_key = key, mf_mapping_id = mapping_id, mf_bytes = bytes\<rparr> }"

definition manifest_to_json :: "'n WireNumbers \<Rightarrow> TableManifest \<Rightarrow> 'n JsonValue" where
  "manifest_to_json nums m = JObject
     ([(''version'', write_int nums (int (tm_version m))), (''created_at'', JString (tm_created_at m))]
      @ member_opt ''job_id'' JString (tm_job_id m)
      @ [(''files'', write_list (manifest_file_to_json nums) (tm_files m))])"

definition manifest_of_json :: "'n WireNumbers \<Rightarrow> 'n JsonValue \<Rightarrow> TableManifest option" where
  "manifest_of_json nums v = do {
     fs \<leftarrow> object_fields v;
     version \<leftarrow> field ''version'' (read_u64 nums) fs;
     created_at \<leftarrow> field ''created_at'' read_string fs;
     job_id \<leftarrow> field_or None ''job_id'' (read_opt read_string) fs;
     files \<leftarrow> field ''files'' (read_list (manifest_file_of_json nums)) fs;
     Some \<lparr>tm_version = version, tm_created_at = created_at, tm_job_id = job_id, tm_files = files\<rparr> }"

definition wire_manifest :: "TableManifest \<Rightarrow> bool" where
  "wire_manifest m \<longleftrightarrow> tm_version m \<le> u64_max \<and> list_all (\<lambda>f. mf_bytes f \<le> u64_max) (tm_files m)"

text \<open>A number beyond \<open>u64\<close> is not a value of the Rust types; writing one is an error here.\<close>

definition manifest_json :: "'n WireNumbers \<Rightarrow> 'n JsonText \<Rightarrow> ManifestJson" where
  "manifest_json nums jt = \<lparr>
     enc_pointer = \<lambda>v. if v \<le> u64_max then Inr (print_json jt (pointer_to_json nums v)) else Inl ''out of range'',
     dec_pointer = from_json jt (pointer_of_json nums),
     enc_manifest = \<lambda>m. if wire_manifest m then Inr (print_json jt (manifest_to_json nums m)) else Inl ''out of range'',
     dec_manifest = from_json jt (manifest_of_json nums)\<rparr>"

section \<open>The view of a configuration that routing reads\<close>

definition routing_source_of_json :: "'n JsonValue \<Rightarrow> string option" where
  "routing_source_of_json v = Option.bind (object_fields v) (field_or [] ''path_prefix'' read_string)"

definition routing_of_json :: "'n JsonValue \<Rightarrow> string list option" where
  "routing_of_json v =
     Option.bind (object_fields v) (field_or [] ''source_containers'' (read_list routing_source_of_json))"

section \<open>Upload events\<close>

text \<open>The name in a bucket and the key in an object are optional, as are the two themselves.\<close>

definition named_of_json :: "string \<Rightarrow> 'n JsonValue \<Rightarrow> string option option" where
  "named_of_json k v = Option.bind (object_fields v) (field_or None k (read_opt read_string))"

definition inner_of_json :: "'n JsonValue \<Rightarrow> (string option \<times> string option) option" where
  "inner_of_json v = do {
     fs \<leftarrow> object_fields v;
     bucket \<leftarrow> field_or None ''bucket'' (read_opt (named_of_json ''name'')) fs;
     object \<leftarrow> field_or None ''object'' (read_opt (named_of_json ''key'')) fs;
     Some (Option.bind bucket (\<lambda>b. b), Option.bind object (\<lambda>k. k)) }"

definition event_of_json :: "'n JsonValue \<Rightarrow> S3EventRecord option" where
  "event_of_json v = do {
     fs \<leftarrow> object_fields v;
     event_name \<leftarrow> field_or [] ''eventName'' read_string fs;
     s3 \<leftarrow> field_or None ''s3'' (read_opt inner_of_json) fs;
     Some \<lparr>ev_name = event_name, ev_bucket = Option.bind s3 fst, ev_key = Option.bind s3 snd\<rparr> }"

definition events_of_json :: "'n JsonValue \<Rightarrow> S3EventRecord list option" where
  "events_of_json v = Option.bind (object_fields v) (field_or [] ''Records'' (read_list event_of_json))"

section \<open>What is written reads back\<close>

context wire_numbers begin

lemma message_reads: "wire_message m \<Longrightarrow> message_of_json nums (message_to_json nums m) = Some m"
  by (simp add: message_of_json_def message_to_json_def wire_message_def wire_reads)

lemma pointer_reads: "v \<le> u64_max \<Longrightarrow> pointer_of_json nums (pointer_to_json nums v) = Some v"
  by (simp add: pointer_of_json_def pointer_to_json_def wire_reads)

lemma manifest_reads: "wire_manifest m \<Longrightarrow> manifest_of_json nums (manifest_to_json nums m) = Some m"
proof -
  assume ok: "wire_manifest m"
  have "manifest_file_of_json nums (manifest_file_to_json nums f) = Some f" if "f \<in> set (tm_files m)" for f
    using ok that
    by (simp add: manifest_file_of_json_def manifest_file_to_json_def wire_reads wire_manifest_def list_all_iff)
  with ok show ?thesis
    by (cases "tm_job_id m")
      (simp_all add: manifest_of_json_def manifest_to_json_def wire_reads wire_manifest_def read_list_write)
qed

end

context json_text begin

lemma message_text: "wire_message m \<Longrightarrow> dec_message (message_json nums jt) (enc_message (message_json nums jt) m) = Inr m"
proof -
  have "json_depth (message_to_json nums m) \<le> 127" by (auto simp: message_to_json_def pred_option_def)
  then show "wire_message m \<Longrightarrow> ?thesis" by (simp add: message_json_def text_reads message_reads)
qed

text \<open>The laws of the manifest documents hold of their real form.\<close>

lemma manifest_laws: "json_laws (manifest_json nums jt)"
proof -
  have "json_depth (pointer_to_json nums v) \<le> 127" "json_depth (manifest_to_json nums m) \<le> 127" for v m
    by (auto simp: pointer_to_json_def manifest_to_json_def manifest_file_to_json_def)
  then show ?thesis
    by (auto simp: json_laws_def manifest_json_def text_reads pointer_reads manifest_reads)
qed

end

section \<open>One document, two readers\<close>

text \<open>Runs read a stored configuration with \<open>config_of_json\<close>, the webhook with \<open>routing_of_json\<close>.\<close>

lemma source_prefix: "source_of_json nums v = Some sc \<Longrightarrow> routing_source_of_json v = Some (sc_path_prefix sc)"
  by (auto simp: source_of_json_def routing_source_of_json_def bind_eq_Some_conv field_Some field_or_def)

text \<open>A document that reads as a pipeline configuration also reads as the lenient view the webhook routes
  by, and gives it exactly the path prefixes of the configuration's sources, in their order.\<close>

lemma routing_reads_config:
  assumes "config_of_json nums v = Some cfg"
  shows "routing_of_json v = Some (map sc_path_prefix (cfg_source_containers cfg))"
proof -
  from assms obtain fs w vs where fs: "object_fields v = Some fs" and m: "members ''source_containers'' fs = [w]"
    and w: "w = JArray vs" and r: "those (map (source_of_json nums) vs) = Some (cfg_source_containers cfg)"
    by (auto simp: config_of_json_def bind_eq_Some_conv field_Some read_list_Some)
  from r have "those (map routing_source_of_json vs) = Some (map sc_path_prefix (cfg_source_containers cfg))"
    unfolding those_Some by (auto simp: list_all2_conv_all_nth source_prefix)
  with fs m w show ?thesis by (simp add: routing_of_json_def field_or_def)
qed

lemma from_json_Inr: "from_json jt rd s = Inr x \<longleftrightarrow> (\<exists>v. parse_json jt s = Some v \<and> rd v = Some x)"
  by (auto simp: from_json_def ok_or_def bind_eq_Some_conv split: option.splits)

lemma found_iff: "(\<exists>x. ok_or e (List.find P xs) = Inr x) \<longleftrightarrow> (\<exists>x \<in> set xs. P x)"
proof (cases "List.find P xs")
  case (Some x)
  then have "x \<in> set xs \<and> P x" by (auto simp: find_Some_iff)
  with Some show ?thesis by (auto simp: ok_or_def)
next
  case None
  then have "\<forall>x \<in> set xs. \<not> P x" by (auto simp: find_None_iff)
  with None show ?thesis by (auto simp: ok_or_def)
qed

text \<open>C24: The webhook and the runs agree on what belongs to a pipeline. Once the routing table is rebuilt, an
  uploaded key starts a job of a pipeline with a stored, valid configuration exactly when a run of that
  configuration would take the key for one of its sources, although the two read the document with
  different types.\<close>

theorem webhook_routes_ingestible:
  assumes "s3_laws s3 obj" and "reads_answered s3 obj"
    and "list_keys s3 w bucket ''pipelines/'' = Some (Inr keys, w1)" and "\<not> cache_fresh now cache"
    and "slug \<noteq> []" and "CHR ''/'' \<notin> set slug"
    and "obj w (bucket, ''pipelines/'' @ slug @ ''/pipeline.json'') = Some body"
    and "from_json jt (config_of_json nums) body = Inr cfg" and "validate cfg = Inr ()"
  shows "\<exists>slugs cache' w'.
    route_key (Some s3) (from_json jt routing_of_json) bucket now later cache w key = Some (slugs, cache', w')
    \<and> (slug \<in> set slugs \<longleftrightarrow> (\<exists>sc. resolve_source_container key cfg = Inr sc))"
proof -
  let ?parse = "from_json jt routing_of_json"
  from build_routing_exact [OF assms(1-3)] obtain entries w' where
    b: "build_routing (Some s3) ?parse w bucket = Some (entries, w')"
    and e: "set entries = routes ?parse (obj w) bucket" by blast
  from assms(8) have "?parse body = Inr (map sc_path_prefix (cfg_source_containers cfg))"
    by (auto simp: from_json_Inr routing_reads_config)
  then have "slug \<in> set (match_key entries key) \<longleftrightarrow>
      (\<exists>sc \<in> set (cfg_source_containers cfg). sc_path_prefix sc \<noteq> [] \<and> starts_with key (sc_path_prefix sc))"
    using assms(5-7) by (auto simp: match_key_set e routes_def)
  also have "\<dots> \<longleftrightarrow> (\<exists>sc \<in> set (cfg_source_containers cfg). starts_with key (sc_path_prefix sc))"
    using assms(9) by (auto simp: validate_ok valid_config_def prefixes_ok_def)
  also have "\<dots> \<longleftrightarrow> (\<exists>sc. resolve_source_container key cfg = Inr sc)"
    by (simp add: resolve_source_container_def found_iff)
  finally show ?thesis by (simp add: route_key_stale [OF assms(4) b])
qed

end
