(* ===== verification/Wire_Samples.thy ===== *)
theory Wire_Samples
  imports Message_Wire Mem_Redis Service_Tests Evaluator_Proofs
begin

text \<open>
  A text of JSON documents in memory, on which the laws of the wire theories hold: each value starts with a
  character that tells its kind. The tests of the JSON forms run on it.
\<close>

section \<open>A text\<close>

datatype JsonNumber = IntNumber int | FloatNumber f64

fun float_of :: "JsonNumber \<Rightarrow> f64" where
  "float_of (FloatNumber x) = x"
| "float_of (IntNumber i) = 0"

fun int_of :: "JsonNumber \<Rightarrow> int option" where
  "int_of (IntNumber i) = Some i"
| "int_of (FloatNumber x) = None"

definition mem_numbers :: "JsonNumber WireNumbers" where
  "mem_numbers = \<lparr>json_f64 = FloatNumber, json_int = IntNumber, num_f64 = float_of, num_int = int_of\<rparr>"

fun print_value :: "JsonNumber JsonValue \<Rightarrow> string" where
  "print_value JNull = ''n''"
| "print_value (JBool b) = (if b then ''t'' else ''f'')"
| "print_value (JNumber (IntNumber i)) = ''i'' @ enc_text (enc_int i)"
| "print_value (JNumber (FloatNumber x)) = ''d'' @ enc_text (enc_int (int (unat x)))"
| "print_value (JString s) = ''s'' @ enc_text s"
| "print_value (JArray vs) = ''['' @ concat (map (\<lambda>v. '','' @ print_value v) vs) @ '']''"
| "print_value (JObject fs) = ''{'' @ concat (map (\<lambda>f. '','' @ enc_text (fst f) @ print_value (snd f)) fs) @ ''}''"

text \<open>The rest of the input after a value, or after the elements up to the closing bracket.\<close>

fun parse_value :: "nat \<Rightarrow> string \<Rightarrow> (JsonNumber JsonValue \<times> string) option"
  and parse_items :: "nat \<Rightarrow> string \<Rightarrow> (JsonNumber JsonValue list \<times> string) option"
  and parse_fields :: "nat \<Rightarrow> string \<Rightarrow> ((string \<times> JsonNumber JsonValue) list \<times> string) option" where
  "parse_value (Suc n) (c # cs) =
     (if c = CHR ''n'' then Some (JNull, cs)
      else if c = CHR ''t'' then Some (JBool True, cs)
      else if c = CHR ''f'' then Some (JBool False, cs)
      else if c = CHR ''i'' then (case dec_text cs of (s, r) \<Rightarrow> Some (JNumber (IntNumber (dec_int s)), r))
      else if c = CHR ''d'' then (case dec_text cs of (s, r) \<Rightarrow> Some (JNumber (FloatNumber (word_of_int (dec_int s))), r))
      else if c = CHR ''s'' then (case dec_text cs of (s, r) \<Rightarrow> Some (JString s, r))
      else if c = CHR ''['' then map_option (\<lambda>(vs, r). (JArray vs, r)) (parse_items n cs)
      else if c = CHR ''{'' then map_option (\<lambda>(fs, r). (JObject fs, r)) (parse_fields n cs)
      else None)"
| "parse_value _ _ = None"
| "parse_items (Suc n) (c # cs) =
     (if c = CHR '']'' then Some ([], cs)
      else if c = CHR '','' then
        Option.bind (parse_value n cs) (\<lambda>(v, r). map_option (\<lambda>(vs, r). (v # vs, r)) (parse_items n r))
      else None)"
| "parse_items _ _ = None"
| "parse_fields (Suc n) (c # cs) =
     (if c = CHR ''}'' then Some ([], cs)
      else if c = CHR '','' then
        (case dec_text cs of (k, r0) \<Rightarrow>
           Option.bind (parse_value n r0) (\<lambda>(v, r). map_option (\<lambda>(fs, r). ((k, v) # fs, r)) (parse_fields n r)))
      else None)"
| "parse_fields _ _ = None"

lemma parse_items_print:
  assumes "\<And>v n r. v \<in> set vs \<Longrightarrow> length (print_value v) \<le> n \<Longrightarrow> parse_value n (print_value v @ r) = Some (v, r)"
    and "length (concat (map (\<lambda>v. '','' @ print_value v) vs)) < n"
  shows "parse_items n (concat (map (\<lambda>v. '','' @ print_value v) vs) @ CHR '']'' # r) = Some (vs, r)"
  using assms
proof (induction vs arbitrary: n)
  case Nil
  then show ?case by (cases n) simp_all
next
  case (Cons v vs)
  from Cons.prems(2) obtain m where n: "n = Suc m" by (cases n) auto
  have "parse_items m (concat (map (\<lambda>v. '','' @ print_value v) vs) @ CHR '']'' # r) = Some (vs, r)"
    using Cons.prems n by (intro Cons.IH) auto
  with Cons.prems n show ?case by simp
qed

lemma parse_fields_print:
  assumes "\<And>v n r. v \<in> snd ` set fs \<Longrightarrow> length (print_value v) \<le> n \<Longrightarrow> parse_value n (print_value v @ r) = Some (v, r)"
    and "length (concat (map (\<lambda>f. '','' @ enc_text (fst f) @ print_value (snd f)) fs)) < n"
  shows "parse_fields n (concat (map (\<lambda>f. '','' @ enc_text (fst f) @ print_value (snd f)) fs) @ CHR ''}'' # r) = Some (fs, r)"
  using assms
proof (induction fs arbitrary: n)
  case Nil
  then show ?case by (cases n) simp_all
next
  case (Cons f fs)
  from Cons.prems(2) obtain m where n: "n = Suc m" by (cases n) auto
  have "parse_fields m (concat (map (\<lambda>f. '','' @ enc_text (fst f) @ print_value (snd f)) fs) @ CHR ''}'' # r) = Some (fs, r)"
    using Cons.prems n by (intro Cons.IH) auto
  with Cons.prems n show ?case by simp
qed

lemma parse_value_print: "length (print_value v) \<le> n \<Longrightarrow> parse_value n (print_value v @ r) = Some (v, r)"
proof (induction "size v" arbitrary: v n r rule: less_induct)
  case less
  obtain m where n: "n = Suc m" using less.prems by (cases n; cases v rule: print_value.cases) (auto split: if_splits)
  show ?case
  proof (cases v)
    case (JNumber k)
    then show ?thesis using n by (cases k) simp_all
  next
    case (JArray vs)
    then have "parse_items m (concat (map (\<lambda>v. '','' @ print_value v) vs) @ CHR '']'' # r) = Some (vs, r)"
      using less n element_size [of _ vs] by (intro parse_items_print) auto
    with JArray n show ?thesis by simp
  next
    case (JObject fs)
    then have "parse_fields m (concat (map (\<lambda>f. '','' @ enc_text (fst f) @ print_value (snd f)) fs) @ CHR ''}'' # r) = Some (fs, r)"
      using less n member_size [of _ fs] by (intro parse_fields_print) auto
    with JObject n show ?thesis by simp
  qed (use n in simp_all)
qed

definition mem_text :: "JsonNumber JsonText" where
  "mem_text = \<lparr>print_json = print_value, parse_json = \<lambda>s. map_option fst (parse_value (length s) s),
     json_error = \<lambda>s. ''not a document''\<rparr>"

interpretation mem_wire: json_text mem_numbers mem_text
proof
  fix v :: "JsonNumber JsonValue"
  show "parse_json mem_text (print_json mem_text v) = Some v"
    using parse_value_print [of v "length (print_value v)" "[]"] by (simp add: mem_text_def)
qed (simp_all add: mem_numbers_def)

section \<open>The tests of the forms\<close>

text \<open>Texts are given as the values they are the text of.\<close>

definition on_miss_wire_forms_are_strings_or_a_literal_object :: bool where
  "on_miss_wire_forms_are_strings_or_a_literal_object \<longleftrightarrow>
     on_miss_of_json (JString ''null'' :: unit JsonValue) = Some OnMissNull
     \<and> on_miss_of_json (JString ''passthrough'' :: unit JsonValue) = Some Passthrough
     \<and> on_miss_of_json (JObject [(''literal'', JString ''OTHER'')] :: unit JsonValue) = Some (Literal ''OTHER'')
     \<and> on_miss_to_json (Literal ''OTHER'') = (JObject [(''literal'', JString ''OTHER'')] :: unit JsonValue)"

lemma on_miss_test: on_miss_wire_forms_are_strings_or_a_literal_object
  by (simp add: on_miss_wire_forms_are_strings_or_a_literal_object_def)

definition manifest_round_trips :: "'n WireNumbers \<Rightarrow> 'n JsonText \<Rightarrow> bool" where
  "manifest_round_trips nums jt \<longleftrightarrow>
     (let m = test_manifest 3 [test_file ''v3/m.parquet'' ''m''];
          json = print_json jt (manifest_to_json nums m)
      in from_json jt (manifest_of_json nums) json = Inr m
         \<and> from_json jt (pointer_of_json nums) (print_json jt (JObject [(''version'', write_int nums 3)])) = Inr 3)"

definition job_message_round_trips_through_json :: "'n WireNumbers \<Rightarrow> 'n JsonText \<Rightarrow> bool" where
  "job_message_round_trips_through_json nums jt \<longleftrightarrow>
     (let msg = \<lparr>jm_job_id = ''job-123-abc'', jm_pipeline = ''demo'', jm_prefix = ''pipelines/demo/'',
            jm_config_version_id = Some 7, jm_clean_run = True, jm_trigger = ''manual'', jm_enqueued_at = 1700000000000\<rparr>;
          json = print_json jt (message_to_json nums msg)
      in from_json jt (message_of_json nums) json = Inr msg)"

definition job_message_defaults_clean_run_false :: "'n WireNumbers \<Rightarrow> 'n JsonText \<Rightarrow> bool" where
  "job_message_defaults_clean_run_false nums jt \<longleftrightarrow>
     (let json = print_json jt (JObject [(''job_id'', JString ''j''), (''pipeline'', JString ''p''),
            (''prefix'', JString ''pipelines/p/''), (''trigger'', JString ''webhook''), (''enqueued_at'', write_int nums 0)])
      in case from_json jt (message_of_json nums) json of Inr msg \<Rightarrow> \<not> jm_clean_run msg | Inl _ \<Rightarrow> False)"

context json_text begin

lemma message_tests:
  "job_message_round_trips_through_json nums jt" "job_message_defaults_clean_run_false nums jt"
proof -
  show "job_message_round_trips_through_json nums jt"
    using message_text
    by (simp add: job_message_round_trips_through_json_def message_json_def wire_message_def any_i64_def i64_min_def
        i64_max_def)
  let ?v = "JObject [(''job_id'', JString ''j''), (''pipeline'', JString ''p''),
    (''prefix'', JString ''pipelines/p/''), (''trigger'', JString ''webhook''), (''enqueued_at'', write_int nums 0)]"
  have "any_i64 0" by (simp add: any_i64_def i64_min_def i64_max_def)
  then have "message_of_json nums ?v = Some \<lparr>jm_job_id = ''j'', jm_pipeline = ''p'', jm_prefix = ''pipelines/p/'',
      jm_config_version_id = None, jm_clean_run = False, jm_trigger = ''webhook'', jm_enqueued_at = 0\<rparr>"
    by (simp add: message_of_json_def wire_reads)
  then show "job_message_defaults_clean_run_false nums jt"
    by (simp add: job_message_defaults_clean_run_false_def text_reads [where rd = "message_of_json nums"])
qed

lemma manifest_test: "manifest_round_trips nums jt"
proof -
  have ok: "wire_manifest (test_manifest 3 [test_file ''v3/m.parquet'' ''m''])" "(3 :: nat) \<le> u64_max"
    by (simp_all add: wire_manifest_def test_manifest_def test_file_def u64_max_def)
  have "json_depth (manifest_to_json nums m) \<le> 127" for m
    by (auto simp: manifest_to_json_def manifest_file_to_json_def)
  moreover have "pointer_of_json nums (JObject [(''version'', write_int nums 3)]) = Some 3"
    using pointer_reads [OF ok(2)] by (simp add: pointer_to_json_def)
  ultimately show ?thesis
    unfolding manifest_round_trips_def Let_def
    by (intro conjI text_reads manifest_reads ok) simp_all
qed

end

section \<open>Witnesses\<close>

definition placed_config :: PipelineConfig where
  "placed_config = (demo_config (Some (Ne (Col ''x'') (Num f64_one))))
     \<lparr>cfg_layout := [''s'' \<mapsto> \<lparr>lp_x = f64_one, lp_y = 0\<rparr>]\<rparr>"

lemma demo_trees:
  "ast_nodes (Ne (Col c) (Num x)) = [Ne (Col c) (Num x), Col c, Num x]"
  "ast_height (Col c) = 0" "ast_height (Num x) = 0" "ast_height (Ne (Col c) (Num x)) = 1"
  "ast_height (DimRef d v (Col c)) = 1"
  by (simp_all add: ast_nodes.simps [of "Ne (Col c) (Num x)"] ast_nodes.simps [of "Col c"] ast_nodes.simps [of "Num x"]
      ast_height.simps [of "Ne (Col c) (Num x)"] ast_height.simps [of "Col c"] ast_height.simps [of "Num x"]
      ast_height.simps [of "DimRef d v (Col c)"])

lemma config_text_round_trip_witness:
  "from_json mem_text (config_of_json mem_numbers) (print_json mem_text
     (config_to_json mem_numbers [(''s'', \<lparr>lp_x = f64_one, lp_y = 0\<rparr>)] placed_config)) = Inr placed_config"
proof (rule config_text_round_trip)
  show "json_text mem_numbers mem_text" by unfold_locales
  have "finite_f64 f64_one" "finite_f64 0" by (simp_all add: finite_f64_def f64_magnitude_def f64_one_def)
  then show "wire_config placed_config"
    by (simp add: wire_config_def placed_config_def demo_defs wire_source_def wire_column_def wire_dimension_def
        wire_mapping_def wire_table_def wire_position_def wire_ast_def demo_trees demo_config_nodes any_i64_def i64_min_def
        i64_max_def)
  show "\<forall>n \<in> config_exprs placed_config. ast_height n \<le> 60"
    by (simp add: config_exprs_def placed_config_def demo_defs demo_trees)
qed (simp_all add: placed_config_def)

definition published_store :: MemStore where
  "published_store = \<lparr>ms_objects = [((''b'', ''pipelines/demo/pipeline.json''),
     print_json mem_text (config_to_json mem_numbers [] (demo_config None)))], ms_faults = []\<rparr>"

lemma webhook_routes_ingestible_witness:
  "\<exists>slugs cache' w'. route_key (Some steady_s3) (from_json mem_text routing_of_json) ''b'' 5 6 no_cache published_store
      ''tx/1.csv'' = Some (slugs, cache', w')
    \<and> (''demo'' \<in> set slugs \<longleftrightarrow> (\<exists>sc. resolve_source_container ''tx/1.csv'' (demo_config None) = Inr sc))"
proof (rule webhook_routes_ingestible [OF steady_laws steady_reads])
  show "list_keys steady_s3 published_store ''b'' ''pipelines/''
      = Some (Inr (mem_keys published_store ''b'' ''pipelines/''), published_store)"
    by (simp add: steady_list mem_list_keys mem_fault_def published_store_def)
  have "wire_config (demo_config None)" "\<forall>n \<in> config_exprs (demo_config None). ast_height n \<le> 60"
    by (simp_all add: wire_config_def demo_defs wire_source_def wire_column_def wire_dimension_def
        wire_mapping_def wire_table_def wire_ast_def demo_config_nodes any_i64_def i64_min_def
        i64_max_def config_exprs_def demo_trees)
  then show "from_json mem_text (config_of_json mem_numbers)
      (print_json mem_text (config_to_json mem_numbers [] (demo_config None))) = Inr (demo_config None)"
    by (intro mem_wire.text_reads mem_wire.config_reads config_depth) (simp_all add: demo_config_def)
  show "validate (demo_config None) = Inr ()" by (rule demo_config_ok)
qed (simp_all add: cache_fresh_def no_cache_def mem_obj_def published_store_def)

end
