(* ===== verification/Queue_Lifetime.thy ===== *)
theory Queue_Lifetime
  imports Queue_Job
begin

text \<open>
  The life of a job over its deliveries: every handling of its message that finds the pipeline's lock
  free ends the job or uses up one of its attempts, so the job ends within the limit.
\<close>

section \<open>Errors of a run\<close>

text \<open>Every error the task returns meets \<open>E\<close>.\<close>

definition raises :: "('e \<Rightarrow> bool) \<Rightarrow> ('w, 'e, 'a) task \<Rightarrow> bool" where
  "raises E m \<longleftrightarrow> (\<forall>w e w'. m w = Some (Inl e, w') \<longrightarrow> E e)"

lemma raises_and_then: "raises E m \<Longrightarrow> (\<And>a. raises E (f a)) \<Longrightarrow> raises E (and_then m f)"
  unfolding raises_def and_then_def by (fastforce split: option.splits sum.splits)

lemma raises_result: "(\<And>e. r = Inl e \<Longrightarrow> E e) \<Longrightarrow> raises E (task_result r)"
  by (simp add: raises_def task_result_def)

lemma raises_call: "(\<And>e. E (g e)) \<Longrightarrow> raises E (task_call g call)"
  by (auto simp: raises_def task_call_def map_err_def split: prod.splits sum.splits)

lemma raises_calls: "raises E (task_try call1)" "raises E (task_run act)" "raises E (task_mod g)"
  by (auto simp: raises_def task_try_def task_run_def task_mod_def split: option.splits prod.splits)

lemmas raises_intros = raises_and_then raises_result raises_call raises_calls

text \<open>The cancel flag of a run is set only when its heartbeat finds the lock lost.\<close>

definition uncancelled :: "('w, 'df, 'lf, 'col, 'n) JobOps \<Rightarrow> bool" where
  "uncancelled jb \<longleftrightarrow> (\<forall>w c w'. jb_cancel jb w = (c, w') \<longrightarrow> \<not> c)"

abbreviation runs_on :: "('w, JobError, 'a) task \<Rightarrow> bool" where
  "runs_on \<equiv> raises (\<lambda>e. e \<noteq> Cancelled)"

lemma check_cancel_runs_on: "uncancelled jb \<Longrightarrow> runs_on (check_cancel jb)"
  by (auto simp: uncancelled_def check_cancel_def raises_def and_then_def task_run_def task_result_def
      split: prod.splits if_splits)

lemma load_runs_on: "runs_on (resolve_version jb pipeline v)" "runs_on (load_config jb n)"
  by (auto simp: resolve_version_def load_config_def result_simps ok_or_def split: option.splits intro!: raises_intros)

lemma init_publishes_runs_on: "runs_on (init_publishes jb ctx pre clean tables ps)"
  by (induction tables arbitrary: ps) (auto simp: Let_def intro!: raises_intros)

lemma collect_keys_runs_on: "runs_on (collect_keys jb ctx scs ks)"
  by (induction scs arbitrary: ks) (auto intro!: raises_intros)

lemma download_runs_on: "uncancelled jb \<Longrightarrow> runs_on (download jb ctx n so_far ks files)"
  by (induction ks arbitrary: so_far files) (auto intro!: raises_intros check_cancel_runs_on)

lemma file_rows_runs_on: "runs_on (file_rows jb ctx dim key vals prio ks rows)"
  by (induction ks arbitrary: rows) (auto simp: result_simps intro!: raises_intros)

lemma build_matchers_runs_on: "runs_on (build_matchers jb ctx cfg)"
proof -
  have "runs_on (load_dimensions jb ctx dims m)" for dims m
    by (induction dims arbitrary: m)
      (auto simp: result_simps raises_result split: DimensionRows.split intro!: raises_intros file_rows_runs_on)
  then show ?thesis by (auto simp: build_matchers_def result_simps intro!: raises_intros)
qed

lemma run_mappings_runs_on: "uncancelled jb \<Longrightarrow> runs_on (run_mappings jb ctx pre cfg matchers files idx ms st)"
  by (induction ms arbitrary: idx st) (auto intro!: raises_intros check_cancel_runs_on)

lemma publish_tables_runs_on: "runs_on (publish_tables jb ctx ps errors)"
  by (induction ps arbitrary: errors) (auto simp: raises_result split: sum.split intro!: raises_intros)

lemma execute_job_runs_on: "uncancelled jb \<Longrightarrow> runs_on (execute_job jb ctx pre pipeline v clean_run)"
  unfolding execute_job_def run_config_def
  by (intro raises_and_then load_runs_on init_publishes_runs_on collect_keys_runs_on download_runs_on
      build_matchers_runs_on run_mappings_runs_on publish_tables_runs_on raises_calls raises_result)
    (auto split: if_splits)

lemma executor_runs_on: "uncancelled jb \<Longrightarrow> job_executor jb ctx msg n i w = Some (out, w') \<Longrightarrow> out \<noteq> Inl Cancelled"
  using execute_job_runs_on unfolding job_executor_def raises_def by blast

section \<open>One delivery\<close>

text \<open>A delivery that finds the lock free ends the job, or uses up an attempt of which the limit has more.
  A cancelled run uses up the last one without ending the job.\<close>

lemma spec_handle_progress:
  assumes "tk_holder tk = None"
  shows "let tk' = spec_handle limit token outcome tk in
    tk_terminal tk' \<or> tk_attempts tk' = Suc (tk_attempts tk)
      \<and> tk_attempts tk' < limit + (if outcome = Inl Cancelled then 1 else 0)"
  using assms
  by (auto simp: spec_handle_def spec_claim_def spec_settle_def spec_finish_def Let_def
      split: sum.splits JobError.splits)

lemma spec_handle_terminal: "tk_terminal tk \<Longrightarrow> tk_terminal (spec_handle limit token outcome tk)"
  by (simp add: spec_handle_def spec_claim_def)

section \<open>The deliveries of a job\<close>

text \<open>What the ticket reads of a job's record.\<close>

lemma ticket_record:
  "st_hash s' (live_key (jm_job_id msg)) = st_hash s (live_key (jm_job_id msg)) \<Longrightarrow>
     tk_terminal (ticket js msg i s') = tk_terminal (ticket js msg j s)
     \<and> tk_attempts (ticket js msg i s') = tk_attempts (ticket js msg j s)"
  by simp

lemma counted_attempts: "counted (jm_job_id msg) c s \<Longrightarrow> tk_attempts (ticket js msg i s) = c"
  by (simp add: counted_def)

text \<open>The deliveries a job can need beyond its limit of attempts: one, when its last run can be cancelled.\<close>

definition spare :: "('w, 'df, 'lf, 'col, 'n) JobOps \<Rightarrow> nat" where
  "spare jb = (if uncancelled jb then 0 else 1)"

lemma delivery:
  assumes "steady_queue q view" and "job_laws jb obj" and "calls_keep (\<lambda>w w'. view w' = view w) jb"
    and "dec_message (qc_json q) payload = Inr msg" and "counted (jm_job_id msg) c (view (wk_world s))"
    and "validate_pipeline_prefix (jm_prefix msg) = Inr u"
    and h: "handle_claimed q (job_executor jb ctx) i payload s = Some t"
  shows "\<exists>out. (out = Inl Cancelled \<longrightarrow> spare jb = 1) \<and> ticket (qc_json q) msg i (view (wk_world t))
    = spec_handle (qs_max_attempts (qc_settings q)) (fence (jm_job_id msg)) out (ticket (qc_json q) msg i (view (wk_world s)))"
proof -
  have run: "\<exists>out w'. job_executor jb ctx msg' n i w = Some (out, w') \<and> view w' = view w" for msg' n w
    by (rule job_executor_keeps [OF assms(2,3)]) auto
  obtain out n w w' where r: "job_executor jb ctx msg n i w = Some (out, w')"
    and t: "ticket (qc_json q) msg i (view (wk_world t))
      = spec_handle (qs_max_attempts (qc_settings q)) (fence (jm_job_id msg)) out
          (ticket (qc_json q) msg i (view (wk_world s)))"
    using steady_queue.handle_refines [OF assms(1,4-6), where run = "job_executor jb ctx" and i = i] run h by fastforce
  from executor_runs_on [OF _ r] t show ?thesis by (auto simp: spare_def)
qed

text \<open>C8: A job ends. While the services of the queue answer, let a message be delivered again and again, each
  time with the pipeline's lock free, the job's record as the handling before left it and its count
  of attempts readable. After as many deliveries as the limit leaves attempts the job's status is final,
  whatever the runs answer in between, as long as none is cancelled; when runs can be cancelled, by
  losing their lock, one delivery more is enough.\<close>

theorem job_ends:
  assumes "steady_queue q view" and "job_laws jb obj" and "calls_keep (\<lambda>w w'. view w' = view w) jb"
    and "dec_message (qc_json q) payload = Inr msg" and "validate_pipeline_prefix (jm_prefix msg) = Inr u"
    and handled: "\<And>k. k \<le> m \<Longrightarrow> handle_claimed q (job_executor jb ctx) (i k) payload (s k) = Some (t k)"
    and count: "\<And>k. k \<le> m \<Longrightarrow> counted (jm_job_id msg) (c k) (view (wk_world (s k)))"
    and lock: "\<And>k. k \<le> m \<Longrightarrow> st_strings (view (wk_world (s k))) (lock_key (jm_pipeline msg)) = None"
    and rest: "\<And>k. k < m \<Longrightarrow> st_hash (view (wk_world (s (Suc k)))) (live_key (jm_job_id msg))
      = st_hash (view (wk_world (t k))) (live_key (jm_job_id msg))"
    and limit: "qs_max_attempts (qc_settings q) + (if uncancelled jb then 0 else 1) \<le> c 0 + Suc m"
  shows "is_terminal (st_hash (view (wk_world (t m))) (live_key (jm_job_id msg)) ''status'')"
proof -
  let ?tk = "\<lambda>k w. ticket (qc_json q) msg (i k) (view (wk_world w))"
  let ?limit = "qs_max_attempts (qc_settings q)"
  have step: "\<exists>out. (out = Inl Cancelled \<longrightarrow> spare jb = 1)
      \<and> ?tk k (t k) = spec_handle ?limit (fence (jm_job_id msg)) out (?tk k (s k))"
    if "k \<le> m" for k
    by (rule delivery [OF assms(1-3,4) count [OF that] assms(5) handled [OF that]])
  have one: "tk_terminal (?tk k (t k)) \<or> tk_attempts (?tk k (t k)) = Suc (tk_attempts (?tk k (s k)))
      \<and> tk_attempts (?tk k (t k)) < ?limit + spare jb" if k: "k \<le> m" for k
  proof -
    from step [OF k] obtain out where "out = Inl Cancelled \<longrightarrow> spare jb = 1"
      "?tk k (t k) = spec_handle ?limit (fence (jm_job_id msg)) out (?tk k (s k))" by blast
    moreover have "tk_holder (?tk k (s k)) = None" using lock [OF k] by simp
    ultimately show ?thesis
      using spec_handle_progress [of "?tk k (s k)" ?limit "fence (jm_job_id msg)" out]
      by (auto simp: Let_def simp del: ticket_sel split: if_splits)
  qed
  have "tk_terminal (?tk k (t k)) \<or> tk_attempts (?tk k (t k)) = c 0 + Suc k \<and> c 0 + Suc k < ?limit + spare jb"
    if "k \<le> m" for k
    using that
  proof (induction k)
    case 0
    from one [OF 0] counted_attempts [OF count [OF 0], of "qc_json q" "i 0"] show ?case by (auto simp del: ticket_sel)
  next
    case (Suc k)
    have same: "tk_terminal (?tk (Suc k) (s (Suc k))) = tk_terminal (?tk k (t k))
        \<and> tk_attempts (?tk (Suc k) (s (Suc k))) = tk_attempts (?tk k (t k))"
      using rest [of k] Suc.prems by (intro ticket_record) simp
    show ?case
    proof (cases "tk_terminal (?tk k (t k))")
      case True
      from step [OF Suc.prems] same True show ?thesis by (auto simp: spec_handle_terminal simp del: ticket_sel)
    next
      case False
      with Suc have "tk_attempts (?tk k (t k)) = c 0 + Suc k" by (simp del: ticket_sel)
      with one [OF Suc.prems] same show ?thesis by (auto simp del: ticket_sel)
    qed
  qed
  from this [of m] limit show ?thesis by (simp add: spare_def split: if_splits)
qed

definition tried_twice :: Mem where
  "tried_twice = (demo_mem Map.empty [])\<lparr>mm_hash := (\<lambda>_. Map.empty)(live_key ''job-1'' := [''attempts'' \<mapsto> ''2''])\<rparr>"

lemma job_ends_witness:
  "\<exists>t. handle_claimed (mem_queue steady_redis) (job_executor (still_jb still_files) demo_ctx) ''5-0'' (mem_encode demo_msg)
      \<lparr>wk_world = tried_twice, wk_in_flight = 0, wk_consumer_ok = True\<rparr> = Some t
    \<and> is_terminal (mm_hash (wk_world t) (live_key ''job-1'') ''status'')"
proof -
  let ?s = "\<lparr>wk_world = tried_twice, wk_in_flight = 0, wk_consumer_ok = True\<rparr>"
  have d: "dec_message (qc_json (mem_queue steady_redis)) (mem_encode demo_msg) = Inr demo_msg"
    by (simp add: mem_decode_encode)
  have "parse_i64 ''2'' = Some 2" by code_simp
  then have c: "counted (jm_job_id demo_msg) 2 (mem_view (wk_world ?s))"
    by (simp add: counted_def counter_def tried_twice_def demo_msg_def)
  have run: "\<exists>out w'. job_executor (still_jb still_files) demo_ctx msg n i w = Some (out, w') \<and> mem_view w' = mem_view w"
    for msg n i w by (rule job_executor_keeps [OF still_job_laws still_calls]) auto
  obtain t where
    h: "handle_claimed (mem_queue steady_redis) (job_executor (still_jb still_files) demo_ctx) ''5-0''
      (mem_encode demo_msg) ?s = Some t"
    using steady.handle_refines [OF d c demo_prefix, where run = "job_executor (still_jb still_files) demo_ctx"
        and i = "''5-0''"] run by blast
  have "uncancelled (still_jb still_files)" by (simp add: uncancelled_def still_jb_def)
  from job_ends [OF steady.steady_queue_axioms still_job_laws still_calls d demo_prefix,
      where m = 0 and s = "\<lambda>_. ?s" and t = "\<lambda>_. t" and i = "\<lambda>_. ''5-0''" and c = "\<lambda>_. 2" and ctx = demo_ctx] h c this
  show ?thesis by (simp add: default_settings_def tried_twice_def demo_msg_def)
qed

end
