(* ===== verification/Upload_To_Job.thy ===== *)
theory Upload_To_Job
  imports Http_Router Queue_Loop_Properties
begin

text \<open>
  From the webhook to the stream: an upload event that the server accepts becomes a job of every pipeline it
  routes to, by way of the debounce set and the scheduler.
\<close>

section \<open>Recording uploads\<close>

text \<open>A recorded event leaves its pipeline in the debounce set, a failed one may; other pipelines keep theirs.\<close>

context queue_store begin

lemma debounce_frame:
  "wp (debounce_event (qc_redis q) slug) (\<lambda>x w'.
     (\<forall>m. m \<noteq> slug \<longrightarrow> st_zset (view w') DEBOUNCE_KEY m = st_zset (view w) DEBOUNCE_KEY m)
     \<and> (is_ok x \<or> st_zset (view w) DEBOUNCE_KEY slug \<noteq> None \<longrightarrow> st_zset (view w') DEBOUNCE_KEY slug \<noteq> None)) w"
proof -
  let ?Q = "\<lambda>x w'. (\<forall>m. m \<noteq> slug \<longrightarrow> st_zset (view w') DEBOUNCE_KEY m = st_zset (view w) DEBOUNCE_KEY m)
     \<and> (is_ok x \<or> st_zset (view w) DEBOUNCE_KEY slug \<noteq> None \<longrightarrow> st_zset (view w') DEBOUNCE_KEY slug \<noteq> None)"
  have add: "wp (tell (qc_redis q) (\<lambda>w. rd_zadd (qc_redis q) w DEBOUNCE_KEY slug t))
      (\<lambda>x. ?Q (map_ok (\<lambda>_. d) x)) w2" if "st_zset (view w2) = st_zset (view w)" for w2 t and d :: int
    by (rule wp_tell) (simp_all add: that zadd)
  show ?thesis unfolding debounce_event_def wp_bind wp_read_clock
  proof (rule wp_send, goal_cases)
    case (1 w1 a w2)
    from set_nx [OF 1(2)] 1(1) have "st_zset (view w2) = st_zset (view w)" by auto
    with add [of w2] show ?case by (simp add: Let_def)
  qed (simp add: Let_def)
qed

lemma record_slugs_zset:
  assumes "record_slugs (\<lambda>w slug. run_state (debounce_event (qc_redis q) slug) w) w slugs = (tries, w')"
  shows "\<forall>slug. (slug, True) \<in> set tries \<or> st_zset (view w) DEBOUNCE_KEY slug \<noteq> None
      \<longrightarrow> st_zset (view w') DEBOUNCE_KEY slug \<noteq> None"
    and "\<forall>slug. slug \<notin> set slugs \<longrightarrow> st_zset (view w') DEBOUNCE_KEY slug = st_zset (view w) DEBOUNCE_KEY slug"
proof -
  have "(\<forall>slug. (slug, True) \<in> set tries \<or> st_zset (view w) DEBOUNCE_KEY slug \<noteq> None
      \<longrightarrow> st_zset (view w') DEBOUNCE_KEY slug \<noteq> None)
    \<and> (\<forall>slug. slug \<notin> set slugs \<longrightarrow> st_zset (view w') DEBOUNCE_KEY slug = st_zset (view w) DEBOUNCE_KEY slug)"
    using assms
  proof (induction slugs arbitrary: w tries w')
    case (Cons slug slugs)
    obtain x w1 where d: "run_state (debounce_event (qc_redis q) slug) w = (x, w1)" by fastforce
    obtain ts w2 where r: "record_slugs (\<lambda>w slug. run_state (debounce_event (qc_redis q) slug) w) w1 slugs = (ts, w2)"
      by fastforce
    from Cons.prems d r have t: "tries = (slug, is_ok x) # ts" "w' = w2" by auto
    with Cons.IH [OF r] wpD [OF debounce_frame d] show ?case by (auto; metis)
  qed simp
  then show "\<forall>slug. (slug, True) \<in> set tries \<or> st_zset (view w) DEBOUNCE_KEY slug \<noteq> None
      \<longrightarrow> st_zset (view w') DEBOUNCE_KEY slug \<noteq> None"
    "\<forall>slug. slug \<notin> set slugs \<longrightarrow> st_zset (view w') DEBOUNCE_KEY slug = st_zset (view w) DEBOUNCE_KEY slug"
    by blast+
qed

end

text \<open>While the services answer every recording succeeds.\<close>

context steady_queue begin

lemma debounce_ok: "wp (debounce_event (qc_redis q) slug) (\<lambda>x w'. is_ok x) w"
  unfolding debounce_event_def wp_bind wp_read_clock
  by (rule wp_sent) (simp add: Let_def wp_bind, rule wp_told, simp add: map_ok_def is_ok_def)

lemma record_slugs_ok:
  "record_slugs (\<lambda>w slug. run_state (debounce_event (qc_redis q) slug) w) w slugs = (tries, w')
    \<Longrightarrow> slug \<in> set slugs \<Longrightarrow> (slug, True) \<in> set tries"
proof (induction slugs arbitrary: w tries w')
  case (Cons s slugs)
  obtain x w1 where d: "run_state (debounce_event (qc_redis q) s) w = (x, w1)" by fastforce
  obtain ts w2 where r: "record_slugs (\<lambda>w slug. run_state (debounce_event (qc_redis q) slug) w) w1 slugs = (ts, w2)"
    by fastforce
  from wpD [OF debounce_ok d] Cons.IH [OF r] Cons.prems d r show ?case by auto
qed simp

end

section \<open>One delivery\<close>

abbreviation scheduled_body :: "S3EventRecord list \<Rightarrow> string list \<Rightarrow> Body" where
  "scheduled_body records scheduled \<equiv> JsonBody (JsObj
     [(''received'', JsInt (int (length records))), (''scheduled'', JsArr (map JsStr scheduled))])"

lemma delivery_answered:
  assumes "ap_queue ap = Some q"
    and "authorize_events True (ap_webhook_secret ap) (rq_secret_header rq) (rq_authorization rq) = None"
    and "rq_bytes rq = Some bytes" and "os_parse_events os bytes = Some records"
    and "rd_connect (qc_redis q) (wk_world (sv_worker sv)) = (Inr (), w1)"
    and "route_records (route_on ap os) (ap_lake_bucket ap) (sv_routing sv, sv_store sv) records = Some (slugs, cache, store)"
    and "record_slugs (\<lambda>w slug. run_state (debounce_event (qc_redis q) slug) w) w1 slugs = (tries, w')"
  shows "serve_events ap os rq sv = Some (\<lparr>r_status = 200, r_body = scheduled_body records (successes tries)\<rparr>,
      \<lparr>sv_routing = cache, sv_store = store, sv_worker = (sv_worker sv)\<lparr>wk_world := w'\<rparr>\<rparr>)"
proof -
  have "debounce_on ap = (\<lambda>w slug. run_state (debounce_event (qc_redis q) slug) w)"
    by (simp add: fun_eq_iff debounce_on_def assms(1))
  with debounce_slugs_successes [of "debounce_on ap" w1 slugs "[]"] assms(7)
  have "debounce_slugs (debounce_on ap) w1 slugs [] = (successes tries, w')" by simp
  with assms(6) have "handle_records (route_on ap os) (debounce_on ap) (ap_lake_bucket ap) (sv_routing sv, sv_store sv) w1
      records [] = Some (successes tries, (cache, store), w')"
    by (simp add: handle_records_split)
  with assms(1-5) show ?thesis by (simp add: serve_events_def connect_queue_def post_s3_events_def)
qed

text \<open>C30: What the webhook answers is what it did. A delivery with the secret, whose body parses, on a worker
  that connects to Redis and whose routing, record by record, returns, is answered 200 with the number of its
  records and, once each, the slugs of which a recording succeeded, in the order of the first success;
  a recording that fails is left out. Every slug the answer lists is in the debounce set, and pipelines
  no record routes to keep what they had there.\<close>

theorem events_scheduled:
  assumes "axum ax" and "queue_store q view" and "ap_queue ap = Some q"
    and "rq_method rq = POST" and "rq_path rq = ''/events/s3''"
    and "authorize_events True (ap_webhook_secret ap) (rq_secret_header rq) (rq_authorization rq) = None"
    and "rq_bytes rq = Some bytes" and "os_parse_events os bytes = Some records"
    and "rd_connect (qc_redis q) (wk_world (sv_worker sv)) = (Inr (), w1)"
    and "route_records (route_on ap os) (ap_lake_bucket ap) (sv_routing sv, sv_store sv) records = Some (slugs, cache, store)"
    and "record_slugs (\<lambda>w slug. run_state (debounce_event (qc_redis q) slug) w) w1 slugs = (tries, w')"
  shows "respond ax ap os rq sv = Some (\<lparr>r_status = 200, r_body = JsonBody (JsObj
          [(''received'', JsInt (int (length records))),
           (''scheduled'', JsArr (map JsStr (rev (remdups (rev [slug. (slug, ok) \<leftarrow> tries, ok])))))])\<rparr>,
        \<lparr>sv_routing = cache, sv_store = store, sv_worker = (sv_worker sv)\<lparr>wk_world := w'\<rparr>\<rparr>)
    \<and> map fst tries = slugs
    \<and> (\<forall>slug. (slug, True) \<in> set tries \<longrightarrow> st_zset (view w') DEBOUNCE_KEY slug \<noteq> None)
    \<and> (\<forall>slug. slug \<notin> set slugs \<longrightarrow> st_zset (view w') DEBOUNCE_KEY slug = st_zset (view w1) DEBOUNCE_KEY slug)"
proof -
  have "[slug. (slug, ok) \<leftarrow> tries, ok] = map fst (filter snd tries)" by (induction tries) auto
  then have "successes tries = rev (remdups (rev [slug. (slug, ok) \<leftarrow> tries, ok]))" by (simp add: successes_def)
  moreover have "respond ax ap os rq sv = serve_events ap os rq sv"
    using axum.router_open [OF assms(1), of "rq_path rq" "rq_method rq"] assms(4,5) by (simp add: respond_def)
  ultimately show ?thesis
    using delivery_answered [OF assms(3,6-11)] record_slugs_tried [OF assms(11)]
      queue_store.record_slugs_zset [OF assms(2,11)] by simp
qed

section \<open>From a delivery to a job\<close>

text \<open>The pipelines whose batch is due at a time.\<close>

definition due_slugs :: "Store \<Rightarrow> int \<Rightarrow> string set" where
  "due_slugs s now = {slug. \<exists>t. st_zset s DEBOUNCE_KEY slug = Some t \<and> t \<le> now}"

lemma due_slugs_iff: "slug \<in> due_slugs s now \<longleftrightarrow> (\<exists>t. st_zset s DEBOUNCE_KEY slug = Some t \<and> t \<le> now)"
  by (simp add: due_slugs_def)

text \<open>A pass of the scheduler misses no due pipeline when ten at most are due.\<close>

lemma fired_all:
  assumes "fired js now s s'" and "slug \<in> due_slugs s now"
    and "finite (due_slugs s now)" and "card (due_slugs s now) \<le> 10"
  obtains msg where "upload_job msg" and "jm_pipeline msg = slug" and "enc_message js msg \<in> set (st_stream s' STREAM_KEY)"
proof -
  from assms(1) obtain msgs where m: "distinct (map jm_pipeline msgs)" "list_all upload_job msgs"
    "set (map jm_pipeline msgs) \<subseteq> due_slugs s now"
    "length msgs < 10 \<longrightarrow> due_slugs s now \<subseteq> set (map jm_pipeline msgs)"
    "pushed 4096 (st_stream s STREAM_KEY) (map (enc_message js) msgs) (st_stream s' STREAM_KEY)"
    unfolding fired_def Let_def by (elim exE) (rule that, auto simp: due_slugs_iff)
  have "due_slugs s now \<subseteq> set (map jm_pipeline msgs)"
  proof (cases "length msgs < 10")
    case False
    with assms(3,4) m(1,3) have "card (due_slugs s now) \<le> card (set (map jm_pipeline msgs))"
      by (simp only: distinct_card length_map)
    with card_seteq [OF assms(3) m(3)] show ?thesis by simp
  qed (use m(4) in simp)
  with assms(2) obtain msg where "msg \<in> set msgs" "jm_pipeline msg = slug" by auto
  with that [of msg] m(2) pushed_member [OF m(5), of "enc_message js msg"] show thesis by (auto simp: list_all_iff)
qed

text \<open>C31: From the webhook to the stream, while the services answer. A delivery that carries the webhook secret,
  and whose routing returns, is answered 200 and leaves every pipeline its objects route to in the debounce
  set; and in any later state of Redis that still holds the entry, one pass of the scheduler at a time the
  entry is due, with ten due pipelines at most, puts a job of that pipeline on the stream.\<close>

theorem upload_becomes_job:
  assumes "axum ax" and "steady_queue q view" and "ap_queue ap = Some q"
    and "rq_method rq = POST" and "rq_path rq = ''/events/s3''"
    and "authorize_events True (ap_webhook_secret ap) (rq_secret_header rq) (rq_authorization rq) = None"
    and "rq_bytes rq = Some bytes" and "os_parse_events os bytes = Some records"
    and "route_records (route_on ap os) (ap_lake_bucket ap) (sv_routing sv, sv_store sv) records = Some (slugs, cache, store)"
    and "slug \<in> set slugs"
  shows "\<exists>response sv'. respond ax ap os rq sv = Some (response, sv') \<and> r_status response = 200
    \<and> st_zset (view (wk_world (sv_worker sv'))) DEBOUNCE_KEY slug \<noteq> None
    \<and> (\<forall>w c. let due = due_slugs (view w) (pass_time (qc_redis q) c w) in
          slug \<in> due \<and> finite due \<and> card due \<le> 10 \<longrightarrow>
          (\<exists>msg w'. run_state (scheduler_pass q c) w = (True, w') \<and> upload_job msg \<and> jm_pipeline msg = slug
             \<and> enc_message (qc_json q) msg \<in> set (st_stream (view w') STREAM_KEY)))"
proof -
  let ?w = "wk_world (sv_worker sv)"
  note qs = steady_queue.axioms(1) [OF assms(2)]
  obtain w1 where conn: "rd_connect (qc_redis q) ?w = (Inr (), w1)"
    using steady_queue.connected [OF assms(2), of ?w]
    by (cases "rd_connect (qc_redis q) ?w") (auto simp: is_ok_def split: sum.splits)
  obtain tries w2 where rec: "record_slugs (\<lambda>w slug. run_state (debounce_event (qc_redis q) slug) w) w1 slugs = (tries, w2)"
    by fastforce
  from delivery_answered [OF assms(3,6-8) conn assms(9) rec] obtain response sv' where
    sv: "serve_events ap os rq sv = Some (response, sv')" "r_status response = 200" "wk_world (sv_worker sv') = w2" by simp
  from steady_queue.record_slugs_ok [OF assms(2) rec assms(10)] queue_store.record_slugs_zset(1) [OF qs rec] sv(3)
  have "st_zset (view (wk_world (sv_worker sv'))) DEBOUNCE_KEY slug \<noteq> None" by blast
  moreover from sv(1) have "respond ax ap os rq sv = Some (response, sv')"
    using axum.router_open [OF assms(1), of "rq_path rq" "rq_method rq"] assms(4,5)
    by (simp add: respond_def)
  moreover have "\<exists>msg w'. run_state (scheduler_pass q c) w = (True, w') \<and> upload_job msg \<and> jm_pipeline msg = slug
      \<and> enc_message (qc_json q) msg \<in> set (st_stream (view w') STREAM_KEY)"
    if due: "slug \<in> due_slugs (view w) (pass_time (qc_redis q) c w)"
      "finite (due_slugs (view w) (pass_time (qc_redis q) c w))"
      "card (due_slugs (view w) (pass_time (qc_redis q) c w)) \<le> 10" for w c
  proof -
    obtain x w' where r: "run_state (scheduler_pass q c) w = (x, w')" by fastforce
    from wpD [OF steady_queue.scheduler_fires [OF assms(2)] r]
    have x: "x" and f: "fired (qc_json q) (pass_time (qc_redis q) c w) (view w) (view w')" by auto
    from fired_all [OF f due] r x show ?thesis by metis
  qed
  ultimately show ?thesis using sv(2) unfolding Let_def by blast
qed

text \<open>A delivery that names one object of the lake, and a later Redis in which its batch is due.\<close>

definition upload_request :: Request where
  "upload_request = \<lparr>rq_method = POST, rq_path = ''/events/s3'', rq_secret_header = Some ''secret'',
     rq_authorization = None, rq_bytes = Some ''{}'', rq_text = Inr ''{}''\<rparr>"

definition due_world :: Mem where
  "due_world = (demo_mem Map.empty [])\<lparr>mm_zset := (\<lambda>_. [])(DEBOUNCE_KEY := [(''demo'', 900)])\<rparr>"

lemma due_world_due: "due_slugs (mem_view due_world) (pass_time steady_redis True due_world) = {''demo''}"
  by (auto simp: due_slugs_def due_world_def pass_time_def split: if_splits)

definition intake_app :: "(MemStore, Mem) AppState" where
  "intake_app = demo_app\<lparr>ap_queue := Some (mem_queue steady_redis)\<rparr>"

definition intake_outside :: "(MemStore, Mem) Outside" where
  "intake_outside = demo_outside\<lparr>os_parse_events := (\<lambda>_. Some [lake_event])\<rparr>"

definition intake_server :: "(MemStore, Mem) Server" where
  "intake_server = demo_server\<lparr>sv_routing := \<lparr>rc_built_at = Some 4, rc_entries = [(''raw/'', ''demo'')]\<rparr>\<rparr>"

lemmas intake_defs = intake_app_def intake_outside_def intake_server_def upload_request_def demo_app_def
  demo_outside_def demo_server_def lake_event_def

text \<open>Two objects of one pipeline, of which the first is not recorded.\<close>

definition flaky_app :: "(MemStore, Mem) AppState" where
  "flaky_app = demo_app\<lparr>ap_queue := Some (mem_queue mem_redis)\<rparr>"

definition flaky_outside :: "(MemStore, Mem) Outside" where
  "flaky_outside = demo_outside\<lparr>os_parse_events := (\<lambda>_. Some [lake_event, lake_event])\<rparr>"

definition flaky_server :: "(MemStore, Mem) Server" where
  "flaky_server = intake_server\<lparr>sv_worker := \<lparr>wk_world = demo_mem Map.empty [Refused ''reset''], wk_in_flight = 0,
     wk_consumer_ok = True\<rparr>\<rparr>"

lemmas flaky_defs = flaky_app_def flaky_outside_def flaky_server_def intake_defs

lemma events_scheduled_witness:
  "\<exists>sv'. respond list_axum flaky_app flaky_outside upload_request flaky_server
      = Some (\<lparr>r_status = 200, r_body = JsonBody (JsObj
          [(''received'', JsInt 2), (''scheduled'', JsArr [JsStr ''demo''])])\<rparr>, sv')
    \<and> mm_zset (wk_world (sv_worker sv')) DEBOUNCE_KEY \<noteq> []"
proof -
  have auth: "authorize_events True (ap_webhook_secret flaky_app) (rq_secret_header upload_request)
      (rq_authorization upload_request) = None"
    by (simp add: flaky_defs authorize_events_None webhook_provided_def)
  have "match_key (rc_entries (sv_routing intake_server)) (urldecode ''raw/a.csv'') = [''demo'']"
    unfolding intake_server_def by code_simp
  then have routed: "route_records (route_on flaky_app flaky_outside) (ap_lake_bucket flaky_app)
      (sv_routing flaky_server, sv_store flaky_server) [lake_event, lake_event]
      = Some ([''demo'', ''demo''], sv_routing flaky_server, sv_store flaky_server)"
    by (simp add: route_key_fresh flaky_defs upload_key_def route_on_def cache_fresh_def ROUTING_TTL_def)
  have conn: "rd_connect (qc_redis (mem_queue mem_redis)) (wk_world (sv_worker flaky_server))
      = (Inr (), demo_mem Map.empty [Refused ''reset''])" by (simp add: flaky_server_def)
  obtain w' where rec: "record_slugs (\<lambda>w slug. run_state (debounce_event (qc_redis (mem_queue mem_redis)) slug) w)
      (demo_mem Map.empty [Refused ''reset'']) [''demo'', ''demo''] = ([(''demo'', False), (''demo'', True)], w')"
    by (auto simp: debounce_event_def send_def tell_def read_clock_def map_ok_def Let_def mem_trip_def demo_mem_def)
  have rq: "ap_queue flaky_app = Some (mem_queue mem_redis)" "rq_method upload_request = POST"
    "rq_path upload_request = ''/events/s3''" "rq_bytes upload_request = Some ''{}''"
    "os_parse_events flaky_outside ''{}'' = Some [lake_event, lake_event]"
    by (simp_all add: flaky_defs)
  from events_scheduled [OF routes.axum_axioms scripted.queue_store_axioms rq(1-3) auth rq(4,5) conn routed rec]
  have "respond list_axum flaky_app flaky_outside upload_request flaky_server
      = Some (\<lparr>r_status = 200, r_body = scheduled_body [lake_event, lake_event] [''demo'']\<rparr>,
        \<lparr>sv_routing = sv_routing flaky_server, sv_store = sv_store flaky_server,
         sv_worker = (sv_worker flaky_server)\<lparr>wk_world := w'\<rparr>\<rparr>)"
    and "map_of (mm_zset w' DEBOUNCE_KEY) ''demo'' \<noteq> None" by auto
  then show ?thesis by auto
qed

lemma upload_becomes_job_witness:
  "(\<exists>response sv'. respond list_axum intake_app intake_outside upload_request intake_server = Some (response, sv')
      \<and> r_status response = 200 \<and> st_zset (mem_view (wk_world (sv_worker sv'))) DEBOUNCE_KEY ''demo'' \<noteq> None)
   \<and> (\<exists>msg w'. run_state (scheduler_pass (mem_queue steady_redis) True) due_world = (True, w')
        \<and> jm_pipeline msg = ''demo'' \<and> enc_message (qc_json (mem_queue steady_redis)) msg \<in> set (mm_stream w' STREAM_KEY))"
proof -
  have "match_key (rc_entries (sv_routing intake_server)) (urldecode ''raw/a.csv'') = [''demo'']"
    unfolding intake_server_def by code_simp
  then have routed: "route_records (route_on intake_app intake_outside) (ap_lake_bucket intake_app)
      (sv_routing intake_server, sv_store intake_server) [lake_event]
      = Some ([''demo''], sv_routing intake_server, sv_store intake_server)"
    by (simp add: route_key_fresh intake_defs upload_key_def route_on_def cache_fresh_def ROUTING_TTL_def)
  have auth: "authorize_events True (ap_webhook_secret intake_app) (rq_secret_header upload_request)
      (rq_authorization upload_request) = None"
    by (simp add: intake_defs authorize_events_None webhook_provided_def)
  have rq: "ap_queue intake_app = Some (mem_queue steady_redis)" "rq_method upload_request = POST"
    "rq_path upload_request = ''/events/s3''" "rq_bytes upload_request = Some ''{}''"
    "os_parse_events intake_outside ''{}'' = Some [lake_event]" "''demo'' \<in> set [''demo'']"
    by (simp_all add: intake_defs)
  have job: "\<exists>response sv'. respond list_axum intake_app intake_outside upload_request intake_server = Some (response, sv')
    \<and> r_status response = 200 \<and> st_zset (mem_view (wk_world (sv_worker sv'))) DEBOUNCE_KEY ''demo'' \<noteq> None
    \<and> (\<forall>w c. let due = due_slugs (mem_view w) (pass_time (qc_redis (mem_queue steady_redis)) c w) in
          ''demo'' \<in> due \<and> finite due \<and> card due \<le> 10 \<longrightarrow>
          (\<exists>msg w'. run_state (scheduler_pass (mem_queue steady_redis) c) w = (True, w') \<and> upload_job msg
             \<and> jm_pipeline msg = ''demo''
             \<and> enc_message (qc_json (mem_queue steady_redis)) msg \<in> set (st_stream (mem_view w') STREAM_KEY)))"
    by (rule upload_becomes_job [OF routes.axum_axioms steady.steady_queue_axioms rq(1-3) auth rq(4,5) routed rq(6)])
  have redis: "qc_redis (mem_queue steady_redis) = steady_redis" and stream: "\<And>w. st_stream (mem_view w) = mm_stream w"
    by simp_all
  from job have "\<exists>msg w'. run_state (scheduler_pass (mem_queue steady_redis) True) due_world = (True, w')
      \<and> jm_pipeline msg = ''demo'' \<and> enc_message (qc_json (mem_queue steady_redis)) msg \<in> set (mm_stream w' STREAM_KEY)"
    unfolding Let_def redis stream
    by - (elim exE conjE, drule spec [where x = due_world], drule spec [where x = True], force simp: due_world_due)
  with job show ?thesis by blast
qed

end
