(* ===== verification/Queue_Progress.thy ===== *)
theory Queue_Progress
  imports Queue_Properties "HOL-Library.Sublist"
begin

text \<open>
  Models the progress sink of \<open>src/queue.rs\<close>: the executor sends its updates into an unbounded channel, a task
  beside it writes them to the live hash one by one, and ends when the sink is dropped and the channel is
  empty. The property relates the hash to the sequence of updates, however the two interleave and whichever
  writes fail.
\<close>

section \<open>The sink\<close>

text \<open>\<open>pw_sent\<close> records what the executor has sent and \<open>pw_failed\<close> how many writes got an error; only the
  properties read them.\<close>

record 'w Writer =
  pw_channel :: "Progress list"
  pw_closed :: bool
  pw_ended :: bool
  pw_world :: 'w
  pw_sent :: "Progress list"
  pw_failed :: nat

definition start_progress :: "'w \<Rightarrow> 'w Writer" where
  "start_progress w = \<lparr>pw_channel = [], pw_closed = False, pw_ended = False, pw_world = w, pw_sent = [],
     pw_failed = 0\<rparr>"

text \<open>The next round trip gets its answer.\<close>

definition delivered :: "'w QueueCtx \<Rightarrow> 'w \<Rightarrow> bool" where
  "delivered q w \<longleftrightarrow> fst (rd_trip (qc_redis q) w) = Delivered"

text \<open>Between the writes \<open>others\<close>, the heartbeat and other workers, act on Redis.\<close>

inductive writer_step ::
  "'w QueueCtx \<Rightarrow> JobMessage \<Rightarrow> ('w \<Rightarrow> 'w \<Rightarrow> bool) \<Rightarrow> 'w Writer \<Rightarrow> 'w Writer \<Rightarrow> bool" for q msg others where
  updated: "\<not> pw_closed s \<Longrightarrow> writer_step q msg others s
    (s\<lparr>pw_channel := pw_channel s @ [p], pw_sent := pw_sent s @ [p]\<rparr>)"
| dropped: "\<not> pw_closed s \<Longrightarrow> writer_step q msg others s (s\<lparr>pw_closed := True\<rparr>)"
| wrote: "pw_channel s = p # ps \<Longrightarrow> run_state (write_progress q msg p) (pw_world s) = (u, w)
    \<Longrightarrow> writer_step q msg others s (s\<lparr>pw_channel := ps, pw_world := w,
         pw_failed := pw_failed s + (if delivered q (pw_world s) then 0 else 1)\<rparr>)"
| returned: "pw_channel s = [] \<Longrightarrow> pw_closed s \<Longrightarrow> \<not> pw_ended s \<Longrightarrow> writer_step q msg others s (s\<lparr>pw_ended := True\<rparr>)"
| elsewhere: "others (pw_world s) w \<Longrightarrow> writer_step q msg others s (s\<lparr>pw_world := w\<rparr>)"

inductive_cases writer_stepE: "writer_step q msg others s s'"

section \<open>What the hash shows\<close>

text \<open>The fields of the live hash after an update.\<close>

fun show_progress :: "Progress \<Rightarrow> (string \<rightharpoonup> string) \<Rightarrow> (string \<rightharpoonup> string)" where
  "show_progress (Downloading n_done n_total) h =
     h(''stage'' \<mapsto> ''downloading'', ''files_done'' \<mapsto> show_nat n_done, ''files_total'' \<mapsto> show_nat n_total)"
| "show_progress (Ingesting n_done n_total written) h =
     h(''stage'' \<mapsto> ''ingesting'', ''mappings_done'' \<mapsto> show_nat n_done, ''mappings_total'' \<mapsto> show_nat n_total,
       ''partitions_written'' \<mapsto> show_nat written)"

definition progress_names :: "string set" where
  "progress_names = {''stage'', ''files_done'', ''files_total'', ''mappings_done'', ''mappings_total'', ''partitions_written''}"

definition progress_fields :: "(string \<rightharpoonup> string) \<Rightarrow> (string \<rightharpoonup> string)" where
  "progress_fields h = h |` progress_names"

lemma show_progress_fields: "progress_fields (show_progress p h) = show_progress p (progress_fields h)"
  by (cases p) (auto simp: progress_fields_def progress_names_def restrict_map_def fun_eq_iff)

context queue_store
begin

text \<open>A write shows its update; when its round trip fails, it may also have done nothing.\<close>

lemma wp_progress:
  "wp (write_progress q msg p) (\<lambda>_ w'. st_hash (view w') (live_key (jm_job_id msg))
      = show_progress p (st_hash (view w) (live_key (jm_job_id msg)))
    \<or> \<not> delivered q w \<and> st_hash (view w') (live_key (jm_job_id msg)) = st_hash (view w) (live_key (jm_job_id msg))) w"
proof -
  let ?key = "live_key (jm_job_id msg)"
  have rest: "wp (publish_job_event q (jm_pipeline msg) (jm_job_id msg)) (\<lambda>_ w'. st_hash (view w') ?key = h) w2"
    if "st_hash (view w2) ?key = h" for w2 h
    by (rule wp_publish) (simp add: that)
  have sent: "wp (tell (qc_redis q) f) (\<lambda>x w'. if is_ok x then delivered q w \<and> st_hash (view w') ?key = h
      else \<not> delivered q w \<and> st_hash (view w') ?key \<in> {h, st_hash (view w) ?key}) w"
    if "\<And>w1. view w1 = view w \<Longrightarrow> st_hash (view (f w1)) ?key = h" for f h
  proof -
    obtain t w1 where t: "rd_trip (qc_redis q) w = (t, w1)" by fastforce
    then have "view w1 = view w" by (rule trip_same)
    with that t show ?thesis by (cases t) (simp_all add: tell_def send_def wp_def delivered_def is_ok_def)
  qed
  show ?thesis unfolding write_progress_def Let_def wp_bind
    by (rule wp_mono [OF sent [where h = "show_progress p (st_hash (view w) ?key)"]])
      (cases p; auto simp: hset_all is_ok_def intro: wp_mono [OF rest] split: sum.splits if_splits)+
qed

end

text \<open>The updates shown are among those written, in their order, and only a failed write is missing.\<close>

definition shown_updates ::
  "('w \<Rightarrow> Store) \<Rightarrow> string \<Rightarrow> (string \<rightharpoonup> string) \<Rightarrow> 'w Writer \<Rightarrow> Progress list \<Rightarrow> Progress list \<Rightarrow> bool" where
  "shown_updates view job_id h s written shown \<longleftrightarrow>
     pw_sent s = written @ pw_channel s \<and> subseq shown written \<and> length written \<le> length shown + pw_failed s
     \<and> progress_fields (st_hash (view (pw_world s)) (live_key job_id)) = fold show_progress shown h"

definition progress_inv ::
  "('w \<Rightarrow> Store) \<Rightarrow> string \<Rightarrow> (string \<rightharpoonup> string) \<Rightarrow> 'w Writer \<Rightarrow> bool" where
  "progress_inv view job_id h s \<longleftrightarrow>
     (\<exists>written shown. shown_updates view job_id h s written shown) \<and> (pw_ended s \<longrightarrow> pw_closed s \<and> pw_channel s = [])"

lemma progress_step_inv:
  assumes "queue_store q view"
    and "\<And>w w'. others w w' \<Longrightarrow> progress_fields (st_hash (view w') (live_key (jm_job_id msg)))
      = progress_fields (st_hash (view w) (live_key (jm_job_id msg)))"
    and "writer_step q msg others s s'" and "progress_inv view (jm_job_id msg) h s"
  shows "progress_inv view (jm_job_id msg) h s'"
  using assms(3)
proof (cases rule: writer_step.cases)
  case (wrote p ps u w)
  let ?key = "live_key (jm_job_id msg)"
  from assms(4) obtain written shown where old: "shown_updates view (jm_job_id msg) h s written shown"
    by (auto simp: progress_inv_def)
  with wrote(2) have sent: "pw_sent s = (written @ [p]) @ ps" and sub: "subseq shown written"
    and len: "length written \<le> length shown + pw_failed s"
    and fields': "progress_fields (st_hash (view (pw_world s)) ?key) = fold show_progress shown h"
    by (auto simp: shown_updates_def)
  have still: "\<not> pw_ended s'" using assms(4) wrote(2) by (auto simp: progress_inv_def wrote(1))
  from wpD [OF queue_store.wp_progress [OF assms(1)] wrote(3)]
  show ?thesis
  proof (elim disjE conjE)
    assume "st_hash (view w) ?key = show_progress p (st_hash (view (pw_world s)) ?key)"
    with fields' have "progress_fields (st_hash (view w) ?key) = fold show_progress (shown @ [p]) h"
      by (simp add: show_progress_fields)
    with sent sub len have "shown_updates view (jm_job_id msg) h s' (written @ [p]) (shown @ [p])"
      by (auto simp: shown_updates_def wrote(1))
    with still show ?thesis unfolding progress_inv_def by blast
  next
    assume "\<not> delivered q (pw_world s)" "st_hash (view w) ?key = st_hash (view (pw_world s)) ?key"
    with sent sub len fields' have "shown_updates view (jm_job_id msg) h s' (written @ [p]) shown"
      by (auto simp: shown_updates_def wrote(1))
    with still show ?thesis unfolding progress_inv_def by blast
  qed
qed (use assms(2,4) in \<open>auto simp: progress_inv_def shown_updates_def\<close>)

section \<open>Properties\<close>

text \<open>C34: The live hash shows the progress the executor reported, in order: at any time its progress fields are
  those after some of the updates written so far, in the order they were sent, none of them twice. Only an
  update whose write got an error can be missing, so without failed writes the hash shows all of
  them; an error is logged and the update not sent again. What is written is what was sent, less what the
  channel still holds, and a writer whose sink is dropped ends after the updates it still has, which
  handling a job waits for. The others leave the fields of the progress alone.\<close>

theorem progress_in_order:
  assumes "queue_store q view"
    and "\<And>w w'. others w w' \<Longrightarrow> progress_fields (st_hash (view w') (live_key (jm_job_id msg)))
      = progress_fields (st_hash (view w) (live_key (jm_job_id msg)))"
    and "(writer_step q msg others)\<^sup>*\<^sup>* (start_progress w) s"
  shows "(\<exists>written shown. pw_sent s = written @ pw_channel s \<and> (pw_ended s \<longrightarrow> written = pw_sent s)
      \<and> subseq shown written \<and> length written \<le> length shown + pw_failed s
      \<and> (pw_failed s = 0 \<longrightarrow> shown = written)
      \<and> progress_fields (st_hash (view (pw_world s)) (live_key (jm_job_id msg)))
          = fold show_progress shown (progress_fields (st_hash (view w) (live_key (jm_job_id msg)))))
    \<and> (pw_closed s \<longrightarrow> (\<exists>s'. (writer_step q msg others)\<^sup>*\<^sup>* s s' \<and> pw_ended s' \<and> pw_sent s' = pw_sent s))"
proof -
  let ?h = "progress_fields (st_hash (view w) (live_key (jm_job_id msg)))"
  have "progress_inv view (jm_job_id msg) ?h s" using assms(3)
  proof (induction rule: rtranclp_induct)
    case base
    have "shown_updates view (jm_job_id msg) ?h (start_progress w) [] []"
      by (simp add: shown_updates_def start_progress_def)
    then show ?case by (auto simp: progress_inv_def start_progress_def)
  next
    case (step y z)
    from progress_step_inv [OF assms(1,2) step.hyps(2) step.IH] show ?case .
  qed
  then obtain written shown where w: "shown_updates view (jm_job_id msg) ?h s written shown"
    and e: "pw_ended s \<longrightarrow> pw_closed s \<and> pw_channel s = []" by (auto simp: progress_inv_def)
  have "shown = written" if "pw_failed s = 0"
    using w that by (metis shown_updates_def add_0_right le_antisym list_emb_length subseq_same_length)
  moreover have "\<exists>s'. (writer_step q msg others)\<^sup>*\<^sup>* s s' \<and> pw_ended s' \<and> pw_sent s' = pw_sent s"
    if "pw_closed s" for s
    using that
  proof (induction "pw_channel s" arbitrary: s)
    case Nil
    show ?case
    proof (cases "pw_ended s")
      case False
      with Nil returned [of s q msg others]
      have "writer_step q msg others s (s\<lparr>pw_ended := True\<rparr>)" by simp
      then show ?thesis by (intro exI [of _ "s\<lparr>pw_ended := True\<rparr>"]) auto
    qed auto
  next
    case (Cons p ps)
    obtain u w1 where r: "run_state (write_progress q msg p) (pw_world s) = (u, w1)" by (metis surj_pair)
    from wrote [OF Cons.hyps(2) [symmetric] r] obtain s1
      where s1: "writer_step q msg others s s1" "pw_channel s1 = ps" "pw_closed s1 = pw_closed s" "pw_sent s1 = pw_sent s"
      by force
    with Cons.hyps(1) [of s1] Cons.prems show ?case by (auto intro: converse_rtranclp_into_rtranclp)
  qed
  moreover have "pw_ended s \<longrightarrow> written = pw_sent s" using w e by (auto simp: shown_updates_def)
  ultimately show ?thesis using w unfolding shown_updates_def by (intro conjI exI [of _ written] exI [of _ shown]) blast+
qed

text \<open>Three updates before the sink is dropped, and a Redis that refuses the second write.\<close>

definition reports :: "Progress list" where
  "reports = [Downloading 0 2, Downloading 1 2, Downloading 2 2]"

definition flaky_mem :: "Mem" where
  "flaky_mem = demo_mem Map.empty [Delivered, Delivered, Refused ''reset'']"

definition reported :: "Mem Writer" where
  "reported = (start_progress flaky_mem)\<lparr>pw_channel := reports, pw_sent := reports, pw_closed := True\<rparr>"

abbreviation demo_writer :: "Mem Writer \<Rightarrow> Mem Writer \<Rightarrow> bool" where
  "demo_writer \<equiv> writer_step (mem_queue mem_redis) demo_msg (=)"

lemma demo_sends:
  "demo_writer\<^sup>*\<^sup>* (start_progress flaky_mem) ((start_progress flaky_mem)\<lparr>pw_channel := ps, pw_sent := ps\<rparr>)"
proof (induction ps rule: rev_induct)
  case Nil
  show ?case by (simp add: start_progress_def)
next
  case (snoc p ps)
  let ?s = "(start_progress flaky_mem)\<lparr>pw_channel := ps, pw_sent := ps\<rparr>"
  have "demo_writer ?s (?s\<lparr>pw_channel := pw_channel ?s @ [p], pw_sent := pw_sent ?s @ [p]\<rparr>)"
    by (rule updated) (simp add: start_progress_def)
  with snoc show ?case by (auto intro: rtranclp.rtrancl_into_rtrancl)
qed

lemma reported_reached: "demo_writer\<^sup>*\<^sup>* (start_progress flaky_mem) reported"
proof -
  let ?s = "(start_progress flaky_mem)\<lparr>pw_channel := reports, pw_sent := reports\<rparr>"
  have "demo_writer ?s (?s\<lparr>pw_closed := True\<rparr>)" by (rule dropped) (simp add: start_progress_def)
  with demo_sends [of reports] show ?thesis by (auto simp: reported_def intro: rtranclp.rtrancl_into_rtrancl)
qed

lemma progress_in_order_witness:
  "\<exists>s. demo_writer\<^sup>*\<^sup>* (start_progress flaky_mem) s \<and> pw_ended s
     \<and> (\<exists>shown. subseq shown reports \<and> progress_fields (mm_hash (pw_world s) (live_key ''job-1''))
          = fold show_progress shown Map.empty)"
proof -
  have m: "jm_job_id demo_msg = ''job-1''" by (simp add: demo_msg_def)
  have c: "pw_closed reported" "pw_sent reported = reports" by (simp_all add: reported_def)
  have h: "progress_fields (mm_hash flaky_mem (live_key ''job-1'')) = Map.empty"
    by (simp add: flaky_mem_def demo_mem_def progress_fields_def)
  from progress_in_order [OF scripted.queue_store_axioms _ reported_reached] c
  obtain s where s: "demo_writer\<^sup>*\<^sup>* reported s" "pw_ended s" "pw_sent s = reports" by auto
  from reported_reached s(1) have r: "demo_writer\<^sup>*\<^sup>* (start_progress flaky_mem) s" by (rule rtranclp_trans)
  from progress_in_order [OF scripted.queue_store_axioms _ r] s(2,3)
  have "\<exists>shown. subseq shown reports \<and> progress_fields (mm_hash (pw_world s) (live_key ''job-1''))
      = fold show_progress shown Map.empty"
    by (auto simp: m h)
  with r s(2) show ?thesis by blast
qed

text \<open>With the second of three writes refused, the hash ends on the third.\<close>

lemma refused_update_skipped:
  "let step = (\<lambda>p w. snd (run_state (write_progress (mem_queue mem_redis) demo_msg p) w));
       h = mm_hash (step (Downloading 2 2) (step (Downloading 1 2) (step (Downloading 0 2) flaky_mem))) (live_key ''job-1'')
   in h ''files_done'' = Some (show_nat 2)
      \<and> mm_hash (step (Downloading 1 2) (step (Downloading 0 2) flaky_mem)) (live_key ''job-1'') ''files_done''
          = Some (show_nat 0)"
  by (simp add: Let_def write_progress_def publish_job_event_def tell_def send_def mem_queue_def mem_redis_def
      mem_trip_def flaky_mem_def demo_mem_def demo_msg_def hset_all_def mem_field_def)

end
