(* ===== verification/Shutdown.thy ===== *)
theory Shutdown
  imports Startup Queue_Loops Http_Router
begin

text \<open>
  Models the running and the graceful shutdown of the process in \<open>src/lib.rs\<close>, with the loops of
  \<open>src/queue.rs\<close> around their passes: the server answers until a signal stops it, then the flag is set, each loop
  ends at its next look at the flag, and \<open>run\<close> returns when every loop has ended. A consumer and the reclaimer are
  modelled call by call, from the read or claim of an entry to the settling of its job; the sweep and the
  passes of the mover and the scheduler, which run no job, are one step each.
  Timers are not measured: a wait is a step that can be taken at any time.
\<close>

section \<open>Signals\<close>

datatype Signal = SIGINT | SIGTERM

text \<open>Whether the select has resolved, after the signals that arrived. The arguments are what registering
  the two handlers gave: a refused \<open>SIGTERM\<close> handler waits forever, a refused \<open>SIGINT\<close> one is resolved.\<close>

definition shutdown_signal :: "string + unit \<Rightarrow> string + unit \<Rightarrow> Signal list \<Rightarrow> bool" where
  "shutdown_signal ctrl_c sigterm arrived \<longleftrightarrow>
     (case ctrl_c of Inl _ \<Rightarrow> True | Inr _ \<Rightarrow> SIGINT \<in> set arrived)
     \<or> (case sigterm of Inl _ \<Rightarrow> False | Inr _ \<Rightarrow> SIGTERM \<in> set arrived)"

section \<open>Loops\<close>

datatype LoopKind = Consumer | Mover | Reclaimer | Scheduler

text \<open>Where a loop is: at its timer, at its look at the flag, in a pass, waiting after a failure, or returned. A
  consumer is then before the next of the entries it read, or runs a job for one, or has its outcome; so is the
  reclaimer with the entries it claimed, which is at \<open>Idle\<close> before each claim and may sweep after the last.\<close>

datatype LoopPoint =
    Tick | Check | Pass | Backoff | Idle | Sweep
  | Take "Entry list"
  | Started JobMessage nat string "Entry list"
  | Ran "JobError + JobOutcome" JobMessage nat string "Entry list"
  | Ended

record Loop =
  lp_kind :: LoopKind
  lp_at :: LoopPoint
  lp_conn :: bool
  lp_tick :: nat

definition start_loop :: "LoopKind \<Rightarrow> Loop" where
  "start_loop kind = \<lparr>lp_kind = kind, lp_at = (if kind = Consumer then Check else Tick), lp_conn = False, lp_tick = 0\<rparr>"

text \<open>The look at the flag; the reclaimer counts its passes.\<close>

definition check_flag :: "bool \<Rightarrow> Loop \<Rightarrow> Loop" where
  "check_flag flag l =
     (if flag then l\<lparr>lp_at := Ended\<rparr>
      else l\<lparr>lp_at := Pass, lp_tick := (if lp_kind l = Reclaimer then lp_tick l + 1 else lp_tick l)\<rparr>)"

text \<open>A consumer connects and reads; a failure drops the connection and waits.\<close>

definition consumer_read :: "'w QueueCtx \<Rightarrow> Loop \<Rightarrow> 'w Worker \<Rightarrow> Loop \<times> 'w Worker" where
  "consumer_read q l s =
     (case step_world (consumer_connect q (lp_conn l)) s of
        (False, s1) \<Rightarrow> (l\<lparr>lp_at := Backoff, lp_conn := False\<rparr>, s1\<lparr>wk_consumer_ok := False\<rparr>)
      | (True, s1) \<Rightarrow>
          (case step_world (send (qc_redis q)
                  (\<lambda>w. rd_xreadgroup (qc_redis q) w STREAM_KEY GROUP (qc_consumer_name q))) s1 of
             (Inl _, s2) \<Rightarrow> (l\<lparr>lp_at := Backoff, lp_conn := False\<rparr>, s2\<lparr>wk_consumer_ok := False\<rparr>)
           | (Inr entries, s2) \<Rightarrow> (l\<lparr>lp_at := Take entries, lp_conn := True\<rparr>, s2\<lparr>wk_consumer_ok := True\<rparr>)))"

text \<open>The reclaimer claims one idle entry and runs it, until there is none; it does not look at the flag in
  between.\<close>

definition reclaimer_ready :: "'w QueueCtx \<Rightarrow> Loop \<Rightarrow> 'w Worker \<Rightarrow> Loop \<times> 'w Worker" where
  "reclaimer_ready q l s =
     (case step_world (ensure_conn (qc_redis q) (lp_conn l)) s of
        (ready, s1) \<Rightarrow> (l\<lparr>lp_at := (if ready then Idle else Tick), lp_conn := ready\<rparr>, s1))"

definition reclaimer_claim :: "'w QueueCtx \<Rightarrow> Loop \<Rightarrow> 'w Worker \<Rightarrow> Loop \<times> 'w Worker" where
  "reclaimer_claim q l s =
     (case step_world (send (qc_redis q) (\<lambda>w. rd_xautoclaim (qc_redis q) w STREAM_KEY GROUP
              (qc_consumer_name q) (qs_reclaim_idle_ms (qc_settings q)))) s of
        (Inl _, s1) \<Rightarrow> (l\<lparr>lp_at := Tick, lp_conn := False\<rparr>, s1)
      | (Inr entries, s1) \<Rightarrow>
          (l\<lparr>lp_at := (if entries \<noteq> [] then Take entries else if lp_tick l mod 10 = 1 then Sweep else Tick)\<rparr>, s1))"

text \<open>A pass of the mover or the scheduler.\<close>

definition other_pass :: "'w QueueCtx \<Rightarrow> Loop \<Rightarrow> 'w Worker \<Rightarrow> Loop \<times> 'w Worker" where
  "other_pass q l s =
     (case step_world (if lp_kind l = Scheduler then scheduler_pass q (lp_conn l)
          else mover_pass (qc_redis q) (lp_conn l)) s of
        (conn, s1) \<Rightarrow> (l\<lparr>lp_at := Tick, lp_conn := conn\<rparr>, s1))"

text \<open>Where a loop goes on when it has handled its entries.\<close>

definition after_entries :: "LoopKind \<Rightarrow> LoopPoint" where
  "after_entries kind = (if kind = Reclaimer then Idle else Check)"

text \<open>The next step of a loop; \<open>None\<close> when it has ended or its call never returns.\<close>

definition loop_step ::
  "'w QueueCtx \<Rightarrow> 'w Executor \<Rightarrow> bool \<Rightarrow> Loop \<Rightarrow> 'w Worker \<Rightarrow> (Loop \<times> 'w Worker) option" where
  "loop_step q run flag l s =
     (case lp_at l of
        Tick \<Rightarrow> Some (l\<lparr>lp_at := Check\<rparr>, s)
      | Check \<Rightarrow> Some (check_flag flag l, s)
      | Pass \<Rightarrow>
          Some (if lp_kind l = Consumer then consumer_read q l s
            else if lp_kind l = Reclaimer then reclaimer_ready q l s else other_pass q l s)
      | Idle \<Rightarrow> Some (reclaimer_claim q l s)
      | Sweep \<Rightarrow>
          map_option (\<lambda>(r, w). (l\<lparr>lp_at := Tick, lp_conn := is_ok r\<rparr>, s\<lparr>wk_world := w\<rparr>))
            (sweep_orphaned_live_hashes q (wk_world s))
      | Backoff \<Rightarrow> Some (l\<lparr>lp_at := Check\<rparr>, s)
      | Take [] \<Rightarrow> Some (l\<lparr>lp_at := after_entries (lp_kind l)\<rparr>, s)
      | Take (entry # entries) \<Rightarrow>
          (case step_world (claim q (fst entry) (entry_payload entry)) s of
             (None, s1) \<Rightarrow> Some (l\<lparr>lp_at := Take entries\<rparr>, s1)
           | (Some (msg, attempts), s1) \<Rightarrow>
               Some (l\<lparr>lp_at := Started msg attempts (fst entry) entries\<rparr>, s1\<lparr>wk_in_flight := wk_in_flight s1 + 1\<rparr>))
      | Started msg attempts i entries \<Rightarrow>
          (case step_world (begin_run q msg) s of
             (_, s2) \<Rightarrow>
               map_option (\<lambda>(outcome, w3). (l\<lparr>lp_at := Ran outcome msg attempts i entries\<rparr>, s2\<lparr>wk_world := w3\<rparr>))
                 (run msg attempts i (wk_world s2)))
      | Ran outcome msg attempts i entries \<Rightarrow>
          (case step_world (settle q msg i attempts outcome) s of
             (_, s4) \<Rightarrow> Some (l\<lparr>lp_at := Take entries\<rparr>, s4\<lparr>wk_in_flight := wk_in_flight s4 - 1\<rparr>))
      | Ended \<Rightarrow> None)"

section \<open>The process\<close>

text \<open>\<open>Joining n\<close>: \<open>run\<close> waits for the loop number \<open>n\<close>. \<open>Failed\<close>: it returned the error of the server.\<close>

datatype Phase = Serving | Stopped | Joining nat | Exited | Failed

record ('s, 'w) Service =
  se_server :: "('s, 'w) Server"
  se_signals :: "Signal list"
  se_phase :: Phase
  se_flag :: bool
  se_loops :: "Loop list"

text \<open>What does not change while the process runs.\<close>

record ('rt, 's, 'w) Site =
  si_axum :: "'rt Axum"
  si_app :: "('s, 'w) AppState"
  si_queue :: "'w QueueCtx"
  si_run :: "'w Executor"
  si_ctrl_c :: "string + unit"
  si_sigterm :: "string + unit"

text \<open>The loops are spawned, then the address is bound; \<open>Inl\<close> returns from \<open>run\<close> with the loops dropped.\<close>

definition start_loops :: "nat \<Rightarrow> Loop list" where
  "start_loops consumers =
     replicate (max 1 consumers) (start_loop Consumer) @ [start_loop Mover, start_loop Reclaimer, start_loop Scheduler]"

definition start_service ::
  "(string \<Rightarrow> string + unit) \<Rightarrow> Setup \<Rightarrow> ('s, 'w) Server \<Rightarrow> string + ('s, 'w) Service" where
  "start_service bind_addr su sv =
     rbind (bind_addr (su_addr su)) (\<lambda>_.
       Inr \<lparr>se_server = sv, se_signals = [], se_phase = Serving, se_flag = False, se_loops = start_loops (su_consumers su)\<rparr>)"

definition with_worker :: "('s, 'w) Service \<Rightarrow> 'w Worker \<Rightarrow> ('s, 'w) Service" where
  "with_worker s wk = s\<lparr>se_server := (se_server s)\<lparr>sv_worker := wk\<rparr>\<rparr>"

abbreviation se_worker :: "('s, 'w) Service \<Rightarrow> 'w Worker" where
  "se_worker s \<equiv> sv_worker (se_server s)"

text \<open>The server answers the requests it has accepted before it stops. A loop goes on until \<open>run\<close> returns.\<close>

inductive service_step :: "('rt, 's, 'w) Site \<Rightarrow> ('s, 'w) Service \<Rightarrow> ('s, 'w) Service \<Rightarrow> bool" for si where
  answered: "se_phase s = Serving \<Longrightarrow> respond (si_axum si) (si_app si) os rq (se_server s) = Some (response, sv)
    \<Longrightarrow> service_step si s (s\<lparr>se_server := sv\<rparr>)"
| signalled: "se_phase s = Serving \<Longrightarrow> service_step si s (s\<lparr>se_signals := sig # se_signals s\<rparr>)"
| stopped: "se_phase s = Serving \<Longrightarrow> shutdown_signal (si_ctrl_c si) (si_sigterm si) (se_signals s)
    \<Longrightarrow> service_step si s (s\<lparr>se_phase := Stopped\<rparr>)"
| broken: "se_phase s = Serving \<Longrightarrow> service_step si s (s\<lparr>se_phase := Failed\<rparr>)"
| flagged: "se_phase s = Stopped \<Longrightarrow> service_step si s (s\<lparr>se_phase := Joining 0, se_flag := True\<rparr>)"
| joined: "se_phase s = Joining n \<Longrightarrow> n < length (se_loops s) \<Longrightarrow> lp_at (se_loops s ! n) = Ended
    \<Longrightarrow> service_step si s (s\<lparr>se_phase := Joining (n + 1)\<rparr>)"
| exited: "se_phase s = Joining n \<Longrightarrow> n = length (se_loops s) \<Longrightarrow> service_step si s (s\<lparr>se_phase := Exited\<rparr>)"
| looped: "se_phase s \<notin> {Exited, Failed} \<Longrightarrow> i < length (se_loops s)
    \<Longrightarrow> loop_step (si_queue si) (si_run si) (se_flag s) (se_loops s ! i) (se_worker s) = Some (l, wk)
    \<Longrightarrow> service_step si s (with_worker (s\<lparr>se_loops := (se_loops s)[i := l]\<rparr>) wk)"

inductive_cases service_stepE: "service_step si s s'"

end
