(* ===== verification/Shutdown_Proofs.thy ===== *)
theory Shutdown_Proofs
  imports Shutdown Queue_Job
begin

text \<open>
  Properties of the shutdown: the steps of a consumer and of the reclaimer make up the passes of \<open>Queue_Loops\<close>;
  the process exits only when it was told to and no job runs; once the flag is set, every run ends with the
  exit, unless the reclaimer finds idle entries without end.
\<close>

section \<open>Steps and passes\<close>

definition loop_goes :: "'w QueueCtx \<Rightarrow> 'w Executor \<Rightarrow> bool \<Rightarrow> Loop \<times> 'w Worker \<Rightarrow> Loop \<times> 'w Worker \<Rightarrow> bool" where
  "loop_goes q run flag x y \<longleftrightarrow> loop_step q run flag (fst x) (snd x) = Some y"

lemma goes_first: "loop_step q run flag l s = Some y \<Longrightarrow> (loop_goes q run flag)\<^sup>*\<^sup>* y z
    \<Longrightarrow> (loop_goes q run flag)\<^sup>*\<^sup>* (l, s) z"
  by (rule converse_rtranclp_into_rtranclp) (simp_all add: loop_goes_def)

lemma handling_goes:
  assumes "handle_claimed q run (fst entry) (entry_payload entry) s = Some s'"
  shows "(loop_goes q run flag)\<^sup>*\<^sup>* (l\<lparr>lp_at := Take (entry # entries)\<rparr>, s) (l\<lparr>lp_at := Take entries\<rparr>, s')"
proof -
  obtain x s1 where c: "step_world (claim q (fst entry) (entry_payload entry)) s = (x, s1)" by fastforce
  show ?thesis
  proof (cases x)
    case None
    with assms c show ?thesis by (auto simp: handle_claimed_def loop_step_def intro!: goes_first)
  next
    case (Some job)
    obtain msg n where "job = (msg, n)" by fastforce
    with Some assms c show ?thesis
      by (auto simp: handle_claimed_def loop_step_def split: prod.splits option.splits intro!: goes_first)
  qed
qed

lemma entries_go:
  "handle_entries q run entries s = Some s' \<Longrightarrow>
     (loop_goes q run flag)\<^sup>*\<^sup>* (l\<lparr>lp_at := Take entries\<rparr>, s) (l\<lparr>lp_at := after_entries (lp_kind l)\<rparr>, s')"
proof (induction entries arbitrary: s)
  case Nil
  then show ?case by (auto simp: loop_step_def intro!: goes_first)
next
  case (Cons entry entries)
  then obtain s1 where "handle_claimed q run (fst entry) (entry_payload entry) s = Some s1"
    "handle_entries q run entries s1 = Some s'" by (auto split: option.splits)
  with Cons.IH handling_goes show ?case by (metis rtranclp_trans)
qed

text \<open>What a consumer does between two looks at the flag is its pass, whatever the flag becomes meanwhile.\<close>

lemma consumer_goes:
  assumes "consumer_pass q run (lp_conn l) s = Some (conn, s')" and "lp_kind l = Consumer" and "lp_at l = Pass"
  shows "(loop_goes q run flag)\<^sup>*\<^sup>* (l, s) (l\<lparr>lp_at := (if conn then Check else Backoff), lp_conn := conn\<rparr>, s')"
proof (cases "lp_at (fst (consumer_read q l s)) = Backoff")
  case True
  with assms show ?thesis
    by (intro r_into_rtranclp)
      (auto simp: loop_goes_def loop_step_def consumer_read_def consumer_pass_def split: prod.splits bool.splits sum.splits)
next
  case False
  with assms(1) obtain entries s1 where r: "consumer_read q l s = (l\<lparr>lp_at := Take entries, lp_conn := True\<rparr>, s1)"
    and h: "handle_entries q run entries s1 = Some s'" "conn"
    by (auto simp: consumer_read_def consumer_pass_def split: prod.splits bool.splits sum.splits)
  have "(loop_goes q run flag)\<^sup>*\<^sup>* (l\<lparr>lp_at := Take entries, lp_conn := True\<rparr>, s1) (l\<lparr>lp_at := Check, lp_conn := True\<rparr>, s')"
    using entries_go [OF h(1), of flag "l\<lparr>lp_conn := True\<rparr>"] assms(2) by (cases l) (simp add: after_entries_def)
  with r h(2) assms(2,3) show ?thesis by (auto simp: loop_step_def intro!: goes_first)
qed

text \<open>So it is with the reclaimer.\<close>

lemma idle_goes:
  assumes "reclaim_idle q run s = Some (failed, s')" and "lp_kind l = Reclaimer"
  shows "(loop_goes q run flag)\<^sup>*\<^sup>* (l\<lparr>lp_at := Idle, lp_conn := True\<rparr>, s)
    (l\<lparr>lp_at := (if \<not> failed \<and> lp_tick l mod 10 = 1 then Sweep else Tick), lp_conn := \<not> failed\<rparr>, s')"
proof -
  let ?idle = "l\<lparr>lp_at := Idle, lp_conn := True\<rparr>"
  let ?out = "\<lambda>f. l\<lparr>lp_at := (if \<not> f \<and> lp_tick l mod 10 = 1 then Sweep else Tick), lp_conn := \<not> f\<rparr>"
  have "(loop_goes q run flag)\<^sup>*\<^sup>* (?idle, s) (?out (fst y), snd y)" if "reclaim_idle q run s = Some y" for s y
  proof (rule reclaim_idle.raw_induct
      [where P = "\<lambda>q run s y. (loop_goes q run flag)\<^sup>*\<^sup>* (?idle, s) (?out (fst y), snd y)", OF _ that])
    fix rec q run s y
    assume IH: "\<And>q run s y. rec q run s = Some y \<Longrightarrow> (loop_goes q run flag)\<^sup>*\<^sup>* (?idle, s) (?out (fst y), snd y)"
      and now: "(case step_world (send (qc_redis q) (\<lambda>w. rd_xautoclaim (qc_redis q) w STREAM_KEY GROUP
              (qc_consumer_name q) (qs_reclaim_idle_ms (qc_settings q)))) s of
        (Inl _, s1) \<Rightarrow> Some (True, s1)
      | (Inr entries, s1) \<Rightarrow>
          if entries = [] then Some (False, s1)
          else Option.bind (handle_entries q run entries s1) (rec q run)) = Some y"
    obtain x s1 where c: "step_world (send (qc_redis q) (\<lambda>w. rd_xautoclaim (qc_redis q) w STREAM_KEY GROUP
              (qc_consumer_name q) (qs_reclaim_idle_ms (qc_settings q)))) s = (x, s1)" by fastforce
    show "(loop_goes q run flag)\<^sup>*\<^sup>* (?idle, s) (?out (fst y), snd y)"
    proof (cases "\<exists>entries. x = Inr entries \<and> entries \<noteq> []")
      case False
      with c now have "loop_step q run flag ?idle s = Some (?out (fst y), snd y)"
        by (cases l; cases x) (auto simp: loop_step_def reclaimer_claim_def)
      then show ?thesis by (rule goes_first) simp
    next
      case True
      with c now obtain entries s2 where h: "x = Inr entries" "entries \<noteq> []" "handle_entries q run entries s1 = Some s2"
        "rec q run s2 = Some y" by (auto simp: bind_eq_Some_conv)
      let ?take = "l\<lparr>lp_at := Take entries, lp_conn := True\<rparr>"
      have "(loop_goes q run flag)\<^sup>*\<^sup>* (?take, s1) (?idle, s2)"
        using entries_go [OF h(3), of flag "l\<lparr>lp_conn := True\<rparr>"] assms(2) by (cases l) (simp add: after_entries_def)
      moreover have "loop_step q run flag ?idle s = Some (?take, s1)"
        using c h(1,2) by (cases l) (simp add: loop_step_def reclaimer_claim_def)
      ultimately show ?thesis using IH [OF h(4)] by (meson goes_first rtranclp_trans)
    qed
  qed
  from this [OF assms(1)] show ?thesis by simp
qed

lemma reclaimer_goes:
  assumes "reclaimer_pass q run (lp_tick l) (lp_conn l) s = Some (conn, s')" and "lp_kind l = Reclaimer" and "lp_at l = Pass"
  shows "(loop_goes q run flag)\<^sup>*\<^sup>* (l, s) (l\<lparr>lp_at := Tick, lp_conn := conn\<rparr>, s')"
proof -
  obtain ready s1 where e: "step_world (ensure_conn (qc_redis q) (lp_conn l)) s = (ready, s1)" by fastforce
  have first: "loop_step q run flag l s = Some (l\<lparr>lp_at := (if ready then Idle else Tick), lp_conn := ready\<rparr>, s1)"
    using assms(2,3) e by (simp add: loop_step_def reclaimer_ready_def)
  show ?thesis
  proof (cases ready)
    case False
    with assms(1) e first show ?thesis by (auto simp: reclaimer_pass_def intro!: goes_first)
  next
    case True
    with assms(1) e obtain failed s2 where r: "reclaim_idle q run s1 = Some (failed, s2)"
      by (auto simp: reclaimer_pass_def split: option.splits)
    note idle = idle_goes [OF r assms(2), of flag]
    have "(loop_goes q run flag)\<^sup>*\<^sup>* (l\<lparr>lp_at := (if \<not> failed \<and> lp_tick l mod 10 = 1 then Sweep else Tick),
        lp_conn := \<not> failed\<rparr>, s2) (l\<lparr>lp_at := Tick, lp_conn := conn\<rparr>, s')"
    proof (cases "\<not> failed \<and> lp_tick l mod 10 = 1")
      case False
      with assms(1) e True r have "conn = (\<not> failed)" "s' = s2" by (auto simp: reclaimer_pass_def)
      with False show ?thesis by auto
    next
      case sweep: True
      with assms(1) e True r obtain x w where w: "sweep_orphaned_live_hashes q (wk_world s2) = Some (x, w)"
        "conn = is_ok x" "s' = s2\<lparr>wk_world := w\<rparr>" by (auto simp: reclaimer_pass_def split: option.splits)
      have "loop_step q run flag (l\<lparr>lp_at := Sweep, lp_conn := True\<rparr>) s2 = Some (l\<lparr>lp_at := Tick, lp_conn := conn\<rparr>, s')"
        using w by (cases l) (simp add: loop_step_def)
      then show ?thesis using sweep by (auto intro!: goes_first)
    qed
    with idle have "(loop_goes q run flag)\<^sup>*\<^sup>* (l\<lparr>lp_at := Idle, lp_conn := True\<rparr>, s1) (l\<lparr>lp_at := Tick, lp_conn := conn\<rparr>, s')"
      by (rule rtranclp_trans)
    with first True show ?thesis by (auto intro: goes_first)
  qed
qed

section \<open>Running jobs\<close>

lemma step_world_flight [simp]: "step_world m s = (x, s') \<Longrightarrow> wk_in_flight s' = wk_in_flight s"
  by (auto simp: step_world_def split: prod.splits)

lemma pass_flight:
  "consumer_read q l s = (l', s') \<Longrightarrow> wk_in_flight s' = wk_in_flight s"
  "reclaimer_ready q l s = (l', s') \<Longrightarrow> wk_in_flight s' = wk_in_flight s"
  "reclaimer_claim q l s = (l', s') \<Longrightarrow> wk_in_flight s' = wk_in_flight s"
  "other_pass q l s = (l', s') \<Longrightarrow> wk_in_flight s' = wk_in_flight s"
  by (auto simp: consumer_read_def reclaimer_ready_def reclaimer_claim_def other_pass_def
    split: prod.splits bool.splits sum.splits if_splits dest!: step_world_flight)

definition job_runs :: "Loop \<Rightarrow> bool" where
  "job_runs l \<longleftrightarrow> (case lp_at l of Started _ _ _ _ \<Rightarrow> True | Ran _ _ _ _ _ \<Rightarrow> True | _ \<Rightarrow> False)"

definition jobs_running :: "Loop list \<Rightarrow> nat" where
  "jobs_running loops = sum_list (map (\<lambda>l. of_bool (job_runs l)) loops)"

lemma sum_map_update:
  fixes f :: "'a \<Rightarrow> nat"
  shows "i < length xs \<Longrightarrow> sum_list (map f (xs[i := x])) + f (xs ! i) = sum_list (map f xs) + f x"
  using elem_le_sum_list [of i "map f xs"] by (simp add: map_update sum_list_update)

text \<open>Where a call leaves its loop.\<close>

lemma call_points:
  "consumer_read q l s = (l', s') \<Longrightarrow> lp_at l' = Backoff \<or> (\<exists>entries. lp_at l' = Take entries)"
  "reclaimer_ready q l s = (l', s') \<Longrightarrow> lp_at l' \<in> {Idle, Tick}"
  "reclaimer_claim q l s = (l', s') \<Longrightarrow>
     lp_at l' \<in> {Tick, Sweep} \<or> (\<exists>entry entries. lp_at l' = Take (entry # entries))"
  "other_pass q l s = (l', s') \<Longrightarrow> lp_at l' = Tick"
  by (auto simp: consumer_read_def reclaimer_ready_def reclaimer_claim_def other_pass_def neq_Nil_conv
    split: prod.splits bool.splits sum.splits if_splits)

lemma loop_step_flight:
  "loop_step q run flag l s = Some (l', s') \<Longrightarrow> (job_runs l \<Longrightarrow> 0 < wk_in_flight s) \<Longrightarrow>
     wk_in_flight s' + of_bool (job_runs l) = wk_in_flight s + of_bool (job_runs l')"
  by (cases "lp_at l")
    (auto simp: loop_step_def job_runs_def check_flag_def after_entries_def
      split: prod.splits option.splits if_splits list.splits
      dest!: step_world_flight dest: pass_flight call_points)

lemma bearer_runs:
  "require_bearer_token token authorization run_next s = Some (response, s') \<Longrightarrow>
     s' = s \<or> run_next s = Some (response, s')"
  by (auto simp: require_bearer_token_def split: if_splits option.splits)

lemma run_layers_runs:
  "run_layers ap rq ls run_next s = Some (response, s') \<Longrightarrow> s' = s \<or> run_next s = Some (response, s')"
  by (induction ap rq ls run_next arbitrary: s rule: run_layers.induct) (auto dest!: bearer_runs)

lemma run_handler_flight:
  "run_handler ap os rq h sv = Some (response, sv') \<Longrightarrow> wk_in_flight (sv_worker sv') = wk_in_flight (sv_worker sv)"
  by (cases h) (auto simp: serve_health_def serve_events_def serve_validate_def Let_def
    split: option.splits prod.splits sum.splits)

lemma respond_flight:
  "respond ax ap os rq sv = Some (response, sv') \<Longrightarrow> wk_in_flight (sv_worker sv') = wk_in_flight (sv_worker sv)"
  by (auto simp: respond_def split: Dispatch.splits dest!: run_layers_runs run_handler_flight)

section \<open>What holds while the process runs\<close>

text \<open>A \<open>SIGINT\<close> handler that cannot be installed stops the server without a signal.\<close>

lemma refused_handler_stops: "shutdown_signal (Inl e) sigterm []"
  by (simp add: shutdown_signal_def)

definition service_inv :: "('rt, 's, 'w) Site \<Rightarrow> ('s, 'w) Service \<Rightarrow> bool" where
  "service_inv si s \<longleftrightarrow>
     wk_in_flight (se_worker s) = jobs_running (se_loops s)
     \<and> (se_flag s \<longleftrightarrow> (\<exists>n. se_phase s = Joining n) \<or> se_phase s = Exited)
     \<and> ((\<exists>l \<in> set (se_loops s). lp_at l = Ended) \<longrightarrow> se_flag s)
     \<and> (\<forall>n. se_phase s = Joining n \<longrightarrow> n \<le> length (se_loops s) \<and> (\<forall>i < n. lp_at (se_loops s ! i) = Ended))
     \<and> (se_phase s = Exited \<longrightarrow> (\<forall>l \<in> set (se_loops s). lp_at l = Ended))
     \<and> (se_phase s \<notin> {Serving, Failed} \<longrightarrow> shutdown_signal (si_ctrl_c si) (si_sigterm si) (se_signals s))"

lemma ends_at_check: "loop_step q run flag l wk = Some (l', wk') \<Longrightarrow> lp_at l' = Ended \<Longrightarrow> lp_at l = Check \<and> flag"
  by (cases "lp_at l")
    (auto simp: loop_step_def check_flag_def after_entries_def
      split: prod.splits option.splits if_splits list.splits dest: call_points)

lemma ended_stays: "loop_step q run flag l wk = Some y \<Longrightarrow> lp_at l \<noteq> Ended"
  by (auto simp: loop_step_def)

lemma start_inv:
  assumes "start_service bind_addr su sv = Inr s" and "wk_in_flight (sv_worker sv) = 0"
  shows "service_inv si s"
proof -
  have "\<not> job_runs l" "lp_at l \<noteq> Ended" if "l \<in> set (start_loops n)" for l n
    using that by (auto simp: start_loops_def start_loop_def job_runs_def)
  then have "jobs_running (start_loops n) = 0" "\<forall>l \<in> set (start_loops n). lp_at l \<noteq> Ended" for n
    by (auto simp: jobs_running_def)
  with assms show ?thesis by (auto simp: start_service_def rbind_eq_Inr service_inv_def)
qed

lemma looped_inv:
  assumes "service_inv si s" and "i < length (se_loops s)"
    and "loop_step (si_queue si) (si_run si) (se_flag s) (se_loops s ! i) (se_worker s) = Some (l, wk)"
  shows "service_inv si (with_worker (s\<lparr>se_loops := (se_loops s)[i := l]\<rparr>) wk)"
proof -
  have "job_runs (se_loops s ! i) \<Longrightarrow> 0 < wk_in_flight (se_worker s)"
    using assms(1) sum_map_update [OF assms(2), of "\<lambda>l. of_bool (job_runs l)" "start_loop Mover"]
    by (simp add: service_inv_def jobs_running_def job_runs_def start_loop_def)
  from loop_step_flight [OF assms(3) this]
  have "wk_in_flight wk = jobs_running ((se_loops s)[i := l])"
    using assms(1) sum_map_update [OF assms(2), of "\<lambda>l. of_bool (job_runs l)" l]
    by (simp add: service_inv_def jobs_running_def)
  moreover have "lp_at l = Ended \<Longrightarrow> se_flag s" using ends_at_check [OF assms(3)] by blast
  moreover have "lp_at (se_loops s ! i) \<noteq> Ended" by (rule ended_stays [OF assms(3)])
  ultimately show ?thesis using assms(1,2)
    by (auto simp: service_inv_def with_worker_def nth_list_update dest!: set_update_subset_insert [THEN subsetD])
qed

lemma step_inv:
  assumes "service_step si s s'" and "service_inv si s"
  shows "service_inv si s'"
  using assms(1)
proof (cases rule: service_step.cases)
  case (looped i l wk)
  with looped_inv [OF assms(2)] show ?thesis by blast
next
  case (joined n)
  with assms(2) show ?thesis by (auto simp: service_inv_def less_Suc_eq)
next
  case (exited n)
  with assms(2) show ?thesis unfolding service_inv_def by (simp add: all_set_conv_all_nth)
qed (use assms(2) in \<open>auto simp: service_inv_def dest: respond_flight\<close>)

lemma reached_inv:
  assumes "start_service bind_addr su sv = Inr s0" and "wk_in_flight (sv_worker sv) = 0" and "(service_step si)\<^sup>*\<^sup>* s0 s"
  shows "service_inv si s"
  using assms(3) by (induction rule: rtranclp_induct) (auto intro: start_inv [OF assms(1,2)] step_inv)

section \<open>The end of the drain\<close>

text \<open>How far a loop is from its next look at the flag, when it is not in a pass.\<close>

fun point_left :: "LoopPoint \<Rightarrow> nat" where
  "point_left Ended = 0"
| "point_left Check = 1"
| "point_left Tick = 2"
| "point_left Backoff = 2"
| "point_left Sweep = 3"
| "point_left Idle = 4"
| "point_left (Take entries) = 5 + 3 * length entries"
| "point_left (Ran outcome msg attempts i entries) = 6 + 3 * length entries"
| "point_left (Started msg attempts i entries) = 7 + 3 * length entries"
| "point_left Pass = 0"

fun phase_left :: "nat \<Rightarrow> Phase \<Rightarrow> nat" where
  "phase_left loops (Joining n) = Suc loops - n"
| "phase_left loops _ = 0"

definition passes_left :: "('s, 'w) Service \<Rightarrow> nat" where
  "passes_left s = sum_list (map (\<lambda>l. of_bool (lp_at l = Pass)) (se_loops s))"

definition points_left :: "('s, 'w) Service \<Rightarrow> nat" where
  "points_left s = sum_list (map (\<lambda>l. point_left (lp_at l)) (se_loops s))"

definition drain_order :: "(('s, 'w) Service \<times> ('s, 'w) Service) set" where
  "drain_order = measures [passes_left, points_left, \<lambda>s. phase_left (length (se_loops s)) (se_phase s)]"

text \<open>A step in which the reclaimer claims an idle entry: the one that does not bring the end nearer.\<close>

definition reclaims_at :: "Loop \<Rightarrow> Loop \<Rightarrow> bool" where
  "reclaims_at l l' \<longleftrightarrow> lp_at l = Idle \<and> (\<exists>entry entries. lp_at l' = Take (entry # entries))"

definition reclaims :: "('s, 'w) Service \<Rightarrow> ('s, 'w) Service \<Rightarrow> bool" where
  "reclaims s s' \<longleftrightarrow> (\<exists>i < length (se_loops s). reclaims_at (se_loops s ! i) (se_loops s' ! i))"

lemma loop_step_left:
  "loop_step q run True l wk = Some (l', wk') \<Longrightarrow>
     (lp_at l = Pass \<and> lp_at l' \<noteq> Pass)
     \<or> (lp_at l \<noteq> Pass \<and> lp_at l' \<noteq> Pass \<and> point_left (lp_at l') < point_left (lp_at l))
     \<or> reclaims_at l l'"
  by (cases "lp_at l")
    (auto simp: loop_step_def check_flag_def after_entries_def reclaims_at_def
      split: prod.splits option.splits if_splits list.splits dest!: call_points)

lemma drain_step:
  assumes "service_step si s s'" and "service_inv si s" and "se_flag s"
  shows "((s', s) \<in> drain_order \<or> reclaims s s') \<and> se_flag s'"
  using assms(1)
proof (cases rule: service_step.cases)
  case (looped i l wk)
  show ?thesis
  proof (cases "reclaims_at (se_loops s ! i) l")
    case True
    with looped(1,3) assms(3) show ?thesis by (auto simp: reclaims_def with_worker_def)
  next
    case False
    have "loop_step (si_queue si) (si_run si) True (se_loops s ! i) (se_worker s) = Some (l, wk)"
      using looped(4) assms(3) by simp
    from loop_step_left [OF this] False have "(lp_at (se_loops s ! i) = Pass \<and> lp_at l \<noteq> Pass)
       \<or> (lp_at (se_loops s ! i) \<noteq> Pass \<and> lp_at l \<noteq> Pass \<and> point_left (lp_at l) < point_left (lp_at (se_loops s ! i)))"
      by blast
    with looped(1,3) assms(3) sum_map_update [of i "se_loops s" "\<lambda>l. of_bool (lp_at l = Pass)" l]
      sum_map_update [of i "se_loops s" "\<lambda>l. point_left (lp_at l)" l]
    show ?thesis by (auto simp: drain_order_def passes_left_def points_left_def with_worker_def)
  qed
qed (use assms(2,3) in \<open>auto simp: service_inv_def drain_order_def passes_left_def points_left_def\<close>)

lemma drain_reach:
  assumes "(service_step si)\<^sup>*\<^sup>* s s'" and "service_inv si s" and "se_flag s"
  shows "service_inv si s' \<and> se_flag s'"
  using assms(1)
  by (induction rule: rtranclp_induct) (use assms(2,3) in \<open>auto intro: step_inv dest: drain_step\<close>)

subsection \<open>Scans\<close>

text \<open>A scan ends: no endless sequence of calls in which each but the first passes the cursor the one before it
  answered, and none answers 0.\<close>

definition scans_end :: "'w RedisOps \<Rightarrow> bool" where
  "scans_end r \<longleftrightarrow> (\<nexists>cursors worlds. cursors 0 = 0
     \<and> (\<forall>k. cursors (Suc k) \<noteq> 0 \<and> (\<exists>batch. run_state (ask r (\<lambda>w. rd_scan r w (cursors k) ''karet:jobs:live:*'')) (worlds k)
          = (Inr (cursors (Suc k), batch), worlds (Suc k)))))"

lemma scan_live_returns:
  assumes "scans_end r"
  shows "scan_live r 0 [] w \<noteq> None"
proof
  assume none: "scan_live r 0 [] w = None"
  let ?ask = "\<lambda>c. run_state (ask r (\<lambda>w. rd_scan r w c ''karet:jobs:live:*''))"
  let ?stuck = "\<lambda>x. \<exists>keys. scan_live r (fst x) keys (snd x) = None"
  let ?next = "\<lambda>x y. fst y \<noteq> 0 \<and> (\<exists>batch. ?ask (fst x) (snd x) = (Inr (fst y, batch), snd y))"
  have "\<exists>y. ?stuck y \<and> ?next x y" if stuck: "?stuck x" for x
  proof -
    from stuck obtain keys where none: "scan_live r (fst x) keys (snd x) = None" by blast
    obtain a w' where a: "?ask (fst x) (snd x) = (a, w')" by fastforce
    from none a obtain c batch where "a = Inr (c, batch)" "c \<noteq> 0" "scan_live r c (keys @ batch) w' = None"
      by (subst (asm) scan_live.simps) (auto split: sum.splits if_splits)
    with a show ?thesis by (intro exI [of _ "(c, w')"]) auto
  qed
  note step = this
  have "\<exists>f. \<forall>n. (?stuck (f n) \<and> (n = 0 \<longrightarrow> fst (f n) = 0)) \<and> ?next (f n) (f (Suc n))"
  proof (rule dependent_nat_choice)
    show "\<exists>x. ?stuck x \<and> ((0 :: nat) = 0 \<longrightarrow> fst x = 0)" using none by (intro exI [of _ "(0, w)"]) auto
    show "\<exists>y. (?stuck y \<and> (Suc n = 0 \<longrightarrow> fst y = 0)) \<and> ?next x y" if "?stuck x \<and> (n = 0 \<longrightarrow> fst x = 0)" for x n
      using step [of x] that by blast
  qed
  then obtain f where f: "fst (f 0) = 0" "\<And>k. ?next (f k) (f (Suc k))" by blast
  then have "\<not> scans_end r" unfolding scans_end_def
    by (simp only: not_not) (rule exI [of _ "\<lambda>k. fst (f k)"], rule exI [of _ "\<lambda>k. snd (f k)"], simp)
  with assms show False by blast
qed

lemma sweep_returns:
  assumes "scans_end (qc_redis q)"
  shows "sweep_orphaned_live_hashes q w \<noteq> None"
  using scan_live_returns [OF assms] unfolding sweep_orphaned_live_hashes_def
  by (auto simp del: not_None_eq split: prod.splits sum.splits option.splits)

text \<open>With the flag set there is always a next step.\<close>

lemma loop_step_returns:
  assumes "\<And>msg n i w. run msg n i w \<noteq> None" and "scans_end (qc_redis q)" and "lp_at l \<noteq> Ended"
  obtains l' wk' where "loop_step q run flag l wk = Some (l', wk')"
proof -
  from assms(1,3) sweep_returns [OF assms(2)] have "loop_step q run flag l wk \<noteq> None"
    by (auto simp: loop_step_def split: LoopPoint.splits prod.splits option.splits list.splits)
  with that show thesis by auto
qed

lemma drain_goes_on:
  assumes "service_inv si s" and "se_flag s" and "se_phase s \<noteq> Exited"
    and "\<And>msg n i w. si_run si msg n i w \<noteq> None" and "scans_end (qc_redis (si_queue si))"
  obtains s' where "service_step si s s'"
proof -
  from assms(1-3) obtain n where n: "se_phase s = Joining n" "n \<le> length (se_loops s)"
    by (auto simp: service_inv_def)
  consider "n = length (se_loops s)" | "n < length (se_loops s)" "lp_at (se_loops s ! n) = Ended"
    | "n < length (se_loops s)" "lp_at (se_loops s ! n) \<noteq> Ended" using n(2) by linarith
  then show thesis
  proof cases
    case 1
    with exited [of s n si] n(1) that show thesis by blast
  next
    case 2
    with joined [of s n si] n(1) that show thesis by blast
  next
    case 3
    obtain l wk where
      l: "loop_step (si_queue si) (si_run si) (se_flag s) (se_loops s ! n) (se_worker s) = Some (l, wk)"
      by (rule loop_step_returns [OF assms(4,5) 3(2)])
    have "se_phase s \<notin> {Exited, Failed}" using n(1) by simp
    from that [OF looped [OF this 3(1) l]] show thesis .
  qed
qed

text \<open>Without idle entries the drain ends.\<close>

lemma drains:
  assumes "service_inv si s" and "se_flag s"
    and "\<And>msg n i w. si_run si msg n i w \<noteq> None" and "scans_end (qc_redis (si_queue si))"
    and "\<And>s s'. service_step si s s' \<Longrightarrow> \<not> reclaims s s'"
  shows "\<exists>s'. (service_step si)\<^sup>*\<^sup>* s s' \<and> se_phase s' = Exited"
proof -
  have "wf (drain_order :: (('b, 'c) Service \<times> ('b, 'c) Service) set)" by (simp add: drain_order_def)
  then show ?thesis using assms(1,2)
  proof (induction s rule: wf_induct_rule)
    case (less s)
    show ?case
    proof (cases "se_phase s = Exited")
      case False
      obtain s1 where s1: "service_step si s s1" by (rule drain_goes_on [OF less.prems False assms(3,4)])
      from drain_step [OF s1 less.prems] assms(5) [OF s1] have d: "(s1, s) \<in> drain_order" "se_flag s1" by blast+
      from less.IH [OF d(1) step_inv [OF s1 less.prems(1)] d(2)] s1 show ?thesis
        by (meson converse_rtranclp_into_rtranclp)
    qed auto
  qed
qed

text \<open>A drain that does not end claims idle entries again and again.\<close>

lemma endless_drain_reclaims:
  assumes "service_inv si (f 0)" and "se_flag (f 0)" and "\<And>k. service_step si (f k) (f (Suc k))"
  shows "\<exists>k \<ge> n. reclaims (f k) (f (Suc k))"
proof (rule ccontr)
  assume none: "\<not> (\<exists>k \<ge> n. reclaims (f k) (f (Suc k)))"
  have "service_inv si (f k) \<and> se_flag (f k)" for k
    using assms by (induction k) (auto intro: step_inv dest: drain_step)
  with assms(3) none have "(f (Suc (n + k)), f (n + k)) \<in> drain_order" for k using drain_step le_add1 by blast
  then show False using wf_no_infinite_down_chainE [of drain_order "\<lambda>k. f (n + k)"] by (auto simp: drain_order_def)
qed

lemma executor_returns:
  assumes "job_laws jb obj"
  shows "job_executor jb ctx msg n i w \<noteq> None"
  using job_executor_keeps [OF assms, of "\<lambda>_ _. True" ctx msg n i w] by (auto simp: calls_keep_def)

section \<open>Properties\<close>

text \<open>C32: The process exits cleanly only after a drain: when \<open>run\<close> has returned \<open>Ok\<close>, a signal had stopped the
  server, every loop has returned from its look at the flag, none of them in the middle of a pass, and the count
  of running jobs, which at any time is the number of consumers in a job, is zero.\<close>

theorem exit_drained:
  assumes "start_service bind_addr su sv = Inr s0" and "wk_in_flight (sv_worker sv) = 0"
    and "(service_step si)\<^sup>*\<^sup>* s0 s"
  shows "wk_in_flight (se_worker s) = length (filter job_runs (se_loops s))
    \<and> (se_phase s = Exited \<longrightarrow>
         shutdown_signal (si_ctrl_c si) (si_sigterm si) (se_signals s) \<and> se_flag s
         \<and> (\<forall>l \<in> set (se_loops s). lp_at l = Ended) \<and> wk_in_flight (se_worker s) = 0)"
proof -
  have count: "jobs_running loops = length (filter job_runs loops)" for loops
    by (induction loops) (simp_all add: jobs_running_def)
  have ended: "filter job_runs loops = []" if "\<forall>l \<in> set loops. lp_at l = Ended" for loops
    using that by (auto simp: filter_empty_conv job_runs_def)
  from reached_inv [OF assms] ended [of "se_loops s"] show ?thesis by (auto simp: service_inv_def count)
qed

text \<open>C33: Once the flag is set nothing but reclaimed work holds the shutdown up. A run of the process that goes on
  forever has the reclaimer claim idle entries again and again, since it works through all of them without looking at
  the flag; a run that claims only finitely many ends, whatever jobs the loops had taken, and where a run cannot
  go on the process has exited. The executor is the one of the service, and a scan of the keys ends.\<close>

theorem drain_ends:
  assumes "start_service bind_addr su sv = Inr s0" and "wk_in_flight (sv_worker sv) = 0"
    and "(service_step si)\<^sup>*\<^sup>* s0 s" and "se_flag s"
    and "job_laws jb obj" and "si_run si = job_executor jb ctx" and "scans_end (qc_redis (si_queue si))"
  shows "(\<forall>f n. f 0 = s \<and> (\<forall>k. service_step si (f k) (f (Suc k))) \<longrightarrow> (\<exists>k \<ge> n. reclaims (f k) (f (Suc k))))
    \<and> (\<forall>s'. (service_step si)\<^sup>*\<^sup>* s s' \<and> (\<forall>t. \<not> service_step si s' t) \<longrightarrow> se_phase s' = Exited)"
proof (intro conjI allI impI; elim conjE)
  have inv: "service_inv si s" by (rule reached_inv [OF assms(1-3)])
  show "\<exists>k \<ge> n. reclaims (f k) (f (Suc k))" if "f 0 = s" "\<forall>k. service_step si (f k) (f (Suc k))" for f n
    using endless_drain_reclaims [of si f n] that inv assms(4) by blast
  show "se_phase s' = Exited" if "(service_step si)\<^sup>*\<^sup>* s s'" "\<forall>t. \<not> service_step si s' t" for s'
  proof (rule ccontr)
    assume "se_phase s' \<noteq> Exited"
    moreover have "si_run si msg n i w \<noteq> None" for msg n i w
      unfolding assms(6) by (rule executor_returns [OF assms(5)])
    moreover note drain_reach [OF that(1) inv assms(4)]
    ultimately show False using drain_goes_on [OF _ _ _ _ assms(7)] that(2) by metis
  qed
qed

text \<open>The flag is not set before the server has stopped, and a consumer past its look at the flag does not look
  again: after the signal, a consumer still starts passes, and with the flag set it still takes the
  entries of its read.\<close>

theorem stop_still_claims:
  "(se_phase s \<in> {Serving, Stopped} \<and> \<not> se_flag s \<and> i < length (se_loops s) \<and> lp_at (se_loops s ! i) = Check \<longrightarrow>
      (\<exists>s'. service_step si s s' \<and> lp_at (se_loops s' ! i) = Pass))
   \<and> (lp_kind l = Consumer \<and> lp_at l = Pass \<and> lp_conn l
        \<and> step_world (send (qc_redis q) (\<lambda>w. rd_xreadgroup (qc_redis q) w STREAM_KEY GROUP (qc_consumer_name q))) wk
            = (Inr entries, wk')
      \<longrightarrow> (\<exists>wk''. loop_step q run True l wk = Some (l\<lparr>lp_at := Take entries\<rparr>, wk'')))"
proof (intro conjI impI)
  assume s: "se_phase s \<in> {Serving, Stopped} \<and> \<not> se_flag s \<and> i < length (se_loops s) \<and> lp_at (se_loops s ! i) = Check"
  then have "loop_step (si_queue si) (si_run si) (se_flag s) (se_loops s ! i) (se_worker s)
      = Some (check_flag False (se_loops s ! i), se_worker s)" by (simp add: loop_step_def)
  from looped [OF _ _ this] s show "\<exists>s'. service_step si s s' \<and> lp_at (se_loops s' ! i) = Pass"
    by (intro exI conjI) (auto simp: with_worker_def check_flag_def)
next
  assume "lp_kind l = Consumer \<and> lp_at l = Pass \<and> lp_conn l
    \<and> step_world (send (qc_redis q) (\<lambda>w. rd_xreadgroup (qc_redis q) w STREAM_KEY GROUP (qc_consumer_name q))) wk
        = (Inr entries, wk')"
  then show "\<exists>wk''. loop_step q run True l wk = Some (l\<lparr>lp_at := Take entries\<rparr>, wk'')"
    by (cases l) (auto simp: loop_step_def consumer_read_def consumer_connect_def step_world_def)
qed

section \<open>Witnesses\<close>

definition demo_setup :: Setup where
  "demo_setup = \<lparr>su_pipelines_bucket = ''b'', su_lake_bucket = ''lake'', su_warehouse_bucket = ''warehouse'',
     su_auth_token = ''token'', su_webhook_secret = ''secret'', su_consumer_name = ''worker-local-7'',
     su_settings = default_settings, su_consumers = 2, su_addr = ''0.0.0.0:8080''\<rparr>"

definition demo_site :: "Mem RedisOps \<Rightarrow> (Routes, MemStore, Mem) Site" where
  "demo_site r = \<lparr>si_axum = list_axum, si_app = demo_app, si_queue = mem_queue r,
     si_run = job_executor (still_jb still_files) demo_ctx, si_ctrl_c = Inr (), si_sigterm = Inr ()\<rparr>"

text \<open>The process with its reclaimer at a point and the others where they start.\<close>

definition demo_service :: "Signal list \<Rightarrow> Phase \<Rightarrow> bool \<Rightarrow> Loop \<Rightarrow> Mem Worker \<Rightarrow> (MemStore, Mem) Service" where
  "demo_service sigs phase flag l wk =
     \<lparr>se_server = demo_server\<lparr>sv_worker := wk\<rparr>, se_signals = sigs, se_phase = phase, se_flag = flag,
       se_loops = [start_loop Consumer, start_loop Consumer, start_loop Mover, l, start_loop Scheduler]\<rparr>"

definition waiting :: "Mem \<Rightarrow> Mem Worker" where
  "waiting m = \<lparr>wk_world = m, wk_in_flight = 0, wk_consumer_ok = True\<rparr>"

lemma demo_start:
  "start_service (\<lambda>_. Inr ()) demo_setup (demo_server\<lparr>sv_worker := wk\<rparr>)
     = Inr (demo_service [] Serving False (start_loop Reclaimer) wk)"
  by (simp add: start_service_def demo_setup_def demo_service_def start_loops_def numeral_2_eq_2)

lemma demo_stops:
  "(service_step (demo_site r))\<^sup>*\<^sup>* (demo_service [] Serving False l wk) (demo_service [SIGTERM] (Joining 0) True l wk)"
proof -
  let ?step = "service_step (demo_site r)"
  have "?step (demo_service [] Serving False l wk) (demo_service [SIGTERM] Serving False l wk)"
    using signalled [of "demo_service [] Serving False l wk" "demo_site r" SIGTERM] by (simp add: demo_service_def)
  moreover have "?step (demo_service [SIGTERM] Serving False l wk) (demo_service [SIGTERM] Stopped False l wk)"
    using stopped [of "demo_service [SIGTERM] Serving False l wk" "demo_site r"]
    by (simp add: demo_service_def demo_site_def shutdown_signal_def)
  moreover have "?step (demo_service [SIGTERM] Stopped False l wk) (demo_service [SIGTERM] (Joining 0) True l wk)"
    using flagged [of "demo_service [SIGTERM] Stopped False l wk" "demo_site r"] by (simp add: demo_service_def)
  ultimately show ?thesis by (meson r_into_rtranclp rtranclp_trans)
qed

lemma demo_loops:
  assumes "loop_step (mem_queue r) (job_executor (still_jb still_files) demo_ctx) flag l wk = Some (l', wk')"
    and "phase \<notin> {Exited, Failed}"
  shows "service_step (demo_site r) (demo_service sigs phase flag l wk) (demo_service sigs phase flag l' wk')"
  using looped [of "demo_service sigs phase flag l wk" 3 "demo_site r" l' wk'] assms
  by (simp add: demo_service_def demo_site_def with_worker_def)

text \<open>A Redis with a list of idle entries, which it hands out once each.\<close>

definition idle_redis :: "Mem RedisOps" where
  "idle_redis = steady_redis\<lparr>rd_xautoclaim := (\<lambda>m _ _ _ _. case mm_stream m ''idle'' of
       [] \<Rightarrow> ([], m)
     | p # ps \<Rightarrow> ([(p, Some p)], m\<lparr>mm_stream := (mm_stream m)(''idle'' := ps)\<rparr>))\<rparr>"

definition idle_mem :: Mem where
  "idle_mem = (demo_mem Map.empty [])\<lparr>mm_stream := (\<lambda>_. [])(''idle'' := [''not a job''])\<rparr>"

lemma demo_scans: "scans_end (qc_redis (si_queue (demo_site steady_redis)))"
    "scans_end (qc_redis (si_queue (demo_site idle_redis)))"
proof -
  have "run_state (ask r (\<lambda>w. rd_scan r w c k)) w = (Inr (0, mm_live w), w)"
    if "r = steady_redis \<or> r = idle_redis" for r c k w
    using that by (auto simp: ask_def send_def idle_redis_def steady_redis_def mem_redis_def)
  then show "scans_end (qc_redis (si_queue (demo_site steady_redis)))"
    "scans_end (qc_redis (si_queue (demo_site idle_redis)))"
    unfolding scans_end_def by (fastforce simp: demo_site_def simp del: mem_run_simps)+
qed

definition reclaimer_at :: "LoopPoint \<Rightarrow> nat \<Rightarrow> bool \<Rightarrow> Loop" where
  "reclaimer_at p n conn = \<lparr>lp_kind = Reclaimer, lp_at = p, lp_conn = conn, lp_tick = n\<rparr>"

lemma reclaimer_idle:
  "(service_step (demo_site idle_redis))\<^sup>*\<^sup>* (demo_service [] Serving False (start_loop Reclaimer) wk)
     (demo_service [] Serving False (reclaimer_at Idle 1 True) wk)"
proof -
  let ?step = "service_step (demo_site idle_redis)" and ?at = "\<lambda>l. demo_service [] Serving False l wk"
  have "?step (?at (start_loop Reclaimer)) (?at (reclaimer_at Check 0 False))"
    by (rule demo_loops) (simp_all add: loop_step_def start_loop_def reclaimer_at_def)
  moreover have "?step (?at (reclaimer_at Check 0 False)) (?at (reclaimer_at Pass 1 False))"
    by (rule demo_loops) (simp_all add: loop_step_def check_flag_def reclaimer_at_def)
  moreover have "?step (?at (reclaimer_at Pass 1 False)) (?at (reclaimer_at Idle 1 True))"
    by (rule demo_loops) (simp_all add: loop_step_def reclaimer_ready_def reclaimer_at_def ensure_conn_def step_world_def
        mem_queue_def idle_redis_def steady_redis_def mem_redis_def)
  ultimately show ?thesis by (meson r_into_rtranclp rtranclp_trans)
qed

lemma reclaimer_takes:
  "\<exists>s'. service_step (demo_site idle_redis) (demo_service [SIGTERM] (Joining 0) True (reclaimer_at Idle 1 True) (waiting idle_mem)) s'
     \<and> reclaims (demo_service [SIGTERM] (Joining 0) True (reclaimer_at Idle 1 True) (waiting idle_mem)) s'"
proof -
  let ?s = "\<lambda>l. demo_service [SIGTERM] (Joining 0) True l"
  obtain wk where "loop_step (mem_queue idle_redis) (job_executor (still_jb still_files) demo_ctx) True
      (reclaimer_at Idle 1 True) (waiting idle_mem) = Some (reclaimer_at (Take [(''not a job'', Some ''not a job'')]) 1 True, wk)"
    by (simp add: loop_step_def reclaimer_claim_def reclaimer_at_def step_world_def send_def mem_queue_def idle_redis_def
        steady_redis_def mem_redis_def waiting_def idle_mem_def)
  from demo_loops [OF this, of "Joining 0" "[SIGTERM]"]
  have "service_step (demo_site idle_redis) (?s (reclaimer_at Idle 1 True) (waiting idle_mem))
      (?s (reclaimer_at (Take [(''not a job'', Some ''not a job'')]) 1 True) wk)" by simp
  moreover have "reclaims (?s (reclaimer_at Idle 1 True) (waiting idle_mem))
      (?s (reclaimer_at (Take [(''not a job'', Some ''not a job'')]) 1 True) wk)"
    unfolding reclaims_def by (intro exI [of _ 3]) (simp add: demo_service_def reclaims_at_def reclaimer_at_def)
  ultimately show ?thesis by blast
qed

text \<open>The reclaimer is past its look at the flag when the flag is set, and takes the idle entry; the process still
  exits wherever it cannot go on.\<close>

lemma drain_ends_witness:
  "\<exists>s s'. (service_step (demo_site idle_redis))\<^sup>*\<^sup>*
        (demo_service [] Serving False (start_loop Reclaimer) (waiting idle_mem)) s
     \<and> se_flag s \<and> service_step (demo_site idle_redis) s s' \<and> reclaims s s'
     \<and> (\<forall>t. (service_step (demo_site idle_redis))\<^sup>*\<^sup>* s t \<and> (\<forall>u. \<not> service_step (demo_site idle_redis) t u)
          \<longrightarrow> se_phase t = Exited)"
proof -
  let ?s = "demo_service [SIGTERM] (Joining 0) True (reclaimer_at Idle 1 True) (waiting idle_mem)"
  have reach: "(service_step (demo_site idle_redis))\<^sup>*\<^sup>*
      (demo_service [] Serving False (start_loop Reclaimer) (waiting idle_mem)) ?s"
    using reclaimer_idle demo_stops by (rule rtranclp_trans)
  have run: "si_run (demo_site idle_redis) = job_executor (still_jb still_files) demo_ctx" by (simp add: demo_site_def)
  have "wk_in_flight (sv_worker (demo_server\<lparr>sv_worker := waiting idle_mem\<rparr>)) = 0" "se_flag ?s"
    by (simp_all add: waiting_def demo_service_def)
  from drain_ends [OF demo_start this(1) reach this(2) still_job_laws run demo_scans(2)] reach this(2) reclaimer_takes
  show ?thesis by blast
qed

lemma steady_claims_nothing: "service_step (demo_site steady_redis) s s' \<Longrightarrow> \<not> reclaims s s'"
proof
  assume "service_step (demo_site steady_redis) s s'" and c: "reclaims s s'"
  from this(1) show False
  proof (cases rule: service_step.cases)
    case (looped i l wk)
    with c have "reclaims_at (se_loops s ! i) l"
      by (auto simp: reclaims_def with_worker_def nth_list_update reclaims_at_def split: if_splits)
    with looped(4) show False
      by (auto simp: reclaims_at_def loop_step_def reclaimer_claim_def step_world_def send_def demo_site_def
          mem_queue_def steady_redis_def mem_redis_def split: if_splits)
  qed (use c in \<open>auto simp: reclaims_def reclaims_at_def\<close>)
qed

lemma exit_drained_witness:
  "\<exists>s. (service_step (demo_site steady_redis))\<^sup>*\<^sup>*
        (demo_service [] Serving False (start_loop Reclaimer) (waiting (demo_mem Map.empty []))) s
     \<and> se_phase s = Exited \<and> (\<forall>l \<in> set (se_loops s). lp_at l = Ended) \<and> wk_in_flight (se_worker s) = 0"
proof -
  let ?wk = "waiting (demo_mem Map.empty [])"
  have idle: "wk_in_flight (sv_worker (demo_server\<lparr>sv_worker := ?wk\<rparr>)) = 0" by (simp add: waiting_def)
  have "si_run (demo_site steady_redis) msg n i w \<noteq> None" for msg n i w
    unfolding demo_site_def by (simp del: not_None_eq add: executor_returns [OF still_job_laws])
  from drains [OF reached_inv [OF demo_start idle demo_stops] _ this demo_scans(1) steady_claims_nothing]
  obtain s where "(service_step (demo_site steady_redis))\<^sup>*\<^sup>*
      (demo_service [SIGTERM] (Joining 0) True (start_loop Reclaimer) ?wk) s" "se_phase s = Exited"
    by (auto simp: demo_service_def)
  with demo_stops have "(service_step (demo_site steady_redis))\<^sup>*\<^sup>*
      (demo_service [] Serving False (start_loop Reclaimer) ?wk) s" "se_phase s = Exited"
    by (auto intro: rtranclp_trans)
  with exit_drained [OF demo_start idle this(1)] show ?thesis by blast
qed

end
