(* ===== verification/Routing_Machine.thy ===== *)
theory Routing_Machine
  imports Http_Router
begin

text \<open>
  The routing table under concurrent uploads. Each upload passes the stages of \<open>route_key\<close> (\<open>src/http.rs\<close>): it
  looks at the table, rebuilds it outside the lock when it is not fresh, and swaps the new one in. Between
  the stages of one upload the others run, \<open>POST /config/validate\<close> resets the table, and the stored pipelines
  change. A check that finds no rebuild in flight makes every later upload see what is stored; one
  that does find a rebuild can be undone by it.
\<close>

section \<open>Steps\<close>

datatype RouteTask =
  Checking string
| Building string
| Built string "(string \<times> string) list"
| Routed string "string list"

type_synonym 's RoutingState = "RoutingCache \<times> 's \<times> RouteTask list"

text \<open>\<open>env\<close> says what others may do to the store. The time of each stage is arbitrary.\<close>

inductive route_step ::
  "('s \<Rightarrow> 's \<Rightarrow> bool) \<Rightarrow> ('s, 'w) AppState \<Rightarrow> ('s, 'w) Outside \<Rightarrow> 's RoutingState \<Rightarrow> 's RoutingState \<Rightarrow> bool"
  for env ap os where
  arrive: "route_step env ap os (c, w, T) (c, w, Checking key # T)"
| check: "T ! i = Checking key \<Longrightarrow> i < length T
    \<Longrightarrow> route_step env ap os (c, w, T)
      (c, w, T[i := (case fresh_routes now c key of Some slugs \<Rightarrow> Routed key slugs | None \<Rightarrow> Building key)])"
| build: "T ! i = Building key \<Longrightarrow> i < length T
    \<Longrightarrow> build_routing (ap_s3_client ap) (os_parse_routing os) w (ap_pipelines_bucket ap) = Some (entries, w')
    \<Longrightarrow> route_step env ap os (c, w, T) (c, w', T[i := Built key entries])"
| swap: "T ! i = Built key entries \<Longrightarrow> i < length T
    \<Longrightarrow> route_step env ap os (c, w, T)
      (swap_routing later entries c, w, T[i := Routed key (match_key (rc_entries (swap_routing later entries c)) key)])"
| validated: "post_config_validate (os_parse_config os) c body = (response, c')
    \<Longrightarrow> route_step env ap os (c, w, T) (c', w, T)"
| stored: "env w w' \<Longrightarrow> route_step env ap os (c, w, T) (c, w', T)"

inductive_cases route_stepE: "route_step env ap os (c, w, T) s'"

text \<open>One upload alone takes the path of \<open>route_on\<close>.\<close>

lemma route_on_steps:
  assumes "route_on ap os (c, w) key = Some (slugs, c', w')"
  shows "(route_step env ap os)\<^sup>*\<^sup>* (c, w, T) (c', w', Routed key slugs # T)"
proof -
  let ?step = "route_step env ap os" and ?now = "os_now os (c, w)"
  have arrive: "?step (c, w, T) (c, w, Checking key # T)" by (rule route_step.arrive)
  show ?thesis
  proof (cases "fresh_routes ?now c key")
    case (Some found)
    with assms have x: "found = slugs" "c' = c" "w' = w" by (auto simp: route_on_def route_key_def)
    have "?step (c, w, Checking key # T) (c', w', Routed key slugs # T)"
      using route_step.check [of "Checking key # T" 0 key env ap os c w ?now] Some x by simp
    with arrive show ?thesis by (meson converse_rtranclp_into_rtranclp r_into_rtranclp)
  next
    case None
    with assms obtain entries where b: "build_routing (ap_s3_client ap) (os_parse_routing os) w (ap_pipelines_bucket ap) = Some (entries, w')"
      and x: "c' = swap_routing (os_later os (c, w)) entries c" "slugs = match_key (rc_entries c') key"
      by (auto simp: route_on_def route_key_def Let_def split: option.splits)
    have "?step (c, w, Checking key # T) (c, w, Building key # T)"
      using route_step.check [of "Checking key # T" 0 key env ap os c w ?now] None by simp
    moreover have "?step (c, w, Building key # T) (c, w', Built key entries # T)"
      using route_step.build [of "Building key # T" 0 key ap os w entries w' env c] b by simp
    moreover have "?step (c, w', Built key entries # T) (c', w', Routed key slugs # T)"
      using route_step.swap [of "Built key entries # T" 0 key entries env ap os c w' "os_later os (c, w)"] x by simp
    ultimately show ?thesis using arrive by (meson converse_rtranclp_into_rtranclp r_into_rtranclp)
  qed
qed

section \<open>Tables of what is stored\<close>

text \<open>What the store holds, and the slugs a key goes to by it.\<close>

definition stored_slugs ::
  "('s, 'w) AppState \<Rightarrow> ('s, 'w) Outside \<Rightarrow> (Object \<rightharpoonup> string) \<Rightarrow> string \<Rightarrow> string set" where
  "stored_slugs ap os store key =
     {slug. \<exists>p. (p, slug) \<in> routes (os_parse_routing os) store (ap_pipelines_bucket ap) \<and> p \<noteq> [] \<and> starts_with key p}"

definition current_task :: "('s, 'w) AppState \<Rightarrow> ('s, 'w) Outside \<Rightarrow> (Object \<rightharpoonup> string) \<Rightarrow> RouteTask \<Rightarrow> bool" where
  "current_task ap os store t = (case t of
     Checking key \<Rightarrow> True
   | Building key \<Rightarrow> True
   | Built key entries \<Rightarrow> set entries = routes (os_parse_routing os) store (ap_pipelines_bucket ap)
   | Routed key slugs \<Rightarrow> set slugs = stored_slugs ap os store key)"

text \<open>A table that is in force is of the store, and so are the rebuilds and the answers.\<close>

definition current ::
  "('s, 'w) AppState \<Rightarrow> ('s, 'w) Outside \<Rightarrow> ('s \<Rightarrow> Object \<rightharpoonup> string) \<Rightarrow> (Object \<rightharpoonup> string) \<Rightarrow> 's RoutingState \<Rightarrow> bool" where
  "current ap os obj store s = (case s of (c, w, T) \<Rightarrow> obj w = store
     \<and> (rc_built_at c = None \<or> set (rc_entries c) = routes (os_parse_routing os) store (ap_pipelines_bucket ap))
     \<and> list_all (current_task ap os store) T)"

lemma current_update:
  "list_all P T \<Longrightarrow> P t \<Longrightarrow> list_all P (T[i := t])"
  unfolding list_all_iff using set_update_subset_insert by fastforce

text \<open>Every listing of the pipelines is answered.\<close>

definition lists_answered :: "('s, 'w) AppState \<Rightarrow> 's S3Ops \<Rightarrow> bool" where
  "lists_answered ap s3 \<longleftrightarrow>
     (\<forall>w. \<exists>keys w1. list_keys s3 w (ap_pipelines_bucket ap) ''pipelines/'' = Some (Inr keys, w1))"

lemma build_current:
  assumes "s3_laws s3 obj" and "reads_answered s3 obj" and "ap_s3_client ap = Some s3" and "lists_answered ap s3"
  obtains entries w' where
    "build_routing (ap_s3_client ap) (os_parse_routing os) w (ap_pipelines_bucket ap) = Some (entries, w')"
    and "obj w' = obj w" and "set entries = routes (os_parse_routing os) (obj w) (ap_pipelines_bucket ap)"
proof -
  from assms(4) obtain keys w1 where "list_keys s3 w (ap_pipelines_bucket ap) ''pipelines/'' = Some (Inr keys, w1)"
    unfolding lists_answered_def by blast
  from build_routing_exact [OF assms(1,2) this] that assms(3) show thesis by auto
qed

lemma step_current:
  assumes laws: "s3_laws s3 obj" "reads_answered s3 obj" "ap_s3_client ap = Some s3" "lists_answered ap s3"
    and "route_step (\<lambda>w w'. obj w' = obj w) ap os s s'" and "current ap os obj store s"
  shows "current ap os obj store s'"
  using assms(5,6)
proof (induction rule: route_step.induct)
  case (arrive c w T key)
  then show ?case by (simp add: current_def current_task_def)
next
  case (check T i key c w now)
  have "current_task ap os store (case fresh_routes now c key of Some slugs \<Rightarrow> Routed key slugs | None \<Rightarrow> Building key)"
    using check(3)
    by (auto simp: current_def current_task_def fresh_routes_cache cache_fresh_def stored_slugs_def match_key_set
        split: option.splits)
  with check(3) show ?case by (simp add: current_def current_update)
next
  case (build T i key w entries w' c)
  obtain es w2 where "build_routing (ap_s3_client ap) (os_parse_routing os) w (ap_pipelines_bucket ap) = Some (es, w2)"
    "obj w2 = obj w" "set es = routes (os_parse_routing os) (obj w) (ap_pipelines_bucket ap)"
    by (rule build_current [OF laws])
  with build show ?case by (auto simp: current_def current_task_def intro!: current_update)
next
  case (swap T i key entries c w later)
  then have "current_task ap os store (Built key entries)" by (auto simp: current_def list_all_length)
  with swap(3) show ?case
    by (auto simp: current_def current_task_def swap_routing_def stored_slugs_def match_key_set intro!: current_update)
next
  case (validated c body response c' w T)
  then have "c' = c \<lparr>rc_built_at := None\<rparr>" by (auto simp: post_config_validate_def split: sum.splits)
  with validated(2) show ?case by (simp add: current_def)
next
  case (stored w w' c T)
  then show ?case by (simp add: current_def)
qed

lemma run_current:
  assumes "s3_laws s3 obj" "reads_answered s3 obj" "ap_s3_client ap = Some s3" "lists_answered ap s3"
    and "(route_step (\<lambda>w w'. obj w' = obj w) ap os)\<^sup>*\<^sup>* s s'" and "current ap os obj store s"
  shows "current ap os obj store s'"
  using assms(5,6)
proof (induction rule: rtranclp_induct)
  case (step y z)
  then show ?case using step_current [OF assms(1-4)] by blast
qed simp

section \<open>Properties\<close>

lemma validate_answer:
  assumes "axum ax" and "rq_method rq = POST" and "rq_path rq = ''/config/validate''"
    and "rq_authorization rq = Some (''Bearer '' @ ap_auth_token ap)" and "rq_text rq = Inr body"
  obtains response where
    "respond ax ap os rq sv = Some (response, sv\<lparr>sv_routing := (sv_routing sv)\<lparr>rc_built_at := None\<rparr>\<rparr>)"
    and "post_config_validate (os_parse_config os) (sv_routing sv) body = (response, (sv_routing sv)\<lparr>rc_built_at := None\<rparr>)"
    and "r_status response = 200"
    and "r_body response = JsonBody (JsObj [(''ok'', JsBool True)])
      \<longleftrightarrow> (\<exists>cfg. os_parse_config os body = Inr cfg \<and> validate cfg = Inr ())"
proof -
  obtain response cache where
    v: "post_config_validate (os_parse_config os) (sv_routing sv) body = (response, cache)" by fastforce
  have r: "respond ax ap os rq sv = Some (response, sv\<lparr>sv_routing := cache\<rparr>)"
    using axum.router_protected [OF assms(1), of POST]
    by (simp add: respond_def assms(2,3,5) bearer_accepted [OF assms(4)] serve_validate_def v)
  have c: "r_status response = 200" "cache = (sv_routing sv)\<lparr>rc_built_at := None\<rparr>"
    using v by (auto simp: post_config_validate_def split: sum.splits)
  have "r_body response = JsonBody (JsObj [(''ok'', JsBool True)])
      \<longleftrightarrow> (\<exists>cfg. os_parse_config os body = Inr cfg \<and> validate cfg = Inr ())"
    using v by (auto simp: post_config_validate_def split: sum.splits)
  with that r v c show thesis by simp
qed

text \<open>C27: A configuration check makes later uploads see what is stored, when no rebuild of the routing table is in
  flight: the uploads under way have not looked at the table yet. An authorised \<open>POST /config/validate\<close> answers
  200, with \<open>ok\<close> exactly when the body parses to a configuration that validates, and leaves the store and
  Redis alone. From then on, while the store answers and its pipelines stay as they are, every upload, whatever
  the stages of others come in between, is routed by exactly the pipelines stored; and one alone is routed.\<close>

theorem validate_refreshes_routing:
  assumes "axum ax" and "s3_laws s3 obj" and "reads_answered s3 obj" and "ap_s3_client ap = Some s3"
    and "lists_answered ap s3"
    and "rq_method rq = POST" and "rq_path rq = ''/config/validate''"
    and "rq_authorization rq = Some (''Bearer '' @ ap_auth_token ap)" and "rq_text rq = Inr body"
    and "\<forall>t \<in> set T. \<exists>key. t = Checking key"
  shows "\<exists>response sv'. respond ax ap os rq sv = Some (response, sv')
    \<and> r_status response = 200 \<and> sv_store sv' = sv_store sv \<and> sv_worker sv' = sv_worker sv
    \<and> (r_body response = JsonBody (JsObj [(''ok'', JsBool True)])
         \<longleftrightarrow> (\<exists>cfg. os_parse_config os body = Inr cfg \<and> validate cfg = Inr ()))
    \<and> (\<forall>c w T' key slugs. (route_step (\<lambda>w w'. obj w' = obj w) ap os)\<^sup>*\<^sup>* (sv_routing sv', sv_store sv', T) (c, w, T')
         \<and> Routed key slugs \<in> set T' \<longrightarrow>
         set slugs = {slug. \<exists>p. (p, slug) \<in> routes (os_parse_routing os) (obj (sv_store sv)) (ap_pipelines_bucket ap)
             \<and> p \<noteq> [] \<and> starts_with key p})
    \<and> (\<forall>key. \<exists>slugs cache w'. route_on ap os (sv_routing sv', sv_store sv') key = Some (slugs, cache, w')
         \<and> obj w' = obj (sv_store sv)
         \<and> set slugs = {slug. \<exists>p. (p, slug) \<in> routes (os_parse_routing os) (obj (sv_store sv)) (ap_pipelines_bucket ap)
             \<and> p \<noteq> [] \<and> starts_with key p})"
proof -
  let ?c = "(sv_routing sv)\<lparr>rc_built_at := None\<rparr>" and ?store = "obj (sv_store sv)"
  let ?slugs = "\<lambda>key. {slug. \<exists>p. (p, slug) \<in> routes (os_parse_routing os) ?store (ap_pipelines_bucket ap)
      \<and> p \<noteq> [] \<and> starts_with key p}"
  obtain response where r: "respond ax ap os rq sv = Some (response, sv\<lparr>sv_routing := ?c\<rparr>)" "r_status response = 200"
    "r_body response = JsonBody (JsObj [(''ok'', JsBool True)])
      \<longleftrightarrow> (\<exists>cfg. os_parse_config os body = Inr cfg \<and> validate cfg = Inr ())"
    by (rule validate_answer [OF assms(1,6-9)])
  have start: "current ap os obj ?store (?c, sv_store sv, T)"
    using assms(10) by (auto simp: current_def current_task_def list_all_iff)
  have run: "set slugs = ?slugs key"
    if "(route_step (\<lambda>w w'. obj w' = obj w) ap os)\<^sup>*\<^sup>* (?c, sv_store sv, T) (c, w, T')" "Routed key slugs \<in> set T'"
    for c w T' key slugs
    using run_current [OF assms(2-5) that(1) start] that(2)
    by (force simp: current_def current_task_def list_all_iff stored_slugs_def)
  have alone: "\<exists>slugs cache w'. route_on ap os (?c, sv_store sv) key = Some (slugs, cache, w')
      \<and> obj w' = ?store \<and> set slugs = ?slugs key" for key
  proof -
    obtain entries w' where b: "build_routing (ap_s3_client ap) (os_parse_routing os) (sv_store sv) (ap_pipelines_bucket ap)
        = Some (entries, w')" "obj w' = ?store"
      "set entries = routes (os_parse_routing os) ?store (ap_pipelines_bucket ap)"
      by (rule build_current [OF assms(2-5)])
    have "\<not> cache_fresh now ?c" for now by (simp add: cache_fresh_def)
    from route_key_stale [OF this b(1)] b(2,3) show ?thesis by (simp add: route_on_def match_key_set)
  qed
  show ?thesis
    by (intro exI [of _ response] exI [of _ "sv\<lparr>sv_routing := ?c\<rparr>"] conjI)
      (use r run alone in auto)
qed

text \<open>C28: A configuration check is undone by a rebuild in flight. An upload that has read the pipelines before they
  were published, and swaps its table in after the check, makes it the table in force again, for thirty
  seconds from its swap: the upload that arrives after the check is routed by the pipelines of before,
  whatever is stored, so that a pipeline published in between misses it. The comment on the rebuild takes
  concurrent rebuilds for harmless.\<close>

theorem rebuild_undoes_check:
  assumes "build_routing (ap_s3_client ap) (os_parse_routing os) w0 (ap_pipelines_bucket ap) = Some (entries, w1)"
    and "post_config_validate (os_parse_config os) c body = (response, c1)"
  shows "\<exists>c2. rc_built_at c1 = None
    \<and> (route_step (\<lambda>_ _. True) ap os)\<^sup>*\<^sup>* (c, w0, [Building key0]) (c, w2, [Built key0 entries])
    \<and> route_step (\<lambda>_ _. True) ap os (c, w2, [Built key0 entries]) (c1, w2, [Built key0 entries])
    \<and> (route_step (\<lambda>_ _. True) ap os)\<^sup>*\<^sup>* (c1, w2, [Built key0 entries])
        (c2, w2, [Checking key, Routed key0 (match_key entries key0)])
    \<and> rc_built_at c2 = Some later
    \<and> (\<forall>now. now - later < 30000 \<longrightarrow> fresh_routes now c2 key = Some (match_key entries key))"
proof -
  let ?step = "route_step (\<lambda>_ _. True) ap os"
  let ?c2 = "swap_routing later entries c1"
  have none: "rc_built_at c1 = None"
    using assms(2) by (auto simp: post_config_validate_def split: sum.splits)
  have "?step (c, w0, [Building key0]) (c, w1, [Built key0 entries])"
    using route_step.build [of "[Building key0]" 0 key0 ap os w0 entries w1 "\<lambda>_ _. True" c] assms(1) by simp
  moreover have "?step (c, w1, [Built key0 entries]) (c, w2, [Built key0 entries])" by (rule route_step.stored) simp
  ultimately have before: "?step\<^sup>*\<^sup>* (c, w0, [Building key0]) (c, w2, [Built key0 entries])"
    by (meson converse_rtranclp_into_rtranclp r_into_rtranclp)
  have checked: "?step (c, w2, [Built key0 entries]) (c1, w2, [Built key0 entries])"
    by (rule route_step.validated [OF assms(2)])
  have "?step (c1, w2, [Built key0 entries]) (?c2, w2, [Routed key0 (match_key entries key0)])"
    using route_step.swap [of "[Built key0 entries]" 0 key0 entries "\<lambda>_ _. True" ap os c1 w2 later]
    by (simp add: swap_routing_def)
  moreover have "?step (?c2, w2, [Routed key0 (match_key entries key0)])
      (?c2, w2, [Checking key, Routed key0 (match_key entries key0)])" by (rule route_step.arrive)
  ultimately have "?step\<^sup>*\<^sup>* (c1, w2, [Built key0 entries]) (?c2, w2, [Checking key, Routed key0 (match_key entries key0)])"
    by (meson converse_rtranclp_into_rtranclp r_into_rtranclp)
  moreover have "\<forall>now. now - later < 30000 \<longrightarrow> fresh_routes now ?c2 key = Some (match_key entries key)"
    by (simp add: fresh_routes_cache cache_fresh_def swap_routing_def ROUTING_TTL_def)
  moreover have "rc_built_at ?c2 = Some later" by (simp add: swap_routing_def)
  ultimately show ?thesis using none before checked by blast
qed

section \<open>Witnesses\<close>

text \<open>A store that answers every listing, too.\<close>

definition calm_s3 :: "MemStore S3Ops" where
  "calm_s3 = steady_s3\<lparr>list_objects_v2 := (\<lambda>w b pre t. (Inr (map Some (mem_keys w b pre), None), w))\<rparr>"

lemma calm_laws: "s3_laws calm_s3 mem_obj"
proof -
  have other: "get_object calm_s3 = get_object steady_s3" "put_object calm_s3 = put_object steady_s3"
    "delete_object calm_s3 = delete_object steady_s3"
    by (simp_all add: calm_s3_def)
  have "pages calm_s3 mem_obj (mem_obj w) b pre (\<lambda>_. mem_keys w b pre)" for w b pre
    by (auto simp: pages_def calm_s3_def mem_map_filter intro: mem_keys_eq [symmetric])
  then have "list_law calm_s3 mem_obj" unfolding list_law_def using mem_keys_set mem_keys_distinct by blast
  with steady_laws show ?thesis by (simp add: s3_laws_def put_law_def delete_law_def get_law_def other)
qed

definition calm_app :: "(MemStore, Mem) AppState" where
  "calm_app = demo_app\<lparr>ap_s3_client := Some calm_s3\<rparr>"

lemma calm_answers: "reads_answered calm_s3 mem_obj" "lists_answered calm_app calm_s3"
proof -
  show "reads_answered calm_s3 mem_obj" using steady_reads by (simp add: reads_answered_def calm_s3_def)
  have "list_keys calm_s3 w b pre = Some (Inr (mem_keys w b pre), w)" for w b pre
    unfolding list_keys_def by (subst list_from.simps) (simp add: calm_s3_def mem_map_filter Let_def)
  then show "lists_answered calm_app calm_s3" by (simp add: lists_answered_def)
qed

lemma validate_refreshes_routing_witness:
  "\<exists>response sv'. respond list_axum calm_app demo_outside (demo_request ''token'') demo_server = Some (response, sv')
     \<and> (\<exists>slugs cache w'. route_on calm_app demo_outside (sv_routing sv', sv_store sv') ''raw/a.csv'' = Some (slugs, cache, w')
         \<and> set slugs = {slug. \<exists>p. (p, slug) \<in> routes (\<lambda>body. Inr [body]) (mem_obj demo_pipelines) ''b''
             \<and> p \<noteq> [] \<and> starts_with ''raw/a.csv'' p}
         \<and> (\<exists>T'. (route_step (\<lambda>w w'. mem_obj w' = mem_obj w) calm_app demo_outside)\<^sup>*\<^sup>*
              (sv_routing sv', sv_store sv', [Checking ''raw/b.csv'']) (cache, w', T') \<and> Routed ''raw/a.csv'' slugs \<in> set T'))"
proof -
  have p: "ap_s3_client calm_app = Some calm_s3" "rq_method (demo_request ''token'') = POST"
    "rq_path (demo_request ''token'') = ''/config/validate''"
    "rq_authorization (demo_request ''token'') = Some (''Bearer '' @ ap_auth_token calm_app)"
    "rq_text (demo_request ''token'') = Inr ''{}''"
    by (simp_all add: calm_app_def demo_app_def demo_request_def)
  have T: "\<forall>t \<in> set [Checking ''raw/b.csv'']. \<exists>key. t = Checking key" by simp
  from validate_refreshes_routing [OF routes.axum_axioms calm_laws calm_answers(1) p(1) calm_answers(2) p(2-5) T,
      of demo_outside demo_server]
  obtain response sv' where r: "respond list_axum calm_app demo_outside (demo_request ''token'') demo_server = Some (response, sv')"
    and a: "\<forall>key. \<exists>slugs cache w'. route_on calm_app demo_outside (sv_routing sv', sv_store sv') key = Some (slugs, cache, w')
         \<and> mem_obj w' = mem_obj (sv_store demo_server)
         \<and> set slugs = {slug. \<exists>p. (p, slug) \<in> routes (os_parse_routing demo_outside) (mem_obj (sv_store demo_server))
               (ap_pipelines_bucket calm_app) \<and> p \<noteq> [] \<and> starts_with key p}" by blast
  from a obtain slugs cache w' where s: "route_on calm_app demo_outside (sv_routing sv', sv_store sv') ''raw/a.csv'' = Some (slugs, cache, w')"
    "set slugs = {slug. \<exists>p. (p, slug) \<in> routes (\<lambda>body. Inr [body]) (mem_obj demo_pipelines) ''b''
             \<and> p \<noteq> [] \<and> starts_with ''raw/a.csv'' p}"
    by (fastforce simp: demo_outside_def demo_server_def calm_app_def demo_app_def)
  have "(route_step (\<lambda>w w'. mem_obj w' = mem_obj w) calm_app demo_outside)\<^sup>*\<^sup>*
      (sv_routing sv', sv_store sv', [Checking ''raw/b.csv'']) (cache, w', [Routed ''raw/a.csv'' slugs, Checking ''raw/b.csv''])"
    by (rule route_on_steps [OF s(1)])
  with r s show ?thesis by fastforce
qed

text \<open>A pipeline is published while a rebuild that has read an empty store is in flight.\<close>

lemma rebuild_undoes_check_witness:
  "\<exists>c2. (route_step (\<lambda>_ _. True) calm_app demo_outside)\<^sup>*\<^sup>*
        (no_cache, demo_pipelines, [Built ''raw/a.csv'' []])
        (c2, demo_pipelines, [Checking ''raw/b.csv'', Routed ''raw/a.csv'' []])
    \<and> fresh_routes 5 c2 ''raw/b.csv'' = Some []
    \<and> match_key [(''raw/'', ''demo'')] ''raw/b.csv'' = [''demo'']"
proof -
  let ?empty = "\<lparr>ms_objects = [], ms_faults = []\<rparr>"
  have b: "build_routing (ap_s3_client calm_app) (os_parse_routing demo_outside) ?empty (ap_pipelines_bucket calm_app)
      = Some ([], ?empty)"
    unfolding build_routing_def list_keys_def
    by (subst list_from.simps) (simp add: calm_app_def calm_s3_def mem_keys_def Let_def map_filter_simps)
  obtain response where v: "post_config_validate (os_parse_config demo_outside) no_cache [] = (response, no_cache)"
    by (simp add: post_config_validate_def demo_outside_def no_cache_def)
  have "match_key [(''raw/'', ''demo'')] ''raw/b.csv'' = [''demo'']" by code_simp
  moreover have "match_key [] k = []" for k by (simp add: match_key_def)
  ultimately show ?thesis
    using rebuild_undoes_check [OF b v, of "''raw/a.csv''" demo_pipelines "''raw/b.csv''" 4] by fastforce
qed

end
