(* ===== verification/Spec2Isabelle.thy ===== *)
theory Spec2Isabelle
  imports Json_Source_Proofs Evaluator_Proofs Http_Proofs Job_Whole Job_Compile Queue_Loop_Properties Queue_Job Startup
    Http_Router Http_Tests Config_Mutations Dimension_Tests Service_Tests
    Pipeline_Samples Evaluator_Tests Data_Tests Wire_Samples Queue_Lifetime
    Upload_To_Job Queue_Progress Shutdown_Proofs Routing_Machine
begin

text \<open>
  A verification development for the karet worker, the Rust service that ingests files from an
  object store, evaluates mapping expressions on them and publishes partitioned, versioned tables.

  \<^bold>\<open>The program.\<close> A job reaches the worker through a Redis stream (\<open>queue.rs\<close>): posted by the web
  application, or by the worker's own webhook (\<open>http.rs\<close>), which debounces upload events. A consumer
  loop claims the entry, takes the pipeline's lock and runs the executor (\<open>job.rs\<close>). That reads the
  configuration from Postgres (\<open>db.rs\<close>), validates it (\<open>config.rs\<close>), downloads the source files
  (\<open>s3.rs\<close>), compiles dimensions (\<open>dimension.rs\<close>) and expressions (\<open>ast.rs\<close>, \<open>evaluator.rs\<close>), builds and
  partitions each mapping's frame (\<open>pipeline.rs\<close>, \<open>json_source.rs\<close>), checks assertions
  (\<open>assertions.rs\<close>), uploads the partitions and publishes each table's manifest (\<open>manifest.rs\<close>).
  \<open>lib.rs\<close> starts it all.

  \<^bold>\<open>The theories and what they model.\<close> A definition has the name of the Rust item it models; a
  function cut into pieces has one definition for each piece.
  \<^item> Shared: \<open>Prelude\<close> (\<open>Result\<close> as a sum, panics as values, generic lemmas and collections),
    \<open>Rust_Text\<close> (integer parsing and rendering, lines, trimming, UTF-8), \<open>Rust_Float\<close> (\<open>f64\<close> as its
    bits), \<open>Float_Times\<close> (the rounded product of two of them), \<open>Percent\<close> (\<open>encode_segment\<close> of \<open>pipeline.rs\<close>, \<open>urldecode\<close> of \<open>http.rs\<close>).
  \<^item> Configuration: \<open>Config_Types\<close>, \<open>Ast\<close>, \<open>Config\<close>, with the lemmas in \<open>Config_Proofs\<close>.
  \<^item> Expressions: \<open>Dimension\<close>, \<open>Evaluator\<close>, with \<open>Dimension_Proofs\<close>, \<open>Evaluator_Proofs\<close>.
  \<^item> Data: \<open>Frames\<close> (the Polars operations as parameters, with their laws), \<open>Frames_Model\<close> (an
    instance in memory), \<open>Json_Source\<close>, \<open>Assertions\<close>, \<open>Pipeline\<close>, with \<open>Json_Source_Proofs\<close>,
    \<open>Pipeline_Proofs\<close>; \<open>Frame_Rows\<close> (what the Polars operations do to the rows of a frame, a locale),
    \<open>Pipeline_Rows\<close> (the rows through a whole mapping), \<open>Mem_Frames\<close> (typed frames in memory, with an
    evaluator of the compiled expressions), \<open>Pipeline_Samples\<close> (concrete files).
  \<^item> Storage: \<open>S3\<close> (the client as parameters, its laws, an instance in memory, and the helpers of
    \<open>s3.rs\<close>), \<open>Manifest\<close>, \<open>Manifest_Proofs\<close>, \<open>Db\<close>.
  \<^item> Execution: \<open>Job\<close> (every step of \<open>execute_job\<close> on one state \<open>'w\<close> of the outside world),
    \<open>Job_Proofs\<close>, \<open>Job_Properties\<close>, \<open>Job_Whole\<close> (the invariant of the published tables, by triples
    over the steps of a run), \<open>Job_Compile\<close> (configuration, matchers and expressions of a run).
  \<^item> HTTP: \<open>Http\<close> (every handler, the routing cache as explicit state), \<open>Http_Proofs\<close>;
    \<open>Http_Router\<close> (the router and its layer over all handlers on one state, axum's builder a locale);
    \<open>Routing_Machine\<close> (uploads that look up, rebuild and swap in the routing table beside each other).
  \<^item> Queue: \<open>Redis\<close> (the commands as parameters; a program is a state monad over round trips),
    \<open>Queue\<close> (up to \<open>handle_claimed\<close>), \<open>Queue_Loops\<close> (one pass of each loop); \<open>Redis_Laws\<close>
    (weakest preconditions and the effect of the commands on a \<open>Store\<close>), \<open>Queue_Proofs\<close>,
    \<open>Queue_Claims\<close>, \<open>Queue_Steady\<close>, \<open>Queue_Machine\<close> and \<open>Queue_Attempts\<close> (workers side by side on
    one Redis, round trip by round trip), \<open>Queue_Loop_Proofs\<close>, \<open>Queue_Sweep\<close>;
    \<open>Mem_Redis\<close> (an instance in memory), \<open>Queue_Properties\<close>, \<open>Queue_Loop_Properties\<close>;
    \<open>Queue_Job\<close> (the queue with the executor of \<open>Job\<close>), \<open>Queue_Lifetime\<close> (a job over its deliveries),
    \<open>Queue_Progress\<close> (the channel and the writer of progress updates), \<open>Upload_To_Job\<close> (the webhook and
    the scheduler together).
  \<^item> The process: \<open>Startup\<close> (environment and settings), \<open>Shutdown\<close> (\<open>run\<close> of \<open>lib.rs\<close> as a step relation of
    the server, the signals and the loops, up to the exit), \<open>Shutdown_Proofs\<close>.
  \<^item> JSON: \<open>Wire\<close> (members, numbers and text of \<open>serde_json\<close> documents), \<open>Ast_Wire\<close>, \<open>Config_Wire\<close>,
    \<open>Message_Wire\<close> (the derived forms of the types of \<open>ast.rs\<close>, \<open>config.rs\<close>, \<open>queue.rs\<close>, \<open>manifest.rs\<close>
    and \<open>http.rs\<close>, written and read), \<open>Wire_Samples\<close> (a text in memory, the tests of the forms);
    \<open>Testgen\<close> (the generators of expression trees).
  \<^item> The repository's own tests, each a boolean over the model that holds of it: \<open>Config_Tests\<close>,
    \<open>Config_Mutations\<close> (the property test, for every value of its generator), \<open>Dimension_Tests\<close>,
    \<open>Pipeline_Tests\<close>, \<open>Evaluator_Tests\<close>, \<open>Data_Tests\<close>, \<open>Http_Tests\<close>, \<open>Service_Tests\<close>.

  \<^bold>\<open>Parameters and laws.\<close> Services and third-party code are records of functions: \<open>S3Ops\<close>, \<open>PgOps\<close>,
  \<open>RedisOps\<close>, \<open>FrameOps\<close>, \<open>JsonOps\<close>, the JSON conversions. What the worker relies on is stated as
  a predicate or a locale (\<open>s3_laws\<close>, \<open>redis_store\<close> and those built on it), and each is met by an instance
  in memory, on which the witnesses run. The laws of the store say what each call does to the
  objects; calls may fail at any time. The laws of Redis say what each command does to the data; a
  round trip may be refused, or executed with its reply lost, and an append may trim the oldest entries
  of a stream beyond the length the worker asks for. \<open>quiet_redis\<close> assumes that nobody else
  acts between two commands of one handler; \<open>steady_queue\<close> adds that round trips are answered. In
  \<open>Queue_Machine\<close> several workers interleave by single round trips, with failing calls, crashes and
  expiring locks in between: the count of an attempt, its lock and the giving back of the count are steps of
  their own, and \<open>Queue_Attempts\<close> shows that a claim is made of them. In \<open>Routing_Machine\<close> the look at the
  routing table, its rebuild and its swap are, a rebuild's own reads being one step.

  \<^bold>\<open>What is shown.\<close>
  \<^item> A configuration is accepted exactly when it meets a declarative specification, and in a run
    that got so far all of its columns compile; a key matches at most one source.
  \<^item> Lookups return the row of highest priority or the one exact match; compiled expressions read
    exactly the columns and lookups of their source and do not panic.
  \<^item> Ingestion is the union of the files that ingest, a file's rows are the mapped and filtered rows of
    its source, and a mapping's partitions hold every kept row exactly once, under the path of its
    keys; partitions get different keys; encoded path segments decode to the value.
  \<^item> Publishing switches readers at one object; vacuum spares every retained version; a run stays
    inside its prefix, always returns, publishes nothing when it fails, keeps the files of
    mappings that fail, and leaves every pointer on a manifest that is there with all its files, if table
    ids have no slash.
  \<^item> What is written as JSON reads back as itself; the webhook starts a job for a key exactly when a run
    of the stored configuration takes it for a source, though each reads its own view of the document.
  \<^item> The prefix gate and both token checks are exact; the webhook and the whole router fail
    closed; routing is exact, and fresh after a configuration check when no rebuild of the table is
    in flight. An answer to the webhook lists exactly the pipelines it recorded.
  \<^item> Handling an entry, the run included, returns and never loses the entry; an attempt that runs holds
    the lock; at most one running attempt of a pipeline holds it, while the count of attempts answers
    and claims of one job do not overlap; a fenced-out attempt writes nothing, unless it could not read its
    configuration. While the services answer, claiming, settling and the whole handling refine a small
    specification on the message's ticket, a job whose deliveries find the lock free ends within its limit
    of attempts, one more if it can be cancelled, an upload becomes a job, and a debounced batch fires on
    time and once. The mover loses no message but what Redis trims beyond 4096 entries, the sweep marks only
    orphans, the backoff is bounded; the live hash shows the progress in the order it was reported, less
    the updates whose write failed.
  \<^item> The process exits only when it was told to, every loop has returned and no job runs; once the flag is
    set each of its runs ends with the exit, unless the reclaimer finds idle entries again and again.
  \<^item> Some theorems state what goes wrong: a failed pointer read loses the published version, a failed
    routing table is cached, a rebuild in flight undoes a configuration check, a popped upload batch can be
    lost, overlapping claims or a failed count let two attempts share a fence, a mapping of constants
    yields one row per file, entries are still claimed after the signal to stop.

  \<^bold>\<open>Bounds and termination.\<close> Recursion over data is structural or has a measure. The paging loop of a
  listing, the reclaimer's inner loop and the scan of the live keys go on as long as the service
  answers so: they are \<open>partial_function\<close>s, \<open>None\<close> when they never end; that a listing and a run
  return is proved from the law that listings end, that the sweep returns from the law that scans do; the
  inner loop of the reclaimer may not return, and the process is modelled past it claim by claim. Machine integers keep their width where it
  matters (\<open>u64\<close> versions and byte counts, \<open>i64\<close> times and saturation, \<open>i32\<close> counters of a row, \<open>u32\<close>
  attempts).

  \<^bold>\<open>Not modelled.\<close> Log lines; the length of waits and timers; panics of a loop's task; the construction of
  clients, connection pools and the log subscriber; axum's extraction; the text of JSON and the positional
  array form serde reads as well; the evaluation of Polars expressions beyond the laws on rows; key expiry inside one
  handler, except as lost locks in \<open>Queue_Machine\<close>; how likely
  the test generators draw a value.
\<close>

end
